(* ===== verification/PyText.thy ===== *)
theory PyText
  imports Prelude
begin

text \<open>
  Python strings. A \<open>str\<close> is a sequence of Unicode code points, here an \<open>int list\<close>;
  \<open>u ''abc''\<close> is the ASCII literal. The \<open>str\<close> methods the program calls are defined
  for all code points. The case mappings and the character classes are those of Unicode on
  U+0000 to U+00FF and the identity, or false, above (white space is complete): text outside
  that range keeps its code points but is treated as caseless and non-alphanumeric.
\<close>

type_synonym pystr = "int list"

definition u :: "string \<Rightarrow> pystr" where
  "u s = map of_char s"

lemma u_Nil [simp]: "u [] = []"
  by (simp add: u_def)

lemma u_Cons: "u (c # cs) = of_char c # u cs"
  by (simp add: u_def)

lemma u_append: "u (a @ b) = u a @ u b"
  by (simp add: u_def)

lemma length_u [simp]: "length (u s) = length s"
  by (simp add: u_def)

lemma u_eq_iff [simp]: "u a = u b \<longleftrightarrow> a = b"
  by (simp add: u_def inj_map_eq_map inj_on_def)

lemma u_eq_Nil_iff [simp]: "u a = [] \<longleftrightarrow> a = []" "[] = u a \<longleftrightarrow> a = []"
  by (auto simp: u_def)

subsection \<open>Character classes\<close>

definition is_space :: "int \<Rightarrow> bool" where
  "is_space c \<longleftrightarrow> 9 \<le> c \<and> c \<le> 13 \<or> 28 \<le> c \<and> c \<le> 32 \<or> c = 133 \<or> c = 160 \<or> c = 5760
     \<or> 8192 \<le> c \<and> c \<le> 8202 \<or> c = 8232 \<or> c = 8233 \<or> c = 8239 \<or> c = 8287 \<or> c = 12288"

definition is_upper_ascii :: "int \<Rightarrow> bool" where
  "is_upper_ascii c \<longleftrightarrow> 65 \<le> c \<and> c \<le> 90"

definition is_lower_ascii :: "int \<Rightarrow> bool" where
  "is_lower_ascii c \<longleftrightarrow> 97 \<le> c \<and> c \<le> 122"

definition is_decimal :: "int \<Rightarrow> bool" where
  "is_decimal c \<longleftrightarrow> 48 \<le> c \<and> c \<le> 57"

text \<open>\<open>str.isdigit\<close> also accepts the superscript digits.\<close>

definition is_digit :: "int \<Rightarrow> bool" where
  "is_digit c \<longleftrightarrow> is_decimal c \<or> c = 178 \<or> c = 179 \<or> c = 185"

definition is_alpha :: "int \<Rightarrow> bool" where
  "is_alpha c \<longleftrightarrow> is_upper_ascii c \<or> is_lower_ascii c \<or> c = 170 \<or> c = 181 \<or> c = 186
     \<or> 192 \<le> c \<and> c \<le> 214 \<or> 216 \<le> c \<and> c \<le> 246 \<or> 248 \<le> c \<and> c \<le> 255"

text \<open>\<open>str.isalnum\<close>: letters, digits and the vulgar fractions.\<close>

definition is_alnum :: "int \<Rightarrow> bool" where
  "is_alnum c \<longleftrightarrow> is_alpha c \<or> is_digit c \<or> 188 \<le> c \<and> c \<le> 190"

definition is_word :: "int \<Rightarrow> bool" where
  "is_word c \<longleftrightarrow> is_alnum c \<or> c = 95"

lemmas char_class_defs = is_space_def is_upper_ascii_def is_lower_ascii_def is_decimal_def
  is_digit_def is_alpha_def is_alnum_def is_word_def

subsection \<open>Case mappings\<close>

definition lower1 :: "int \<Rightarrow> int" where
  "lower1 c = (if is_upper_ascii c \<or> 192 \<le> c \<and> c \<le> 222 \<and> c \<noteq> 215 then c + 32 else c)"

definition py_lower :: "pystr \<Rightarrow> pystr" where
  "py_lower s = map lower1 s"

text \<open>
  \<open>casefold\<close> differs from \<open>lower\<close> on the sharp s and the micro sign. The characters above U+00FF
  whose folding has an ASCII letter are included.
\<close>

definition casefold_special :: "(int \<times> pystr) list" where
  "casefold_special =
     [(223, [115, 115]), (181, [956]), (304, [105, 775]), (329, [700, 110]), (383, [115]),
      (496, [106, 780]), (7830, [104, 817]), (7831, [116, 776]), (7832, [119, 778]), (7833, [121, 778]),
      (7834, [97, 702]), (7838, [115, 115]), (8490, [107]), (64256, [102, 102]), (64257, [102, 105]),
      (64258, [102, 108]), (64259, [102, 102, 105]), (64260, [102, 102, 108]), (64261, [115, 116]),
      (64262, [115, 116])]"

definition casefold1 :: "int \<Rightarrow> pystr" where
  "casefold1 c = (case map_of casefold_special c of Some w \<Rightarrow> w | None \<Rightarrow> [lower1 c])"

definition py_casefold :: "pystr \<Rightarrow> pystr" where
  "py_casefold s = concat (map casefold1 s)"

definition upper1 :: "int \<Rightarrow> pystr" where
  "upper1 c =
     (if c = 223 then [83, 83] else if c = 181 then [924] else if c = 255 then [376]
      else if is_lower_ascii c \<or> 224 \<le> c \<and> c \<le> 254 \<and> c \<noteq> 247 then [c - 32] else [c])"

definition py_upper :: "pystr \<Rightarrow> pystr" where
  "py_upper s = concat (map upper1 s)"

lemma py_lower_simps [simp]:
  "py_lower [] = []" "py_lower (c # s) = lower1 c # py_lower s"
  "length (py_lower s) = length s" "py_lower (s @ t) = py_lower s @ py_lower t"
  by (simp_all add: py_lower_def)

lemma py_casefold_simps [simp]:
  "py_casefold [] = []" "py_casefold (c # s) = casefold1 c @ py_casefold s"
  "py_casefold (s @ t) = py_casefold s @ py_casefold t"
  by (simp_all add: py_casefold_def)

lemma py_upper_simps [simp]:
  "py_upper [] = []" "py_upper (c # s) = upper1 c @ py_upper s"
  by (simp_all add: py_upper_def)

lemma lower1_idem [simp]: "lower1 (lower1 c) = lower1 c"
  by (auto simp: lower1_def is_upper_ascii_def)

lemma py_lower_idem [simp]: "py_lower (py_lower s) = py_lower s"
  by (simp add: py_lower_def)

lemma is_space_lower1 [simp]: "is_space (lower1 c) = is_space c"
  by (auto simp: lower1_def is_space_def is_upper_ascii_def)

subsection \<open>Stripping and splitting\<close>

definition py_lstrip :: "pystr \<Rightarrow> pystr" where
  "py_lstrip s = dropWhile is_space s"

definition py_rstrip :: "pystr \<Rightarrow> pystr" where
  "py_rstrip s = rev (dropWhile is_space (rev s))"

definition py_strip :: "pystr \<Rightarrow> pystr" where
  "py_strip s = py_rstrip (py_lstrip s)"

text \<open>\<open>s.split()\<close>: the maximal runs of characters that are not white space.\<close>

function py_split :: "pystr \<Rightarrow> pystr list" where
  "py_split s =
     (case dropWhile is_space s of [] \<Rightarrow> []
      | c # t \<Rightarrow> (c # takeWhile (\<lambda>x. \<not> is_space x) t)
                 # py_split (dropWhile (\<lambda>x. \<not> is_space x) t))"
  by pat_completeness auto
termination
proof (relation "measure length", simp, goal_cases)
  case (1 s c t)
  have "length (dropWhile (\<lambda>x. \<not> is_space x) t) \<le> length t"
    by (rule length_dropWhile_le)
  also have "\<dots> < length (dropWhile is_space s)" using 1 by simp
  also have "\<dots> \<le> length s" by (rule length_dropWhile_le)
  finally show ?case by simp
qed

declare py_split.simps [simp del]

text \<open>\<open>s.split(c)\<close> for a one-character separator keeps empty pieces.\<close>

fun py_split_on :: "int \<Rightarrow> pystr \<Rightarrow> pystr list" where
  "py_split_on d [] = [[]]"
| "py_split_on d (c # s) =
     (if c = d then [] # py_split_on d s
      else (case py_split_on d s of [] \<Rightarrow> [[c]] | w # ws \<Rightarrow> (c # w) # ws))"

fun py_join :: "pystr \<Rightarrow> pystr list \<Rightarrow> pystr" where
  "py_join sep [] = []"
| "py_join sep [w] = w"
| "py_join sep (w # x # ws) = w @ sep @ py_join sep (x # ws)"

lemma py_split_on_nonempty [simp]: "py_split_on d s \<noteq> []"
  by (induction d s rule: py_split_on.induct) (auto split: list.splits)

lemma py_join_split_on: "py_join [d] (py_split_on d s) = s"
proof (induction d s rule: py_split_on.induct)
  case (1 d)
  then show ?case by simp
next
  case (2 d c s)
  obtain w ws where w: "py_split_on d s = w # ws"
    using py_split_on_nonempty [of d s] by (cases "py_split_on d s") auto
  show ?case
    using 2 w by (cases ws) auto
qed

lemma py_lstrip_length: "length (py_lstrip s) \<le> length s"
  by (simp add: py_lstrip_def length_dropWhile_le)

lemma py_rstrip_length: "length (py_rstrip s) \<le> length s"
  by (simp add: py_rstrip_def) (metis length_dropWhile_le length_rev)

lemma py_strip_Nil [simp]: "py_strip [] = []"
  by (simp add: py_strip_def py_lstrip_def py_rstrip_def)

lemma dropWhile_id: "xs = [] \<or> \<not> P (hd xs) \<Longrightarrow> dropWhile P xs = xs"
  by (cases xs) auto

lemma py_rstrip_append_nonspace:
  assumes "x \<noteq> []" "\<not> is_space (last x)"
  shows "py_rstrip (x @ s) = x @ py_rstrip s"
proof -
  have "dropWhile is_space (rev x) = rev x"
    using assms by (intro dropWhile_id) (simp add: hd_rev)
  then show ?thesis
    by (cases "dropWhile is_space (rev s) = []")
       (auto simp: py_rstrip_def dropWhile_append dropWhile_eq_Nil_conv)
qed

lemma py_strip_append_nonspace:
  assumes "x \<noteq> []" "\<not> is_space (hd x)" "\<not> is_space (last x)"
  shows "py_strip (x @ s) = x @ py_rstrip s"
proof -
  have "py_lstrip (x @ s) = x @ s"
    using assms by (simp add: py_lstrip_def dropWhile_id)
  then show ?thesis
    using assms by (simp add: py_strip_def py_rstrip_append_nonspace)
qed

subsection \<open>Prefixes and substrings\<close>

fun py_startswith :: "pystr \<Rightarrow> pystr \<Rightarrow> bool" where
  "py_startswith s [] = True"
| "py_startswith [] (p # ps) = False"
| "py_startswith (c # s) (p # ps) = (c = p \<and> py_startswith s ps)"

definition py_endswith :: "pystr \<Rightarrow> pystr \<Rightarrow> bool" where
  "py_endswith s p = py_startswith (rev s) (rev p)"

text \<open>\<open>p in s\<close> for strings: contiguous substring.\<close>

fun py_in :: "pystr \<Rightarrow> pystr \<Rightarrow> bool" where
  "py_in p [] = (p = [])"
| "py_in p (c # s) = (py_startswith (c # s) p \<or> py_in p s)"

lemma py_startswith_iff: "py_startswith s p \<longleftrightarrow> (\<exists>t. s = p @ t)"
  by (induction s p rule: py_startswith.induct) auto

lemma py_startswith_refl [simp]: "py_startswith s s"
  by (simp add: py_startswith_iff)

lemma py_endswith_iff: "py_endswith s p \<longleftrightarrow> (\<exists>t. s = t @ p)"
proof
  assume "py_endswith s p"
  then obtain t where "rev s = rev p @ t"
    by (auto simp: py_endswith_def py_startswith_iff)
  then have "s = rev t @ p" by (metis rev_append rev_rev_ident)
  then show "\<exists>t. s = t @ p" by blast
next
  assume "\<exists>t. s = t @ p"
  then show "py_endswith s p" by (auto simp: py_endswith_def py_startswith_iff)
qed

lemma py_in_iff: "py_in p s \<longleftrightarrow> (\<exists>a b. s = a @ p @ b)"
proof (induction p s rule: py_in.induct)
  case (1 p)
  then show ?case by auto
next
  case (2 p c s)
  have "(\<exists>a b. c # s = a @ p @ b) \<longleftrightarrow> (\<exists>b. c # s = p @ b) \<or> (\<exists>a b. s = a @ p @ b)"
    by (metis append_Cons append_Nil list.inject neq_Nil_conv)
  then show ?case using 2 by (auto simp: py_startswith_iff)
qed

lemma py_in_refl [simp]: "py_in s s"
  by (metis append_Nil append_Nil2 py_in_iff)

lemma py_in_length: "py_in p s \<Longrightarrow> length p \<le> length s"
  by (auto simp: py_in_iff)

end
