(* ===== verification/PyVal.thy ===== *)
theory PyVal
  imports PyText
begin

text \<open>
  Dynamically typed Python values, as the program reads them from JSON, tool calls and plain
  dictionaries. A dictionary is an association list in insertion order with string keys. A
  float carries its numeric value and the text \<open>repr\<close> gives for it.
\<close>

datatype pyfloat = Finite rat | PosInf | NegInf | NaN

datatype pyval =
    PNone
  | PBool bool
  | PInt int
  | PFloat pyfloat pystr
  | PStr pystr
  | PList "pyval list"
  | PDict "(pystr \<times> pyval) list"

type_synonym pydict = "(pystr \<times> pyval) list"

subsection \<open>Dictionaries\<close>

abbreviation dict_get :: "pydict \<Rightarrow> pystr \<Rightarrow> pyval option" where
  "dict_get d k \<equiv> map_of d k"

text \<open>\<open>d.get(k)\<close> answers \<open>None\<close> for a missing key, \<open>d.get(k, x)\<close> answers \<open>x\<close>.\<close>

definition get_or :: "pydict \<Rightarrow> pystr \<Rightarrow> pyval \<Rightarrow> pyval" where
  "get_or d k x = (case map_of d k of None \<Rightarrow> x | Some v \<Rightarrow> v)"

definition get_none :: "pydict \<Rightarrow> pystr \<Rightarrow> pyval" where
  "get_none d k = get_or d k PNone"

text \<open>\<open>d[k] = v\<close> replaces in place or appends.\<close>

fun dict_set :: "('k \<times> 'v) list \<Rightarrow> 'k \<Rightarrow> 'v \<Rightarrow> ('k \<times> 'v) list" where
  "dict_set [] k v = [(k, v)]"
| "dict_set ((k', v') # d) k v = (if k' = k then (k, v) # d else (k', v') # dict_set d k v)"

definition dict_pop :: "('k \<times> 'v) list \<Rightarrow> 'k \<Rightarrow> ('k \<times> 'v) list" where
  "dict_pop d k = filter (\<lambda>p. fst p \<noteq> k) d"

definition dict_update :: "('k \<times> 'v) list \<Rightarrow> ('k \<times> 'v) list \<Rightarrow> ('k \<times> 'v) list" where
  "dict_update d e = foldl (\<lambda>acc p. dict_set acc (fst p) (snd p)) d e"

lemma map_of_dict_set [simp]: "map_of (dict_set d k v) = (map_of d)(k \<mapsto> v)"
  by (induction d k v rule: dict_set.induct) (auto simp: fun_eq_iff)

lemma dom_keys_dict_set [simp]: "fst ` set (dict_set d k v) = insert k (fst ` set d)"
  by (induction d k v rule: dict_set.induct) auto

lemma distinct_dict_set [simp]: "distinct (map fst d) \<Longrightarrow> distinct (map fst (dict_set d k v))"
proof (induction d k v rule: dict_set.induct)
  case (1 k v)
  then show ?case by simp
next
  case (2 k' v' d k v)
  then show ?case
    using dom_keys_dict_set [of d k v] by (auto simp del: dom_keys_dict_set)
qed

lemma map_of_dict_pop [simp]: "map_of (dict_pop d k) = (map_of d)(k := None)"
  by (induction d) (auto simp: dict_pop_def fun_eq_iff)

lemma distinct_dict_pop [simp]: "distinct (map fst d) \<Longrightarrow> distinct (map fst (dict_pop d k))"
  by (induction d) (auto simp: dict_pop_def)

subsection \<open>Truth and \<open>str\<close>\<close>

fun py_truthy :: "pyval \<Rightarrow> bool" where
  "py_truthy PNone = False"
| "py_truthy (PBool b) = b"
| "py_truthy (PInt n) = (n \<noteq> 0)"
| "py_truthy (PFloat f _) = (f \<noteq> Finite 0)"
| "py_truthy (PStr s) = (s \<noteq> [])"
| "py_truthy (PList xs) = (xs \<noteq> [])"
| "py_truthy (PDict d) = (d \<noteq> [])"

fun nat_digits :: "nat \<Rightarrow> pystr" where
  "nat_digits n =
     (if n < 10 then [48 + int n] else nat_digits (n div 10) @ [48 + int (n mod 10)])"

declare nat_digits.simps [simp del]

definition int_str :: "int \<Rightarrow> pystr" where
  "int_str n = (if n < 0 then u ''-'' @ nat_digits (nat (- n)) else nat_digits (nat n))"

definition hex_digit :: "int \<Rightarrow> int" where
  "hex_digit d = (if d < 10 then 48 + d else 87 + d)"

text \<open>
  \<open>repr\<close> of a string: the quote is the double one only when the text has a single one and
  no double one; backslash, the quote and the non-printing characters up to U+00FF are escaped.
\<close>

definition repr_char :: "int \<Rightarrow> int \<Rightarrow> pystr" where
  "repr_char q c =
     (if c = 92 \<or> c = q then [92, c]
      else if c = 9 then [92, 116]
      else if c = 10 then [92, 110]
      else if c = 13 then [92, 114]
      else if c < 32 \<or> 127 \<le> c \<and> c \<le> 160 \<or> c = 173
        then [92, 120, hex_digit (c div 16), hex_digit (c mod 16)]
      else [c])"

definition repr_str :: "pystr \<Rightarrow> pystr" where
  "repr_str s =
     (let q = (if 39 \<in> set s \<and> 34 \<notin> set s then 34 else 39)
      in q # concat (map (repr_char q) s) @ [q])"

fun py_repr :: "pyval \<Rightarrow> pystr" where
  "py_repr PNone = u ''None''"
| "py_repr (PBool b) = (if b then u ''True'' else u ''False'')"
| "py_repr (PInt n) = int_str n"
| "py_repr (PFloat _ t) = t"
| "py_repr (PStr s) = repr_str s"
| "py_repr (PList xs) = u ''['' @ py_join (u '', '') (map py_repr xs) @ u '']''"
| "py_repr (PDict d) =
     u ''{'' @ py_join (u '', '') (map (\<lambda>p. repr_str (fst p) @ u '': '' @ py_repr (snd p)) d) @ u ''}''"

fun py_str :: "pyval \<Rightarrow> pystr" where
  "py_str (PStr s) = s"
| "py_str v = py_repr v"

text \<open>\<open>str(v or "")\<close>.\<close>

definition str_or_empty :: "pyval \<Rightarrow> pystr" where
  "str_or_empty v = (if py_truthy v then py_str v else [])"

subsection \<open>Type tests\<close>

fun is_PStr :: "pyval \<Rightarrow> bool" where
  "is_PStr (PStr _) = True"
| "is_PStr _ = False"

fun is_PList :: "pyval \<Rightarrow> bool" where
  "is_PList (PList _) = True"
| "is_PList _ = False"

fun the_PStr :: "pyval \<Rightarrow> pystr" where
  "the_PStr (PStr s) = s"
| "the_PStr _ = []"

fun the_PList :: "pyval \<Rightarrow> pyval list" where
  "the_PList (PList xs) = xs"
| "the_PList _ = []"

lemma is_PStr_iff: "is_PStr v \<longleftrightarrow> (\<exists>s. v = PStr s)"
  by (cases v) auto

lemma is_PList_iff: "is_PList v \<longleftrightarrow> (\<exists>xs. v = PList xs)"
  by (cases v) auto

lemma size_get_or [simp]: "map_of d k = Some v \<Longrightarrow> size v < Suc (size_list (size_prod (\<lambda>_. 0) size) d)"
  by (induction d) (auto split: if_splits)

end
