(* ===== verification/Models.thy ===== *)
theory Models
  imports PyVal
begin

text \<open>
  The data contracts of \<open>core/models.py\<close>: the literal types as datatypes, the pydantic models as
  records, the operator's discriminated union of actions as a datatype with one constructor per
  \<open>type\<close> tag. Dictionaries with free content (\<open>state_assessment\<close>, \<open>postconditions\<close>, locators)
  stay dynamic values.
\<close>

subsection \<open>Literal types\<close>

datatype risk_level = Low | Medium | High

datatype risk_category =
    Navigation | Text_entry | Read_only_inspection | Local_file_edit
  | Terminal_read_only | Terminal_mutating
  | Communication_draft | Communication_send
  | Credential_entry | Sensitive_data_view | Sensitive_data_transmit
  | Account_or_permission_change | Software_installation | System_setting_change
  | Power_or_firmware | Disk_or_partition | Financial_or_purchase | Legal_or_consent
  | Unknown_category

datatype ui_mode =
    M_unknown | M_windows_desktop | M_windows_start_search | M_windows_update_modal
  | M_system_notification | M_vscode_editor | M_vscode_quick_open | M_vscode_terminal
  | M_terminal_readline | M_terminal_pager | M_browser_page | M_browser_address_bar
  | M_browser_form | M_outlook_inbox | M_outlook_compose | M_teams_chat | M_teams_compose
  | M_credential_prompt | M_captcha_or_human_verification | M_installer_disk_selection
  | M_bios_uefi

datatype element_kind =
    K_button | K_input | K_editor | K_terminal_prompt | K_menu_item | K_tab | K_toast | K_modal
  | K_notification | K_close_button | K_send_button | K_text | K_unknown

datatype session_status =
    S_running | S_needs_approval | S_human_takeover | S_blocked | S_failed | S_done

datatype verification_status =
    Verified_exact | Verified_safe_normalized | Verified_with_warnings
  | Unverified_ambiguous | Unverified_whitespace | Unverified_wrong_region | Unverified_truncated
  | Failed_symbol_mismatch | Failed_case_mismatch | Failed_keyboard_layout | Failed_focus_lost
  | Failed_stale_frame | Blocked_by_policy | Needs_human

text \<open>\<open>VERIFIED_STATUSES\<close>: only these mean that typed text was verified.\<close>

definition verified_statuses :: "verification_status list" where
  "verified_statuses = [Verified_exact, Verified_safe_normalized, Verified_with_warnings]"

definition verification_status_name :: "verification_status \<Rightarrow> string" where
  "verification_status_name s = (case s of
       Verified_exact \<Rightarrow> ''verified_exact''
     | Verified_safe_normalized \<Rightarrow> ''verified_safe_normalized''
     | Verified_with_warnings \<Rightarrow> ''verified_with_warnings''
     | Unverified_ambiguous \<Rightarrow> ''unverified_ambiguous''
     | Unverified_whitespace \<Rightarrow> ''unverified_whitespace''
     | Unverified_wrong_region \<Rightarrow> ''unverified_wrong_region''
     | Unverified_truncated \<Rightarrow> ''unverified_truncated''
     | Failed_symbol_mismatch \<Rightarrow> ''failed_symbol_mismatch''
     | Failed_case_mismatch \<Rightarrow> ''failed_case_mismatch''
     | Failed_keyboard_layout \<Rightarrow> ''failed_keyboard_layout''
     | Failed_focus_lost \<Rightarrow> ''failed_focus_lost''
     | Failed_stale_frame \<Rightarrow> ''failed_stale_frame''
     | Blocked_by_policy \<Rightarrow> ''blocked_by_policy''
     | Needs_human \<Rightarrow> ''needs_human'')"

definition mode_name :: "ui_mode \<Rightarrow> string" where
  "mode_name m = (case m of
       M_unknown \<Rightarrow> ''unknown''
     | M_windows_desktop \<Rightarrow> ''windows.desktop''
     | M_windows_start_search \<Rightarrow> ''windows.start_search''
     | M_windows_update_modal \<Rightarrow> ''windows.update_modal''
     | M_system_notification \<Rightarrow> ''system.notification''
     | M_vscode_editor \<Rightarrow> ''vscode.editor''
     | M_vscode_quick_open \<Rightarrow> ''vscode.quick_open''
     | M_vscode_terminal \<Rightarrow> ''vscode.terminal''
     | M_terminal_readline \<Rightarrow> ''terminal.readline''
     | M_terminal_pager \<Rightarrow> ''terminal.pager''
     | M_browser_page \<Rightarrow> ''browser.page''
     | M_browser_address_bar \<Rightarrow> ''browser.address_bar''
     | M_browser_form \<Rightarrow> ''browser.form''
     | M_outlook_inbox \<Rightarrow> ''outlook.inbox''
     | M_outlook_compose \<Rightarrow> ''outlook.compose''
     | M_teams_chat \<Rightarrow> ''teams.chat''
     | M_teams_compose \<Rightarrow> ''teams.compose''
     | M_credential_prompt \<Rightarrow> ''credential_prompt''
     | M_captcha_or_human_verification \<Rightarrow> ''captcha_or_human_verification''
     | M_installer_disk_selection \<Rightarrow> ''installer.disk_selection''
     | M_bios_uefi \<Rightarrow> ''bios.uefi'')"

lemma mode_name_inj: "mode_name m = mode_name n \<longleftrightarrow> m = n"
  by (cases m; cases n; simp add: mode_name_def)

instantiation risk_level :: linorder
begin

definition level_rank :: "risk_level \<Rightarrow> nat" where
  "level_rank l = (case l of Low \<Rightarrow> 0 | Medium \<Rightarrow> 1 | High \<Rightarrow> 2)"

definition less_eq_risk_level :: "risk_level \<Rightarrow> risk_level \<Rightarrow> bool" where
  "less_eq_risk_level a b = (level_rank a \<le> level_rank b)"

definition less_risk_level :: "risk_level \<Rightarrow> risk_level \<Rightarrow> bool" where
  "less_risk_level a b = (level_rank a < level_rank b)"

instance
proof
  fix a b c :: risk_level
  show "(a < b) = (a \<le> b \<and> \<not> b \<le> a)"
    by (auto simp: less_risk_level_def less_eq_risk_level_def)
  show "a \<le> a" by (simp add: less_eq_risk_level_def)
  show "a \<le> b \<Longrightarrow> b \<le> c \<Longrightarrow> a \<le> c" by (simp add: less_eq_risk_level_def)
  show "a \<le> b \<Longrightarrow> b \<le> a \<Longrightarrow> a = b"
    by (cases a; cases b; simp add: less_eq_risk_level_def level_rank_def)
  show "a \<le> b \<or> b \<le> a" by (auto simp: less_eq_risk_level_def)
qed

end

subsection \<open>Geometry\<close>

record bbox =
  box_x :: int
  box_y :: int
  box_w :: int
  box_h :: int

definition bbox_center :: "bbox \<Rightarrow> int \<times> int" where
  "bbox_center b = (box_x b + box_w b div 2, box_y b + box_h b div 2)"

definition bbox_area :: "bbox \<Rightarrow> int" where
  "bbox_area b = max 0 (box_w b) * max 0 (box_h b)"

record region =
  rg_x :: rat
  rg_y :: rat
  rg_width :: rat
  rg_height :: rat

subsection \<open>Keyboard and frames\<close>

datatype kb_layout = Kb_us | Kb_uk | Kb_unknown

record keyboard_state =
  kb_layout_of :: kb_layout
  kb_caps_lock :: "bool option"
  kb_num_lock :: "bool option"
  kb_scroll_lock :: "bool option"
  kb_online :: "bool option"

record frame_record =
  fr_frame_id :: int
  fr_world_version :: int
  fr_image_path :: pystr
  fr_image_sha256 :: pystr
  fr_screen_hash :: pystr
  fr_width :: int
  fr_height :: int
  fr_keyboard_state :: keyboard_state
  fr_age_ms :: int

subsection \<open>Vision evidence\<close>

record visual_element =
  el_id :: pystr
  el_frame_id :: int
  el_world_version :: int
  el_bbox :: bbox
  el_kind :: element_kind
  el_text :: "pystr option"
  el_caption :: "pystr option"
  el_app_hint :: "pystr option"

record element_map =
  em_frame_id :: int
  em_world_version :: int
  em_elements :: "visual_element list"
  em_ocr_text :: pystr

text \<open>The first element with the id.\<close>

definition em_by_id :: "element_map \<Rightarrow> pystr \<Rightarrow> visual_element option" where
  "em_by_id em i = List.find (\<lambda>e. el_id e = i) (em_elements em)"

lemma em_by_id_SomeD:
  "em_by_id em i = Some e \<Longrightarrow> e \<in> set (em_elements em) \<and> el_id e = i"
  by (auto simp: em_by_id_def find_Some_iff)

lemma em_by_id_None_iff:
  "em_by_id em i = None \<longleftrightarrow> (\<forall>e \<in> set (em_elements em). el_id e \<noteq> i)"
  by (auto simp: em_by_id_def find_None_iff)

subsection \<open>Operator decisions\<close>

record risk_assessment =
  ra_level :: risk_level
  ra_category :: risk_category
  ra_requires_human :: bool
  ra_reason :: pystr

datatype scroll_direction = Scroll_up | Scroll_down | Scroll_left | Scroll_right

datatype action =
    Keypress "pystr list"
  | TypeText pystr
  | ClickElement "pystr option" "pydict option" pystr
  | Scroll scroll_direction int
  | Wait int
  | WaitForMode pystr int

datatype action_type =
    T_keypress | T_type_text | T_click_element | T_scroll | T_wait | T_wait_for_mode

fun action_type_of :: "action \<Rightarrow> action_type" where
  "action_type_of (Keypress _) = T_keypress"
| "action_type_of (TypeText _) = T_type_text"
| "action_type_of (ClickElement _ _ _) = T_click_element"
| "action_type_of (Scroll _ _) = T_scroll"
| "action_type_of (Wait _) = T_wait"
| "action_type_of (WaitForMode _ _) = T_wait_for_mode"

text \<open>The field bounds pydantic enforces.\<close>

fun action_valid :: "action \<Rightarrow> bool" where
  "action_valid (Scroll _ amount) = (1 \<le> amount \<and> amount \<le> 50)"
| "action_valid (Wait ms) = (50 \<le> ms \<and> ms \<le> 5000)"
| "action_valid (WaitForMode _ ms) = (100 \<le> ms \<and> ms \<le> 10000)"
| "action_valid _ = True"

record operator_decision =
  dec_frame_id :: int
  dec_world_version :: int
  dec_intent :: pystr
  dec_state_assessment :: pydict
  dec_risk :: risk_assessment
  dec_actions :: "action list"
  dec_postconditions :: pydict

definition decision_valid :: "operator_decision \<Rightarrow> bool" where
  "decision_valid d = list_all action_valid (dec_actions d)"

subsection \<open>Policy and approval\<close>

datatype policy_status = Allowed | Blocked | Approval_required

record policy_result =
  pr_status :: policy_status
  pr_category :: "risk_category option"
  pr_level :: "risk_level option"
  pr_requires_human :: bool
  pr_blocked :: bool
  pr_reason :: pystr

record approval_request =
  ap_id :: pystr
  ap_session :: pystr
  ap_frame_id :: int
  ap_world_version :: int
  ap_risk :: risk_category
  ap_reason :: pystr
  ap_proposed :: operator_decision
  ap_screenshot :: "pystr option"

datatype response_type = R_approve | R_edit | R_reject | R_respond | R_abort | R_take_over

record approval_response =
  rs_type :: response_type
  rs_instruction :: "pystr option"
  rs_message :: "pystr option"
  rs_reason :: "pystr option"

subsection \<open>Transactions and their results\<close>

record guarded_transaction =
  tx_session :: pystr
  tx_frame_id :: int
  tx_world_version :: int
  tx_intent :: pystr
  tx_actions :: "action list"
  tx_risk :: risk_assessment
  tx_approval_id :: "pystr option"

record verification_result =
  vr_status :: verification_status
  vr_safe_to_continue :: bool
  vr_intended :: "pystr option"
  vr_observed :: "pystr option"
  vr_detail :: pystr

definition vr_verified :: "verification_result \<Rightarrow> bool" where
  "vr_verified v = (vr_status v \<in> set verified_statuses)"

datatype tx_status =
    Tx_executed | Tx_verified | Tx_failed_stale_frame | Tx_blocked_by_policy
  | Tx_needs_approval | Tx_failed

record transaction_result =
  tr_status :: tx_status
  tr_executed :: "action list"
  tr_verification :: "verification_result option"
  tr_world_after :: "int option"
  tr_error :: pystr

end
