(* ===== verification/Regex.thy ===== *)
theory Regex
  imports PyText
begin

text \<open>
  The regular expressions of Python's \<open>re\<close> that the program uses. A position is the previous
  character, if any, with the rest of the subject. \<open>rx_ends r p\<close> lists the positions a
  backtracking matcher can reach from \<open>p\<close>, in the order it tries them, so its head is the
  match \<open>re\<close> reports. Zero-width assertions (word boundaries, anchors, lookaround) are
  predicates on the position.
\<close>

type_synonym rpos = "int option \<times> pystr"

datatype rx =
    Eps
  | Chr "int \<Rightarrow> bool"
  | Cat rx rx
  | Alt rx rx
  | Star rx
  | Assert "rpos \<Rightarrow> bool"

text \<open>Greedy iteration: as many rounds as possible first; a round that consumes nothing ends it.\<close>

function star_ends :: "(rpos \<Rightarrow> rpos list) \<Rightarrow> rpos \<Rightarrow> rpos list" where
  "star_ends f p =
     concat (map (\<lambda>q. if length (snd q) < length (snd p) then star_ends f q else []) (f p)) @ [p]"
  by pat_completeness auto
termination
  by (relation "measure (\<lambda>(f, p). length (snd p))") auto

declare star_ends.simps [simp del]

primrec rx_ends :: "rx \<Rightarrow> rpos \<Rightarrow> rpos list" where
  "rx_ends Eps p = [p]"
| "rx_ends (Chr P) p = (case snd p of [] \<Rightarrow> [] | c # s \<Rightarrow> if P c then [(Some c, s)] else [])"
| "rx_ends (Cat r1 r2) p = concat (map (rx_ends r2) (rx_ends r1 p))"
| "rx_ends (Alt r1 r2) p = rx_ends r1 p @ rx_ends r2 p"
| "rx_ends (Star r) p = star_ends (rx_ends r) p"
| "rx_ends (Assert A) p = (if A p then [p] else [])"

subsection \<open>The relational meaning, and that the matcher computes it\<close>

inductive rx_rel :: "rx \<Rightarrow> rpos \<Rightarrow> rpos \<Rightarrow> bool" where
  r_eps: "rx_rel Eps p p"
| r_chr: "P c \<Longrightarrow> rx_rel (Chr P) (l, c # s) (Some c, s)"
| r_cat: "rx_rel r1 p q \<Longrightarrow> rx_rel r2 q q' \<Longrightarrow> rx_rel (Cat r1 r2) p q'"
| r_altl: "rx_rel r1 p q \<Longrightarrow> rx_rel (Alt r1 r2) p q"
| r_altr: "rx_rel r2 p q \<Longrightarrow> rx_rel (Alt r1 r2) p q"
| r_star0: "rx_rel (Star r) p p"
| r_star1: "rx_rel r p q \<Longrightarrow> rx_rel (Star r) q q' \<Longrightarrow> rx_rel (Star r) p q'"
| r_assert: "A p \<Longrightarrow> rx_rel (Assert A) p p"

inductive_cases rx_rel_EpsE: "rx_rel Eps p q"
inductive_cases rx_rel_ChrE: "rx_rel (Chr P) p q"
inductive_cases rx_rel_CatE: "rx_rel (Cat r1 r2) p q"
inductive_cases rx_rel_AltE: "rx_rel (Alt r1 r2) p q"
inductive_cases rx_rel_StarE: "rx_rel (Star r) p q"
inductive_cases rx_rel_AssertE: "rx_rel (Assert A) p q"

lemmas rx_rel_elims = rx_rel_EpsE rx_rel_ChrE rx_rel_CatE rx_rel_AltE rx_rel_AssertE

lemma rx_rel_progress: "rx_rel r p q \<Longrightarrow> q = p \<or> length (snd q) < length (snd p)"
  by (induction rule: rx_rel.induct) auto

lemma rx_rel_suffix: "rx_rel r p q \<Longrightarrow> \<exists>w. snd p = w @ snd q"
  by (induction rule: rx_rel.induct) auto

lemma star_ends_sound:
  assumes "\<And>p q. q \<in> set (rx_ends r p) \<Longrightarrow> rx_rel r p q"
  shows "q \<in> set (star_ends (rx_ends r) p) \<Longrightarrow> rx_rel (Star r) p q"
proof (induction "length (snd p)" arbitrary: p rule: less_induct)
  case less
  show ?case
  proof (cases "q = p")
    case True
    then show ?thesis by (auto intro: rx_rel.intros)
  next
    case False
    with less.prems obtain q1 where q1: "q1 \<in> set (rx_ends r p)"
      "length (snd q1) < length (snd p)" "q \<in> set (star_ends (rx_ends r) q1)"
      by (subst (asm) star_ends.simps) (auto split: if_splits)
    with assms less.hyps show ?thesis by (blast intro: r_star1)
  qed
qed

lemma rx_ends_sound: "q \<in> set (rx_ends r p) \<Longrightarrow> rx_rel r p q"
proof (induction r arbitrary: p q)
  case (Chr P)
  then show ?case
    by (cases p; cases "snd p") (auto split: if_splits intro: rx_rel.intros)
next
  case (Star r)
  then show ?case by (auto intro: star_ends_sound)
next
  case (Cat r1 r2)
  from Cat.prems obtain q1 where "q1 \<in> set (rx_ends r1 p)" "q \<in> set (rx_ends r2 q1)"
    unfolding rx_ends.simps set_concat set_map by blast
  with Cat.IH show ?case by (blast intro: r_cat)
qed (auto split: if_splits intro: rx_rel.intros)

lemma star_ends_complete:
  assumes "rx_rel s p q" "s = Star r" and "\<And>p q. rx_rel r p q \<Longrightarrow> q \<in> set (rx_ends r p)"
  shows "q \<in> set (star_ends (rx_ends r) p)"
  using assms
proof (induction rule: rx_rel.induct)
  case (r_star0 r' p)
  show ?case by (subst star_ends.simps) simp
next
  case (r_star1 r' p q q')
  then have IH: "q' \<in> set (star_ends (rx_ends r) q)" and q: "q \<in> set (rx_ends r p)"
    by auto
  from rx_rel_progress [OF r_star1.hyps(1)] show ?case
  proof
    assume "q = p"
    with IH show ?thesis by simp
  next
    assume "length (snd q) < length (snd p)"
    with IH q show ?thesis by (subst star_ends.simps) force
  qed
qed simp_all

lemma rx_ends_complete: "rx_rel r p q \<Longrightarrow> q \<in> set (rx_ends r p)"
proof (induction r arbitrary: p q)
  case (Star r)
  then show ?case by (auto intro: star_ends_complete)
qed (force elim: rx_rel_elims)+

theorem rx_ends_iff: "q \<in> set (rx_ends r p) \<longleftrightarrow> rx_rel r p q"
  by (blast intro: rx_ends_sound rx_ends_complete)

lemma rx_ends_hd: "rx_ends r p = q # qs \<Longrightarrow> rx_rel r p q"
  by (rule rx_ends_sound) simp

lemma rx_ends_nonempty_iff: "rx_ends r p \<noteq> [] \<longleftrightarrow> (\<exists>q. rx_rel r p q)"
proof -
  have "(\<exists>q. q \<in> set (rx_ends r p)) \<longleftrightarrow> rx_ends r p \<noteq> []"
    by (cases "rx_ends r p") auto
  then show ?thesis by (simp only: rx_ends_iff)
qed

subsection \<open>Building blocks\<close>

definition chr_eq :: "int \<Rightarrow> rx" where
  "chr_eq c = Chr (\<lambda>x. x = c)"

definition chr_ci :: "int \<Rightarrow> rx" where
  "chr_ci c = Chr (\<lambda>x. lower1 x = lower1 c)"

fun rx_cat :: "rx list \<Rightarrow> rx" where
  "rx_cat [] = Eps"
| "rx_cat [r] = r"
| "rx_cat (r # r' # rs) = Cat r (rx_cat (r' # rs))"

text \<open>The empty alternation matches nothing.\<close>

fun rx_alt :: "rx list \<Rightarrow> rx" where
  "rx_alt [] = Chr (\<lambda>_. False)"
| "rx_alt [r] = r"
| "rx_alt (r # r' # rs) = Alt r (rx_alt (r' # rs))"

definition lit :: "string \<Rightarrow> rx" where
  "lit s = rx_cat (map chr_eq (u s))"

text \<open>A literal under \<open>re.IGNORECASE\<close>.\<close>

definition lit_ci :: "string \<Rightarrow> rx" where
  "lit_ci s = rx_cat (map chr_ci (u s))"

definition words_ci :: "string list \<Rightarrow> rx" where
  "words_ci ws = rx_alt (map lit_ci ws)"

definition opt :: "rx \<Rightarrow> rx" where
  "opt r = Alt r Eps"

definition plus :: "rx \<Rightarrow> rx" where
  "plus r = Cat r (Star r)"

primrec upto_n :: "nat \<Rightarrow> rx \<Rightarrow> rx" where
  "upto_n 0 r = Eps"
| "upto_n (Suc n) r = opt (Cat r (upto_n n r))"

definition times_mn :: "nat \<Rightarrow> nat \<Rightarrow> rx \<Rightarrow> rx" where
  "times_mn m n r = rx_cat (replicate m r @ [upto_n (n - m) r])"

text \<open>\<open>r{m,}\<close>.\<close>

definition at_least :: "nat \<Rightarrow> rx \<Rightarrow> rx" where
  "at_least m r = rx_cat (replicate m r @ [Star r])"

definition space :: rx where "space = Chr is_space"
definition spaces :: rx where "spaces = Star space"
definition spaces1 :: rx where "spaces1 = plus space"
definition wordc :: rx where "wordc = Chr is_word"
definition decimal :: rx where "decimal = Chr is_decimal"

text \<open>\<open>.\<close> is any character but a newline; \<open>[...]\<close> and \<open>[^...]\<close> list their members.\<close>

definition dot :: rx where "dot = Chr (\<lambda>c. c \<noteq> 10)"
definition one_of :: "string \<Rightarrow> rx" where "one_of s = Chr (\<lambda>c. c \<in> set (u s))"
definition none_of :: "int list \<Rightarrow> rx" where "none_of cs = Chr (\<lambda>c. c \<notin> set cs)"

definition in_range :: "int \<Rightarrow> int \<Rightarrow> int \<Rightarrow> bool" where
  "in_range a b c \<longleftrightarrow> a \<le> c \<and> c \<le> b"

text \<open>Word boundary, start and end of the subject, start and end of a line (\<open>re.MULTILINE\<close>).\<close>

definition prev_word :: "rpos \<Rightarrow> bool" where
  "prev_word p = (case fst p of None \<Rightarrow> False | Some c \<Rightarrow> is_word c)"

definition next_word :: "rpos \<Rightarrow> bool" where
  "next_word p = (case snd p of [] \<Rightarrow> False | c # _ \<Rightarrow> is_word c)"

definition wb :: rx where "wb = Assert (\<lambda>p. prev_word p \<noteq> next_word p)"
definition bos :: rx where "bos = Assert (\<lambda>p. fst p = None)"
definition eos :: rx where "eos = Assert (\<lambda>p. snd p = [] \<or> snd p = [10])"
definition bol :: rx where "bol = Assert (\<lambda>p. fst p = None \<or> fst p = Some 10)"
definition eol :: rx where "eol = Assert (\<lambda>p. snd p = [] \<or> hd (snd p) = 10)"
definition not_ahead :: "rx \<Rightarrow> rx" where "not_ahead r = Assert (\<lambda>p. rx_ends r p = [])"
definition ahead :: "rx \<Rightarrow> rx" where "ahead r = Assert (\<lambda>p. rx_ends r p \<noteq> [])"
definition not_behind :: "(int \<Rightarrow> bool) \<Rightarrow> rx" where
  "not_behind P = Assert (\<lambda>p. case fst p of None \<Rightarrow> True | Some c \<Rightarrow> \<not> P c)"

lemmas rx_defs = chr_eq_def chr_ci_def lit_def lit_ci_def words_ci_def opt_def plus_def
  times_mn_def at_least_def space_def spaces_def spaces1_def wordc_def decimal_def dot_def
  one_of_def none_of_def in_range_def prev_word_def next_word_def wb_def bos_def eos_def bol_def
  eol_def not_ahead_def ahead_def not_behind_def

subsection \<open>\<open>match\<close>, \<open>fullmatch\<close>, \<open>search\<close>\<close>

definition rx_match :: "rx \<Rightarrow> pystr \<Rightarrow> bool" where
  "rx_match r s = (rx_ends r (None, s) \<noteq> [])"

definition rx_fullmatch :: "rx \<Rightarrow> pystr \<Rightarrow> bool" where
  "rx_fullmatch r s = list_ex (\<lambda>q. snd q = []) (rx_ends r (None, s))"

text \<open>The first position at which a match starts: text before it, the match, the position after.\<close>

fun rx_find :: "rx \<Rightarrow> int option \<Rightarrow> pystr \<Rightarrow> (pystr \<times> pystr \<times> rpos) option" where
  "rx_find r l [] =
     (case rx_ends r (l, []) of [] \<Rightarrow> None | q # _ \<Rightarrow> Some ([], [], q))"
| "rx_find r l (c # s) =
     (case rx_ends r (l, c # s) of
        q # _ \<Rightarrow> Some ([], take (Suc (length s) - length (snd q)) (c # s), q)
      | [] \<Rightarrow> (case rx_find r (Some c) s of None \<Rightarrow> None
                | Some (pre, m, q) \<Rightarrow> Some (c # pre, m, q)))"

fun rx_search_from :: "rx \<Rightarrow> int option \<Rightarrow> pystr \<Rightarrow> bool" where
  "rx_search_from r l [] = (rx_ends r (l, []) \<noteq> [])"
| "rx_search_from r l (c # s) = (rx_ends r (l, c # s) \<noteq> [] \<or> rx_search_from r (Some c) s)"

definition rx_search :: "rx \<Rightarrow> pystr \<Rightarrow> bool" where
  "rx_search r s = rx_search_from r None s"

lemma rx_match_search: "rx_match r s \<Longrightarrow> rx_search r s"
  by (cases s) (auto simp: rx_match_def rx_search_def)

lemma rx_find_None_iff: "rx_find r l s = None \<longleftrightarrow> \<not> rx_search_from r l s"
  by (induction r l s rule: rx_search_from.induct) (auto split: list.splits option.splits)

lemma rx_search_from_iff:
  "rx_search_from r l s \<longleftrightarrow>
     (\<exists>a b q. s = a @ b \<and> rx_rel r (if a = [] then l else Some (last a), b) q)"
proof (induction r l s rule: rx_search_from.induct)
  case (1 r l)
  then show ?case
    by (simp add: rx_ends_nonempty_iff)
next
  case (2 r l c s)
  have split: "(\<exists>a b. c # s = a @ b \<and> P a b) \<longleftrightarrow>
      P [] (c # s) \<or> (\<exists>a b. s = a @ b \<and> P (c # a) b)" for P
    by (metis append_Cons append_Nil list.exhaust_sel list.sel(1) list.sel(3))
  show ?case
    using 2 by (simp add: split rx_ends_nonempty_iff)
qed

subsection \<open>Building matches of a partly unknown subject\<close>

text \<open>The previous character after reading \<open>x\<close>.\<close>

definition adv :: "int option \<Rightarrow> pystr \<Rightarrow> int option" where
  "adv l x = (if x = [] then l else Some (last x))"

lemma adv_simps [simp]:
  "adv l [] = l" "adv l (x @ [c]) = Some c" "adv l [c] = Some c"
  "y \<noteq> [] \<Longrightarrow> adv l (x @ y) = Some (last y)" "adv (adv l x) y = adv l (x @ y)"
  by (auto simp: adv_def)

lemma rx_rel_Chr_cat: "P c \<Longrightarrow> rx_rel r (Some c, s) q \<Longrightarrow> rx_rel (Cat (Chr P) r) (l, c # s) q"
  by (rule r_cat [OF r_chr])

lemma rx_rel_star_chars:
  "\<forall>c \<in> set x. P c \<Longrightarrow> rx_rel (Star (Chr P)) (l, x @ s) (adv l x, s)"
proof (induction x arbitrary: l)
  case Nil
  then show ?case by (simp add: r_star0)
next
  case (Cons c x)
  then have "rx_rel (Star (Chr P)) (Some c, x @ s) (adv (Some c) x, s)" by simp
  with Cons.prems have "rx_rel (Star (Chr P)) (l, c # x @ s) (adv (Some c) x, s)"
    by (intro r_star1 [OF r_chr]) auto
  then show ?case by (simp add: adv_def split: if_splits)
qed

lemma rx_rel_plus_chars:
  "x \<noteq> [] \<Longrightarrow> \<forall>c \<in> set x. P c \<Longrightarrow> rx_rel (plus (Chr P)) (l, x @ s) (adv l x, s)"
proof (cases x)
  case (Cons c y)
  assume "\<forall>c \<in> set x. P c"
  with Cons have "rx_rel (Star (Chr P)) (Some c, y @ s) (adv (Some c) y, s)"
    by (intro rx_rel_star_chars) simp
  with \<open>\<forall>c \<in> set x. P c\<close> Cons show ?thesis
    by (auto simp: plus_def adv_def intro!: rx_rel_Chr_cat)
qed simp

lemma rx_rel_rx_cat_Cons:
  "rx_rel r p q \<Longrightarrow> rx_rel (rx_cat rs) q q' \<Longrightarrow> rx_rel (rx_cat (r # rs)) p q'"
  by (cases rs) (auto intro: r_cat elim: rx_rel_EpsE)

lemma rx_rel_rx_cat_Nil: "rx_rel (rx_cat []) p p"
  by (simp add: r_eps)

lemma rx_rel_rx_alt: "rx_rel r p q \<Longrightarrow> r \<in> set rs \<Longrightarrow> rx_rel (rx_alt rs) p q"
  by (induction rs rule: rx_alt.induct) (auto intro: r_altl r_altr)

lemma rx_rel_opt_skip: "rx_rel (opt r) p p"
  by (simp add: opt_def r_altr r_eps)

lemma rx_rel_lit_ci:
  "py_lower x = py_lower (u w) \<Longrightarrow> rx_rel (lit_ci w) (l, x @ s) (adv l x, s)"
proof (induction w arbitrary: x l)
  case Nil
  then have "x = []" by (simp add: py_lower_def)
  then show ?case by (simp add: lit_ci_def r_eps)
next
  case (Cons a w)
  from Cons.prems obtain c y where x: "x = c # y" and c: "lower1 c = lower1 (of_char a)"
    and y: "py_lower y = py_lower (u w)"
    by (cases x) (auto simp: u_Cons py_lower_def)
  have "rx_rel (chr_ci (of_char a)) (l, c # y @ s) (Some c, y @ s)"
    using c by (simp add: chr_ci_def r_chr)
  moreover have "rx_rel (lit_ci w) (Some c, y @ s) (adv (Some c) y, s)"
    using y by (rule Cons.IH)
  ultimately show ?case
    by (auto simp: x lit_ci_def u_Cons adv_def intro: rx_rel_rx_cat_Cons)
qed

lemma rx_rel_lit: "rx_rel (lit w) (l, u w @ s) (adv l (u w), s)"
proof (induction w arbitrary: l)
  case Nil
  then show ?case by (simp add: lit_def r_eps)
next
  case (Cons a w)
  have "rx_rel (chr_eq (of_char a)) (l, of_char a # u w @ s) (Some (of_char a), u w @ s)"
    by (simp add: chr_eq_def r_chr)
  moreover have "rx_rel (lit w) (Some (of_char a), u w @ s) (adv (Some (of_char a)) (u w), s)"
    by (rule Cons.IH)
  ultimately show ?case
    by (auto simp: lit_def u_Cons adv_def intro: rx_rel_rx_cat_Cons)
qed

lemma rx_rel_wb: "prev_word p \<noteq> next_word p \<Longrightarrow> rx_rel wb p p"
  by (simp add: wb_def r_assert)

lemma rx_rel_words_ci:
  "w \<in> set ws \<Longrightarrow> py_lower x = py_lower (u w) \<Longrightarrow> rx_rel (words_ci ws) (l, x @ s) (adv l x, s)"
  unfolding words_ci_def by (rule rx_rel_rx_alt [OF rx_rel_lit_ci]) auto

text \<open>Matching a concatenation token by token: each premise reads one piece of the subject.\<close>

lemmas rx_cat_steps = rx_rel_rx_cat_Cons rx_rel_rx_cat_Nil

lemma rx_search_intro:
  assumes "rx_rel r (adv None a, b) q" "s = a @ b"
  shows "rx_search r s"
  using assms unfolding rx_search_def rx_search_from_iff adv_def by blast

subsection \<open>\<open>sub\<close>, \<open>split\<close> and \<open>findall\<close>\<close>

text \<open>
  For patterns that consume at least one character, which are the only ones the program
  substitutes, splits on or counts; a zero-width match is passed over.
\<close>

function rx_pieces :: "rx \<Rightarrow> int option \<Rightarrow> pystr \<Rightarrow> (pystr \<times> pystr) list \<times> pystr" where
  "rx_pieces r l s =
     (case rx_find r l s of
        None \<Rightarrow> ([], s)
      | Some (pre, m, q) \<Rightarrow>
          if length (snd q) < length s
          then (case rx_pieces r (fst q) (snd q) of (ps, rest) \<Rightarrow> ((pre, m) # ps, rest))
          else ([], s))"
  by pat_completeness auto
termination
  by (relation "measure (\<lambda>(r, l, s). length s)") auto

declare rx_pieces.simps [simp del]

definition rx_sub :: "rx \<Rightarrow> pystr \<Rightarrow> pystr \<Rightarrow> pystr" where
  "rx_sub r rep s = (case rx_pieces r None s of (ps, rest) \<Rightarrow> concat (map (\<lambda>p. fst p @ rep) ps) @ rest)"

definition rx_sub1 :: "rx \<Rightarrow> pystr \<Rightarrow> pystr \<Rightarrow> pystr" where
  "rx_sub1 r rep s = (case rx_find r None s of None \<Rightarrow> s | Some (pre, m, q) \<Rightarrow> pre @ rep @ snd q)"

definition rx_split :: "rx \<Rightarrow> pystr \<Rightarrow> pystr list" where
  "rx_split r s = (case rx_pieces r None s of (ps, rest) \<Rightarrow> map fst ps @ [rest])"

definition rx_findall :: "rx \<Rightarrow> pystr \<Rightarrow> pystr list" where
  "rx_findall r s = map snd (fst (rx_pieces r None s))"

lemma rx_find_decompose:
  "rx_find r l s = Some (pre, m, q) \<Longrightarrow> s = pre @ m @ snd q"
proof (induction r l s arbitrary: pre m q rule: rx_find.induct)
  case (1 r l)
  then have "rx_rel r (l, []) q" "pre = []" "m = []"
    by (auto split: list.splits dest: rx_ends_hd)
  then show ?case using rx_rel_suffix by fastforce
next
  case (2 r l c s)
  show ?case
  proof (cases "rx_ends r (l, c # s)")
    case Nil
    with 2 show ?thesis by (auto split: option.splits prod.splits)
  next
    case (Cons q' qs)
    then have "rx_rel r (l, c # s) q'" by (rule rx_ends_hd)
    then obtain w where "c # s = w @ snd q'" using rx_rel_suffix by fastforce
    moreover from this have "Suc (length s) - length (snd q') = length w"
      by (metis add_diff_cancel_right' length_Cons length_append)
    moreover have "m = take (Suc (length s) - length (snd q')) (c # s)" "pre = []" "q = q'"
      using 2 Cons by auto
    ultimately show ?thesis by simp
  qed
qed

lemma rx_pieces_decompose:
  "rx_pieces r l s = (ps, rest) \<Longrightarrow> concat (map (\<lambda>p. fst p @ snd p) ps) @ rest = s"
proof (induction r l s arbitrary: ps rest rule: rx_pieces.induct)
  case (1 r l s)
  show ?case
  proof (cases "rx_find r l s")
    case None
    with "1.prems" show ?thesis by (subst (asm) rx_pieces.simps) simp
  next
    case (Some t)
    obtain pre m q where t: "t = (pre, m, q)" by (cases t)
    show ?thesis
    proof (cases "length (snd q) < length s")
      case True
      obtain ps' rest' where r: "rx_pieces r (fst q) (snd q) = (ps', rest')" by fastforce
      with "1.IH" Some t True have "concat (map (\<lambda>p. fst p @ snd p) ps') @ rest' = snd q"
        by blast
      moreover have "ps = (pre, m) # ps'" "rest = rest'"
        using "1.prems" Some t True r by (subst (asm) rx_pieces.simps, simp)+
      ultimately show ?thesis
        using rx_find_decompose [of r l s pre m q] Some t by simp
    next
      case False
      with "1.prems" Some t show ?thesis by (subst (asm) rx_pieces.simps) simp
    qed
  qed
qed

text \<open>
  What a substitution leaves: a pattern \<open>covers\<close> a class of characters when it matches wherever one
  of them stands, and \<open>consumes\<close> when no match is empty. Then no such character is left outside the
  matches. \<open>rx_over\<close> bounds the characters a match can contain.
\<close>

definition rx_covers :: "rx \<Rightarrow> (int \<Rightarrow> bool) \<Rightarrow> bool" where
  "rx_covers r B \<longleftrightarrow> (\<forall>l c s. B c \<longrightarrow> (\<exists>q. rx_rel r (l, c # s) q))"

definition rx_consumes :: "rx \<Rightarrow> bool" where
  "rx_consumes r \<longleftrightarrow> (\<forall>p q. rx_rel r p q \<longrightarrow> length (snd q) < length (snd p))"

primrec rx_over :: "(int \<Rightarrow> bool) \<Rightarrow> rx \<Rightarrow> bool" where
  "rx_over Q Eps = True"
| "rx_over Q (Chr P) = (\<forall>c. P c \<longrightarrow> Q c)"
| "rx_over Q (Cat r1 r2) = (rx_over Q r1 \<and> rx_over Q r2)"
| "rx_over Q (Alt r1 r2) = (rx_over Q r1 \<and> rx_over Q r2)"
| "rx_over Q (Star r) = rx_over Q r"
| "rx_over Q (Assert A) = True"

lemma rx_rel_over:
  "rx_rel r p q \<Longrightarrow> rx_over Q r \<Longrightarrow> \<exists>w. snd p = w @ snd q \<and> (\<forall>c \<in> set w. Q c)"
proof (induction rule: rx_rel.induct)
  case (r_cat r1 p q r2 q')
  then obtain v w where "snd p = (v @ w) @ snd q'" "\<forall>c \<in> set (v @ w). Q c" by fastforce
  then show ?case by blast
next
  case (r_star1 r p q q')
  then obtain v w where "snd p = (v @ w) @ snd q'" "\<forall>c \<in> set (v @ w). Q c" by fastforce
  then show ?case by blast
qed auto

lemma rx_consumes_cat:
  "rx_consumes r1 \<or> rx_consumes r2 \<Longrightarrow> rx_consumes (Cat r1 r2)"
  unfolding rx_consumes_def using rx_rel_progress by (fastforce elim!: rx_rel_CatE)

lemma rx_consumes_alt: "rx_consumes r1 \<Longrightarrow> rx_consumes r2 \<Longrightarrow> rx_consumes (Alt r1 r2)"
  unfolding rx_consumes_def by (fastforce elim!: rx_rel_AltE)

lemma rx_consumes_chr: "rx_consumes (Chr P)"
  unfolding rx_consumes_def by (fastforce elim!: rx_rel_ChrE)

lemma rx_consumes_plus: "rx_consumes r \<Longrightarrow> rx_consumes (plus r)"
  unfolding plus_def by (intro rx_consumes_cat) simp

lemmas rx_consumes_intros = rx_consumes_cat rx_consumes_alt rx_consumes_chr rx_consumes_plus

lemma rx_covers_ends: "rx_covers r B \<Longrightarrow> B c \<Longrightarrow> rx_ends r (l, c # s) \<noteq> []"
  unfolding rx_ends_nonempty_iff rx_covers_def by blast

lemma rx_covers_find:
  "rx_covers r B \<Longrightarrow> rx_find r l s = Some (pre, m, q) \<Longrightarrow> \<forall>c \<in> set pre. \<not> B c"
proof (induction r l s arbitrary: pre m q rule: rx_find.induct)
  case (1 r l)
  then show ?case by (auto split: list.splits)
next
  case (2 r l c s)
  show ?case
  proof (cases "rx_ends r (l, c # s)")
    case Nil
    then have "\<not> B c"
      using rx_covers_ends 2(2) by blast
    with 2 Nil show ?thesis by (auto split: option.splits)
  next
    case (Cons q' qs)
    with 2 show ?thesis by simp
  qed
qed

lemma rx_covers_no_find:
  "rx_covers r B \<Longrightarrow> rx_find r l s = None \<Longrightarrow> \<forall>c \<in> set s. \<not> B c"
proof (induction r l s rule: rx_find.induct)
  case (1 r l)
  then show ?case by simp
next
  case (2 r l c s)
  then have n: "rx_ends r (l, c # s) = []" "rx_find r (Some c) s = None"
    by (auto split: list.splits option.splits)
  then have "\<not> B c"
    using rx_covers_ends 2(2) by blast
  with 2 n show ?case by auto
qed

lemma rx_find_rel:
  "rx_find r l s = Some (pre, m, q) \<Longrightarrow> \<exists>l'. rx_rel r (l', m @ snd q) q"
proof (induction r l s arbitrary: pre m q rule: rx_find.induct)
  case (1 r l)
  then have "rx_rel r (l, []) q" "m = []" by (auto split: list.splits dest: rx_ends_hd)
  then show ?case using rx_rel_suffix by fastforce
next
  case (2 r l c s)
  show ?case
  proof (cases "rx_ends r (l, c # s)")
    case Nil
    with 2 show ?thesis by (auto split: option.splits prod.splits)
  next
    case (Cons q' qs)
    then have r: "rx_rel r (l, c # s) q'" by (rule rx_ends_hd)
    have "c # s = pre @ m @ snd q" using "2.prems" by (rule rx_find_decompose)
    moreover have "pre = []" "q = q'" using "2.prems" Cons by auto
    ultimately show ?thesis using r by auto
  qed
qed

lemma rx_consumes_find:
  assumes "rx_consumes r" and "rx_find r l s = Some (pre, m, q)"
  shows "length (snd q) < length s"
proof -
  obtain l' where "rx_rel r (l', m @ snd q) q" using rx_find_rel [OF assms(2)] by blast
  then have "length (snd q) < length (m @ snd q)"
    using assms(1) unfolding rx_consumes_def by (metis snd_conv)
  then show ?thesis using rx_find_decompose [OF assms(2)] by simp
qed

lemma rx_pieces_covered:
  "rx_covers r B \<Longrightarrow> rx_consumes r \<Longrightarrow> rx_pieces r l s = (ps, rest) \<Longrightarrow>
     (\<forall>p \<in> set ps. \<forall>c \<in> set (fst p). \<not> B c) \<and> (\<forall>c \<in> set rest. \<not> B c)"
proof (induction r l s arbitrary: ps rest rule: rx_pieces.induct)
  case (1 r l s)
  show ?case
  proof (cases "rx_find r l s")
    case None
    with "1.prems" rx_covers_no_find [of r B l s] show ?thesis
      by (subst (asm) rx_pieces.simps) simp
  next
    case (Some t)
    obtain pre m q where t: "t = (pre, m, q)" by (cases t)
    have len: "length (snd q) < length s"
      using rx_consumes_find "1.prems"(2) Some t by blast
    obtain ps' rest' where r: "rx_pieces r (fst q) (snd q) = (ps', rest')" by fastforce
    have "ps = (pre, m) # ps'" "rest = rest'"
      using "1.prems"(3) Some t len r by (subst (asm) rx_pieces.simps, simp)+
    moreover have "\<forall>c \<in> set pre. \<not> B c"
      using rx_covers_find "1.prems"(1) Some t by blast
    moreover have "(\<forall>p \<in> set ps'. \<forall>c \<in> set (fst p). \<not> B c) \<and> (\<forall>c \<in> set rest'. \<not> B c)"
      using "1.IH" [OF Some t [symmetric] refl len "1.prems"(1,2) r] by simp
    ultimately show ?thesis by simp
  qed
qed

lemma rx_pieces_over:
  "rx_over Q r \<Longrightarrow> rx_pieces r l s = (ps, rest) \<Longrightarrow> \<forall>p \<in> set ps. \<forall>c \<in> set (snd p). Q c"
proof (induction r l s arbitrary: ps rest rule: rx_pieces.induct)
  case (1 r l s)
  show ?case
  proof (cases "rx_find r l s")
    case None
    with "1.prems" show ?thesis by (subst (asm) rx_pieces.simps) simp
  next
    case (Some t)
    obtain pre m q where t: "t = (pre, m, q)" by (cases t)
    show ?thesis
    proof (cases "length (snd q) < length s")
      case True
      obtain ps' rest' where r: "rx_pieces r (fst q) (snd q) = (ps', rest')" by fastforce
      have "ps = (pre, m) # ps'"
        using "1.prems"(2) Some t True r by (subst (asm) rx_pieces.simps, simp)
      moreover have "\<forall>c \<in> set m. Q c"
        using rx_find_rel [of r l s pre m q] rx_rel_over "1.prems"(1) Some t by fastforce
      moreover have "\<forall>p \<in> set ps'. \<forall>c \<in> set (snd p). Q c"
        using "1.IH" [OF Some t [symmetric] refl True "1.prems"(1) r] by simp
      ultimately show ?thesis by simp
    next
      case False
      with "1.prems" Some t show ?thesis by (subst (asm) rx_pieces.simps) simp
    qed
  qed
qed

lemma filter_concat_replace:
  assumes "\<forall>p \<in> set ps. \<forall>c \<in> set (snd p). \<not> P c" and "\<forall>c \<in> set rep. \<not> P c"
  shows "filter P (concat (map (\<lambda>p. fst p @ rep) ps)) = filter P (concat (map (\<lambda>p. fst p @ snd p) ps))"
  using assms by (induction ps) (auto simp: filter_empty_conv)

text \<open>Characters outside the pattern's alphabet survive a substitution, in order.\<close>

lemma rx_sub_keeps:
  assumes "rx_over Q r" and "\<forall>c \<in> set rep. Q c"
  shows "filter (\<lambda>c. \<not> Q c) (rx_sub r rep s) = filter (\<lambda>c. \<not> Q c) s"
proof -
  obtain ps rest where p: "rx_pieces r None s = (ps, rest)" by fastforce
  have "filter (\<lambda>c. \<not> Q c) (concat (map (\<lambda>p. fst p @ rep) ps))
      = filter (\<lambda>c. \<not> Q c) (concat (map (\<lambda>p. fst p @ snd p) ps))"
    using rx_pieces_over [OF assms(1) p] assms(2) by (intro filter_concat_replace) auto
  then have "filter (\<lambda>c. \<not> Q c) (rx_sub r rep s)
      = filter (\<lambda>c. \<not> Q c) (concat (map (\<lambda>p. fst p @ snd p) ps) @ rest)"
    by (simp only: rx_sub_def p prod.case filter_append)
  then show ?thesis using rx_pieces_decompose [OF p] by simp
qed

lemma rx_search_covers: "rx_covers r B \<Longrightarrow> \<not> rx_search r s \<Longrightarrow> \<forall>c \<in> set s. \<not> B c"
  unfolding rx_search_def by (rule rx_covers_no_find) (simp_all add: rx_find_None_iff)

end
