(* ===== verification/CommandRisk.thy ===== *)
theory CommandRisk
  imports Regex
begin

text \<open>
  \<open>policy/risk.py\<close>: the text-only risk of a shell-style command line. One definition per compiled
  pattern of the source, in the source's order, then the clause classifier and
  \<open>classify_command\<close>.
\<close>

datatype command_risk = CR_safe | CR_medium | CR_dangerous | CR_side_effect

subsection \<open>Dangerous command shapes\<close>

definition cls_ci :: "string \<Rightarrow> rx" where
  "cls_ci s = Chr (\<lambda>c. lower1 c \<in> set (u s))"

definition az_ci :: rx where
  "az_ci = Chr (\<lambda>c. in_range 97 122 (lower1 c))"

lemmas risk_rx_defs = rx_defs cls_ci_def az_ci_def

definition re_rm_anywhere :: rx where
  "re_rm_anywhere = rx_cat [wb, lit_ci ''rm'', wb, Star (none_of [124, 59, 38, 10]),
     rx_alt [rx_cat [space, lit_ci ''-'', Star wordc, cls_ci ''rf''],
             rx_cat [space, lit_ci ''--'', words_ci [''recursive'', ''force'', ''dir'']]]]"

definition re_rm_combo :: rx where
  "re_rm_combo = rx_cat [wb, lit_ci ''rm'', spaces1,
     Star (rx_cat [lit_ci ''-'', Star wordc, spaces1]), opt (lit_ci ''-''),
     Star wordc, cls_ci ''rf'', Star wordc]"

definition re_rm_flag :: rx where
  "re_rm_flag = rx_cat [wb, lit_ci ''rm'', spaces1, lit_ci ''-'', Star az_ci, cls_ci ''rf'']"

definition re_dd :: rx where
  "re_dd = rx_cat [wb, lit_ci ''dd'', spaces1, lit_ci ''if='']"

definition re_mkfs :: rx where
  "re_mkfs = rx_cat [wb, lit_ci ''mkfs'', opt (rx_cat [lit ''.'', plus wordc]), wb]"

definition re_power :: rx where
  "re_power = rx_cat [wb, words_ci [''shutdown'', ''reboot'', ''poweroff'', ''halt''], wb]"

definition re_init0 :: rx where
  "re_init0 = rx_cat [wb, lit_ci ''init'', spaces1, lit_ci ''0'', wb]"

definition re_chmod_r :: rx where
  "re_chmod_r = rx_cat [wb, lit_ci ''chmod'', spaces1, lit_ci ''-r'', wb]"

definition re_chown_r :: rx where
  "re_chown_r = rx_cat [wb, lit_ci ''chown'', spaces1, lit_ci ''-r'', wb]"

definition re_git_push_force :: rx where
  "re_git_push_force = rx_alt
     [rx_cat [wb, lit_ci ''git'', spaces1, lit_ci ''push'', wb, Star dot, lit_ci ''--force''],
      rx_cat [wb, lit_ci ''git'', spaces1, lit_ci ''push'', spaces1, lit_ci ''-f'', wb]]"

definition re_git_reset_hard :: rx where
  "re_git_reset_hard = rx_cat [wb, lit_ci ''git'', spaces1, lit_ci ''reset'', spaces1,
     lit_ci ''--hard'', wb]"

definition re_git_clean :: rx where
  "re_git_clean = rx_cat [wb, lit_ci ''git'', spaces1, lit_ci ''clean'', spaces1, lit_ci ''-'',
     Star az_ci, lit_ci ''f'']"

definition re_auto_approve :: rx where
  "re_auto_approve = rx_cat [rx_alt [bos, space],
     rx_alt [rx_cat [lit_ci ''tf_auto_approve'', spaces, lit_ci ''='', spaces,
                     words_ci [''1'', ''true'', ''yes''], wb],
             rx_cat [lit_ci ''-'', opt (lit_ci ''-''), lit_ci ''auto-approve'', wb]]]"

definition re_terraform :: rx where
  "re_terraform = rx_cat [wb, words_ci [''terraform'', ''tofu''], spaces1,
     words_ci [''apply'', ''destroy''], wb]"

definition re_oci :: rx where
  "re_oci = rx_cat [wb, lit_ci ''oci'', wb, Star (none_of [124, 59, 38, 10]), wb,
     words_ci [''delete'', ''terminate''], wb]"

definition re_format :: rx where
  "re_format = rx_cat [wb, lit_ci ''format'', spaces1, az_ci, lit '':'']"

definition re_drop :: rx where
  "re_drop = rx_cat [wb, lit_ci ''drop'', spaces1, words_ci [''table'', ''database''], wb]"

definition re_fork_bomb :: rx where
  "re_fork_bomb = rx_cat [lit '':()'', spaces, lit ''{'', Star dot, lit ''};:'']"

definition re_pipe_shell :: rx where
  "re_pipe_shell = rx_cat [wb, words_ci [''curl'', ''wget''], wb, plus dot, lit ''|'', spaces,
     opt (rx_cat [lit_ci ''sudo'', spaces1]), opt (words_ci [''ba'', ''z'', ''c'']),
     lit_ci ''sh'', wb]"

definition re_sudo :: rx where
  "re_sudo = rx_cat [rx_alt [bos, space, lit ''|''], spaces, lit_ci ''sudo'', wb]"

definition re_block_device :: rx where
  "re_block_device = rx_cat [lit ''>'', spaces, lit_ci ''/dev/sd'', az_ci]"

definition re_mutate_etc :: rx where
  "re_mutate_etc = rx_cat [wb,
     words_ci [''rm'', ''mv'', ''cp'', ''chmod'', ''chown'', ''tee'', ''truncate''], wb,
     Star (none_of [124, 59, 38]), space, lit_ci ''/etc'', rx_alt [lit ''/'', wb]]"

definition re_redirect_etc :: rx where
  "re_redirect_etc = rx_cat [lit ''>'', opt (lit ''>''), spaces, lit_ci ''/etc'',
     rx_alt [lit ''/'', wb]]"

definition dangerous_command_re :: "rx list" where
  "dangerous_command_re =
     [re_rm_anywhere, re_rm_combo, re_rm_flag, re_dd, re_mkfs, re_power, re_init0, re_chmod_r,
      re_chown_r, re_git_push_force, re_git_reset_hard, re_git_clean, re_auto_approve,
      re_terraform, re_oci, re_format, re_drop, re_fork_bomb, re_pipe_shell, re_sudo,
      re_block_device, re_mutate_etc, re_redirect_etc]"

lemmas dangerous_re_defs = dangerous_command_re_def re_rm_anywhere_def re_rm_combo_def
  re_rm_flag_def re_dd_def re_mkfs_def re_power_def re_init0_def re_chmod_r_def re_chown_r_def
  re_git_push_force_def re_git_reset_hard_def re_git_clean_def re_auto_approve_def
  re_terraform_def re_oci_def re_format_def re_drop_def re_fork_bomb_def re_pipe_shell_def
  re_sudo_def re_block_device_def re_mutate_etc_def re_redirect_etc_def

definition side_effect_re :: rx where
  "side_effect_re = rx_cat [wb, rx_alt
     [lit_ci ''send'', lit_ci ''sendmail'', lit_ci ''post'', lit_ci ''publish'', lit_ci ''tweet'',
      lit_ci ''toot'', lit_ci ''comment'', lit_ci ''reply'', lit_ci ''submit'', lit_ci ''pay'',
      lit_ci ''purchase'', lit_ci ''checkout'', lit_ci ''deploy'', lit_ci ''release'',
      lit_ci ''email'', rx_cat [lit_ci ''mail'', opt (lit_ci ''x'')], lit_ci ''message'',
      lit_ci ''dm'', lit_ci ''broadcast'', lit_ci ''invite'', lit_ci ''rsvp'', lit_ci ''share'',
      lit_ci ''join''], wb]"

subsection \<open>Read-only commands\<close>

definition safe_commands :: "string list" where
  "safe_commands =
     [''ls'', ''ll'', ''la'', ''dir'', ''pwd'', ''cd'', ''cat'', ''bat'', ''less'', ''more'',
      ''head'', ''tail'', ''grep'', ''egrep'', ''fgrep'', ''rg'', ''ag'', ''find'', ''fd'',
      ''locate'', ''which'', ''whereis'', ''type'', ''echo'', ''printf'', ''stat'', ''file'',
      ''wc'', ''du'', ''df'', ''tree'', ''realpath'', ''basename'', ''dirname'', ''whoami'',
      ''id'', ''hostname'', ''uname'', ''date'', ''uptime'', ''env'', ''printenv'', ''history'',
      ''man'', ''ps'', ''top'', ''htop'', ''free'', ''lscpu'', ''lsblk'', ''lsusb'', ''lspci'',
      ''ip'', ''ifconfig'', ''ping'', ''diff'', ''cmp'', ''sort'', ''uniq'', ''cut'', ''jq'',
      ''column'', ''tac'', ''nl'', ''ffprobe'']"

definition safe_git_subcommands :: "string list" where
  "safe_git_subcommands =
     [''status'', ''branch'', ''log'', ''diff'', ''show'', ''describe'', ''blame'', ''remote'',
      ''rev-parse'', ''ls-files'', ''ls-remote'', ''shortlog'', ''reflog'', ''whatchanged'']"

definition high_risk_chars :: "pystr" where
  "high_risk_chars = u ''|&;><$`~*'' @ [34, 39, 92] @ u ''!{}[]()''"

definition clause_split_re :: rx where
  "clause_split_re = rx_cat [spaces,
     rx_alt [lit ''||'', lit ''&&'', lit '';'', lit ''|'', lit ''&''], spaces]"

definition query_token :: rx where
  "query_token = plus (Chr (\<lambda>c. in_range 65 90 c \<or> in_range 97 122 c \<or> in_range 48 57 c
     \<or> c \<in> set (u ''_.+:-'')))"

definition command_query_re :: rx where
  "command_query_re = rx_cat [bos, spaces, lit ''command'', spaces1, lit ''-'', one_of ''vV'',
     spaces1, query_token, Star (rx_cat [spaces1, query_token]), spaces, eos]"

definition gsettings_token :: rx where
  "gsettings_token = plus (Chr (\<lambda>c. in_range 97 122 (lower1 c) \<or> in_range 48 57 c
     \<or> c \<in> set (u ''_.:/+-'')))"

definition read_only_gsettings_re :: rx where
  "read_only_gsettings_re = rx_cat [bos, spaces, lit_ci ''gsettings'', spaces1,
     words_ci [''get'', ''range'', ''describe'', ''list-schemas'', ''list-relocatable-schemas'',
       ''list-keys'', ''list-children'', ''list-recursively'', ''writable''],
     Star (rx_cat [spaces1, gsettings_token]), spaces, eos]"

subsection \<open>Clauses and lines\<close>

definition is_benign_git_verb :: "pystr \<Rightarrow> bool" where
  "is_benign_git_verb clause =
     (case py_split (py_strip clause) of
        w0 # w1 # _ \<Rightarrow> py_lower w0 = u ''git'' \<and> py_lower w1 = u ''checkout''
      | _ \<Rightarrow> False)"

definition is_safe_clause :: "pystr \<Rightarrow> bool" where
  "is_safe_clause clause =
     (if rx_fullmatch command_query_re clause then True
      else if rx_fullmatch read_only_gsettings_re clause then True
      else case py_split (py_strip clause) of
        [] \<Rightarrow> False
      | w0 # ws \<Rightarrow>
          (let head = py_lower w0 in
           if head = u ''git''
           then (let sub = (case ws of [] \<Rightarrow> [] | w1 # _ \<Rightarrow> py_lower w1)
                 in sub \<in> set (map u safe_git_subcommands))
           else head \<in> set (map u safe_commands)))"

definition matches_dangerous :: "pystr \<Rightarrow> bool" where
  "matches_dangerous s = list_ex (\<lambda>r. rx_search r s) dangerous_command_re"

definition classify_clause :: "pystr \<Rightarrow> command_risk" where
  "classify_clause clause =
     (if \<not> is_benign_git_verb clause \<and> rx_search side_effect_re clause then CR_side_effect
      else if matches_dangerous clause then CR_dangerous
      else if is_safe_clause clause then CR_safe else CR_medium)"

definition precedence :: "command_risk \<Rightarrow> nat" where
  "precedence r = (case r of CR_safe \<Rightarrow> 0 | CR_medium \<Rightarrow> 1 | CR_dangerous \<Rightarrow> 2 | CR_side_effect \<Rightarrow> 3)"

definition clauses_of :: "pystr \<Rightarrow> pystr list" where
  "clauses_of trimmed = filter (\<lambda>c. c \<noteq> []) (rx_split clause_split_re trimmed)"

fun worst_clause :: "command_risk \<Rightarrow> pystr list \<Rightarrow> command_risk" where
  "worst_clause worst [] = worst"
| "worst_clause worst (c # cs) =
     (let risk = classify_clause c
      in worst_clause (if precedence worst < precedence risk then risk else worst) cs)"

definition classify_command :: "pystr \<Rightarrow> command_risk" where
  "classify_command text =
     (let trimmed = py_strip text in
      if trimmed = [] then CR_medium
      else let clauses = clauses_of trimmed in
      if clauses = [] then CR_medium
      else let worst = worst_clause CR_safe clauses in
      if precedence worst < precedence CR_dangerous \<and> matches_dangerous trimmed
      then CR_dangerous else worst)"

definition requires_strict_verification :: "pystr \<Rightarrow> bool" where
  "requires_strict_verification text = list_ex (\<lambda>ch. ch \<in> set high_risk_chars) text"

subsection \<open>The riskiest clause wins\<close>

instantiation command_risk :: linorder
begin

definition less_eq_command_risk :: "command_risk \<Rightarrow> command_risk \<Rightarrow> bool" where
  "less_eq_command_risk a b = (precedence a \<le> precedence b)"

definition less_command_risk :: "command_risk \<Rightarrow> command_risk \<Rightarrow> bool" where
  "less_command_risk a b = (precedence a < precedence b)"

instance
proof
  fix a b c :: command_risk
  show "(a < b) = (a \<le> b \<and> \<not> b \<le> a)"
    by (auto simp: less_command_risk_def less_eq_command_risk_def)
  show "a \<le> a" by (simp add: less_eq_command_risk_def)
  show "a \<le> b \<Longrightarrow> b \<le> c \<Longrightarrow> a \<le> c" by (simp add: less_eq_command_risk_def)
  show "a \<le> b \<Longrightarrow> b \<le> a \<Longrightarrow> a = b"
    by (cases a; cases b; simp add: less_eq_command_risk_def precedence_def)
  show "a \<le> b \<or> b \<le> a" by (auto simp: less_eq_command_risk_def)
qed

end

lemmas risk_order_defs = less_command_risk_def less_eq_command_risk_def precedence_def

lemma CR_safe_least [simp]: "CR_safe \<le> r"
  by (simp add: risk_order_defs)

lemma CR_side_effect_greatest [simp]: "r \<le> CR_side_effect"
  by (cases r) (simp_all add: risk_order_defs)

lemma dangerous_le_iff: "CR_dangerous \<le> r \<longleftrightarrow> r = CR_dangerous \<or> r = CR_side_effect"
  by (cases r) (simp_all add: risk_order_defs)

lemma worst_clause_eq: "worst_clause w cs = fold max (map classify_clause cs) w"
proof (induction w cs rule: worst_clause.induct)
  case (1 w)
  then show ?case by simp
next
  case (2 w c cs)
  have "(if precedence w < precedence (classify_clause c) then classify_clause c else w)
        = max (classify_clause c) w"
    by (auto simp: max_def less_eq_command_risk_def)
  with 2 show ?case by (simp add: Let_def)
qed

lemma worst_clause_le_iff:
  "worst_clause w cs \<le> r \<longleftrightarrow> w \<le> r \<and> (\<forall>c \<in> set cs. classify_clause c \<le> r)"
  unfolding worst_clause_eq by (induction cs arbitrary: w) auto

lemma worst_clause_ge_iff:
  "r \<le> worst_clause w cs \<longleftrightarrow> r \<le> w \<or> (\<exists>c \<in> set cs. r \<le> classify_clause c)"
  unfolding worst_clause_eq by (induction cs arbitrary: w) (auto simp: le_max_iff_disj)

lemma classify_command_alt:
  "classify_command text =
     (if clauses_of (py_strip text) = [] \<or> py_strip text = [] then CR_medium
      else if matches_dangerous (py_strip text)
      then max CR_dangerous (worst_clause CR_safe (clauses_of (py_strip text)))
      else worst_clause CR_safe (clauses_of (py_strip text)))"
  by (auto simp: classify_command_def Let_def max_def risk_order_defs split: command_risk.splits)

lemma classify_command_dangerous:
  assumes "py_strip text \<noteq> []" "clauses_of (py_strip text) \<noteq> []"
    and "matches_dangerous (py_strip text)"
  shows "CR_dangerous \<le> classify_command text"
  using assms by (simp add: classify_command_alt)

lemma classify_clause_safeD:
  "classify_clause c = CR_safe \<Longrightarrow>
     is_safe_clause c \<and> \<not> matches_dangerous c
     \<and> (rx_search side_effect_re c \<longrightarrow> is_benign_git_verb c)"
  by (auto simp: classify_clause_def split: if_splits)

text \<open>A line that starts with neither white space nor a separator has a first clause.\<close>

lemma clause_split_no_start:
  "\<not> is_space c \<Longrightarrow> c \<noteq> 124 \<Longrightarrow> c \<noteq> 38 \<Longrightarrow> c \<noteq> 59 \<Longrightarrow> rx_ends clause_split_re (l, c # s) = []"
  by (simp add: clause_split_re_def rx_defs star_ends.simps u_def)

lemma clauses_of_nonempty:
  assumes "\<not> is_space c" "c \<noteq> 124" "c \<noteq> 38" "c \<noteq> 59"
  shows "clauses_of (c # s) \<noteq> []"
proof (cases "rx_find clause_split_re None (c # s)")
  case None
  then have "rx_split clause_split_re (c # s) = [c # s]"
    by (simp add: rx_split_def rx_pieces.simps)
  then show ?thesis by (simp add: clauses_of_def)
next
  case (Some t)
  obtain pre m q where t: "t = (pre, m, q)" by (cases t)
  with Some assms obtain pre' where "pre = c # pre'"
    by (auto simp: clause_split_no_start split: option.splits)
  moreover have "\<exists>ws. rx_split clause_split_re (c # s) = pre # ws
      \<or> rx_split clause_split_re (c # s) = (c # s) # ws"
    using Some t by (auto simp: rx_split_def rx_pieces.simps [of _ None "c # s"] split: prod.splits)
  ultimately show ?thesis by (auto simp: clauses_of_def)
qed

subsection \<open>Properties\<close>

text \<open>
  The riskiest clause decides: a non-blank command line is a side effect exactly when one of
  its clauses is; it is dangerous exactly when no clause is a side effect and a clause, or the
  whole line (for shapes that span a pipe), matches a dangerous shape.
\<close>

theorem classify_command_riskiest:
  assumes "clauses_of (py_strip text) \<noteq> []" "py_strip text \<noteq> []"
  shows "(classify_command text = CR_side_effect \<longleftrightarrow>
            (\<exists>c \<in> set (clauses_of (py_strip text)). classify_clause c = CR_side_effect))
       \<and> (classify_command text = CR_dangerous \<longleftrightarrow>
            (\<forall>c \<in> set (clauses_of (py_strip text)). classify_clause c \<noteq> CR_side_effect)
            \<and> (matches_dangerous (py_strip text)
               \<or> (\<exists>c \<in> set (clauses_of (py_strip text)). classify_clause c = CR_dangerous)))"
proof -
  let ?cs = "clauses_of (py_strip text)" and ?w = "worst_clause CR_safe (clauses_of (py_strip text))"
  have se: "?w = CR_side_effect \<longleftrightarrow> (\<exists>c \<in> set ?cs. classify_clause c = CR_side_effect)"
    using worst_clause_ge_iff [of CR_side_effect CR_safe ?cs]
    by (auto simp: antisym_conv)
       (metis CR_side_effect_greatest antisym_conv command_risk.distinct(5))+
  have da: "?w = CR_dangerous \<or> ?w = CR_side_effect \<longleftrightarrow>
      (\<exists>c \<in> set ?cs. classify_clause c = CR_dangerous \<or> classify_clause c = CR_side_effect)"
    using worst_clause_ge_iff [of CR_dangerous CR_safe ?cs] by (simp add: dangerous_le_iff)
  have "classify_command text =
      (if matches_dangerous (py_strip text) then max CR_dangerous ?w else ?w)"
    using assms by (simp add: classify_command_alt)
  then show ?thesis
    using se da by (cases ?w) (auto simp: max_def risk_order_defs)
qed

theorem classify_command_riskiest_witness:
  "classify_command (u ''ls; rm -rf x'') = CR_dangerous
   \<and> \<not> (\<exists>c \<in> set (clauses_of (py_strip (u ''ls; rm -rf x''))). classify_clause c = CR_side_effect)"
proof -
  have h: "clauses_of (py_strip (u ''ls; rm -rf x'')) \<noteq> []" "py_strip (u ''ls; rm -rf x'') \<noteq> []"
    by code_simp+
  have "classify_command (u ''ls; rm -rf x'') = CR_dangerous" by code_simp
  with classify_command_riskiest [OF h] show ?thesis by blast
qed

text \<open>
  C13. A line reported safe is read-only throughout: every clause is on the read-only lists, no
  clause and not the line as a whole matches a dangerous shape, and the only clauses with a
  side-effect verb are git checkouts.
\<close>

theorem classify_command_safe_sound:
  assumes "classify_command text = CR_safe"
  shows "\<not> matches_dangerous (py_strip text) \<and> clauses_of (py_strip text) \<noteq> []
    \<and> (\<forall>c \<in> set (clauses_of (py_strip text)).
         is_safe_clause c \<and> \<not> matches_dangerous c
         \<and> (rx_search side_effect_re c \<longrightarrow> is_benign_git_verb c))"
proof -
  let ?cs = "clauses_of (py_strip text)"
  from assms have ne: "?cs \<noteq> []" "py_strip text \<noteq> []"
    by (auto simp: classify_command_alt split: if_splits)
  with assms have nd: "\<not> matches_dangerous (py_strip text)"
    by (auto simp: classify_command_alt max_def risk_order_defs split: if_splits)
  with assms ne have "worst_clause CR_safe ?cs \<le> CR_safe"
    by (simp add: classify_command_alt)
  then have "\<forall>c \<in> set ?cs. classify_clause c = CR_safe"
    by (auto simp: worst_clause_le_iff antisym_conv)
  with ne nd show ?thesis by (blast dest: classify_clause_safeD)
qed

theorem classify_command_safe_sound_witness:
  "is_safe_clause (u ''git status'') \<and> \<not> matches_dangerous (u ''git status | grep foo'')"
proof -
  have h: "classify_command (u ''git status | grep foo'') = CR_safe" by code_simp
  have c: "u ''git status'' \<in> set (clauses_of (py_strip (u ''git status | grep foo'')))"
    and s: "py_strip (u ''git status | grep foo'') = u ''git status | grep foo''" by code_simp+
  from classify_command_safe_sound [OF h] c s show ?thesis by metis
qed

text \<open>Two shapes matched in a subject that is only partly known.\<close>

lemma rm_rf_matches: "rx_search re_rm_flag (u ''rm -rf'' @ t)"
proof -
  let ?r = "u ''f'' @ t"
  have 1: "rx_rel wb (None, u ''rm'' @ u '' '' @ u ''-'' @ [114] @ ?r) (None, u ''rm'' @ u '' '' @ u ''-'' @ [114] @ ?r)"
    by (rule rx_rel_wb) (simp add: prev_word_def next_word_def u_def char_class_defs)
  have 2: "rx_rel (lit_ci ''rm'') (None, u ''rm'' @ s) (adv None (u ''rm''), s)" for s
    by (rule rx_rel_lit_ci) simp
  have 3: "rx_rel spaces1 (l, u '' '' @ s) (adv l (u '' ''), s)" for l s
    unfolding spaces1_def space_def
    by (rule rx_rel_plus_chars) (simp_all add: u_def is_space_def)
  have 4: "rx_rel (lit_ci ''-'') (l, u ''-'' @ s) (adv l (u ''-''), s)" for l s
    by (rule rx_rel_lit_ci) simp
  have 5: "rx_rel (Star az_ci) p p" for p by (rule r_star0)
  have 6: "rx_rel (cls_ci ''rf'') (l, [114] @ s) (Some 114, s)" for l s
    by (simp add: cls_ci_def u_def lower1_def is_upper_ascii_def r_chr)
  have "rx_rel re_rm_flag (None, u ''rm'' @ u '' '' @ u ''-'' @ [114] @ ?r) (Some 114, ?r)"
    unfolding re_rm_flag_def by (rule rx_cat_steps 1 2 3 4 5 6)+
  moreover have "u ''rm'' @ u '' '' @ u ''-'' @ [114] @ ?r = u ''rm -rf'' @ t"
    by (simp add: u_def)
  ultimately show ?thesis
    using rx_search_intro [of re_rm_flag "[]"] by (metis adv_simps(1) append_Nil)
qed

lemma curl_pipe_sh_matches:
  assumes "10 \<notin> set arg"
  shows "rx_search re_pipe_shell (u ''curl '' @ arg @ u '' | sh'')"
proof -
  let ?x = "u '' '' @ arg @ u '' ''"
  let ?t = "u ''curl'' @ ?x @ u ''|'' @ u '' '' @ u ''sh'' @ []"
  have 1: "rx_rel wb (None, ?t) (None, ?t)"
    by (rule rx_rel_wb) (simp add: prev_word_def next_word_def u_def char_class_defs)
  have 2: "rx_rel (words_ci [''curl'', ''wget'']) (l, u ''curl'' @ s) (adv l (u ''curl''), s)" for l s
    by (rule rx_rel_words_ci) auto
  have 3: "rx_rel wb (adv l (u ''curl''), ?x @ s) (adv l (u ''curl''), ?x @ s)" for l s
    by (rule rx_rel_wb) (simp add: prev_word_def next_word_def u_def char_class_defs adv_def)
  have 4: "rx_rel (plus dot) (l, ?x @ s) (adv l ?x, s)" for l s
    unfolding dot_def by (rule rx_rel_plus_chars) (use assms in \<open>auto simp: u_def\<close>)
  have 5: "rx_rel (lit ''|'') (l, u ''|'' @ s) (adv l (u ''|''), s)" for l s
    by (rule rx_rel_lit)
  have 6: "rx_rel spaces (l, u '' '' @ s) (adv l (u '' ''), s)" for l s
    unfolding spaces_def space_def by (rule rx_rel_star_chars) (simp add: u_def is_space_def)
  have 7: "rx_rel (opt r) p p" for r p by (rule rx_rel_opt_skip)
  have 8: "rx_rel (lit_ci ''sh'') (l, u ''sh'' @ s) (adv l (u ''sh''), s)" for l s
    by (rule rx_rel_lit_ci) simp
  have 9: "rx_rel wb (adv l (u ''sh''), []) (adv l (u ''sh''), [])" for l
    by (rule rx_rel_wb) (simp add: prev_word_def next_word_def u_def char_class_defs adv_def)
  have "\<exists>q. rx_rel re_pipe_shell (None, ?t) q"
    unfolding re_pipe_shell_def by (rule exI) (rule rx_cat_steps 1 2 3 4 5 6 7 8 9)+
  moreover have "?t = u ''curl '' @ arg @ u '' | sh''"
    by (simp add: u_def)
  ultimately show ?thesis
    using rx_search_intro [of re_pipe_shell "[]"] by (metis adv_simps(1) append_Nil)
qed

text \<open>
  Whatever follows it, a line that starts with \<open>rm -rf\<close> is at least dangerous, and so is any
  download piped to a shell: \<open>curl\<close> with any one-line arguments.
\<close>

theorem rm_rf_and_pipe_to_shell_dangerous:
  "CR_dangerous \<le> classify_command (u ''rm -rf'' @ rest)
   \<and> (10 \<notin> set arg \<longrightarrow> CR_dangerous \<le> classify_command (u ''curl '' @ arg @ u '' | sh''))"
proof (intro conjI impI)
  have st: "py_strip (u ''rm -rf'' @ rest) = u ''rm -rf'' @ py_rstrip rest"
    by (rule py_strip_append_nonspace) (simp_all add: u_def is_space_def)
  have "matches_dangerous (u ''rm -rf'' @ py_rstrip rest)"
    using rm_rf_matches by (simp add: matches_dangerous_def dangerous_command_re_def)
  moreover have "clauses_of (u ''rm -rf'' @ py_rstrip rest) \<noteq> []"
    by (simp add: u_def clauses_of_nonempty is_space_def)
  ultimately show "CR_dangerous \<le> classify_command (u ''rm -rf'' @ rest)"
    by (intro classify_command_dangerous) (simp_all add: st)
next
  assume nl: "10 \<notin> set arg"
  let ?t = "u ''curl '' @ arg @ u '' | sh''"
  have "py_strip ((u ''curl '' @ arg @ u '' | sh'') @ []) = ?t @ py_rstrip []"
    by (rule py_strip_append_nonspace) (simp_all add: u_def is_space_def)
  then have st: "py_strip ?t = ?t" by (simp add: py_rstrip_def)
  have "matches_dangerous ?t"
    using curl_pipe_sh_matches [OF nl] by (simp add: matches_dangerous_def dangerous_command_re_def)
  moreover have "clauses_of ?t \<noteq> []"
    by (simp add: u_def clauses_of_nonempty is_space_def)
  ultimately show "CR_dangerous \<le> classify_command ?t"
    by (intro classify_command_dangerous) (simp_all add: st)
qed

theorem rm_rf_and_pipe_to_shell_dangerous_witness:
  "CR_dangerous \<le> classify_command (u ''curl '' @ u ''http://h'' @ u '' | sh'')"
proof -
  have "10 \<notin> set (u ''http://h'')" by (simp add: u_def)
  with rm_rf_and_pipe_to_shell_dangerous [of "[]" "u ''http://h''"] show ?thesis by blast
qed

end
