(* ===== verification/SafetyPolicy.thy ===== *)
theory SafetyPolicy
  imports Models CommandRisk
begin

text \<open>
  \<open>policy/safety.py\<close> and \<open>policy/approvals.py\<close>: the local risk of a decision, the policy gate
  (freshness, hard block, human gate, in this order), the modes that refuse typed text, approval
  requests and the re-check after a human answered. The configured category lists are lists of
  strings, as in \<open>PolicyConfig\<close>.
\<close>

record policy_config =
  pc_require_human_for :: "string list"
  pc_always_block :: "string list"

definition default_policy_config :: policy_config where
  "default_policy_config = \<lparr>
     pc_require_human_for =
       [''communication_send'', ''credential_entry'', ''sensitive_data_transmit'',
        ''account_or_permission_change'', ''software_installation'', ''system_setting_change'',
        ''power_or_firmware'', ''disk_or_partition'', ''financial_or_purchase'',
        ''legal_or_consent'', ''unknown'', ''terminal_mutating'', ''sudo'', ''delete'',
        ''local_file_edit'', ''file_external_upload''],
     pc_always_block =
       [''format_disk'', ''partition_disk'', ''erase'', ''firmware_update'', ''disable_security'',
        ''copy_secret'', ''submit_payment'']\<rparr>"

definition category_name :: "risk_category \<Rightarrow> string" where
  "category_name c = (case c of
       Navigation \<Rightarrow> ''navigation''
     | Text_entry \<Rightarrow> ''text_entry''
     | Read_only_inspection \<Rightarrow> ''read_only_inspection''
     | Local_file_edit \<Rightarrow> ''local_file_edit''
     | Terminal_read_only \<Rightarrow> ''terminal_read_only''
     | Terminal_mutating \<Rightarrow> ''terminal_mutating''
     | Communication_draft \<Rightarrow> ''communication_draft''
     | Communication_send \<Rightarrow> ''communication_send''
     | Credential_entry \<Rightarrow> ''credential_entry''
     | Sensitive_data_view \<Rightarrow> ''sensitive_data_view''
     | Sensitive_data_transmit \<Rightarrow> ''sensitive_data_transmit''
     | Account_or_permission_change \<Rightarrow> ''account_or_permission_change''
     | Software_installation \<Rightarrow> ''software_installation''
     | System_setting_change \<Rightarrow> ''system_setting_change''
     | Power_or_firmware \<Rightarrow> ''power_or_firmware''
     | Disk_or_partition \<Rightarrow> ''disk_or_partition''
     | Financial_or_purchase \<Rightarrow> ''financial_or_purchase''
     | Legal_or_consent \<Rightarrow> ''legal_or_consent''
     | Unknown_category \<Rightarrow> ''unknown'')"

subsection \<open>Local risk\<close>

record local_risk =
  lr_level :: risk_level
  lr_category :: risk_category
  lr_requires_human :: bool
  lr_blocked :: bool
  lr_reason :: pystr

text \<open>\<open>a or b\<close> on strings.\<close>

definition str_or :: "pystr \<Rightarrow> pystr \<Rightarrow> pystr" where
  "str_or a b = (if a \<noteq> [] then a else b)"

fun typed_texts :: "action list \<Rightarrow> pystr list" where
  "typed_texts [] = []"
| "typed_texts (TypeText t # as) = t # typed_texts as"
| "typed_texts (_ # as) = typed_texts as"

definition classify_local_risk :: "policy_config \<Rightarrow> operator_decision \<Rightarrow> local_risk" where
  "classify_local_risk cfg dec =
     (let category0 = ra_category (dec_risk dec);
          level0 = ra_level (dec_risk dec);
          reason0 = ra_reason (dec_risk dec);
          human0 = ra_requires_human (dec_risk dec);
          cmd_risks = map classify_command (typed_texts (dec_actions dec));
          (category, level, human1, reason1) =
            (if CR_dangerous \<in> set cmd_risks
             then (Terminal_mutating, High, True,
                   str_or reason0 (u ''dangerous shell command in type_text''))
             else if CR_side_effect \<in> set cmd_risks
             then (category0, if level0 = Low then Medium else level0, True,
                   str_or reason0
                     (u ''side-effecting command in type_text requires human approval''))
             else (category0, level0, human0, reason0));
          listed = category_name category \<in> set (pc_require_human_for cfg);
          human = (human1 \<or> listed);
          reason2 = (if listed then str_or reason1
                       (u ''category '' @ [39] @ u (category_name category) @ [39]
                        @ u '' always requires human approval'') else reason1);
          blocked = (category_name category \<in> set (pc_always_block cfg));
          reason = (if blocked then str_or reason2
                      (u ''category '' @ [39] @ u (category_name category) @ [39]
                       @ u '' is blocked by policy'') else reason2)
      in \<lparr>lr_level = level, lr_category = category, lr_requires_human = human,
          lr_blocked = blocked, lr_reason = reason\<rparr>)"

subsection \<open>The gate\<close>

definition policy_gate ::
  "policy_config \<Rightarrow> operator_decision \<Rightarrow> int \<Rightarrow> int \<Rightarrow> bool \<Rightarrow> policy_result" where
  "policy_gate cfg dec current_frame_id current_world_version approved =
     (if dec_frame_id dec \<noteq> current_frame_id
      then \<lparr>pr_status = Blocked, pr_category = None, pr_level = None, pr_requires_human = False,
            pr_blocked = True, pr_reason = u ''stale_frame''\<rparr>
      else if dec_world_version dec \<noteq> current_world_version
      then \<lparr>pr_status = Blocked, pr_category = None, pr_level = None, pr_requires_human = False,
            pr_blocked = True, pr_reason = u ''stale_world''\<rparr>
      else let risk = classify_local_risk cfg dec in
      if lr_blocked risk
      then \<lparr>pr_status = Blocked, pr_category = Some (lr_category risk),
            pr_level = Some (lr_level risk), pr_requires_human = False, pr_blocked = True,
            pr_reason = str_or (lr_reason risk) (u ''blocked by policy'')\<rparr>
      else if lr_requires_human risk \<and> \<not> approved
      then \<lparr>pr_status = Approval_required, pr_category = Some (lr_category risk),
            pr_level = Some (lr_level risk), pr_requires_human = True, pr_blocked = False,
            pr_reason = str_or (lr_reason risk) (u ''human approval required'')\<rparr>
      else \<lparr>pr_status = Allowed, pr_category = Some (lr_category risk),
            pr_level = Some (lr_level risk), pr_requires_human = False, pr_blocked = False,
            pr_reason = lr_reason risk\<rparr>)"

text \<open>\<open>_TYPE_TEXT_BLOCKED_MODES\<close> with its reasons.\<close>

definition type_text_blocked_modes :: "ui_mode \<Rightarrow> pystr option" where
  "type_text_blocked_modes m = (case m of
       M_terminal_pager \<Rightarrow>
         Some (u ''type_text blocked in a terminal pager (keystrokes are pager commands)'')
     | M_credential_prompt \<Rightarrow> Some (u ''type_text blocked at a credential prompt (human-only)'')
     | M_captcha_or_human_verification \<Rightarrow>
         Some (u ''type_text blocked during human verification (captcha)'')
     | M_unknown \<Rightarrow> Some (u ''type_text blocked in unknown mode (target not identified)'')
     | _ \<Rightarrow> None)"

definition action_allowed_in_mode :: "action_type \<Rightarrow> ui_mode \<Rightarrow> bool \<times> pystr" where
  "action_allowed_in_mode t m =
     (if t = T_type_text
      then (case type_text_blocked_modes m of Some r \<Rightarrow> (False, r) | None \<Rightarrow> (True, []))
      else (True, []))"

subsection \<open>Approvals\<close>

text \<open>The identifier is drawn by \<open>uuid4\<close> and is an argument.\<close>

definition make_approval_request ::
  "pystr \<Rightarrow> pystr \<Rightarrow> operator_decision \<Rightarrow> int \<Rightarrow> int \<Rightarrow> pystr option \<Rightarrow> approval_request" where
  "make_approval_request new_id session_id dec frame_id world_version screenshot =
     \<lparr>ap_id = new_id, ap_session = session_id, ap_frame_id = frame_id,
      ap_world_version = world_version, ap_risk = ra_category (dec_risk dec),
      ap_reason = str_or (ra_reason (dec_risk dec))
        (u ''category '' @ [39] @ u (category_name (ra_category (dec_risk dec))) @ [39]
         @ u '' requires approval''),
      ap_proposed = dec, ap_screenshot = screenshot\<rparr>"

definition response_type_name :: "response_type \<Rightarrow> string" where
  "response_type_name t = (case t of R_approve \<Rightarrow> ''approve'' | R_edit \<Rightarrow> ''edit''
     | R_reject \<Rightarrow> ''reject'' | R_respond \<Rightarrow> ''respond'' | R_abort \<Rightarrow> ''abort''
     | R_take_over \<Rightarrow> ''take_over'')"

definition recheck_after_approval ::
  "policy_config \<Rightarrow> approval_response \<Rightarrow> operator_decision \<Rightarrow> int \<Rightarrow> int \<Rightarrow> policy_result" where
  "recheck_after_approval cfg response dec current_frame_id current_world_version =
     (if rs_type response \<in> {R_reject, R_abort}
      then \<lparr>pr_status = Blocked, pr_category = None, pr_level = None, pr_requires_human = False,
            pr_blocked = True,
            pr_reason = (case rs_reason response of
                Some r \<Rightarrow> str_or r (u ''human '' @ u (response_type_name (rs_type response)))
              | None \<Rightarrow> u ''human '' @ u (response_type_name (rs_type response)))\<rparr>
      else policy_gate cfg dec current_frame_id current_world_version True)"

subsection \<open>The contract of a gate\<close>

text \<open>
  What the executing graph relies on: a gate over decisions with a hard block and a human
  requirement. Every law is a fact about one call of the gate.
\<close>

locale guarded_gate =
  fixes gate :: "operator_decision \<Rightarrow> int \<Rightarrow> int \<Rightarrow> bool \<Rightarrow> policy_result"
    and hard :: "operator_decision \<Rightarrow> bool"
    and human :: "operator_decision \<Rightarrow> bool"
  assumes stale: "dec_frame_id d \<noteq> f \<or> dec_world_version d \<noteq> w \<Longrightarrow> pr_status (gate d f w a) = Blocked"
    and hard_block: "hard d \<Longrightarrow> pr_status (gate d f w a) = Blocked"
    and held: "dec_frame_id d = f \<Longrightarrow> dec_world_version d = w \<Longrightarrow> \<not> hard d \<Longrightarrow> human d \<Longrightarrow>
                 pr_status (gate d f w False) = Approval_required"
    and cleared: "dec_frame_id d = f \<Longrightarrow> dec_world_version d = w \<Longrightarrow> \<not> hard d \<Longrightarrow> a \<or> \<not> human d \<Longrightarrow>
                 pr_status (gate d f w a) = Allowed"
begin

lemma gate_status:
  "pr_status (gate d f w a) =
     (if dec_frame_id d \<noteq> f \<or> dec_world_version d \<noteq> w \<or> hard d then Blocked
      else if human d \<and> \<not> a then Approval_required else Allowed)"
proof -
  consider (stale) "dec_frame_id d \<noteq> f \<or> dec_world_version d \<noteq> w" | (hard) "hard d"
    | (held) "dec_frame_id d = f" "dec_world_version d = w" "\<not> hard d" "human d" "\<not> a"
    | (cleared) "dec_frame_id d = f" "dec_world_version d = w" "\<not> hard d" "a \<or> \<not> human d"
    by blast
  then show ?thesis
  proof cases
    case stale
    then show ?thesis using guarded_gate.stale [OF guarded_gate_axioms, of d f w a] by auto
  next
    case hard
    then show ?thesis using hard_block by simp
  next
    case held
    then show ?thesis using guarded_gate.held [OF guarded_gate_axioms, of d f w] by simp
  next
    case cleared
    then show ?thesis using guarded_gate.cleared [OF guarded_gate_axioms, of d f w a] by auto
  qed
qed

lemma allowed_iff:
  "pr_status (gate d f w a) = Allowed \<longleftrightarrow>
     dec_frame_id d = f \<and> dec_world_version d = w \<and> \<not> hard d \<and> (human d \<longrightarrow> a)"
  by (auto simp: gate_status)

lemma approval_required_iff:
  "pr_status (gate d f w a) = Approval_required \<longleftrightarrow>
     dec_frame_id d = f \<and> dec_world_version d = w \<and> \<not> hard d \<and> human d \<and> \<not> a"
  by (auto simp: gate_status)

lemma approval_only_lifts_human:
  "pr_status (gate d f w False) = Blocked \<longleftrightarrow> pr_status (gate d f w True) = Blocked"
  by (auto simp: gate_status)

end

lemma policy_gate_status:
  "pr_status (policy_gate cfg d f w a) =
     (if dec_frame_id d \<noteq> f \<or> dec_world_version d \<noteq> w \<or> lr_blocked (classify_local_risk cfg d)
      then Blocked
      else if lr_requires_human (classify_local_risk cfg d) \<and> \<not> a then Approval_required
      else Allowed)"
  by (simp add: policy_gate_def Let_def)

interpretation safety: guarded_gate "policy_gate cfg"
  "\<lambda>d. lr_blocked (classify_local_risk cfg d)"
  "\<lambda>d. lr_requires_human (classify_local_risk cfg d)" for cfg
  by unfold_locales (auto simp: policy_gate_status)

subsection \<open>Facts about the local risk\<close>

lemma in_typed_texts_iff: "t \<in> set (typed_texts as) \<longleftrightarrow> TypeText t \<in> set as"
  by (induction as rule: typed_texts.induct) auto

abbreviation cmd_risks :: "operator_decision \<Rightarrow> command_risk set" where
  "cmd_risks d \<equiv> classify_command ` set (typed_texts (dec_actions d))"

lemma local_risk_category:
  "lr_category (classify_local_risk cfg d) =
     (if CR_dangerous \<in> cmd_risks d then Terminal_mutating else ra_category (dec_risk d))"
  by (simp add: classify_local_risk_def Let_def)

lemma local_risk_blocked:
  "lr_blocked (classify_local_risk cfg d) \<longleftrightarrow>
     category_name (lr_category (classify_local_risk cfg d)) \<in> set (pc_always_block cfg)"
  by (simp add: classify_local_risk_def Let_def)

lemma local_risk_human:
  "lr_requires_human (classify_local_risk cfg d) \<longleftrightarrow>
     CR_dangerous \<in> cmd_risks d \<or> CR_side_effect \<in> cmd_risks d
     \<or> ra_requires_human (dec_risk d)
     \<or> category_name (ra_category (dec_risk d)) \<in> set (pc_require_human_for cfg)"
  by (auto simp: classify_local_risk_def Let_def)

lemma local_risk_level_raises: "ra_level (dec_risk d) \<le> lr_level (classify_local_risk cfg d)"
  by (auto simp: classify_local_risk_def Let_def less_eq_risk_level_def level_rank_def
      split: risk_level.splits)

lemmas local_risk_facts = local_risk_category local_risk_blocked local_risk_human

lemma dangerous_text_requires_human:
  "TypeText t \<in> set (dec_actions d) \<Longrightarrow> CR_dangerous \<le> classify_command t \<Longrightarrow>
     lr_requires_human (classify_local_risk cfg d)"
  unfolding in_typed_texts_iff [symmetric] local_risk_human dangerous_le_iff by force

subsection \<open>Properties\<close>


definition sample_decision :: "action list \<Rightarrow> operator_decision" where
  "sample_decision as = \<lparr>dec_frame_id = 3, dec_world_version = 2, dec_intent = u ''work'',
     dec_state_assessment = [],
     dec_risk = \<lparr>ra_level = Low, ra_category = Text_entry, ra_requires_human = False,
                 ra_reason = []\<rparr>,
     dec_actions = as, dec_postconditions = []\<rparr>"


text \<open>
  C19. Typed text is judged by what it says: whatever risk the operator declares, and whatever the
  configuration, a decision that types a command line classified dangerous or side-effecting is
  never allowed without a human's approval.
\<close>

theorem dangerous_typing_never_unapproved:
  assumes "TypeText t \<in> set (dec_actions d)" "CR_dangerous \<le> classify_command t"
  shows "pr_status (policy_gate cfg d f w False) \<noteq> Allowed"
proof -
  have "lr_requires_human (classify_local_risk cfg d)"
    using assms by (rule dangerous_text_requires_human)
  then show ?thesis by (simp add: safety.gate_status)
qed

theorem dangerous_typing_never_unapproved_witness:
  "pr_status (policy_gate default_policy_config
     (sample_decision [TypeText (u ''rm -rf /'')]) 3 2 False) \<noteq> Allowed"
proof -
  have "CR_dangerous \<le> classify_command (u ''rm -rf /'')" by code_simp
  then show ?thesis
    by (intro dangerous_typing_never_unapproved [of "u ''rm -rf /''"])
       (simp_all add: sample_decision_def)
qed

text \<open>
  Approval is not a force-execute: after a human's answer a decision is allowed only if the
  answer is neither a reject nor an abort, the decision still cites the current frame and world,
  and its category is not hard-blocked.
\<close>

theorem recheck_after_approval_allowed:
  "pr_status (recheck_after_approval cfg r d f w) = Allowed \<longleftrightarrow>
     rs_type r \<noteq> R_reject \<and> rs_type r \<noteq> R_abort \<and> dec_frame_id d = f \<and> dec_world_version d = w
     \<and> \<not> lr_blocked (classify_local_risk cfg d)"
  by (auto simp: recheck_after_approval_def safety.allowed_iff)

text \<open>
  With the default configuration nothing is ever hard-blocked: no name on the default
  always-block list is a risk category a decision can carry, so a fresh decision is either
  allowed or held for approval.
\<close>

theorem default_always_block_is_inert:
  "\<not> lr_blocked (classify_local_risk default_policy_config d)
   \<and> pr_status (policy_gate default_policy_config d (dec_frame_id d) (dec_world_version d) a)
       \<noteq> Blocked"
proof -
  have "category_name c \<notin> set (pc_always_block default_policy_config)" for c
    by (cases c) (simp_all add: category_name_def default_policy_config_def)
  then show ?thesis by (simp add: local_risk_blocked safety.gate_status)
qed

text \<open>
  A side-effect verb masks a dangerous command from a hard block: with mutating terminal
  commands blocked outright, typing \<open>rm -rf /\<close> is blocked even with approval, but the same command
  followed by \<open>; echo post\<close> is classified a side effect, keeps the declared category and goes
  through once approved.
\<close>

theorem side_effect_masks_hard_block:
  "let cfg = \<lparr>pc_require_human_for = [], pc_always_block = [''terminal_mutating'']\<rparr> in
     pr_status (policy_gate cfg (sample_decision [TypeText (u ''rm -rf /'')]) 3 2 True) = Blocked
   \<and> pr_status (policy_gate cfg (sample_decision [TypeText (u ''rm -rf / ; echo post'')]) 3 2 True)
       = Allowed"
proof -
  have "classify_command (u ''rm -rf /'') = CR_dangerous"
    "classify_command (u ''rm -rf / ; echo post'') = CR_side_effect" by code_simp+
  then show ?thesis
    by (simp add: Let_def safety.gate_status local_risk_facts sample_decision_def category_name_def)
qed

end
