(* ===== verification/FrameStore.thy ===== *)
theory FrameStore
  imports Models
begin

text \<open>
  \<open>vision/frame_diff.py\<close> and \<open>store/frames.py\<close>: fingerprints and their comparison, and the frame
  store that numbers captures and versions the world. A fingerprint is the list of its bytes;
  decoding and shrinking the picture is outside the model, so a capture takes the fingerprint of
  its pixels. The comparisons are over exact rationals where the code uses floats.
\<close>

type_synonym fp = "int list"

definition fp_size :: nat where "fp_size = 16"
definition fp_meaningful :: rat where "fp_meaningful = 5 / 100"
definition fp_cell_delta :: rat where "fp_cell_delta = 10 / 100"
definition fp_cell_meaningful_fraction :: rat where "fp_cell_meaningful_fraction = 8 / 100"

subsection \<open>Fingerprint comparison\<close>

definition cell_diffs :: "fp \<Rightarrow> fp \<Rightarrow> int list" where
  "cell_diffs a b = map2 (\<lambda>x y. \<bar>x - y\<bar>) a b"

definition fp_diff :: "fp option \<Rightarrow> fp option \<Rightarrow> rat" where
  "fp_diff a b = (case (a, b) of
       (Some a, Some b) \<Rightarrow>
         (let n = min (length a) (length b) in
          if n = 0 then 1 else of_int (sum_list (cell_diffs a b)) / of_nat n / 255)
     | _ \<Rightarrow> 1)"

definition fp_meaningful_change :: "fp option \<Rightarrow> fp option \<Rightarrow> rat \<Rightarrow> rat \<Rightarrow> rat \<Rightarrow> bool" where
  "fp_meaningful_change a b mean_threshold cell_delta cell_fraction = (case (a, b) of
       (Some a, Some b) \<Rightarrow>
         (let n = min (length a) (length b) in
          if n = 0 then True
          else let delta = map (\<lambda>d. of_int d / 255) (cell_diffs a b) in
            mean_threshold < sum_list delta / of_nat n
            \<or> cell_fraction < of_nat (length (filter (\<lambda>d. cell_delta < d) delta)) / of_nat n)
     | _ \<Rightarrow> True)"

text \<open>A flat picture: the population standard deviation is below 6, the variance below 36.\<close>

definition is_blank :: "fp \<Rightarrow> bool" where
  "is_blank a \<longleftrightarrow> a \<noteq> [] \<and>
     (let n = of_nat (length a) :: rat; mean = of_int (sum_list a) / n in
      sum_list (map (\<lambda>x. (of_int x - mean) * (of_int x - mean)) a) / n < 36)"

subsection \<open>Serialized fingerprints\<close>

definition screen_hash :: "fp \<Rightarrow> pystr" where
  "screen_hash a = concat (map (\<lambda>b. [hex_digit (b div 16), hex_digit (b mod 16)]) a)"

definition hex_value :: "int \<Rightarrow> int option" where
  "hex_value c =
     (if 48 \<le> c \<and> c \<le> 57 then Some (c - 48)
      else if 97 \<le> c \<and> c \<le> 102 then Some (c - 87)
      else if 65 \<le> c \<and> c \<le> 70 then Some (c - 55) else None)"

text \<open>\<open>bytes.fromhex\<close>: pairs of hexadecimal digits, ASCII white space allowed between pairs.\<close>

fun from_hex :: "pystr \<Rightarrow> fp option" where
  "from_hex [] = Some []"
| "from_hex [c] = (if 9 \<le> c \<and> c \<le> 13 \<or> c = 32 then Some [] else None)"
| "from_hex (c # d # s) =
     (if 9 \<le> c \<and> c \<le> 13 \<or> c = 32 then from_hex (d # s)
      else case (hex_value c, hex_value d) of
        (Some h, Some l) \<Rightarrow> map_option (\<lambda>t. (16 * h + l) # t) (from_hex s)
      | _ \<Rightarrow> None)"

definition screen_hashes_match_surface :: "pystr \<Rightarrow> pystr \<Rightarrow> bool" where
  "screen_hashes_match_surface left right =
     (case (from_hex left, from_hex right) of
        (Some l, Some r) \<Rightarrow>
          length l = fp_size * fp_size \<and> length r = fp_size * fp_size
          \<and> \<not> fp_meaningful_change (Some l) (Some r) fp_meaningful fp_cell_delta
                 fp_cell_meaningful_fraction
      | _ \<Rightarrow> False)"

definition is_bytes :: "fp \<Rightarrow> bool" where
  "is_bytes a = list_all (\<lambda>b. 0 \<le> b \<and> b < 256) a"

lemma hex_value_hex_digit: "0 \<le> d \<Longrightarrow> d < 16 \<Longrightarrow> hex_value (hex_digit d) = Some d"
  by (auto simp: hex_value_def hex_digit_def)

lemma hex_digit_not_space: "0 \<le> d \<Longrightarrow> \<not> (9 \<le> hex_digit d \<and> hex_digit d \<le> 13 \<or> hex_digit d = 32)"
  by (auto simp: hex_digit_def)

lemma from_hex_screen_hash: "is_bytes a \<Longrightarrow> from_hex (screen_hash a) = Some a"
proof (induction a)
  case Nil
  then show ?case by (simp add: screen_hash_def)
next
  case (Cons b a)
  then have b: "0 \<le> b" "b < 256" and a: "is_bytes a" by (simp_all add: is_bytes_def)
  have hi: "0 \<le> b div 16" "b div 16 < 16" and lo: "0 \<le> b mod 16" "b mod 16 < 16"
    using b by auto
  have "screen_hash (b # a) = hex_digit (b div 16) # hex_digit (b mod 16) # screen_hash a"
    by (simp add: screen_hash_def)
  then show ?case
    using hex_digit_not_space [OF hi(1)] Cons.IH [OF a]
    by (simp only: from_hex.simps(3) if_False hex_value_hex_digit [OF hi] hex_value_hex_digit [OF lo]
        option.case map_option_case) simp
qed

lemma cell_diffs_same: "cell_diffs a a = replicate (length a) 0"
  by (induction a) (simp_all add: cell_diffs_def)

lemma fp_no_change_same:
  "a \<noteq> [] \<Longrightarrow> 0 \<le> m \<Longrightarrow> 0 \<le> c \<Longrightarrow> 0 \<le> f \<Longrightarrow> \<not> fp_meaningful_change (Some a) (Some a) m c f"
  by (simp add: fp_meaningful_change_def Let_def cell_diffs_same sum_list_replicate)

lemma cell_diffs_sym: "cell_diffs a b = cell_diffs b a"
proof (induction a arbitrary: b)
  case Nil
  then show ?case by (simp add: cell_diffs_def)
next
  case (Cons x a)
  then show ?case by (cases b) (auto simp: cell_diffs_def)
qed

subsection \<open>The frame store\<close>

type_synonym kb_sig = "kb_layout \<times> bool option"

record frame_store =
  fs_seq :: int
  fs_world :: int
  fs_last_fp :: "fp option"
  fs_last_keyboard :: "kb_sig option"
  fs_latest :: "(int \<times> int) option"
  fs_last_look :: "fp option"

definition fs_init :: frame_store where
  "fs_init = \<lparr>fs_seq = 0, fs_world = 1, fs_last_fp = None, fs_last_keyboard = None,
     fs_latest = None, fs_last_look = None\<rparr>"

definition fs_bump_world :: "frame_store \<Rightarrow> frame_store \<times> int" where
  "fs_bump_world fs = (fs\<lparr>fs_world := fs_world fs + 1\<rparr>, fs_world fs + 1)"

text \<open>
  One full-frame capture: \<open>thr\<close> is the configured mean threshold, \<open>fp\<close> the fingerprint of the new
  pixels, \<open>kb\<close> the keyboard signature. The result is the stamp of the frame record.
\<close>

definition fs_capture_full ::
  "rat \<Rightarrow> fp \<Rightarrow> kb_sig \<Rightarrow> bool \<Rightarrow> frame_store \<Rightarrow> frame_store \<times> (int \<times> int)" where
  "fs_capture_full thr fp kb mark_look fs =
     (let world =
        (if fs_last_fp fs \<noteq> None
            \<and> fp_meaningful_change (fs_last_fp fs) (Some fp) thr fp_cell_delta
                fp_cell_meaningful_fraction
         then fs_world fs + 1
         else if fs_last_keyboard fs \<noteq> None \<and> fs_last_keyboard fs \<noteq> Some kb
         then fs_world fs + 1 else fs_world fs);
          seq = fs_seq fs + 1
      in (fs\<lparr>fs_world := world, fs_last_fp := Some fp, fs_last_keyboard := Some kb, fs_seq := seq,
             fs_last_look := (if mark_look then Some fp else fs_last_look fs),
             fs_latest := Some (seq, world)\<rparr>,
          (seq, world)))"

text \<open>A crop leaves the store as it is and is stamped with the current numbers.\<close>

definition fs_capture_region :: "frame_store \<Rightarrow> frame_store \<times> (int \<times> int)" where
  "fs_capture_region fs = (fs, (if fs_seq fs \<noteq> 0 then fs_seq fs else 1, fs_world fs))"

definition fs_mark_look :: "frame_store \<Rightarrow> frame_store" where
  "fs_mark_look fs =
     (if fs_last_fp fs \<noteq> None then fs\<lparr>fs_last_look := fs_last_fp fs\<rparr> else fs)"

record freshness =
  fz_has_baseline :: bool
  fz_delta :: "rat option"
  fz_changed :: bool

text \<open>\<open>look_freshness\<close>; dividing by an empty fingerprint raises.\<close>

datatype fs_error = Fs_ZeroDivisionError

definition fs_look_freshness :: "rat \<Rightarrow> frame_store \<Rightarrow> fp option \<Rightarrow> (fs_error, freshness) result" where
  "fs_look_freshness thr fs current = (case fs_last_look fs of
       None \<Rightarrow> Inr \<lparr>fz_has_baseline = False, fz_delta = None, fz_changed = True\<rparr>
     | Some base \<Rightarrow> (case current of
         None \<Rightarrow> Inr \<lparr>fz_has_baseline = True, fz_delta = None, fz_changed = False\<rparr>
       | Some cur \<Rightarrow>
           (let n = min (length base) (length cur) in
            if n = 0 then Inl Fs_ZeroDivisionError
            else Inr \<lparr>fz_has_baseline = True,
              fz_delta = Some (of_int (sum_list (cell_diffs base cur)) / of_nat n / 255),
              fz_changed = fp_meaningful_change (Some base) (Some cur) thr fp_cell_delta
                fp_cell_meaningful_fraction\<rparr>)))"

subsection \<open>What the stamps mean\<close>

lemma fs_capture_full_stamp:
  "fs_capture_full thr fp kb m fs = (fs', (i, w)) \<Longrightarrow>
     i = fs_seq fs + 1 \<and> fs_seq fs' = i \<and> fs_world fs' = w \<and> fs_latest fs' = Some (i, w)
     \<and> fs_world fs \<le> w \<and> w \<le> fs_world fs + 1 \<and> fs_last_fp fs' = Some fp
     \<and> fs_last_keyboard fs' = Some kb"
  by (auto simp: fs_capture_full_def Let_def)

lemma fs_capture_full_changed_iff:
  "fs_capture_full thr fp kb m fs = (fs', (i, w)) \<Longrightarrow> fs_last_fp fs = Some fp0 \<Longrightarrow>
   fs_last_keyboard fs = Some kb0 \<Longrightarrow>
     (w = fs_world fs + 1 \<longleftrightarrow>
        fp_meaningful_change (Some fp0) (Some fp) thr fp_cell_delta fp_cell_meaningful_fraction
        \<or> kb \<noteq> kb0)"
  by (auto simp: fs_capture_full_def Let_def split: if_splits)

text \<open>A run of full captures and explicit bumps.\<close>

datatype fs_op = Op_capture fp kb_sig bool | Op_bump | Op_region | Op_mark_look

fun fs_step :: "rat \<Rightarrow> fs_op \<Rightarrow> frame_store \<Rightarrow> frame_store" where
  "fs_step thr (Op_capture fp kb m) fs = fst (fs_capture_full thr fp kb m fs)"
| "fs_step thr Op_bump fs = fst (fs_bump_world fs)"
| "fs_step thr Op_region fs = fst (fs_capture_region fs)"
| "fs_step thr Op_mark_look fs = fs_mark_look fs"

definition fs_run :: "rat \<Rightarrow> fs_op list \<Rightarrow> frame_store \<Rightarrow> frame_store" where
  "fs_run thr ops fs = fold (fs_step thr) ops fs"

lemma fs_step_monotone:
  "fs_world fs \<le> fs_world (fs_step thr op fs) \<and> fs_seq fs \<le> fs_seq (fs_step thr op fs)"
  by (cases op) (auto simp: fs_capture_full_def Let_def fs_bump_world_def fs_capture_region_def
      fs_mark_look_def)

lemma fs_run_monotone:
  "fs_world fs \<le> fs_world (fs_run thr ops fs) \<and> fs_seq fs \<le> fs_seq (fs_run thr ops fs)"
  unfolding fs_run_def
proof (induction ops arbitrary: fs)
  case Nil
  then show ?case by simp
next
  case (Cons op ops)
  show ?case
    using Cons [of "fs_step thr op fs"] fs_step_monotone [of fs thr op] by simp
qed

text \<open>
  After any history that ends in a full capture, the next full capture keeps the world version
  exactly when neither the pixels changed meaningfully nor the keyboard state changed; frame numbers
  advance by one per full capture; and whatever happens afterwards, neither number ever goes back.
\<close>

theorem world_version_tracks_change:
  assumes "fs = fst (fs_capture_full thr fp0 kb0 m0 (fs_run thr ops fs_init))"
    and "fs_capture_full thr fp1 kb1 m1 fs = (fs', (i, w))"
  shows "(w = fs_world fs \<longleftrightarrow>
            \<not> fp_meaningful_change (Some fp0) (Some fp1) thr fp_cell_delta
                 fp_cell_meaningful_fraction \<and> kb1 = kb0)
    \<and> i = fs_seq fs + 1 \<and> fs_world fs \<le> fs_world (fs_run thr ops' fs')
    \<and> i \<le> fs_seq (fs_run thr ops' fs')"
proof -
  obtain fsa st where "fs_capture_full thr fp0 kb0 m0 (fs_run thr ops fs_init) = (fsa, st)"
    by (cases "fs_capture_full thr fp0 kb0 m0 (fs_run thr ops fs_init)")
  with assms(1) have "fs_last_fp fs = Some fp0" "fs_last_keyboard fs = Some kb0"
    using fs_capture_full_stamp by (metis fst_conv prod.collapse)+
  then have "w = fs_world fs + 1 \<longleftrightarrow>
      fp_meaningful_change (Some fp0) (Some fp1) thr fp_cell_delta fp_cell_meaningful_fraction
      \<or> kb1 \<noteq> kb0"
    using assms(2) fs_capture_full_changed_iff by blast
  then show ?thesis
    using fs_capture_full_stamp [OF assms(2)] fs_run_monotone [of fs' thr ops'] by auto
qed

theorem world_version_tracks_change_witness:
  "snd (snd (fs_capture_full fp_meaningful (replicate 256 200) (Kb_us, None) True
     (fst (fs_capture_full fp_meaningful (replicate 256 10) (Kb_us, None) True fs_init)))) \<noteq> 1"
proof -
  let ?a = "replicate 256 (10 :: int)" and ?b = "replicate 256 (200 :: int)"
  let ?fs = "fst (fs_capture_full fp_meaningful ?a (Kb_us, None) True (fs_run fp_meaningful [] fs_init))"
  obtain fs' i w where c: "fs_capture_full fp_meaningful ?b (Kb_us, None) True ?fs = (fs', (i, w))"
    by (metis prod.collapse)
  have m: "fp_meaningful_change (Some ?a) (Some ?b) fp_meaningful fp_cell_delta
      fp_cell_meaningful_fraction"
    by (simp add: fp_meaningful_change_def cell_diffs_def map2_map_map zip_replicate
        fp_meaningful_def fp_cell_delta_def fp_cell_meaningful_fraction_def sum_list_replicate)
  have "fs_world ?fs = 1"
    by (simp add: fs_capture_full_def fs_run_def fs_init_def Let_def)
  moreover have "w \<noteq> fs_world ?fs"
    using world_version_tracks_change [OF refl c, of "[]"] m by blast
  ultimately show ?thesis using c by (simp add: fs_run_def)
qed

text \<open>
  A serialized fingerprint reads back as the bytes it was made of, and a screen matches its own
  hash.
\<close>

theorem screen_hash_roundtrip:
  assumes "is_bytes a"
  shows "from_hex (screen_hash a) = Some a
    \<and> (length a = 256 \<longrightarrow> screen_hashes_match_surface (screen_hash a) (screen_hash a))"
proof (intro conjI impI)
  show h: "from_hex (screen_hash a) = Some a" using assms by (rule from_hex_screen_hash)
  assume l: "length a = 256"
  then have "a \<noteq> []" by auto
  with fp_no_change_same show "screen_hashes_match_surface (screen_hash a) (screen_hash a)"
    by (simp add: h l screen_hashes_match_surface_def fp_size_def
        fp_meaningful_def fp_cell_delta_def fp_cell_meaningful_fraction_def)
qed

theorem screen_hash_roundtrip_witness: "from_hex (screen_hash [0, 171, 255]) = Some [0, 171, 255]"
proof -
  have "is_bytes [0, 171, 255]" by (simp add: is_bytes_def)
  then show ?thesis using screen_hash_roundtrip by blast
qed

end
