(* ===== verification/OperatorRouting.thy ===== *)
theory OperatorRouting
  imports Models
begin

text \<open>
  \<open>operator/routing.py\<close>: which model role plans the next step. The router reads four entries of
  the checkpointed state: the step counter, the replan flag, the verification of the last
  transaction (\<open>None\<close> for a missing or empty one) and the reasoning plan.
\<close>

record routing_config =
  rc_enabled :: bool
  rc_reasoner_lane :: pystr
  rc_controller_lane :: pystr
  rc_fallback_lane :: pystr
  rc_refresh_every_steps :: int

definition default_routing_config :: routing_config where
  "default_routing_config = \<lparr>rc_enabled = True, rc_reasoner_lane = u ''hard'',
     rc_controller_lane = u ''cheap'', rc_fallback_lane = u ''default'',
     rc_refresh_every_steps = 6\<rparr>"

text \<open>The bounds of the field: \<open>ge=1, le=100\<close>.\<close>

definition routing_config_valid :: "routing_config \<Rightarrow> bool" where
  "routing_config_valid cfg \<longleftrightarrow>
     1 \<le> rc_refresh_every_steps cfg \<and> rc_refresh_every_steps cfg \<le> 100"

record model_route =
  mr_role :: string
  mr_lane :: pystr
  mr_reason :: string

definition route_failed_statuses :: "string set" where
  "route_failed_statuses = {''failed'', ''uncertain'', ''mismatch''}"

definition select_route ::
  "routing_config \<Rightarrow> int \<Rightarrow> bool \<Rightarrow> verification_result option \<Rightarrow> pyval \<Rightarrow> model_route" where
  "select_route cfg step model_replan verification reasoning_plan =
     (let reasoner = \<lambda>why. \<lparr>mr_role = ''reasoner'', mr_lane = rc_reasoner_lane cfg, mr_reason = why\<rparr> in
      if \<not> rc_enabled cfg
      then \<lparr>mr_role = ''single'', mr_lane = rc_fallback_lane cfg, mr_reason = ''routing_disabled''\<rparr>
      else if model_replan then reasoner ''explicit_replan''
      else if (case verification of None \<Rightarrow> False | Some v \<Rightarrow>
                 \<not> vr_safe_to_continue v
                 \<or> verification_status_name (vr_status v) \<in> route_failed_statuses)
      then reasoner ''verification_failure''
      else if step = 0 \<or> \<not> py_truthy reasoning_plan then reasoner ''initial_plan''
      else if step mod rc_refresh_every_steps cfg = 0 then reasoner ''periodic_refresh''
      else \<lparr>mr_role = ''controller'', mr_lane = rc_controller_lane cfg,
            mr_reason = ''routine_step''\<rparr>)"

lemma status_never_route_failed:
  "verification_status_name s \<notin> route_failed_statuses"
  by (cases s) (simp_all add: verification_status_name_def route_failed_statuses_def)

text \<open>
  With routing on, the cheap controller plans a step exactly when nothing asks for the reasoner:
  no replan, a plan exists, it is not a refresh step, and the last verification, if any, says it is
  safe to continue. The status of the verification plays no part: the three names the router tests
  for are no verification status, so a failed check that is marked safe does not escalate.
\<close>

theorem controller_route_iff:
  assumes "rc_enabled cfg"
  shows "mr_role (select_route cfg step rp v plan) = ''controller'' \<longleftrightarrow>
    \<not> rp \<and> (\<forall>r. v = Some r \<longrightarrow> vr_safe_to_continue r) \<and> step \<noteq> 0 \<and> py_truthy plan
    \<and> step mod rc_refresh_every_steps cfg \<noteq> 0"
  using assms status_never_route_failed
  by (auto simp: select_route_def Let_def split: option.splits)

theorem controller_route_iff_witness:
  "mr_role (select_route default_routing_config 7 False
     (Some \<lparr>vr_status = Failed_symbol_mismatch, vr_safe_to_continue = True, vr_intended = None,
        vr_observed = None, vr_detail = []\<rparr>) (PStr (u ''plan''))) = ''controller''"
  by (subst controller_route_iff) (auto simp: default_routing_config_def)

text \<open>
  The reasoner is consulted at least once in every window of \<open>refresh_every_steps\<close> consecutive
  steps, whatever the state says in each of them.
\<close>

theorem reasoner_every_window:
  assumes "rc_enabled cfg" and "routing_config_valid cfg" and "0 \<le> s"
  shows "\<exists>k. s \<le> k \<and> k < s + rc_refresh_every_steps cfg
     \<and> mr_role (select_route cfg k (rp k) (v k) (plan k)) = ''reasoner''"
proof -
  let ?n = "rc_refresh_every_steps cfg"
  let ?k = "s + (- s) mod ?n"
  have n: "0 < ?n" using assms(2) by (simp add: routing_config_valid_def)
  have "s + (- s) mod ?n = s + (- s - ?n * ((- s) div ?n))"
    by (simp add: minus_mult_div_eq_mod)
  then have "?k mod ?n = 0" by simp
  then have "mr_role (select_route cfg ?k (rp ?k) (v ?k) (plan ?k)) = ''reasoner''"
    using assms(1) by (auto simp: select_route_def Let_def)
  moreover have "0 \<le> (- s) mod ?n" "(- s) mod ?n < ?n" using n by simp_all
  ultimately show ?thesis by (intro exI [of _ ?k]) auto
qed

theorem reasoner_every_window_witness:
  "\<exists>k. 7 \<le> k \<and> k < 13 \<and>
     mr_role (select_route default_routing_config k False None (PStr (u ''plan''))) = ''reasoner''"
  using reasoner_every_window [of default_routing_config 7 "\<lambda>_. False" "\<lambda>_. None"
      "\<lambda>_. PStr (u ''plan'')"]
  by (simp add: default_routing_config_def routing_config_valid_def)

end
