(* ===== verification/Recovery.thy ===== *)
theory Recovery
  imports Models
begin

text \<open>
  The calls a backend receives, shared by every component that drives the keyboard and mouse, and
  \<open>executor/recovery.py\<close>: the fixed flows that unstick a screen. A flow is the list of calls it makes
  and the result it returns.
\<close>

datatype hid_call =
    Hid_press_key pystr
  | Hid_keypress "pystr list"
  | Hid_type_text pystr
  | Hid_click int int
  | Hid_scroll int int
  | Hid_release_all

record recovery_result =
  rv_action :: string
  rv_method :: "string option"
  rv_ok :: bool

definition recoverable_modes :: "(ui_mode \<times> string) list" where
  "recoverable_modes = [(M_terminal_pager, ''pager_quit''), (M_windows_update_modal, ''dismiss''),
     (M_system_notification, ''dismiss'')]"

definition overlay_kinds :: "element_kind set" where
  "overlay_kinds = {K_modal, K_toast, K_notification, K_close_button}"

definition dismiss_modes :: "ui_mode set" where
  "dismiss_modes = {M_windows_update_modal, M_system_notification}"

definition forbidden_keys :: "pystr set" where
  "forbidden_keys = {u ''Enter'', u ''NumpadEnter''}"

definition find_close_button :: "element_map option \<Rightarrow> visual_element option" where
  "find_close_button em = (case em of None \<Rightarrow> None
     | Some em \<Rightarrow> List.find (\<lambda>el. el_kind el = K_close_button) (em_elements em))"

definition has_overlay_element :: "element_map option \<Rightarrow> bool" where
  "has_overlay_element em = (case em of None \<Rightarrow> False
     | Some em \<Rightarrow> list_ex (\<lambda>el. el_kind el \<in> overlay_kinds) (em_elements em))"

definition recover_pager :: "hid_call list \<times> recovery_result" where
  "recover_pager = ([Hid_press_key (u ''KeyQ'')],
     \<lparr>rv_action = ''pager_quit'', rv_method = None, rv_ok = True\<rparr>)"

definition dismiss_modal :: "element_map option \<Rightarrow> hid_call list \<times> recovery_result" where
  "dismiss_modal em = (case find_close_button em of
       Some close \<Rightarrow>
         ([Hid_click (fst (bbox_center (el_bbox close))) (snd (bbox_center (el_bbox close)))],
          \<lparr>rv_action = ''dismiss'', rv_method = Some ''click'', rv_ok = True\<rparr>)
     | None \<Rightarrow> ([Hid_press_key (u ''Escape'')],
          \<lparr>rv_action = ''dismiss'', rv_method = Some ''escape'', rv_ok = True\<rparr>))"

definition refocus :: "visual_element option \<Rightarrow> hid_call list \<times> recovery_result" where
  "refocus el = (case el of
       None \<Rightarrow> ([], \<lparr>rv_action = ''refocus'', rv_method = None, rv_ok = False\<rparr>)
     | Some el \<Rightarrow> ([Hid_click (fst (bbox_center (el_bbox el))) (snd (bbox_center (el_bbox el)))],
          \<lparr>rv_action = ''refocus'', rv_method = None, rv_ok = True\<rparr>))"

definition recover :: "ui_mode \<Rightarrow> element_map option \<Rightarrow> hid_call list \<times> recovery_result" where
  "recover mode em =
     (if mode = M_terminal_pager then recover_pager
      else if mode \<in> dismiss_modes \<or> has_overlay_element em then dismiss_modal em
      else ([], \<lparr>rv_action = ''none'', rv_method = None, rv_ok = False\<rparr>))"

lemma find_close_buttonD:
  "find_close_button em = Some el \<Longrightarrow>
     \<exists>m. em = Some m \<and> el \<in> set (em_elements m) \<and> el_kind el = K_close_button"
  by (auto simp: find_close_button_def find_Some_iff split: option.splits)

text \<open>
  Recovery never submits and never wanders: it makes at most one call, and that call is Q in a
  terminal pager, Escape, or a click on the centre of a grounded close button; in particular it
  presses neither Enter nor NumpadEnter. It does nothing exactly outside the modes it knows when the
  screen shows no overlay.
\<close>

theorem recovery_never_submits:
  "fst (recover mode em) \<in> {[], [Hid_press_key (u ''KeyQ'')], [Hid_press_key (u ''Escape'')]}
        \<union> {[Hid_click x y] | x y el m. em = Some m \<and> el \<in> set (em_elements m)
              \<and> el_kind el = K_close_button \<and> bbox_center (el_bbox el) = (x, y)}
   \<and> \<not> (\<exists>k \<in> forbidden_keys. Hid_press_key k \<in> set (fst (recover mode em)))
   \<and> (fst (recover mode em) = [] \<longleftrightarrow>
        mode \<notin> fst ` set recoverable_modes \<and> \<not> has_overlay_element em)"
proof (cases "find_close_button em")
  case None
  then show ?thesis
    by (auto simp: recover_def recover_pager_def dismiss_modal_def forbidden_keys_def dismiss_modes_def
        recoverable_modes_def u_def)
next
  case (Some el)
  from find_close_buttonD [OF Some] obtain m where m: "em = Some m" "el \<in> set (em_elements m)"
    "el_kind el = K_close_button" by blast
  have "has_overlay_element em"
    using m by (auto simp: has_overlay_element_def overlay_kinds_def list_ex_iff)
  then show ?thesis
    using Some m
    by (auto simp: recover_def recover_pager_def dismiss_modal_def forbidden_keys_def
        recoverable_modes_def u_def intro!: exI [of _ el] prod.collapse)
qed

end
