(* ===== verification/AgentGraph.thy ===== *)
theory AgentGraph
  imports SafetyPolicy FrameStore OperatorRouting Recovery
begin

text \<open>
  \<open>graph/state.py\<close>, \<open>graph/nodes.py\<close>, \<open>graph/routing.py\<close> and \<open>graph/graph.py\<close>: the operator loop.
  The checkpointed state is a record, every node is a function from the state, the frame store and
  what the node learns from outside (a capture, the operator's answer, the human's answer, the
  clock, the live control epoch, the stop latch) to the new state, the new frame store and the
  trace entries it appends, and the wiring is a step relation over the node names.

  An environment record holds the outside inputs of one node execution; nothing restricts it, so
  the invariants hold against every operator, human, screen, clock and executor.
\<close>

subsection \<open>State\<close>

text \<open>
  \<open>policy_result\<close> is a full verdict, or the short dictionaries the node writes itself; the
  transaction result is a report of the executor, or the short dictionaries of a refusal.
\<close>

datatype gate_verdict = GV_done | GV_blocked pyval | GV_policy policy_result

datatype tx_report =
    Rep_deferred
  | Rep_refused tx_status pystr
  | Rep_result transaction_result

fun report_status :: "tx_report \<Rightarrow> tx_status option" where
  "report_status Rep_deferred = None"
| "report_status (Rep_refused s _) = Some s"
| "report_status (Rep_result r) = Some (tr_status r)"

fun report_error :: "tx_report \<Rightarrow> pystr" where
  "report_error Rep_deferred = []"
| "report_error (Rep_refused _ e) = e"
| "report_error (Rep_result r) = tr_error r"

fun report_verification :: "tx_report \<Rightarrow> verification_result option" where
  "report_verification (Rep_result r) = tr_verification r"
| "report_verification _ = None"

record agent_state =
  st_session_id :: pystr
  st_frame_id :: int
  st_world_version :: int
  st_frame_path :: "pystr option"
  st_element_map :: "element_map option"
  st_ocr_text :: "pystr option"
  st_mode :: "ui_mode option"
  st_keyboard :: "keyboard_state option"
  st_recent_events :: "pydict list"
  st_recent_actions :: "pystr list"
  st_reasoning_plan :: pyval
  st_model_role :: string
  st_decision :: "operator_decision option"
  st_policy_result :: "gate_verdict option"
  st_tx_report :: "tx_report option"
  st_verification :: "verification_result option"
  st_approval_request :: "approval_request option"
  st_approval_response :: "pydict option"
  st_approved :: bool
  st_replan :: bool
  st_model_replan :: bool
  st_step :: int
  st_max_steps :: "int option"
  st_control_epoch :: "int option"
  st_max_transactions :: int
  st_tx_this_call :: int
  st_deadline_ms :: rat
  st_status :: "session_status option"
  st_error :: "pyval option"

text \<open>The state of the first invocation of a session: \<open>continue_session\<close> in \<open>runtime.py\<close>.\<close>

definition initial_state :: "pystr \<Rightarrow> int \<Rightarrow> int \<Rightarrow> rat \<Rightarrow> agent_state" where
  "initial_state session_id max_steps max_transactions deadline =
     \<lparr>st_session_id = session_id, st_frame_id = 0, st_world_version = 0, st_frame_path = None,
      st_element_map = None, st_ocr_text = None, st_mode = None, st_keyboard = None,
      st_recent_events = [], st_recent_actions = [], st_reasoning_plan = PNone, st_model_role = [],
      st_decision = None, st_policy_result = None, st_tx_report = None, st_verification = None,
      st_approval_request = None, st_approval_response = None, st_approved = False,
      st_replan = False, st_model_replan = False, st_step = 0, st_max_steps = Some max_steps,
      st_control_epoch = None, st_max_transactions = max_transactions, st_tx_this_call = 0,
      st_deadline_ms = deadline, st_status = None, st_error = None\<rparr>"

text \<open>
  \<open>GraphDeps\<close>: the services. \<open>gd_has_epoch\<close>, \<open>gd_has_stop\<close>, \<open>gd_has_executor\<close> and
  \<open>gd_has_recovery\<close> say whether the
  optional callables are injected; what they answer is in the environment.
\<close>

record graph_deps =
  gd_policy :: policy_config
  gd_router :: "routing_config option"
  gd_lane :: pystr
  gd_max_steps :: int
  gd_fp_meaningful :: rat
  gd_detect :: "pystr \<Rightarrow> element_map option \<Rightarrow> ui_mode"
  gd_has_epoch :: bool
  gd_has_stop :: bool
  gd_has_executor :: bool
  gd_has_recovery :: bool

record graph_env =
  ev_fp :: fp
  ev_keyboard :: keyboard_state
  ev_path :: pystr
  ev_parse :: "int \<Rightarrow> int \<Rightarrow> element_map"
  ev_operator :: "(pystr, operator_decision) result"
  ev_invalid :: pystr
  ev_response :: "pydict option"
  ev_now_ms :: rat
  ev_epoch :: int
  ev_stopped :: bool
  ev_new_id :: pystr
  ev_exec_result :: transaction_result
  ev_exec_frames :: "fs_op list"
  ev_budget :: "int \<times> rat"

datatype graph_event =
    Ev_observe int int
  | Ev_parse_skipped int int
  | Ev_operator_error int pystr
  | Ev_decision int operator_decision
  | Ev_policy_block pyval
  | Ev_approval_required
  | Ev_approved
  | Ev_human_response pyval
  | Ev_approval_denied pyval
  | Ev_refused string
  | Ev_deferred
  | Ev_dispatch operator_decision guarded_transaction
  | Ev_executed tx_status
  | Ev_budget_pause int
  | Ev_max_steps int
  | Ev_recover ui_mode "hid_call list"
  | Ev_finalise session_status int

text \<open>
  \<open>Ev_dispatch\<close> records the call of the injected executor and \<open>Ev_recover\<close> carries the calls recovery
  made; every other event is an entry the code
  appends to its trace. A node's effect is the new state, the new frame store and its events.
\<close>

type_synonym node_effect = "agent_state \<times> frame_store \<times> graph_event list"

abbreviation capture_full :: "graph_deps \<Rightarrow> graph_env \<Rightarrow> frame_store \<Rightarrow> frame_store \<times> int \<times> int" where
  "capture_full dps ev fs \<equiv>
     fs_capture_full (gd_fp_meaningful dps) (ev_fp ev)
       (kb_layout_of (ev_keyboard ev), kb_caps_lock (ev_keyboard ev)) True fs"

text \<open>\<open>xs[-n:]\<close> and \<open>state.get("mode", "unknown")\<close>.\<close>

definition last_n :: "nat \<Rightarrow> 'a list \<Rightarrow> 'a list" where
  "last_n n xs = drop (length xs - n) xs"

definition mode_or_unknown :: "agent_state \<Rightarrow> ui_mode" where
  "mode_or_unknown st = (case st_mode st of Some m \<Rightarrow> m | None \<Rightarrow> M_unknown)"

definition declares_done :: "operator_decision \<Rightarrow> bool" where
  "declares_done d \<longleftrightarrow>
     dec_actions d = [] \<or> py_startswith (py_upper (py_strip (dec_intent d))) (u ''DONE'')"

subsection \<open>Nodes\<close>

definition observe_frame :: "graph_deps \<Rightarrow> graph_env \<Rightarrow> agent_state \<Rightarrow> frame_store \<Rightarrow> node_effect" where
  "observe_frame dps ev st fs =
     (let (fs', frame_id, world) = capture_full dps ev fs in
      (st\<lparr>st_frame_id := frame_id, st_world_version := world, st_frame_path := Some (ev_path ev),
          st_keyboard := Some (ev_keyboard ev), st_status := Some S_running, st_replan := False,
          st_max_steps := (if st_max_steps st = None \<or> st_max_steps st = Some 0
                           then Some (gd_max_steps dps) else st_max_steps st)\<rparr>,
       fs', [Ev_observe frame_id world]))"

definition parse_screen :: "graph_deps \<Rightarrow> graph_env \<Rightarrow> agent_state \<Rightarrow> frame_store \<Rightarrow> node_effect" where
  "parse_screen dps ev st fs =
     (let fresh = (let em = ev_parse ev (st_frame_id st) (st_world_version st)
                   in (st\<lparr>st_element_map := Some em, st_ocr_text := Some (em_ocr_text em)\<rparr>, fs, []))
      in case st_element_map st of
        None \<Rightarrow> fresh
      | Some prev \<Rightarrow>
          (if em_world_version prev = st_world_version st
           then (let fid = st_frame_id st;
                     em = prev\<lparr>em_frame_id := fid,
                       em_elements := map (\<lambda>e. e\<lparr>el_frame_id := fid\<rparr>) (em_elements prev)\<rparr>
                 in (st\<lparr>st_element_map := Some em,
                        st_ocr_text := Some (case st_ocr_text st of Some t \<Rightarrow> t
                                             | None \<Rightarrow> em_ocr_text prev)\<rparr>,
                     fs, [Ev_parse_skipped (st_world_version st) fid]))
           else fresh))"

definition detect_state :: "graph_deps \<Rightarrow> graph_env \<Rightarrow> agent_state \<Rightarrow> frame_store \<Rightarrow> node_effect" where
  "detect_state dps ev st fs =
     (st\<lparr>st_mode := Some (gd_detect dps
           (case st_ocr_text st of Some t \<Rightarrow> t | None \<Rightarrow> []) (st_element_map st))\<rparr>, fs, [])"

definition graph_route :: "graph_deps \<Rightarrow> agent_state \<Rightarrow> string" where
  "graph_route dps st = (case gd_router dps of
       Some rc \<Rightarrow> mr_role (select_route rc (st_step st) (st_model_replan st) (st_verification st)
                            (st_reasoning_plan st))
     | None \<Rightarrow> ''single'')"

definition operator_decide :: "graph_deps \<Rightarrow> graph_env \<Rightarrow> agent_state \<Rightarrow> frame_store \<Rightarrow> node_effect" where
  "operator_decide dps ev st fs =
     (let step = st_step st + 1; role = graph_route dps st in
      case ev_operator ev of
        Inl err \<Rightarrow>
          (st\<lparr>st_step := step, st_status := Some S_failed,
              st_error := Some (PStr (u ''operator: '' @ err)), st_model_role := role\<rparr>,
           fs, [Ev_operator_error step err])
      | Inr dec \<Rightarrow>
          (st\<lparr>st_decision := Some dec, st_step := step,
              st_status := Some (if declares_done dec then S_done else S_running),
              st_control_epoch := Some (if gd_has_epoch dps then ev_epoch ev else 0),
              st_reasoning_plan :=
                (if role = ''reasoner''
                 then (let proposed = get_none (dec_state_assessment dec) (u ''plan'')
                       in if proposed \<noteq> PNone then proposed
                          else PDict [(u ''summary'', PStr (dec_intent dec)),
                                      (u ''source'', PStr (u ''reasoner_fallback''))])
                 else st_reasoning_plan st),
              st_model_role := role, st_model_replan := False\<rparr>,
           fs, [Ev_decision step dec]))"

definition validate_node :: "graph_deps \<Rightarrow> graph_env \<Rightarrow> agent_state \<Rightarrow> frame_store \<Rightarrow> node_effect" where
  "validate_node dps ev st fs =
     (if st_status st = Some S_done \<or> st_status st = Some S_failed then (st, fs, [])
      else if (case st_decision st of Some d \<Rightarrow> decision_valid d | None \<Rightarrow> False) then (st, fs, [])
      else (st\<lparr>st_status := Some S_failed,
               st_error := Some (PStr (u ''invalid decision: '' @ ev_invalid ev))\<rparr>, fs, []))"

text \<open>The reason of the first action the detected mode forbids.\<close>

definition mode_block :: "ui_mode \<Rightarrow> action list \<Rightarrow> pystr option" where
  "mode_block m as =
     map_option (\<lambda>a. snd (action_allowed_in_mode (action_type_of a) m))
       (List.find (\<lambda>a. \<not> fst (action_allowed_in_mode (action_type_of a) m)) as)"

definition policy_gate_node :: "graph_deps \<Rightarrow> graph_env \<Rightarrow> agent_state \<Rightarrow> frame_store \<Rightarrow> node_effect" where
  "policy_gate_node dps ev st fs =
     (if st_status st = Some S_done then (st\<lparr>st_policy_result := Some GV_done\<rparr>, fs, [])
      else if st_status st = Some S_failed
      then (st\<lparr>st_policy_result := Some (GV_blocked
                (case st_error st of Some e \<Rightarrow> e | None \<Rightarrow> PStr (u ''failed'')))\<rparr>, fs, [])
      else case st_decision st of
        None \<Rightarrow> (st, fs, [])
      | Some dec \<Rightarrow>
          (case mode_block (mode_or_unknown st) (dec_actions dec) of
             Some reason \<Rightarrow>
               (st\<lparr>st_policy_result := Some (GV_blocked (PStr reason)), st_status := Some S_blocked,
                   st_error := Some (PStr reason)\<rparr>, fs, [Ev_policy_block (PStr reason)])
           | None \<Rightarrow>
               (let pr = policy_gate (gd_policy dps) dec (st_frame_id st) (st_world_version st)
                           (st_approved st);
                    st1 = st\<lparr>st_policy_result := Some (GV_policy pr)\<rparr>
                in case pr_status pr of
                     Approval_required \<Rightarrow>
                       (st1\<lparr>st_approval_request := Some (make_approval_request (ev_new_id ev)
                              (st_session_id st) dec (st_frame_id st) (st_world_version st)
                              (st_frame_path st)),
                            st_status := Some S_needs_approval\<rparr>, fs, [Ev_approval_required])
                   | Blocked \<Rightarrow>
                       (st1\<lparr>st_status := Some S_blocked, st_error := Some (PStr (pr_reason pr))\<rparr>, fs,
                        [Ev_policy_block (PStr (pr_reason pr))])
                   | Allowed \<Rightarrow> (st1\<lparr>st_status := Some S_running\<rparr>, fs, []))))"

text \<open>
  \<open>human_interrupt\<close> as it runs when the graph is resumed: \<open>approval_interrupt\<close> turns an answer that
  is no dictionary into a rejection.
\<close>

definition approval_answer :: "pydict option \<Rightarrow> pydict" where
  "approval_answer r = (case r of Some d \<Rightarrow> d | None \<Rightarrow>
     [(u ''type'', PStr (u ''reject'')), (u ''reason'', PStr (u ''Invalid approval response''))])"

definition human_interrupt :: "graph_deps \<Rightarrow> graph_env \<Rightarrow> agent_state \<Rightarrow> frame_store \<Rightarrow> node_effect" where
  "human_interrupt dps ev st fs =
     (let response = approval_answer (ev_response ev);
          rtype = get_none response (u ''type'')
      in if rtype = PStr (u ''approve'')
         then (st\<lparr>st_approval_response := Some response, st_approved := True,
                  st_status := Some S_running\<rparr>, fs, [Ev_approved])
         else if rtype = PStr (u ''edit'') \<or> rtype = PStr (u ''respond'')
         then (st\<lparr>st_approval_response := Some response, st_approved := False,
                  st_status := Some S_running, st_replan := True, st_model_replan := True,
                  st_recent_events := last_n 10 (st_recent_events st
                    @ [[(u ''type'', PStr (u ''human_'' @ py_str rtype)),
                        (u ''message'', get_none response (u ''message'')),
                        (u ''instruction'', get_none response (u ''instruction''))]])\<rparr>,
               fs, [Ev_human_response rtype])
         else (st\<lparr>st_approval_response := Some response, st_status := Some S_blocked,
                  st_error := Some (get_or response (u ''reason'')
                    (PStr (u ''human '' @ py_str rtype)))\<rparr>, fs, [Ev_approval_denied rtype]))"

definition record_only_execute :: "guarded_transaction \<Rightarrow> transaction_result" where
  "record_only_execute tx =
     \<lparr>tr_status = Tx_executed, tr_executed = tx_actions tx, tr_verification = None,
      tr_world_after = Some (tx_world_version tx), tr_error = []\<rparr>"

definition make_transaction :: "agent_state \<Rightarrow> int \<Rightarrow> int \<Rightarrow> operator_decision \<Rightarrow> guarded_transaction" where
  "make_transaction st frame_id world dec =
     \<lparr>tx_session = st_session_id st, tx_frame_id = frame_id, tx_world_version = world,
      tx_intent = dec_intent dec, tx_actions = dec_actions dec, tx_risk = dec_risk dec,
      tx_approval_id = map_option ap_id (st_approval_request st)\<rparr>"

definition deadline_passed :: "graph_env \<Rightarrow> agent_state \<Rightarrow> bool" where
  "deadline_passed ev st \<longleftrightarrow> st_deadline_ms st \<noteq> 0 \<and> st_deadline_ms st \<le> ev_now_ms ev"

definition execute_transaction :: "graph_deps \<Rightarrow> graph_env \<Rightarrow> agent_state \<Rightarrow> frame_store \<Rightarrow> node_effect" where
  "execute_transaction dps ev st fs = (case st_decision st of None \<Rightarrow> (st, fs, []) | Some dec \<Rightarrow>
     (if gd_has_stop dps \<and> ev_stopped ev
      then (st\<lparr>st_status := Some S_failed, st_error := Some (PStr (u ''stopped (abort / panic)'')),
               st_tx_report := Some (Rep_refused Tx_blocked_by_policy (u ''stopped''))\<rparr>,
            fs, [Ev_refused ''stopped''])
      else if gd_has_epoch dps \<and> st_control_epoch st \<noteq> None
              \<and> st_control_epoch st \<noteq> Some (ev_epoch ev)
      then (st\<lparr>st_status := Some S_failed,
               st_error := Some (PStr (u ''control changed (aborted / panic / steered)'')),
               st_tx_report := Some (Rep_refused Tx_blocked_by_policy (u ''control_changed''))\<rparr>,
            fs, [Ev_refused ''control_changed''])
      else if deadline_passed ev st
      then (st\<lparr>st_tx_report := Some Rep_deferred\<rparr>, fs, [Ev_deferred])
      else
        (let (fs1, frame_id, world) = capture_full dps ev fs;
             st1 = st\<lparr>st_frame_id := frame_id, st_world_version := world,
                      st_frame_path := Some (ev_path ev)\<rparr>;
             risk = classify_local_risk (gd_policy dps) dec
         in if dec_world_version dec \<noteq> world
         then (st1\<lparr>st_approved := False, st_status := Some S_running,
                   st_tx_report := Some (Rep_refused Tx_failed_stale_frame (u ''stale_world''))\<rparr>,
               fs1, [Ev_refused ''stale_world''])
         else if lr_blocked risk
         then (st1\<lparr>st_approved := False, st_status := Some S_blocked,
                   st_tx_report := Some (Rep_refused Tx_blocked_by_policy (lr_reason risk))\<rparr>,
               fs1, [Ev_refused ''policy''])
         else if lr_requires_human risk \<and> \<not> st_approved st
         then (st1\<lparr>st_approved := False, st_status := Some S_needs_approval,
                   st_tx_report := Some (Rep_refused Tx_blocked_by_policy (u ''requires_human''))\<rparr>,
               fs1, [Ev_refused ''requires_human''])
         else
           (let tx = make_transaction st (st_frame_id st) (st_world_version st) dec;
                r = (if gd_has_executor dps then ev_exec_result ev else record_only_execute tx);
                fs2 = (if gd_has_executor dps
                       then fs_run (gd_fp_meaningful dps) (ev_exec_frames ev) fs1 else fs1)
            in (st1\<lparr>st_tx_report := Some (Rep_result r), st_approved := False,
                    st_recent_actions := last_n 10 (st_recent_actions st @ [dec_intent dec]),
                    st_tx_this_call := st_tx_this_call st + 1\<rparr>,
                fs2, [Ev_dispatch dec tx, Ev_executed (tr_status r)])))))"

definition budget_spent :: "graph_env \<Rightarrow> agent_state \<Rightarrow> bool" where
  "budget_spent ev st \<longleftrightarrow>
     st_max_transactions st \<noteq> 0 \<and> st_max_transactions st \<le> st_tx_this_call st
     \<or> deadline_passed ev st"

text \<open>
  \<open>budget_pause\<close> up to its interrupt, and as it runs again when \<open>continue_session\<close> resumes it with a
  new budget.
\<close>

definition budget_pause :: "graph_deps \<Rightarrow> graph_env \<Rightarrow> agent_state \<Rightarrow> frame_store \<Rightarrow> node_effect" where
  "budget_pause dps ev st fs =
     (if \<not> budget_spent ev st then (st, fs, [])
      else (st, fs, [Ev_budget_pause (st_tx_this_call st)]))"

definition resume_budget :: "graph_deps \<Rightarrow> graph_env \<Rightarrow> agent_state \<Rightarrow> frame_store \<Rightarrow> node_effect" where
  "resume_budget dps ev st fs =
     budget_pause dps ev
       (st\<lparr>st_tx_this_call := 0, st_max_transactions := fst (ev_budget ev),
           st_deadline_ms := snd (ev_budget ev)\<rparr>) fs"

definition tx_status_name :: "tx_status \<Rightarrow> string" where
  "tx_status_name s = (case s of Tx_executed \<Rightarrow> ''executed'' | Tx_verified \<Rightarrow> ''verified''
     | Tx_failed_stale_frame \<Rightarrow> ''failed_stale_frame'' | Tx_blocked_by_policy \<Rightarrow> ''blocked_by_policy''
     | Tx_needs_approval \<Rightarrow> ''needs_approval'' | Tx_failed \<Rightarrow> ''failed'')"

definition terminal_status :: "session_status option \<Rightarrow> bool" where
  "terminal_status s \<longleftrightarrow> s \<in> {Some S_done, Some S_failed, Some S_blocked}"

definition verify_result :: "graph_deps \<Rightarrow> graph_env \<Rightarrow> agent_state \<Rightarrow> frame_store \<Rightarrow> node_effect" where
  "verify_result dps ev st fs =
     (let status = Option.bind (st_tx_report st) report_status;
          st1 = st\<lparr>st_verification := Option.bind (st_tx_report st) report_verification\<rparr>
      in if terminal_status (st_status st) then (st1, fs, [])
         else if (case st_max_steps st of Some m \<Rightarrow> m | None \<Rightarrow> 12) \<le> st_step st
         then (st1\<lparr>st_status := Some S_failed,
                   st_error := Some (PStr (u ''max_steps_exhausted''))\<rparr>, fs,
               [Ev_max_steps (st_step st)])
         else case status of
           Some s \<Rightarrow>
             (if s = Tx_failed \<or> s = Tx_blocked_by_policy
              then (st1\<lparr>st_status := Some (if s = Tx_blocked_by_policy then S_blocked else S_failed),
                        st_error := Some (PStr (str_or
                          (case st_tx_report st of Some r \<Rightarrow> report_error r | None \<Rightarrow> [])
                          (u (tx_status_name s))))\<rparr>, fs, [])
              else (st1, fs, []))
         | None \<Rightarrow> (st1, fs, []))"

definition recover_node :: "graph_deps \<Rightarrow> graph_env \<Rightarrow> agent_state \<Rightarrow> frame_store \<Rightarrow> node_effect" where
  "recover_node dps ev st fs =
     (let (fs', frame_id, world) = capture_full dps ev fs;
          em = ev_parse ev frame_id world;
          mode = gd_detect dps (em_ocr_text em) (Some em)
      in (st\<lparr>st_status := Some S_running, st_mode := Some mode, st_frame_id := frame_id,
             st_world_version := world, st_frame_path := Some (ev_path ev),
             st_element_map := Some em, st_ocr_text := Some (em_ocr_text em)\<rparr>,
          fs', [Ev_recover mode (if gd_has_recovery dps then fst (recover mode (Some em)) else [])]))"

definition finalise :: "graph_deps \<Rightarrow> graph_env \<Rightarrow> agent_state \<Rightarrow> frame_store \<Rightarrow> node_effect" where
  "finalise dps ev st fs =
     (let final = (case st_status st of
           Some s \<Rightarrow> if s \<in> {S_done, S_failed, S_blocked} then s else S_failed
         | None \<Rightarrow> S_failed)
      in (st\<lparr>st_status := Some final\<rparr>, fs, [Ev_finalise final (st_step st)]))"

subsection \<open>Routers\<close>

datatype policy_route = PR_approval | PR_stale | PR_blocked | PR_allowed | PR_done

definition stale_reason :: "pyval \<Rightarrow> bool" where
  "stale_reason r \<longleftrightarrow> r = PStr (u ''stale_frame'') \<or> r = PStr (u ''stale_world'')"

definition route_after_policy :: "agent_state \<Rightarrow> policy_route" where
  "route_after_policy st =
     (if st_status st = Some S_done then PR_done
      else case st_policy_result st of
        None \<Rightarrow> PR_allowed
      | Some GV_done \<Rightarrow> PR_done
      | Some (GV_blocked r) \<Rightarrow> (if stale_reason r then PR_stale else PR_blocked)
      | Some (GV_policy pr) \<Rightarrow>
          (case pr_status pr of
             Approval_required \<Rightarrow> PR_approval
           | Blocked \<Rightarrow> (if stale_reason (PStr (pr_reason pr)) then PR_stale else PR_blocked)
           | Allowed \<Rightarrow> PR_allowed))"

datatype interrupt_route = IR_execute | IR_replan | IR_blocked

definition route_after_interrupt :: "agent_state \<Rightarrow> interrupt_route" where
  "route_after_interrupt st =
     (if st_status st = Some S_blocked then IR_blocked
      else if st_replan st then IR_replan else IR_execute)"

datatype verify_route = VR_continue | VR_recover | VR_done | VR_failed | VR_pause

definition route_after_verify :: "graph_env \<Rightarrow> agent_state \<Rightarrow> verify_route" where
  "route_after_verify ev st =
     (let status = Option.bind (st_tx_report st) report_status in
      if st_status st = Some S_done then VR_done
      else if st_status st = Some S_failed \<or> st_status st = Some S_blocked then VR_failed
      else if status = Some Tx_failed_stale_frame then VR_recover
      else if status = Some Tx_blocked_by_policy \<or> status = Some Tx_failed then VR_failed
      else if budget_spent ev st then VR_pause else VR_continue)"

subsection \<open>The wiring\<close>

text \<open>
  \<open>N_paused\<close> is the point at which \<open>budget_pause\<close> has raised its interrupt; \<open>N_end\<close> is \<open>END\<close>.
\<close>

datatype graph_node =
    N_observe | N_parse | N_detect | N_decide | N_validate | N_policy | N_human | N_execute
  | N_verify | N_recover | N_pause | N_paused | N_finalise | N_end

definition graph_edge :: "graph_env \<Rightarrow> graph_node \<Rightarrow> agent_state \<Rightarrow> graph_node" where
  "graph_edge ev n st = (case n of
       N_observe \<Rightarrow> N_parse
     | N_parse \<Rightarrow> N_detect
     | N_detect \<Rightarrow> N_decide
     | N_decide \<Rightarrow> N_validate
     | N_validate \<Rightarrow> N_policy
     | N_policy \<Rightarrow> (case route_after_policy st of PR_approval \<Rightarrow> N_human | PR_stale \<Rightarrow> N_observe
         | PR_blocked \<Rightarrow> N_finalise | PR_allowed \<Rightarrow> N_execute | PR_done \<Rightarrow> N_finalise)
     | N_human \<Rightarrow> (case route_after_interrupt st of IR_execute \<Rightarrow> N_execute
         | IR_replan \<Rightarrow> N_observe | IR_blocked \<Rightarrow> N_finalise)
     | N_execute \<Rightarrow> N_verify
     | N_verify \<Rightarrow> (case route_after_verify ev st of VR_continue \<Rightarrow> N_observe
         | VR_recover \<Rightarrow> N_recover | VR_pause \<Rightarrow> N_pause | VR_done \<Rightarrow> N_finalise
         | VR_failed \<Rightarrow> N_finalise)
     | N_recover \<Rightarrow> N_observe
     | N_pause \<Rightarrow> (if budget_spent ev st then N_paused else N_observe)
     | N_paused \<Rightarrow> N_observe
     | N_finalise \<Rightarrow> N_end
     | N_end \<Rightarrow> N_end)"

definition graph_run_node ::
  "graph_deps \<Rightarrow> graph_env \<Rightarrow> graph_node \<Rightarrow> agent_state \<Rightarrow> frame_store \<Rightarrow> node_effect" where
  "graph_run_node dps ev n = (case n of
       N_observe \<Rightarrow> observe_frame dps ev
     | N_parse \<Rightarrow> parse_screen dps ev
     | N_detect \<Rightarrow> detect_state dps ev
     | N_decide \<Rightarrow> operator_decide dps ev
     | N_validate \<Rightarrow> validate_node dps ev
     | N_policy \<Rightarrow> policy_gate_node dps ev
     | N_human \<Rightarrow> human_interrupt dps ev
     | N_execute \<Rightarrow> execute_transaction dps ev
     | N_verify \<Rightarrow> verify_result dps ev
     | N_recover \<Rightarrow> recover_node dps ev
     | N_pause \<Rightarrow> budget_pause dps ev
     | N_paused \<Rightarrow> resume_budget dps ev
     | N_finalise \<Rightarrow> finalise dps ev
     | N_end \<Rightarrow> (\<lambda>st fs. (st, fs, [])))"

record graph_conf =
  gc_node :: graph_node
  gc_state :: agent_state
  gc_frames :: frame_store
  gc_trace :: "graph_event list"

text \<open>The trace is kept in order, oldest entry first.\<close>

definition graph_next :: "graph_deps \<Rightarrow> graph_env \<Rightarrow> graph_conf \<Rightarrow> graph_conf" where
  "graph_next dps ev c =
     (let (st, fs, evs) = graph_run_node dps ev (gc_node c) (gc_state c) (gc_frames c)
      in \<lparr>gc_node = graph_edge ev (gc_node c) st, gc_state = st, gc_frames = fs,
          gc_trace = gc_trace c @ evs\<rparr>)"

text \<open>\<open>E\<close> restricts what the outside may do; with \<open>E\<close> true everywhere nothing is assumed.\<close>

inductive graph_step :: "graph_deps \<Rightarrow> (graph_env \<Rightarrow> bool) \<Rightarrow> graph_conf \<Rightarrow> graph_conf \<Rightarrow> bool"
  for dps E where
  graph_step_node: "gc_node c \<noteq> N_end \<Longrightarrow> E ev \<Longrightarrow> graph_step dps E c (graph_next dps ev c)"

definition graph_init :: "agent_state \<Rightarrow> graph_conf" where
  "graph_init st = \<lparr>gc_node = N_observe, gc_state = st, gc_frames = fs_init, gc_trace = []\<rparr>"

inductive graph_reach ::
  "graph_deps \<Rightarrow> (graph_env \<Rightarrow> bool) \<Rightarrow> agent_state \<Rightarrow> graph_conf \<Rightarrow> bool" for dps E st0 where
  reach_init: "graph_reach dps E st0 (graph_init st0)"
| reach_step: "graph_reach dps E st0 c \<Longrightarrow> graph_step dps E c c' \<Longrightarrow> graph_reach dps E st0 c'"

inductive_cases graph_stepE: "graph_step dps E c c'"

fun graph_exec :: "graph_deps \<Rightarrow> graph_env list \<Rightarrow> graph_conf \<Rightarrow> graph_conf" where
  "graph_exec dps [] c = c"
| "graph_exec dps (ev # evs) c =
     (if gc_node c = N_end then c else graph_exec dps evs (graph_next dps ev c))"

lemma graph_exec_reach:
  "graph_reach dps E st0 c \<Longrightarrow> list_all E evs \<Longrightarrow> graph_reach dps E st0 (graph_exec dps evs c)"
  by (induction evs arbitrary: c) (auto intro: reach_step graph_step_node)

end
