(* ===== verification/AgentGraphSafety.thy ===== *)
theory AgentGraphSafety
  imports AgentGraph
begin

text \<open>
  What holds in every reachable configuration of the operator loop. Invariants are predicates on
  the node, the state and the trace; the locale \<open>graph_invariant\<close> turns preservation by one node
  into truth at every reachable configuration and is interpreted once per invariant.
\<close>

subsection \<open>Invariants of the loop\<close>

locale graph_invariant =
  fixes dps :: graph_deps
    and E :: "graph_env \<Rightarrow> bool"
    and inv :: "graph_node \<Rightarrow> agent_state \<Rightarrow> graph_event list \<Rightarrow> bool"
  assumes preserved:
    "inv n st tr \<Longrightarrow> n \<noteq> N_end \<Longrightarrow> E ev \<Longrightarrow> graph_run_node dps ev n st fs = (st', fs', evs) \<Longrightarrow>
       inv (graph_edge ev n st') st' (tr @ evs)"
begin

lemma step_inv:
  assumes "graph_step dps E c c'" and "inv (gc_node c) (gc_state c) (gc_trace c)"
  shows "inv (gc_node c') (gc_state c') (gc_trace c')"
  using assms(1)
proof (rule graph_stepE)
  fix ev
  assume c': "c' = graph_next dps ev c" and n: "gc_node c \<noteq> N_end" and E: "E ev"
  obtain st' fs' evs where
    e: "graph_run_node dps ev (gc_node c) (gc_state c) (gc_frames c) = (st', fs', evs)"
    by (cases "graph_run_node dps ev (gc_node c) (gc_state c) (gc_frames c)")
  from preserved [OF assms(2) n E e] show ?thesis
    by (simp add: c' graph_next_def e)
qed

lemma reach_inv:
  assumes "graph_reach dps E st0 c" and "inv N_observe st0 []"
  shows "inv (gc_node c) (gc_state c) (gc_trace c)"
  using assms by (induction rule: graph_reach.induct) (auto simp: graph_init_def intro: step_inv)

end

subsection \<open>Reading the trace\<close>

fun is_dispatch :: "graph_event \<Rightarrow> bool" where
  "is_dispatch (Ev_dispatch _ _) = True"
| "is_dispatch _ = False"

fun is_decision :: "graph_event \<Rightarrow> bool" where
  "is_decision (Ev_decision _ _) = True"
| "is_decision _ = False"

fun is_human_dispatch :: "policy_config \<Rightarrow> graph_event \<Rightarrow> bool" where
  "is_human_dispatch cfg (Ev_dispatch d _) = lr_requires_human (classify_local_risk cfg d)"
| "is_human_dispatch cfg _ = False"

definition n_dispatches :: "graph_event list \<Rightarrow> nat" where
  "n_dispatches tr = length (filter is_dispatch tr)"

definition n_human_dispatches :: "policy_config \<Rightarrow> graph_event list \<Rightarrow> nat" where
  "n_human_dispatches cfg tr = length (filter (is_human_dispatch cfg) tr)"

definition n_approvals :: "graph_event list \<Rightarrow> nat" where
  "n_approvals tr = length (filter (\<lambda>e. e = Ev_approved) tr)"

fun later_decision :: "graph_event \<Rightarrow> operator_decision option \<Rightarrow> operator_decision option" where
  "later_decision (Ev_decision _ d) _ = Some d"
| "later_decision _ acc = acc"

definition last_decision :: "graph_event list \<Rightarrow> operator_decision option" where
  "last_decision tr = fold later_decision tr None"

lemmas trace_defs = n_dispatches_def n_human_dispatches_def n_approvals_def last_decision_def

subsection \<open>What each node leaves alone\<close>

text \<open>
  \<open>quiet\<close>: no dispatch, decision or approval in a node's events. \<open>same_control\<close>: the approval flag and
  the counters and bounds of the loop are as before. \<open>done_kept\<close>: the node does not make the run done.
\<close>

definition may_dispatch :: "graph_deps \<Rightarrow> graph_env \<Rightarrow> agent_state \<Rightarrow> frame_store \<Rightarrow> operator_decision \<Rightarrow> bool" where
  "may_dispatch dps ev st fs dec \<longleftrightarrow>
     st_decision st = Some dec
     \<and> \<not> (gd_has_stop dps \<and> ev_stopped ev)
     \<and> \<not> (gd_has_epoch dps \<and> st_control_epoch st \<noteq> None \<and> st_control_epoch st \<noteq> Some (ev_epoch ev))
     \<and> \<not> deadline_passed ev st
     \<and> dec_world_version dec = snd (snd (capture_full dps ev fs))
     \<and> \<not> lr_blocked (classify_local_risk (gd_policy dps) dec)
     \<and> (lr_requires_human (classify_local_risk (gd_policy dps) dec) \<longrightarrow> st_approved st)"

definition quiet :: "graph_event list \<Rightarrow> bool" where
  "quiet es = list_all (\<lambda>e. \<not> is_dispatch e \<and> \<not> is_decision e \<and> e \<noteq> Ev_approved) es"

lemma execute_go:
  assumes "may_dispatch dps ev st fs dec"
  shows "\<exists>st2 fs2 s. execute_transaction dps ev st fs = (st2, fs2,
      [Ev_dispatch dec (make_transaction st (st_frame_id st) (st_world_version st) dec), Ev_executed s])
     \<and> \<not> st_approved st2 \<and> st_tx_this_call st2 = st_tx_this_call st + 1
     \<and> st_step st2 = st_step st \<and> st_max_steps st2 = st_max_steps st
     \<and> st_max_transactions st2 = st_max_transactions st \<and> st_decision st2 = st_decision st
     \<and> st_status st2 = st_status st"
  using assms unfolding may_dispatch_def execute_transaction_def Let_def
  by (elim conjE) (simp split: prod.split, blast)

lemma execute_refuse:
  assumes "\<And>dec. \<not> may_dispatch dps ev st fs dec"
  shows "\<exists>st2 fs2 es. execute_transaction dps ev st fs = (st2, fs2, es)
     \<and> (st_approved st2 \<longrightarrow> st_approved st) \<and> st_tx_this_call st2 = st_tx_this_call st
     \<and> st_step st2 = st_step st \<and> st_max_steps st2 = st_max_steps st
     \<and> st_max_transactions st2 = st_max_transactions st \<and> st_decision st2 = st_decision st
     \<and> (st_status st2 = Some S_done \<longrightarrow> st_status st = Some S_done)
     \<and> quiet es"
proof (cases "st_decision st")
  case None
  then show ?thesis by (simp add: execute_transaction_def quiet_def)
next
  case (Some dec)
  then show ?thesis
    using assms [of dec] unfolding may_dispatch_def execute_transaction_def Let_def quiet_def
    by (simp split: prod.split) auto
qed

definition same_control :: "agent_state \<Rightarrow> agent_state \<Rightarrow> bool" where
  "same_control st st' \<longleftrightarrow> st_approved st' = st_approved st \<and> st_step st' = st_step st
     \<and> st_max_steps st' = st_max_steps st \<and> st_tx_this_call st' = st_tx_this_call st
     \<and> st_max_transactions st' = st_max_transactions st"

definition done_kept :: "agent_state \<Rightarrow> agent_state \<Rightarrow> bool" where
  "done_kept st st' \<longleftrightarrow> st_decision st' = st_decision st
     \<and> (st_status st' = Some S_done \<longrightarrow> st_status st = Some S_done)"

lemma parse_screen_footprint:
  "parse_screen dps ev st fs = (st', fs', es) \<Longrightarrow> same_control st st' \<and> done_kept st st' \<and> quiet es"
  by (auto simp: parse_screen_def same_control_def done_kept_def quiet_def Let_def
      split: option.splits if_splits)

lemma detect_state_footprint:
  "detect_state dps ev st fs = (st', fs', es) \<Longrightarrow> same_control st st' \<and> done_kept st st' \<and> quiet es"
  by (auto simp: detect_state_def same_control_def done_kept_def quiet_def)

lemma validate_footprint:
  "validate_node dps ev st fs = (st', fs', es) \<Longrightarrow> same_control st st' \<and> done_kept st st' \<and> quiet es"
  by (auto simp: validate_node_def same_control_def done_kept_def quiet_def split: if_splits)

lemma policy_footprint:
  assumes "policy_gate_node dps ev st fs = (st', fs', es)"
  shows "same_control st st' \<and> done_kept st st' \<and> quiet es"
  using assms unfolding policy_gate_node_def Let_def
  by (auto simp: same_control_def done_kept_def quiet_def split: option.splits if_splits policy_status.splits)

lemma verify_footprint:
  assumes "verify_result dps ev st fs = (st', fs', es)"
  shows "same_control st st' \<and> done_kept st st' \<and> quiet es"
  using assms unfolding verify_result_def Let_def
  by (auto simp: same_control_def done_kept_def quiet_def split: option.splits if_splits)

lemma recover_footprint:
  assumes "recover_node dps ev st fs = (st', fs', es)"
  shows "same_control st st' \<and> done_kept st st' \<and> quiet es"
  using assms unfolding recover_node_def Let_def
  by (auto simp: same_control_def done_kept_def quiet_def split: prod.splits)

lemma finalise_footprint:
  assumes "finalise dps ev st fs = (st', fs', es)"
  shows "same_control st st' \<and> done_kept st st' \<and> quiet es"
  using assms unfolding finalise_def Let_def
  by (auto simp: same_control_def done_kept_def quiet_def split: option.splits if_splits)

lemma pause_footprint:
  "budget_pause dps ev st fs = (st', fs', es) \<Longrightarrow> same_control st st' \<and> done_kept st st' \<and> quiet es"
  by (auto simp: budget_pause_def same_control_def done_kept_def quiet_def split: if_splits)

lemma resume_footprint:
  assumes "resume_budget dps ev st fs = (st', fs', es)"
  shows "st_approved st' = st_approved st \<and> st_step st' = st_step st \<and> st_max_steps st' = st_max_steps st
    \<and> st_tx_this_call st' = 0 \<and> done_kept st st' \<and> quiet es"
  using assms by (auto simp: resume_budget_def budget_pause_def done_kept_def quiet_def split: if_splits)

lemma observe_footprint:
  assumes "observe_frame dps ev st fs = (st', fs', es)"
  shows "st_approved st' = st_approved st \<and> st_step st' = st_step st
    \<and> st_tx_this_call st' = st_tx_this_call st \<and> st_max_transactions st' = st_max_transactions st
    \<and> st_max_steps st' = (if st_max_steps st = None \<or> st_max_steps st = Some 0
                          then Some (gd_max_steps dps) else st_max_steps st)
    \<and> done_kept st st' \<and> quiet es"
  using assms unfolding observe_frame_def Let_def
  by (auto simp: done_kept_def quiet_def split: prod.splits)

lemma decide_footprint:
  assumes "operator_decide dps ev st fs = (st', fs', es)"
  shows "st_approved st' = st_approved st \<and> st_step st' = st_step st + 1
    \<and> st_tx_this_call st' = st_tx_this_call st \<and> st_max_transactions st' = st_max_transactions st
    \<and> st_max_steps st' = st_max_steps st \<and> fs' = fs
    \<and> (st_decision st' = st_decision st \<and> st_status st' = Some S_failed \<and> quiet es
       \<or> (\<exists>dec. st_decision st' = Some dec \<and> es = [Ev_decision (st_step st + 1) dec]
             \<and> (st_status st' = Some S_done \<longleftrightarrow> declares_done dec)))"
  using assms unfolding operator_decide_def Let_def
  by (auto simp: quiet_def split: sum.splits if_splits)

lemma human_footprint:
  assumes "human_interrupt dps ev st fs = (st', fs', es)"
  shows "st_step st' = st_step st \<and> st_tx_this_call st' = st_tx_this_call st
    \<and> st_max_transactions st' = st_max_transactions st \<and> st_max_steps st' = st_max_steps st
    \<and> done_kept st st' \<and> (es = [Ev_approved] \<or> quiet es \<and> (st_approved st' \<longrightarrow> st_approved st))"
  using assms unfolding human_interrupt_def Let_def
  by (auto simp: quiet_def done_kept_def split: if_splits)

lemma quiet_counts:
  assumes "quiet es"
  shows "filter is_dispatch es = []" "filter (is_human_dispatch cfg) es = []"
    "filter (\<lambda>e. e = Ev_approved) es = []" "fold later_decision es acc = acc"
proof -
  have *: "quiet es \<Longrightarrow> filter is_dispatch es = [] \<and> filter (is_human_dispatch cfg) es = []
      \<and> filter (\<lambda>e. e = Ev_approved) es = [] \<and> fold later_decision es acc = acc" for es
  proof (induction es)
    case Nil
    then show ?case by simp
  next
    case (Cons e es)
    then show ?case by (cases e) (simp_all add: quiet_def)
  qed
  show "filter is_dispatch es = []" "filter (is_human_dispatch cfg) es = []"
    "filter (\<lambda>e. e = Ev_approved) es = []" "fold later_decision es acc = acc"
    using * [OF assms] by simp_all
qed

lemma quiet_trace [simp]:
  assumes "quiet es"
  shows "n_dispatches (tr @ es) = n_dispatches tr"
    "n_human_dispatches cfg (tr @ es) = n_human_dispatches cfg tr"
    "n_approvals (tr @ es) = n_approvals tr" "last_decision (tr @ es) = last_decision tr"
  using quiet_counts [OF assms] by (simp_all add: trace_defs)

text \<open>The nodes that neither plan, ask, dispatch nor touch the budget.\<close>

definition plain_nodes :: "graph_node set" where
  "plain_nodes = {N_parse, N_detect, N_validate, N_policy, N_verify, N_recover, N_pause, N_finalise}"

lemma plain_footprint:
  assumes "n \<in> plain_nodes" and "graph_run_node dps ev n st fs = (st', fs', es)"
  shows "same_control st st' \<and> done_kept st st' \<and> quiet es"
proof -
  consider "n = N_parse" | "n = N_detect" | "n = N_validate" | "n = N_policy" | "n = N_verify"
    | "n = N_recover" | "n = N_pause" | "n = N_finalise"
    using assms(1) by (auto simp: plain_nodes_def)
  then show ?thesis
    using assms(2)
    by cases (simp_all add: graph_run_node_def parse_screen_footprint detect_state_footprint
        validate_footprint policy_footprint verify_footprint recover_footprint pause_footprint
        finalise_footprint)
qed

text \<open>One case per kind of node, with what it may change.\<close>

lemma run_node_cases [consumes 2, case_names plain observe decide human dispatch refuse resume]:
  assumes "graph_run_node dps ev n st fs = (st', fs', es)" and "n \<noteq> N_end"
    and "n \<in> plain_nodes \<Longrightarrow> same_control st st' \<Longrightarrow> done_kept st st' \<Longrightarrow> quiet es \<Longrightarrow> P"
    and "n = N_observe \<Longrightarrow> observe_frame dps ev st fs = (st', fs', es) \<Longrightarrow> P"
    and "n = N_decide \<Longrightarrow> operator_decide dps ev st fs = (st', fs', es) \<Longrightarrow> P"
    and "n = N_human \<Longrightarrow> human_interrupt dps ev st fs = (st', fs', es) \<Longrightarrow> P"
    and "\<And>dec. n = N_execute \<Longrightarrow> may_dispatch dps ev st fs dec \<Longrightarrow>
           execute_transaction dps ev st fs = (st', fs', es) \<Longrightarrow> P"
    and "n = N_execute \<Longrightarrow> (\<And>dec. \<not> may_dispatch dps ev st fs dec) \<Longrightarrow>
           execute_transaction dps ev st fs = (st', fs', es) \<Longrightarrow> P"
    and "n = N_paused \<Longrightarrow> resume_budget dps ev st fs = (st', fs', es) \<Longrightarrow> P"
  shows P
proof -
  consider "n \<in> plain_nodes" | "n = N_observe" | "n = N_decide" | "n = N_human" | "n = N_execute"
    | "n = N_paused"
    using assms(2) by (cases n) (auto simp: plain_nodes_def)
  then show P
  proof cases
    case 1
    with plain_footprint [OF 1 assms(1)] assms(3) show P by blast
  next
    case 5
    then have "execute_transaction dps ev st fs = (st', fs', es)"
      using assms(1) by (simp add: graph_run_node_def)
    then show P using assms(7,8) 5 by blast
  qed (use assms in \<open>auto simp: graph_run_node_def\<close>)
qed

lemma dispatch_effect:
  assumes "may_dispatch dps ev st fs dec" and "execute_transaction dps ev st fs = (st', fs', es)"
  shows "\<not> st_approved st' \<and> st_tx_this_call st' = st_tx_this_call st + 1 \<and> st_step st' = st_step st
    \<and> st_max_steps st' = st_max_steps st \<and> st_max_transactions st' = st_max_transactions st
    \<and> done_kept st st' \<and> n_dispatches (tr @ es) = n_dispatches tr + 1
    \<and> n_human_dispatches (gd_policy dps) (tr @ es) = n_human_dispatches (gd_policy dps) tr
        + (if lr_requires_human (classify_local_risk (gd_policy dps) dec) then 1 else 0)
    \<and> n_approvals (tr @ es) = n_approvals tr \<and> last_decision (tr @ es) = last_decision tr"
  using execute_go [OF assms(1)] assms(2) by (auto simp: trace_defs done_kept_def)

lemma refuse_effect:
  assumes "\<And>dec. \<not> may_dispatch dps ev st fs dec"
    and "execute_transaction dps ev st fs = (st', fs', es)"
  shows "(st_approved st' \<longrightarrow> st_approved st) \<and> st_tx_this_call st' = st_tx_this_call st
     \<and> st_step st' = st_step st \<and> st_max_steps st' = st_max_steps st
     \<and> st_max_transactions st' = st_max_transactions st \<and> done_kept st st' \<and> quiet es"
  using execute_refuse [OF assms(1)] assms(2) by (auto simp: done_kept_def)

subsection \<open>Approvals pay for dispatches\<close>

definition inv_approval :: "policy_config \<Rightarrow> graph_node \<Rightarrow> agent_state \<Rightarrow> graph_event list \<Rightarrow> bool" where
  "inv_approval cfg n st tr \<longleftrightarrow>
     n_human_dispatches cfg tr + (if st_approved st then 1 else 0) \<le> n_approvals tr"

interpretation approval: graph_invariant dps E "inv_approval (gd_policy dps)" for dps E
proof
  fix n st tr ev fs st' fs' evs
  assume i: "inv_approval (gd_policy dps) n st tr" and n: "n \<noteq> N_end"
    and r: "graph_run_node dps ev n st fs = (st', fs', evs)"
  from r n show "inv_approval (gd_policy dps) (graph_edge ev n st') st' (tr @ evs)"
  proof (cases rule: run_node_cases)
    case plain
    then show ?thesis using i by (simp add: inv_approval_def same_control_def)
  next
    case observe
    with observe_footprint i show ?thesis by (auto simp: inv_approval_def)
  next
    case decide
    from decide_footprint [OF decide(2)] i show ?thesis
      by (auto simp: inv_approval_def trace_defs quiet_counts split: if_splits)
  next
    case human
    from human_footprint [OF human(2)] i show ?thesis
      by (auto simp: inv_approval_def trace_defs quiet_counts split: if_splits)
  next
    case (dispatch dec)
    from dispatch_effect [OF dispatch(2,3), of tr] dispatch(2) i show ?thesis
      by (auto simp: inv_approval_def may_dispatch_def split: if_splits)
  next
    case refuse
    from refuse_effect [OF refuse(2,3)] i show ?thesis
      by (auto simp: inv_approval_def split: if_splits)
  next
    case resume
    from resume_footprint [OF resume(2)] i show ?thesis by (auto simp: inv_approval_def)
  qed
qed

subsection \<open>Done means declared\<close>

definition inv_done :: "graph_node \<Rightarrow> agent_state \<Rightarrow> graph_event list \<Rightarrow> bool" where
  "inv_done n st tr \<longleftrightarrow> st_decision st = last_decision tr
     \<and> (st_status st = Some S_done \<longrightarrow>
          (case last_decision tr of None \<Rightarrow> False | Some dec \<Rightarrow> declares_done dec))"

lemma inv_done_quiet:
  "inv_done n st tr \<Longrightarrow> done_kept st st' \<Longrightarrow> last_decision (tr @ es) = last_decision tr \<Longrightarrow>
     inv_done n' st' (tr @ es)"
  by (simp add: inv_done_def done_kept_def)

interpretation finished: graph_invariant dps E inv_done for dps E
proof
  fix n st tr ev fs st' fs' evs
  assume i: "inv_done n st tr" and n: "n \<noteq> N_end"
    and r: "graph_run_node dps ev n st fs = (st', fs', evs)"
  from r n show "inv_done (graph_edge ev n st') st' (tr @ evs)"
  proof (cases rule: run_node_cases)
    case plain
    then show ?thesis using inv_done_quiet [OF i] by simp
  next
    case observe
    with observe_footprint inv_done_quiet [OF i] show ?thesis by auto
  next
    case decide
    from decide_footprint [OF decide(2)] i show ?thesis
      by (auto simp: inv_done_def last_decision_def quiet_counts)
  next
    case human
    from human_footprint [OF human(2)] inv_done_quiet [OF i] show ?thesis
      by (auto simp: last_decision_def quiet_counts)
  next
    case (dispatch dec)
    from dispatch_effect [OF dispatch(2,3), of tr] inv_done_quiet [OF i] show ?thesis by blast
  next
    case refuse
    from refuse_effect [OF refuse(2,3)] inv_done_quiet [OF i] show ?thesis by simp
  next
    case resume
    from resume_footprint [OF resume(2)] inv_done_quiet [OF i] show ?thesis by auto
  qed
qed

subsection \<open>The step cap\<close>

definition eff_max :: "graph_deps \<Rightarrow> int option \<Rightarrow> int" where
  "eff_max dps m = (case m of None \<Rightarrow> gd_max_steps dps
     | Some m \<Rightarrow> if m = 0 then gd_max_steps dps else m)"

definition inv_steps :: "graph_deps \<Rightarrow> int \<Rightarrow> graph_node \<Rightarrow> agent_state \<Rightarrow> graph_event list \<Rightarrow> bool" where
  "inv_steps dps M n st tr \<longleftrightarrow> 0 < M \<and> eff_max dps (st_max_steps st) = M
     \<and> (n \<noteq> N_observe \<longrightarrow> st_max_steps st = Some M)
     \<and> (let d = int (n_dispatches tr) in
        if n \<in> {N_validate, N_policy, N_human, N_execute} then d + 1 \<le> st_step st \<and> d < M
        else if n = N_verify then d \<le> st_step st \<and> d \<le> M
        else if n \<in> {N_finalise, N_end} then d \<le> M
        else d \<le> st_step st \<and> d < M)"

text \<open>\<open>verify_result\<close> only lets the loop go on below the cap.\<close>

lemma verify_below_cap:
  assumes "verify_result dps ev st fs = (st', fs', es)" and "graph_edge ev N_verify st' \<noteq> N_finalise"
    and "st_max_steps st = Some M"
  shows "st_step st < M"
  using assms unfolding verify_result_def graph_edge_def route_after_verify_def Let_def terminal_status_def
  by (auto split: if_splits option.splits)

lemma plain_edge:
  assumes "n \<in> plain_nodes"
  shows "graph_edge ev n st \<in> (case n of N_parse \<Rightarrow> {N_detect} | N_detect \<Rightarrow> {N_decide}
     | N_validate \<Rightarrow> {N_policy} | N_policy \<Rightarrow> {N_human, N_observe, N_finalise, N_execute}
     | N_verify \<Rightarrow> {N_observe, N_recover, N_pause, N_finalise} | N_recover \<Rightarrow> {N_observe}
     | N_pause \<Rightarrow> {N_paused, N_observe} | _ \<Rightarrow> {N_end})"
  using assms by (cases n) (simp_all add: plain_nodes_def graph_edge_def
      split: policy_route.split verify_route.split)

lemma inv_steps_plain:
  assumes i: "inv_steps dps M n st tr" and n: "n \<in> plain_nodes" and s: "same_control st st'"
    and q: "quiet es" and r: "graph_run_node dps ev n st fs = (st', fs', es)"
  shows "inv_steps dps M (graph_edge ev n st') st' (tr @ es)"
proof (cases "n = N_verify")
  case True
  have v: "verify_result dps ev st fs = (st', fs', es)" using r True by (simp add: graph_run_node_def)
  have m: "st_max_steps st = Some M" using i True by (simp add: inv_steps_def)
  show ?thesis
  proof (cases "graph_edge ev N_verify st' = N_finalise")
    case True
    then show ?thesis
      using i s q \<open>n = N_verify\<close> by (auto simp: inv_steps_def same_control_def Let_def)
  next
    case False
    with verify_below_cap [OF v False m] plain_edge [OF n, of ev st'] i s q \<open>n = N_verify\<close>
    show ?thesis by (auto simp: inv_steps_def same_control_def Let_def)
  qed
next
  case False
  with i n s q plain_edge [OF n, of ev st'] show ?thesis
    by (cases n) (auto simp: inv_steps_def same_control_def plain_nodes_def Let_def)
qed

interpretation capped: graph_invariant dps E "inv_steps dps M" for dps E M
proof
  fix n st tr ev fs st' fs' evs
  assume i: "inv_steps dps M n st tr" and n: "n \<noteq> N_end"
    and r: "graph_run_node dps ev n st fs = (st', fs', evs)"
  from r n show "inv_steps dps M (graph_edge ev n st') st' (tr @ evs)"
  proof (cases rule: run_node_cases)
    case plain
    then show ?thesis using inv_steps_plain [OF i] r by blast
  next
    case observe
    with observe_footprint [OF observe(2)] i show ?thesis
      by (auto simp: inv_steps_def graph_edge_def eff_max_def Let_def split: option.splits if_splits)
  next
    case decide
    have "n_dispatches (tr @ evs) = n_dispatches tr"
      using decide_footprint [OF decide(2)] by (auto simp: n_dispatches_def quiet_counts)
    with decide_footprint [OF decide(2)] i decide(1) show ?thesis
      by (auto simp: inv_steps_def graph_edge_def Let_def)
  next
    case human
    have "n_dispatches (tr @ evs) = n_dispatches tr"
      using human_footprint [OF human(2)] by (auto simp: n_dispatches_def quiet_counts)
    moreover have "graph_edge ev n st' \<in> {N_execute, N_observe, N_finalise}"
      using human(1) by (simp add: graph_edge_def split: interrupt_route.split)
    ultimately show ?thesis using human_footprint [OF human(2)] i human(1)
      by (auto simp: inv_steps_def Let_def)
  next
    case (dispatch dec)
    from dispatch_effect [OF dispatch(2,3), of tr] i dispatch(1) show ?thesis
      by (auto simp: inv_steps_def graph_edge_def Let_def)
  next
    case refuse
    from refuse_effect [OF refuse(2,3)] i refuse(1) show ?thesis
      by (auto simp: inv_steps_def graph_edge_def Let_def)
  next
    case resume
    from resume_footprint [OF resume(2)] i resume(1) show ?thesis
      by (auto simp: inv_steps_def graph_edge_def Let_def)
  qed
qed

subsection \<open>The per-call budget\<close>

text \<open>
  A run whose executor never reports a stale frame, as \<open>GuardedTransactionExecutor\<close> never does.
\<close>

definition exec_never_stale :: "graph_env \<Rightarrow> bool" where
  "exec_never_stale ev \<longleftrightarrow> tr_status (ev_exec_result ev) \<noteq> Tx_failed_stale_frame"

definition inv_budget :: "graph_node \<Rightarrow> agent_state \<Rightarrow> graph_event list \<Rightarrow> bool" where
  "inv_budget n st tr \<longleftrightarrow> (0 < st_max_transactions st \<longrightarrow>
     (if n = N_verify
      then st_tx_this_call st \<le> st_max_transactions st
        \<and> (Option.bind (st_tx_report st) report_status = Some Tx_failed_stale_frame \<longrightarrow>
             st_tx_this_call st < st_max_transactions st)
      else if n \<in> {N_pause, N_paused, N_finalise, N_end}
      then st_tx_this_call st \<le> st_max_transactions st
      else st_tx_this_call st < st_max_transactions st))"

lemma dispatch_never_stale:
  assumes "may_dispatch dps ev st fs dec" and "exec_never_stale ev"
    and "execute_transaction dps ev st fs = (st', fs', es)"
  shows "Option.bind (st_tx_report st') report_status \<noteq> Some Tx_failed_stale_frame"
  using assms unfolding may_dispatch_def execute_transaction_def Let_def exec_never_stale_def
  by (elim conjE) (auto simp: record_only_execute_def split: prod.splits if_splits)

lemma verify_report_kept:
  "verify_result dps ev st fs = (st', fs', es) \<Longrightarrow> st_tx_report st' = st_tx_report st"
  unfolding verify_result_def Let_def by (auto split: if_splits option.splits)

lemma inv_budget_verify:
  assumes i: "inv_budget N_verify st tr" and r: "verify_result dps ev st fs = (st', fs', es)"
  shows "inv_budget (graph_edge ev N_verify st') st' (tr @ es)"
  using i verify_footprint [OF r] verify_report_kept [OF r]
  by (auto simp: inv_budget_def same_control_def graph_edge_def route_after_verify_def budget_spent_def
      Let_def split: if_splits)

lemma inv_budget_plain:
  assumes i: "inv_budget n st tr" and n: "n \<in> plain_nodes" and s: "same_control st st'"
    and r: "graph_run_node dps ev n st fs = (st', fs', es)"
  shows "inv_budget (graph_edge ev n st') st' (tr @ es)"
proof (cases "n = N_verify \<or> n = N_pause")
  case True
  then show ?thesis
  proof
    assume "n = N_verify"
    with i r inv_budget_verify show ?thesis by (simp add: graph_run_node_def)
  next
    assume "n = N_pause"
    with i s show ?thesis
      by (auto simp: inv_budget_def same_control_def graph_edge_def budget_spent_def split: if_splits)
  qed
next
  case False
  with i n s plain_edge [OF n, of ev st'] show ?thesis
    by (cases n) (auto simp: inv_budget_def same_control_def plain_nodes_def)
qed

interpretation budget: graph_invariant dps exec_never_stale inv_budget for dps
proof
  fix n st tr ev fs st' fs' evs
  assume i: "inv_budget n st tr" and n: "n \<noteq> N_end" and E: "exec_never_stale ev"
    and r: "graph_run_node dps ev n st fs = (st', fs', evs)"
  from r n show "inv_budget (graph_edge ev n st') st' (tr @ evs)"
  proof (cases rule: run_node_cases)
    case plain
    then show ?thesis using inv_budget_plain [OF i] r by blast
  next
    case observe
    with observe_footprint [OF observe(2)] i show ?thesis
      by (auto simp: inv_budget_def graph_edge_def)
  next
    case decide
    with decide_footprint [OF decide(2)] i show ?thesis
      by (auto simp: inv_budget_def graph_edge_def)
  next
    case human
    have "graph_edge ev n st' \<in> {N_execute, N_observe, N_finalise}"
      using human(1) by (simp add: graph_edge_def split: interrupt_route.split)
    with human_footprint [OF human(2)] i human(1) show ?thesis
      by (auto simp: inv_budget_def)
  next
    case (dispatch dec)
    from dispatch_effect [OF dispatch(2,3), of tr] dispatch_never_stale [OF dispatch(2) E dispatch(3)]
      i dispatch(1)
    show ?thesis by (auto simp: inv_budget_def graph_edge_def)
  next
    case refuse
    from refuse_effect [OF refuse(2,3)] i refuse(1) show ?thesis
      by (auto simp: inv_budget_def graph_edge_def)
  next
    case resume
    from resume_footprint [OF resume(2)] i resume(1) show ?thesis
      by (auto simp: inv_budget_def graph_edge_def)
  qed
qed

subsection \<open>What the execute node is given\<close>

definition cleared :: "agent_state \<Rightarrow> bool" where
  "cleared st \<longleftrightarrow> (case st_decision st of None \<Rightarrow> False | Some dec \<Rightarrow>
     decision_valid dec \<and> \<not> declares_done dec
     \<and> mode_block (mode_or_unknown st) (dec_actions dec) = None
     \<and> dec_frame_id dec = st_frame_id st \<and> dec_world_version dec = st_world_version st)"

definition decided :: "agent_state \<Rightarrow> bool" where
  "decided st \<longleftrightarrow> st_status st \<in> {Some S_done, Some S_failed, Some S_running}
     \<and> (st_status st = Some S_running \<longrightarrow>
          (case st_decision st of None \<Rightarrow> False | Some dec \<Rightarrow> \<not> declares_done dec))"

definition validated :: "agent_state \<Rightarrow> bool" where
  "validated st \<longleftrightarrow> decided st \<and> (st_status st = Some S_running \<longrightarrow>
     (case st_decision st of None \<Rightarrow> False | Some dec \<Rightarrow> decision_valid dec))"

definition inv_cleared :: "graph_node \<Rightarrow> agent_state \<Rightarrow> graph_event list \<Rightarrow> bool" where
  "inv_cleared n st tr \<longleftrightarrow>
     (n \<in> {N_human, N_execute} \<longrightarrow> cleared st) \<and> (n = N_validate \<longrightarrow> decided st)
     \<and> (n = N_policy \<longrightarrow> validated st)"

lemma decide_decided: "operator_decide dps ev st fs = (st', fs', evs) \<Longrightarrow> decided st'"
  unfolding operator_decide_def Let_def
  by (auto simp: decided_def split: sum.splits if_splits)

lemma validate_validated:
  assumes "validate_node dps ev st fs = (st', fs', evs)" and "decided st"
  shows "validated st'"
  using assms unfolding validate_node_def
  by (auto simp: validated_def decided_def split: option.splits if_splits)

lemma policy_cleared:
  assumes "policy_gate_node dps ev st fs = (st', fs', evs)" and "validated st"
    and "graph_edge ev N_policy st' \<in> {N_human, N_execute}"
  shows "cleared st'"
proof -
  consider "st_status st = Some S_done" | "st_status st = Some S_failed"
    | dec where "st_status st = Some S_running" "st_decision st = Some dec" "\<not> declares_done dec"
      "decision_valid dec"
    using assms(2) by (auto simp: validated_def decided_def split: option.splits)
  then show ?thesis
  proof cases
    case 1
    with assms show ?thesis
      by (auto simp: policy_gate_node_def graph_edge_def route_after_policy_def)
  next
    case 2
    with assms show ?thesis
      by (auto simp: policy_gate_node_def graph_edge_def route_after_policy_def split: if_splits)
  next
    case 3
    let ?pr = "policy_gate (gd_policy dps) dec (st_frame_id st) (st_world_version st) (st_approved st)"
    show ?thesis
    proof (cases "mode_block (mode_or_unknown st) (dec_actions dec)")
      case (Some r)
      with 3 assms(1,3) show ?thesis
        by (cases "stale_reason (PStr r)")
          (auto simp: policy_gate_node_def graph_edge_def route_after_policy_def)
    next
      case None
      show ?thesis
      proof (cases "pr_status ?pr")
        case Blocked
        with None 3 assms(1,3) show ?thesis
          by (cases "stale_reason (PStr (pr_reason ?pr))")
            (auto simp: policy_gate_node_def graph_edge_def route_after_policy_def Let_def)
      next
        case Allowed
        with safety.allowed_iff [THEN iffD1, OF Allowed] None 3 assms(1) show ?thesis
          by (auto simp: policy_gate_node_def Let_def cleared_def mode_or_unknown_def)
      next
        case Approval_required
        with safety.approval_required_iff [THEN iffD1, OF Approval_required] None 3 assms(1)
        show ?thesis by (auto simp: policy_gate_node_def Let_def cleared_def mode_or_unknown_def)
      qed
    qed
  qed
qed

lemma human_keeps:
  "human_interrupt dps ev st fs = (st', fs', evs) \<Longrightarrow> st_decision st' = st_decision st \<and> st_mode st' = st_mode st
    \<and> st_frame_id st' = st_frame_id st \<and> st_world_version st' = st_world_version st"
  by (simp only: human_interrupt_def Let_def split: if_split_asm) (simp only: prod.inject, elim conjE, hypsubst, simp)+

lemma human_cleared:
  assumes "human_interrupt dps ev st fs = (st', fs', evs)" "cleared st"
  shows "cleared st'"
proof -
  note keeps = human_keeps [OF assms(1)]
  then have "mode_or_unknown st' = mode_or_unknown st" by (simp add: mode_or_unknown_def)
  with keeps assms(2) show ?thesis by (simp add: cleared_def split: option.split_asm option.split)
qed

interpretation clearance: graph_invariant dps E inv_cleared for dps E
proof
  fix n st tr ev fs st' fs' evs
  assume i: "inv_cleared n st tr" and "n \<noteq> N_end"
    and r: "graph_run_node dps ev n st fs = (st', fs', evs)"
  consider "n = N_decide" | "n = N_validate" | "n = N_policy" | "n = N_human"
    | "n \<notin> {N_decide, N_validate, N_policy, N_human}" by blast
  then show "inv_cleared (graph_edge ev n st') st' (tr @ evs)"
  proof cases
    case 1
    with r decide_decided show ?thesis
      by (auto simp: inv_cleared_def graph_run_node_def graph_edge_def)
  next
    case 2
    with r i validate_validated show ?thesis
      by (auto simp: inv_cleared_def graph_run_node_def graph_edge_def)
  next
    case 3
    then have "policy_gate_node dps ev st fs = (st', fs', evs)" "validated st"
      using r i by (simp_all add: graph_run_node_def inv_cleared_def)
    with policy_cleared [OF this] plain_edge [of N_policy ev st'] show ?thesis
      by (auto simp: inv_cleared_def plain_nodes_def 3)
  next
    case 4
    then have "cleared st'"
      using r i human_cleared by (simp add: graph_run_node_def inv_cleared_def)
    moreover have "graph_edge ev n st' \<in> {N_execute, N_observe, N_finalise}"
      using 4 by (simp add: graph_edge_def split: interrupt_route.split)
    ultimately show ?thesis by (auto simp: inv_cleared_def)
  next
    case 5
    then have "graph_edge ev n st' \<notin> {N_human, N_execute, N_validate, N_policy}"
      by (cases n) (auto simp: graph_edge_def split: verify_route.split)
    then show ?thesis by (auto simp: inv_cleared_def)
  qed
qed

lemma dispatch_only_in_execute:
  assumes "graph_run_node dps ev n st fs = (st', fs', evs)" and "Ev_dispatch dec tx \<in> set evs"
    and "n \<noteq> N_end"
  shows "n = N_execute \<and> may_dispatch dps ev st fs dec
    \<and> evs = [Ev_dispatch dec tx, last evs]
    \<and> tx = make_transaction st (st_frame_id st) (st_world_version st) dec"
proof -
  have q: "\<not> quiet evs" using assms(2) by (force simp: quiet_def list_all_iff)
  from assms(1,3) show ?thesis
  proof (cases rule: run_node_cases)
    case (dispatch dec')
    with execute_go [OF dispatch(2)] assms(2) show ?thesis by auto
  next
    case refuse
    with refuse_effect [OF refuse(2,3)] q show ?thesis by simp
  next
    case decide
    with decide_footprint [OF decide(2)] q assms(2) show ?thesis by auto
  next
    case human
    with human_footprint [OF human(2)] q assms(2) show ?thesis by auto
  next
    case observe
    with observe_footprint [OF observe(2)] q show ?thesis by simp
  next
    case resume
    with resume_footprint [OF resume(2)] q show ?thesis by simp
  qed (use q in simp)
qed

definition node_events :: "graph_deps \<Rightarrow> graph_env \<Rightarrow> graph_conf \<Rightarrow> graph_event list" where
  "node_events dps ev c = snd (snd (graph_run_node dps ev (gc_node c) (gc_state c) (gc_frames c)))"

lemma graph_next_trace: "gc_trace (graph_next dps ev c) = gc_trace c @ node_events dps ev c"
  by (simp add: graph_next_def node_events_def split: prod.splits)

subsection \<open>The end of a run\<close>

definition inv_end :: "graph_node \<Rightarrow> agent_state \<Rightarrow> graph_event list \<Rightarrow> bool" where
  "inv_end n st tr \<longleftrightarrow> (n = N_end \<longrightarrow> terminal_status (st_status st))"

interpretation ended: graph_invariant dps E inv_end for dps E
proof
  fix n st tr ev fs st' fs' evs
  assume "n \<noteq> N_end" and r: "graph_run_node dps ev n st fs = (st', fs', evs)"
  show "inv_end (graph_edge ev n st') st' (tr @ evs)"
  proof (cases "n = N_finalise")
    case True
    with r show ?thesis
      by (auto simp: graph_run_node_def finalise_def Let_def inv_end_def terminal_status_def
          split: option.splits if_splits)
  next
    case False
    with \<open>n \<noteq> N_end\<close> have "graph_edge ev n st' \<noteq> N_end"
      by (cases n) (auto simp: graph_edge_def
          split: policy_route.split interrupt_route.split verify_route.split)
    then show ?thesis by (simp add: inv_end_def)
  qed
qed

end
