(* ===== verification/AgentGraphProps.thy ===== *)
theory AgentGraphProps
  imports AgentGraphSafety
begin

text \<open>
  The properties of the operator loop, over the invariants of \<open>AgentGraphSafety\<close>, and two runs of it
  evaluated in full.
\<close>

subsection \<open>Sample runs\<close>

text \<open>A terminal on screen, the default policy, the record-only executor and a stop latch.\<close>

definition demo_deps :: graph_deps where
  "demo_deps = \<lparr>gd_policy = default_policy_config, gd_router = None, gd_lane = u ''default'',
     gd_max_steps = 12, gd_fp_meaningful = fp_meaningful, gd_detect = (\<lambda>_ _. M_vscode_terminal),
     gd_has_epoch = True, gd_has_stop = True, gd_has_executor = False,
     gd_has_recovery = True\<rparr>"

definition demo_decision :: "int \<Rightarrow> string \<Rightarrow> operator_decision" where
  "demo_decision frame_id command =
     \<lparr>dec_frame_id = frame_id, dec_world_version = 1, dec_intent = u ''work'',
      dec_state_assessment = [],
      dec_risk = \<lparr>ra_level = Low, ra_category = Terminal_read_only, ra_requires_human = False,
                  ra_reason = []\<rparr>,
      dec_actions = [TypeText (u command)], dec_postconditions = []\<rparr>"

definition demo_env :: "operator_decision \<Rightarrow> string \<Rightarrow> rat \<Rightarrow> graph_env" where
  "demo_env dec answer now =
     \<lparr>ev_fp = [7, 7, 7, 7],
      ev_keyboard = \<lparr>kb_layout_of = Kb_uk, kb_caps_lock = Some False, kb_num_lock = None,
                     kb_scroll_lock = None, kb_online = Some True\<rparr>,
      ev_path = u ''f.jpg'',
      ev_parse = (\<lambda>f w. \<lparr>em_frame_id = f, em_world_version = w, em_elements = [], em_ocr_text = []\<rparr>),
      ev_operator = Inr dec, ev_invalid = [], ev_response = Some [(u ''type'', PStr (u answer))],
      ev_now_ms = now, ev_epoch = 4, ev_stopped = False, ev_new_id = u ''id'',
      ev_exec_result = \<lparr>tr_status = Tx_executed, tr_executed = [], tr_verification = None,
                        tr_world_after = None, tr_error = []\<rparr>,
      ev_exec_frames = [], ev_budget = (0, 0)\<rparr>"

definition demo_start :: "rat \<Rightarrow> graph_conf" where
  "demo_start deadline = graph_init (initial_state (u ''s'') 12 1 deadline)"

text \<open>Plan, hold for approval, approve, execute: eight nodes.\<close>

definition demo_approved_run :: "graph_env list" where
  "demo_approved_run = replicate 8 (demo_env (demo_decision 1 ''rm -rf build'') ''approve'' 0)"

definition demo_before_execute :: graph_conf where
  "demo_before_execute = graph_exec demo_deps (butlast demo_approved_run) (demo_start 0)"

lemma demo_before_execute_reach:
  "graph_reach demo_deps (\<lambda>_. True) (initial_state (u ''s'') 12 1 0) demo_before_execute"
  unfolding demo_before_execute_def demo_start_def
  by (rule graph_exec_reach [OF reach_init]) (simp add: list_all_iff)

definition is_key_event :: "graph_event \<Rightarrow> bool" where
  "is_key_event e = (case e of Ev_approval_required \<Rightarrow> True | Ev_approved \<Rightarrow> True
     | Ev_dispatch _ _ \<Rightarrow> True | Ev_deferred \<Rightarrow> True | Ev_budget_pause _ \<Rightarrow> True | _ \<Rightarrow> False)"

lemma demo_run_dispatches:
  "gc_node demo_before_execute = N_execute
   \<and> n_dispatches (node_events demo_deps (last demo_approved_run) demo_before_execute) = 1"
  by code_simp

subsection \<open>Safety of dispatches\<close>

text \<open>
  C1. Nothing reaches the executor unguarded. Whenever a reachable run calls the executor, with any
  operator, human, screen, clock and control plane, the decision is the current one, passed the schema,
  does not declare the task done, is allowed in the detected mode, cites the world version of a capture
  taken at that moment, is not hard-blocked, is approved if it needs a human, and neither the stop
  latch, a changed control epoch nor a passed deadline stands against it; the transaction carries
  exactly the actions of the decision.
\<close>

theorem dispatch_guarded:
  assumes "graph_reach dps E st0 c" and "gc_node c \<noteq> N_end"
    and "Ev_dispatch dec tx \<in> set (node_events dps ev c)"
  shows "st_decision (gc_state c) = Some dec \<and> decision_valid dec \<and> \<not> declares_done dec
    \<and> mode_block (mode_or_unknown (gc_state c)) (dec_actions dec) = None
    \<and> dec_world_version dec = snd (snd (capture_full dps ev (gc_frames c)))
    \<and> dec_frame_id dec = st_frame_id (gc_state c)
    \<and> \<not> lr_blocked (classify_local_risk (gd_policy dps) dec)
    \<and> (lr_requires_human (classify_local_risk (gd_policy dps) dec) \<longrightarrow> st_approved (gc_state c))
    \<and> \<not> (gd_has_stop dps \<and> ev_stopped ev)
    \<and> (gd_has_epoch dps \<and> st_control_epoch (gc_state c) \<noteq> None \<longrightarrow>
         st_control_epoch (gc_state c) = Some (ev_epoch ev))
    \<and> \<not> deadline_passed ev (gc_state c)
    \<and> tx_actions tx = dec_actions dec \<and> tx_risk tx = dec_risk dec"
proof -
  obtain st' fs' evs where
    r: "graph_run_node dps ev (gc_node c) (gc_state c) (gc_frames c) = (st', fs', evs)"
    by (cases "graph_run_node dps ev (gc_node c) (gc_state c) (gc_frames c)")
  with assms(3) have "Ev_dispatch dec tx \<in> set evs" by (simp add: node_events_def)
  from dispatch_only_in_execute [OF r this assms(2)]
  have n: "gc_node c = N_execute" and m: "may_dispatch dps ev (gc_state c) (gc_frames c) dec"
    and tx: "tx = make_transaction (gc_state c) (st_frame_id (gc_state c))
               (st_world_version (gc_state c)) dec"
    by auto
  have "cleared (gc_state c)"
    using clearance.reach_inv [OF assms(1)] n by (simp add: inv_cleared_def)
  with m tx show ?thesis
    by (auto simp: may_dispatch_def cleared_def make_transaction_def)
qed

theorem dispatch_guarded_witness:
  "\<not> (\<exists>e \<in> set (node_events demo_deps (last demo_approved_run) demo_before_execute).
      (case e of Ev_dispatch dec tx \<Rightarrow> tx_actions tx \<noteq> dec_actions dec
         \<or> \<not> st_approved (gc_state demo_before_execute)
         \<or> \<not> lr_requires_human (classify_local_risk default_policy_config dec)
       | _ \<Rightarrow> False))"
proof -
  let ?ev = "last demo_approved_run"
  have n: "gc_node demo_before_execute \<noteq> N_end" using demo_run_dispatches by simp
  have d: "st_decision (gc_state demo_before_execute) = Some (demo_decision 1 ''rm -rf build'')"
    by code_simp
  have h: "lr_requires_human (classify_local_risk default_policy_config
      (demo_decision 1 ''rm -rf build''))"
    by code_simp
  have p: "gd_policy demo_deps = default_policy_config" by (simp add: demo_deps_def)
  show ?thesis
    using dispatch_guarded [OF demo_before_execute_reach n, of _ _ ?ev] d h p
    by (auto split: graph_event.splits)
qed

text \<open>
  C2. Approvals pay for dispatches: in every reachable run the executor has been called with decisions
  that need a human at most as often as a human answered approve. One approval never covers two
  executions.
\<close>

theorem approvals_cover_dispatches:
  assumes "graph_reach dps E st0 c" and "\<not> st_approved st0"
  shows "n_human_dispatches (gd_policy dps) (gc_trace c) \<le> n_approvals (gc_trace c)"
proof -
  have "inv_approval (gd_policy dps) (gc_node c) (gc_state c) (gc_trace c)"
    using approval.reach_inv [OF assms(1)] assms(2)
    by (simp add: inv_approval_def trace_defs)
  then show ?thesis by (simp add: inv_approval_def split: if_splits)
qed

definition demo_after_execute :: graph_conf where
  "demo_after_execute = graph_exec demo_deps demo_approved_run (demo_start 0)"

lemma demo_after_execute_reach:
  "graph_reach demo_deps (\<lambda>_. True) (initial_state (u ''s'') 12 1 0) demo_after_execute"
  unfolding demo_after_execute_def demo_start_def
  by (rule graph_exec_reach [OF reach_init]) (simp add: list_all_iff)

lemma demo_after_execute_trace:
  "n_human_dispatches default_policy_config (gc_trace demo_after_execute) = 1
   \<and> n_dispatches (gc_trace demo_after_execute) = 1"
  by code_simp

theorem approvals_cover_dispatches_witness: "1 \<le> n_approvals (gc_trace demo_after_execute)"
proof -
  have "gd_policy demo_deps = default_policy_config" by (simp add: demo_deps_def)
  then show ?thesis
    using approvals_cover_dispatches [OF demo_after_execute_reach] demo_after_execute_trace
    by (simp add: initial_state_def)
qed

subsection \<open>Bounds\<close>

text \<open>
  The step cap bounds the executor: a run that starts at step 0 calls it at most \<open>max_steps\<close> times
  (the default of the services where the session sets none), whatever the operator, the screen and
  the human do and however often the run is paused and resumed.
\<close>

theorem dispatches_within_cap:
  assumes "graph_reach dps E st0 c" and "st_step st0 = 0" and "0 < eff_max dps (st_max_steps st0)"
  shows "int (n_dispatches (gc_trace c)) \<le> eff_max dps (st_max_steps st0)"
proof -
  let ?M = "eff_max dps (st_max_steps st0)"
  have "inv_steps dps ?M (gc_node c) (gc_state c) (gc_trace c)"
    using capped.reach_inv [OF assms(1)] assms(2,3)
    by (simp add: inv_steps_def n_dispatches_def Let_def)
  then show ?thesis by (auto simp: inv_steps_def Let_def split: if_splits)
qed

theorem dispatches_within_cap_witness:
  "int (n_dispatches (gc_trace demo_after_execute)) \<le> 12
   \<and> n_dispatches (gc_trace demo_after_execute) = 1"
  using dispatches_within_cap [OF demo_after_execute_reach] demo_after_execute_trace
  by (simp add: initial_state_def eff_max_def)

text \<open>
  The per-call budget: with an executor that never reports a stale frame, a run whose calls each
  allow a positive number of transactions never executes more of them within one call than it allows.
\<close>

theorem call_budget_respected:
  assumes "graph_reach dps exec_never_stale st0 c" and "st_tx_this_call st0 = 0"
    and "0 < st_max_transactions (gc_state c)"
  shows "st_tx_this_call (gc_state c) \<le> st_max_transactions (gc_state c)"
proof -
  have "inv_budget (gc_node c) (gc_state c) (gc_trace c)"
    using budget.reach_inv [OF assms(1)] assms(2) by (simp add: inv_budget_def)
  then show ?thesis using assms(3) by (simp add: inv_budget_def split: if_splits)
qed

theorem call_budget_respected_witness:
  "st_tx_this_call (gc_state demo_after_execute) \<le> 1
   \<and> st_max_transactions (gc_state demo_after_execute) = 1"
proof -
  have "graph_reach demo_deps exec_never_stale (initial_state (u ''s'') 12 1 0) demo_after_execute"
    unfolding demo_after_execute_def demo_start_def
    by (rule graph_exec_reach [OF reach_init])
      (simp add: list_all_iff demo_approved_run_def demo_env_def exec_never_stale_def)
  moreover have "st_max_transactions (gc_state demo_after_execute) = 1" by code_simp
  ultimately show ?thesis
    using call_budget_respected [of demo_deps "initial_state (u ''s'') 12 1 0" demo_after_execute]
    by (simp add: initial_state_def)
qed

subsection \<open>How a run ends\<close>

text \<open>
  C37. Success is never silent: at every point of every run the status \<open>done\<close> means that the last
  decision the operator returned declared the task done (no actions, or an intent that starts with
  DONE); and a run that has reached its end has one of the three final statuses.
\<close>

theorem done_only_when_declared:
  assumes "graph_reach dps E st0 c" and "st_decision st0 = None" and "st_status st0 = None"
  shows "(st_status (gc_state c) = Some S_done \<longrightarrow>
            (case last_decision (gc_trace c) of None \<Rightarrow> False | Some dec \<Rightarrow> declares_done dec))
    \<and> (gc_node c = N_end \<longrightarrow> terminal_status (st_status (gc_state c)))"
proof -
  have "inv_done (gc_node c) (gc_state c) (gc_trace c)"
    using finished.reach_inv [OF assms(1)] assms(2,3) by (simp add: inv_done_def last_decision_def)
  moreover have "inv_end (gc_node c) (gc_state c) (gc_trace c)"
    using ended.reach_inv [OF assms(1)] by (simp add: inv_end_def)
  ultimately show ?thesis by (simp add: inv_done_def inv_end_def)
qed

definition demo_done_run :: graph_conf where
  "demo_done_run = graph_exec demo_deps
     (replicate 7 (demo_env (demo_decision 1 ''x''\<lparr>dec_intent := u ''  done: built''\<rparr>) ''approve'' 0))
     (demo_start 0)"

theorem done_only_when_declared_witness:
  "gc_node demo_done_run = N_end
   \<and> (case last_decision (gc_trace demo_done_run) of None \<Rightarrow> False | Some dec \<Rightarrow> declares_done dec)"
proof -
  have r: "graph_reach demo_deps (\<lambda>_. True) (initial_state (u ''s'') 12 1 0) demo_done_run"
    unfolding demo_done_run_def demo_start_def
    by (rule graph_exec_reach [OF reach_init]) (simp add: list_all_iff)
  have "gc_node demo_done_run = N_end \<and> st_status (gc_state demo_done_run) = Some S_done"
    by code_simp
  then show ?thesis
    using done_only_when_declared [OF r] by (simp add: initial_state_def)
qed

text \<open>
  The stop latch is terminal: from any configuration, reachable or not, once abort or panic has
  latched the stop, no continuation of the run calls the executor again, however often the loop
  re-plans under a fresh control epoch.
\<close>

theorem stop_latch_final:
  assumes "gd_has_stop dps" and "list_all ev_stopped evs"
  shows "n_dispatches (gc_trace (graph_exec dps evs c)) = n_dispatches (gc_trace c)"
  using assms(2)
proof (induction evs arbitrary: c)
  case Nil
  then show ?case by simp
next
  case (Cons ev evs)
  show ?case
  proof (cases "gc_node c = N_end")
    case False
    obtain st' fs' es where
      r: "graph_run_node dps ev (gc_node c) (gc_state c) (gc_frames c) = (st', fs', es)"
      by (cases "graph_run_node dps ev (gc_node c) (gc_state c) (gc_frames c)")
    have "\<not> is_dispatch e" if "e \<in> set es" for e
    proof
      assume "is_dispatch e"
      then obtain dec tx where "e = Ev_dispatch dec tx" by (cases e) auto
      with dispatch_only_in_execute [OF r _ False] that
      have "may_dispatch dps ev (gc_state c) (gc_frames c) dec" by blast
      then show False using Cons.prems assms(1) by (simp add: may_dispatch_def)
    qed
    then have "n_dispatches (gc_trace (graph_next dps ev c)) = n_dispatches (gc_trace c)"
      by (simp add: graph_next_trace node_events_def r n_dispatches_def filter_empty_conv)
    with Cons False show ?thesis by simp
  qed simp
qed

theorem stop_latch_final_witness:
  "n_dispatches (gc_trace (graph_exec demo_deps
     (replicate 9 (demo_env (demo_decision 2 ''ls'') ''approve'' 0\<lparr>ev_stopped := True\<rparr>))
     demo_after_execute)) = 1"
proof -
  have "gd_has_stop demo_deps" by (simp add: demo_deps_def)
  moreover have "list_all ev_stopped
      (replicate 9 (demo_env (demo_decision 2 ''ls'') ''approve'' 0\<lparr>ev_stopped := True\<rparr>))"
    by (simp add: list_all_iff)
  ultimately show ?thesis
    using stop_latch_final demo_after_execute_trace by metis
qed

subsection \<open>Two runs that should not be\<close>

text \<open>
  An approval outlives the decision it was given for. The deadline passes while the human
  answers, so \<open>execute_transaction\<close> defers and leaves the approval flag set; the resumed call plans a
  new decision, the policy gate lets it through on the old approval, and a shutdown is executed that
  no human was asked about: approval was required and given once, for the other command.
\<close>

theorem approval_survives_budget_pause:
  "let a = demo_env (demo_decision 1 ''rm -rf build'') ''approve'' 0;
       late = demo_env (demo_decision 1 ''rm -rf build'') ''approve'' 100;
       b = demo_env (demo_decision 2 ''shutdown -h now'') ''reject'' 101;
       c = graph_exec demo_deps (replicate 7 a @ replicate 4 late @ replicate 7 b) (demo_start 50)
   in filter is_key_event (gc_trace c) =
        [Ev_approval_required, Ev_approved, Ev_deferred, Ev_budget_pause 0,
         Ev_dispatch (demo_decision 2 ''shutdown -h now'')
           \<lparr>tx_session = u ''s'', tx_frame_id = 2, tx_world_version = 1, tx_intent = u ''work'',
            tx_actions = [TypeText (u ''shutdown -h now'')],
            tx_risk = dec_risk (demo_decision 2 ''x''), tx_approval_id = Some (u ''id'')\<rparr>]
      \<and> lr_requires_human (classify_local_risk (gd_policy demo_deps)
           (demo_decision 2 ''shutdown -h now''))"
  by code_simp

definition behind_env :: "int \<Rightarrow> graph_env" where
  "behind_env frame_id = demo_env (demo_decision frame_id ''x''\<lparr>dec_actions := [Keypress [u ''Enter'']]\<rparr>) ''reject'' 0"

lemma graph_next_run:
  assumes "graph_run_node dps ev (gc_node c) (gc_state c) (gc_frames c) = (st', fs', es)"
  shows "gc_node (graph_next dps ev c) = graph_edge ev (gc_node c) st'"
    "gc_state (graph_next dps ev c) = st'" "gc_trace (graph_next dps ev c) = gc_trace c @ es"
  using assms by (simp_all add: graph_next_def)

lemma behind_plan:
  assumes "gc_node c = N_decide" and "st_frame_id (gc_state c) = f + 1"
  shows "\<exists>c'. c' = graph_exec dps (replicate 3 (behind_env f)) c \<and> gc_node c' = N_observe
    \<and> st_step (gc_state c') = st_step (gc_state c) + 1
    \<and> n_dispatches (gc_trace c') = n_dispatches (gc_trace c)"
proof -
  let ?dec = "demo_decision f ''x''\<lparr>dec_actions := [Keypress [u ''Enter'']]\<rparr>"
  have d: "\<not> declares_done ?dec" "decision_valid ?dec"
    by (simp_all add: declares_done_def demo_decision_def decision_valid_def; code_simp)+
  have b: "mode_block m (dec_actions ?dec) = None" for m
    by (simp add: mode_block_def action_allowed_in_mode_def)
  have g: "policy_gate cfg ?dec (f + 1) w a = \<lparr>pr_status = Blocked, pr_category = None, pr_level = None,
      pr_requires_human = False, pr_blocked = True, pr_reason = u ''stale_frame''\<rparr>" for cfg w a
    by (simp add: policy_gate_def demo_decision_def)
  show ?thesis
    using assms d b g
    by (simp add: numeral_3_eq_3 graph_next_def graph_run_node_def operator_decide_def behind_env_def
       demo_env_def graph_edge_def Let_def validate_node_def policy_gate_node_def route_after_policy_def 
       stale_reason_def n_dispatches_def)
qed

lemma look_observe:
  assumes "gc_node c = N_observe"
  shows "gc_node (graph_next dps ev c) = N_parse
    \<and> st_step (gc_state (graph_next dps ev c)) = st_step (gc_state c)
    \<and> st_frame_id (gc_state (graph_next dps ev c)) = fs_seq (gc_frames c) + 1
    \<and> n_dispatches (gc_trace (graph_next dps ev c)) = n_dispatches (gc_trace c)"
  using assms unfolding graph_next_def graph_run_node_def observe_frame_def fs_capture_full_def Let_def
  by (simp add: graph_edge_def n_dispatches_def)

lemma look_parse:
  assumes "gc_node c = N_parse"
  shows "gc_node (graph_next dps ev c) = N_detect
    \<and> st_step (gc_state (graph_next dps ev c)) = st_step (gc_state c)
    \<and> st_frame_id (gc_state (graph_next dps ev c)) = st_frame_id (gc_state c)
    \<and> n_dispatches (gc_trace (graph_next dps ev c)) = n_dispatches (gc_trace c)"
  using assms unfolding graph_next_def graph_run_node_def parse_screen_def Let_def
  by (simp add: graph_edge_def n_dispatches_def split: option.split)

lemma look_detect:
  assumes "gc_node c = N_detect"
  shows "gc_node (graph_next dps ev c) = N_decide
    \<and> st_step (gc_state (graph_next dps ev c)) = st_step (gc_state c)
    \<and> st_frame_id (gc_state (graph_next dps ev c)) = st_frame_id (gc_state c)
    \<and> n_dispatches (gc_trace (graph_next dps ev c)) = n_dispatches (gc_trace c)"
  using assms unfolding graph_next_def graph_run_node_def detect_state_def Let_def
  by (simp add: graph_edge_def n_dispatches_def)

lemma behind_look:
  assumes "gc_node c = N_observe"
  shows "gc_node (graph_exec dps (replicate 3 ev) c) = N_decide
    \<and> st_step (gc_state (graph_exec dps (replicate 3 ev) c)) = st_step (gc_state c)
    \<and> st_frame_id (gc_state (graph_exec dps (replicate 3 ev) c)) = fs_seq (gc_frames c) + 1
    \<and> n_dispatches (gc_trace (graph_exec dps (replicate 3 ev) c)) = n_dispatches (gc_trace c)"
  using look_observe [OF assms, of dps ev] look_parse [of "graph_next dps ev c" dps ev]
    look_detect [of "graph_next dps ev (graph_next dps ev c)" dps ev] assms
  by (simp add: numeral_3_eq_3)


definition pager_deps :: graph_deps where
  "pager_deps = demo_deps\<lparr>gd_detect := (\<lambda>_ _. M_terminal_pager)\<rparr>"

text \<open>
  Recovery does not look at the stop latch. The world changes just before an execution, the panic
  stop latches, and the loop still reaches the recovery node, which presses a key on the target:
  \<open>execute_transaction\<close> is the only node that reads the latch.
\<close>

theorem recovery_acts_after_stop:
  "let enter = demo_decision 1 ''x''\<lparr>dec_actions := [Keypress [u ''Enter'']]\<rparr>;
       plan = demo_env enter ''reject'' 0;
       moved = plan\<lparr>ev_fp := [200, 200, 200, 200]\<rparr>;
       stopped = moved\<lparr>ev_stopped := True\<rparr>;
       before = graph_exec pager_deps (replicate 6 plan @ [moved]) (demo_start 0);
       c = graph_exec pager_deps (replicate 2 stopped) before
   in gc_node before = N_verify \<and> n_dispatches (gc_trace c) = 0
      \<and> last (gc_trace c) = Ev_recover M_terminal_pager [Hid_press_key (u ''KeyQ'')]"
  by code_simp

end
