(* ===== verification/Actionability.thy ===== *)
theory Actionability
  imports Models
begin

text \<open>
  \<open>vision/visual_locator.py\<close> and \<open>vision/actionability.py\<close>: resolving a locator to one element, and the
  gate a click passes. The visible fraction is an exact rational where the code divides floats.
\<close>

subsection \<open>Locators\<close>

record locator_spec =
  lc_element_id :: "pystr option"
  lc_text :: "pystr option"
  lc_kind :: "pystr option"
  lc_region :: "pystr option"
  lc_app_hint :: "pystr option"

datatype locator_arg = Loc_id pystr | Loc_dict pydict | Loc_spec locator_spec

datatype locator_error = Locator_ValidationError

text \<open>An optional string field as pydantic reads it.\<close>

definition opt_str_field :: "pydict \<Rightarrow> string \<Rightarrow> (locator_error, pystr option) result" where
  "opt_str_field d k = (case get_none d (u k) of
       PNone \<Rightarrow> Inr None | PStr s \<Rightarrow> Inr (Some s) | _ \<Rightarrow> Inl Locator_ValidationError)"

fun coerce_locator :: "locator_arg \<Rightarrow> (locator_error, locator_spec) result" where
  "coerce_locator (Loc_spec s) = Inr s"
| "coerce_locator (Loc_id i) = Inr \<lparr>lc_element_id = Some i, lc_text = None, lc_kind = None,
     lc_region = None, lc_app_hint = None\<rparr>"
| "coerce_locator (Loc_dict d) =
     bind_result (opt_str_field d ''element_id'') (\<lambda>i.
     bind_result (opt_str_field d ''text'') (\<lambda>t.
     bind_result (opt_str_field d ''kind'') (\<lambda>k.
     bind_result (opt_str_field d ''region'') (\<lambda>r.
     bind_result (opt_str_field d ''app_hint'') (\<lambda>a.
       Inr \<lparr>lc_element_id = i, lc_text = t, lc_kind = k, lc_region = r, lc_app_hint = a\<rparr>)))))"

definition element_kind_name :: "element_kind \<Rightarrow> string" where
  "element_kind_name k = (case k of
       K_button \<Rightarrow> ''button'' | K_input \<Rightarrow> ''input'' | K_editor \<Rightarrow> ''editor''
     | K_terminal_prompt \<Rightarrow> ''terminal_prompt'' | K_menu_item \<Rightarrow> ''menu_item'' | K_tab \<Rightarrow> ''tab''
     | K_toast \<Rightarrow> ''toast'' | K_modal \<Rightarrow> ''modal'' | K_notification \<Rightarrow> ''notification''
     | K_close_button \<Rightarrow> ''close_button'' | K_send_button \<Rightarrow> ''send_button'' | K_text \<Rightarrow> ''text''
     | K_unknown \<Rightarrow> ''unknown'')"

definition text_matches :: "visual_element \<Rightarrow> pystr \<Rightarrow> bool" where
  "text_matches el needle =
     list_ex (\<lambda>h. case h of Some t \<Rightarrow> py_in needle (py_casefold t) | None \<Rightarrow> False)
       [el_text el, el_caption el]"

definition resolve_spec :: "locator_spec \<Rightarrow> element_map \<Rightarrow> visual_element list" where
  "resolve_spec loc em = (case lc_element_id loc of
       Some i \<Rightarrow> (case em_by_id em i of Some hit \<Rightarrow> [hit] | None \<Rightarrow> [])
     | None \<Rightarrow>
         (let c0 = em_elements em;
              c1 = (case lc_text loc of
                      Some t \<Rightarrow> filter (\<lambda>el. text_matches el (py_casefold t)) c0 | None \<Rightarrow> c0);
              c2 = (case lc_kind loc of
                      Some k \<Rightarrow> filter (\<lambda>el. u (element_kind_name (el_kind el)) = k) c1 | None \<Rightarrow> c1)
          in (case lc_app_hint loc of
                Some a \<Rightarrow> filter (\<lambda>el. el_app_hint el = Some a) c2 | None \<Rightarrow> c2)))"

definition resolve_all :: "locator_arg \<Rightarrow> element_map \<Rightarrow> (locator_error, visual_element list) result" where
  "resolve_all arg em = bind_result (coerce_locator arg) (\<lambda>loc. Inr (resolve_spec loc em))"

definition resolve :: "locator_arg \<Rightarrow> element_map \<Rightarrow> (locator_error, visual_element option) result" where
  "resolve arg em = bind_result (resolve_all arg em) (\<lambda>cs.
     Inr (if length cs = 1 then Some (hd cs) else None))"

text \<open>What a specification asks of an element.\<close>

definition satisfies_spec :: "locator_spec \<Rightarrow> visual_element \<Rightarrow> bool" where
  "satisfies_spec loc el \<longleftrightarrow>
     (case lc_text loc of Some t \<Rightarrow> text_matches el (py_casefold t) | None \<Rightarrow> True)
     \<and> (case lc_kind loc of Some k \<Rightarrow> u (element_kind_name (el_kind el)) = k | None \<Rightarrow> True)
     \<and> (case lc_app_hint loc of Some a \<Rightarrow> el_app_hint el = Some a | None \<Rightarrow> True)"

lemma resolve_spec_filter:
  "lc_element_id loc = None \<Longrightarrow> resolve_spec loc em = filter (satisfies_spec loc) (em_elements em)"
  by (cases "lc_text loc"; cases "lc_kind loc"; cases "lc_app_hint loc")
    (simp_all add: resolve_spec_def satisfies_spec_def [abs_def] Let_def conj_ac)

text \<open>
  A locator without an element id resolves to an element exactly when that element stands in the map,
  matches every field the locator gives, and no other entry before or after it does; an ambiguous locator resolves to nothing.
\<close>

theorem resolve_unique:
  assumes "coerce_locator arg = Inr loc" and "lc_element_id loc = None"
  shows "resolve arg em = Inr (Some el) \<longleftrightarrow>
    (\<exists>before after. em_elements em = before @ el # after \<and> satisfies_spec loc el
       \<and> \<not> (\<exists>other \<in> set before \<union> set after. satisfies_spec loc other))"
proof -
  have "resolve arg em = Inr (Some el) \<longleftrightarrow> filter (satisfies_spec loc) (em_elements em) = [el]"
    using assms by (auto simp: resolve_def resolve_all_def resolve_spec_filter length_Suc_conv)
  also have "\<dots> \<longleftrightarrow> (\<exists>before after. em_elements em = before @ el # after \<and> satisfies_spec loc el
       \<and> filter (satisfies_spec loc) before = [] \<and> filter (satisfies_spec loc) after = [])"
    unfolding filter_eq_Cons_iff filter_empty_conv
    by (auto simp: filter_empty_conv eq_commute [of "[]" "filter _ _"])
  finally show ?thesis by (simp add: filter_empty_conv ball_Un)
qed

subsection \<open>The gate\<close>

definition obscuring_kinds :: "element_kind set" where
  "obscuring_kinds = {K_modal, K_toast, K_notification}"

definition visible_area_threshold :: rat where "visible_area_threshold = 8 / 10"

definition box_center :: "bbox \<Rightarrow> int \<times> int" where
  "box_center b = (box_x b + box_w b div 2, box_y b + box_h b div 2)"

definition box_contains :: "bbox \<Rightarrow> int \<times> int \<Rightarrow> bool" where
  "box_contains b p \<longleftrightarrow> box_x b \<le> fst p \<and> fst p \<le> box_x b + box_w b
     \<and> box_y b \<le> snd p \<and> snd p \<le> box_y b + box_h b"

definition visible_fraction :: "bbox \<Rightarrow> int \<Rightarrow> int \<Rightarrow> rat" where
  "visible_fraction b frame_width frame_height =
     (let area = bbox_area b in
      if area \<le> 0 then 0
      else let ix = max (box_x b) 0; iy = max (box_y b) 0;
               ix2 = min (box_x b + box_w b) frame_width;
               iy2 = min (box_y b + box_h b) frame_height;
               iw = max 0 (ix2 - ix); ih = max 0 (iy2 - iy)
           in of_int (iw * ih) / of_int area)"

datatype check_reason =
    Reason_ok | Reason_stale_world | Reason_stale_frame | Reason_not_unique | Reason_not_visible
  | Reason_obscured_by element_kind

definition actionable ::
  "visual_element \<Rightarrow> element_map \<Rightarrow> int \<Rightarrow> int \<Rightarrow> int \<Rightarrow> int \<Rightarrow> int \<Rightarrow> check_reason" where
  "actionable el em current_frame_id current_world_version frame_width frame_height candidates =
     (if el_world_version el \<noteq> current_world_version then Reason_stale_world
      else if el_frame_id el \<noteq> current_frame_id then Reason_stale_frame
      else if candidates \<noteq> 1 then Reason_not_unique
      else if visible_fraction (el_bbox el) frame_width frame_height < visible_area_threshold
      then Reason_not_visible
      else case List.find (\<lambda>other. el_id other \<noteq> el_id el \<and> el_kind other \<in> obscuring_kinds
                    \<and> box_contains (el_bbox other) (box_center (el_bbox el))) (em_elements em) of
          Some other \<Rightarrow> Reason_obscured_by (el_kind other)
        | None \<Rightarrow> Reason_ok)"

lemma actionable_ok_iff:
  "actionable el em f w fw fh n = Reason_ok \<longleftrightarrow>
     el_world_version el = w \<and> el_frame_id el = f \<and> n = 1
     \<and> visible_area_threshold \<le> visible_fraction (el_bbox el) fw fh
     \<and> (\<forall>other \<in> set (em_elements em). el_id other \<noteq> el_id el \<longrightarrow>
          el_kind other \<in> obscuring_kinds \<longrightarrow>
          \<not> box_contains (el_bbox other) (box_center (el_bbox el)))"
  by (auto simp: actionable_def find_None_iff find_Some_iff split: option.splits)

text \<open>A side that is cut by at most a fifth keeps its middle inside the frame.\<close>

lemma center_inside:
  fixes x w fw :: int
  assumes "0 < w" and "4 * w \<le> 5 * max 0 (min (x + w) fw - max x 0)"
  shows "0 \<le> x + w div 2 \<and> x + w div 2 < fw"
proof -
  define m where "m = min (x + w) fw - max x 0"
  have "m \<le> x + w" "m \<le> fw - x" by (simp_all add: m_def)
  moreover have "4 * w \<le> 5 * m"
    using assms unfolding m_def [symmetric] by (cases "m \<le> 0") simp_all
  ultimately have "4 * w \<le> 5 * (x + w) \<and> 4 * w \<le> 5 * (fw - x)" by simp
  moreover have "2 * (w div 2) \<le> w" "w \<le> 2 * (w div 2) + 1" by simp_all
  ultimately show ?thesis using assms(1) by auto
qed

lemma clipped_side:
  fixes x w fw :: int
  assumes "0 < w"
  shows "max 0 (min (x + w) fw - max x 0) \<le> w"
proof (rule max.boundedI)
  show "0 \<le> w" using assms by simp
  have "min (x + w) fw - max x 0 \<le> (x + w) - x" by (rule diff_mono) simp_all
  then show "min (x + w) fw - max x 0 \<le> w" by simp
qed

lemma fraction_bound:
  fixes iw ih w h :: int
  assumes "8 / 10 \<le> (of_int (iw * ih) :: rat) / of_int (w * h)" and "0 < w" "0 < h"
    and "0 \<le> iw" "iw \<le> w" "0 \<le> ih" "ih \<le> h"
  shows "4 * w \<le> 5 * iw \<and> 4 * h \<le> 5 * ih"
proof -
  have p: "(0 :: rat) < of_int (w * h)" using assms(2,3) by (simp only: of_int_0_less_iff zero_less_mult_iff) simp
  have "8 * (of_int (w * h) :: rat) \<le> 10 * of_int (iw * ih)"
    using assms(1) unfolding pos_le_divide_eq [OF p] by linarith
  then have "(of_int (8 * (w * h)) :: rat) \<le> of_int (10 * (iw * ih))"
    by (simp only: of_int_mult of_int_numeral)
  then have m: "4 * (w * h) \<le> 5 * (iw * ih)" unfolding of_int_le_iff by linarith
  have "iw * ih \<le> iw * h" "iw * ih \<le> w * ih"
    using assms by (simp_all add: mult_left_mono mult_right_mono)
  with m have "(4 * w) * h \<le> (5 * iw) * h" "(4 * h) * w \<le> (5 * ih) * w"
    by (simp_all add: algebra_simps)
  with assms(2,3) show ?thesis by (simp only: mult_le_cancel_right)
qed

lemma visible_sides:
  assumes "visible_area_threshold \<le> visible_fraction b fw fh"
  shows "0 < box_w b \<and> 0 < box_h b
    \<and> 4 * box_w b \<le> 5 * max 0 (min (box_x b + box_w b) fw - max (box_x b) 0)
    \<and> 4 * box_h b \<le> 5 * max 0 (min (box_y b + box_h b) fh - max (box_y b) 0)"
proof -
  have a: "0 < bbox_area b"
  proof (rule ccontr)
    assume "\<not> 0 < bbox_area b"
    then have "visible_fraction b fw fh = 0" by (simp add: visible_fraction_def)
    then show False using assms by (simp add: visible_area_threshold_def)
  qed
  then have w: "0 < box_w b" and h: "0 < box_h b"
    by (cases "0 < box_w b"; cases "0 < box_h b"; simp add: bbox_area_def)+
  then have ar: "bbox_area b = box_w b * box_h b" by (simp add: bbox_area_def)
  have "8 / 10 \<le> (of_int (max 0 (min (box_x b + box_w b) fw - max (box_x b) 0)
      * max 0 (min (box_y b + box_h b) fh - max (box_y b) 0)) :: rat) / of_int (bbox_area b)"
    using assms a unfolding visible_fraction_def visible_area_threshold_def Let_def
    by (simp only: not_le [symmetric] if_False)
  from fraction_bound [OF this [unfolded ar] w h max.cobounded1 clipped_side [OF w]
      max.cobounded1 clipped_side [OF h]] w h
  show ?thesis by blast
qed

lemma actionable_lands:
  assumes "actionable el em f w fw fh n = Reason_ok" and "box_center (el_bbox el) = (x, y)"
  shows "el_world_version el = w \<and> el_frame_id el = f \<and> n = 1
    \<and> 0 \<le> x \<and> x < fw \<and> 0 \<le> y \<and> y < fh
    \<and> \<not> (\<exists>other \<in> set (em_elements em). el_id other \<noteq> el_id el
          \<and> el_kind other \<in> obscuring_kinds \<and> box_contains (el_bbox other) (x, y))"
proof -
  have v: "visible_area_threshold \<le> visible_fraction (el_bbox el) fw fh"
    using assms(1) by (simp add: actionable_ok_iff)
  have "0 \<le> x \<and> x < fw" "0 \<le> y \<and> y < fh"
    using visible_sides [OF v] center_inside [of "box_w (el_bbox el)"] center_inside [of "box_h (el_bbox el)"]
      assms(2)
    by (auto simp: box_center_def)
  then show ?thesis using assms by (auto simp: actionable_ok_iff)
qed

text \<open>
  A click that passes the gate lands where it should: the element belongs to the current frame
  and world and was the only candidate, the point clicked, the centre of its box, lies inside the
  frame although the box may hang over the edge, and no modal, toast or notification with another
  id covers that point.
\<close>

theorem actionable_click_lands:
  assumes "actionable el em f w fw fh n = Reason_ok" and "box_center (el_bbox el) = (x, y)"
  shows "el_world_version el = w \<and> el_frame_id el = f \<and> n = 1
    \<and> 0 \<le> x \<and> x < fw \<and> 0 \<le> y \<and> y < fh
    \<and> \<not> (\<exists>other \<in> set (em_elements em). el_id other \<noteq> el_id el
          \<and> el_kind other \<in> obscuring_kinds \<and> box_contains (el_bbox other) (x, y))"
  using assms by (rule actionable_lands)

definition sample_element :: "string \<Rightarrow> element_kind \<Rightarrow> int \<Rightarrow> int \<Rightarrow> visual_element" where
  "sample_element i k x y =
     \<lparr>el_id = u i, el_frame_id = 3, el_world_version = 2,
      el_bbox = \<lparr>box_x = x, box_y = y, box_w = 40, box_h = 20\<rparr>, el_kind = k,
      el_text = Some (u i), el_caption = None, el_app_hint = None\<rparr>"

definition sample_map :: element_map where
  "sample_map = \<lparr>em_frame_id = 3, em_world_version = 2,
     em_elements = [sample_element ''Save'' K_button (-6) 100, sample_element ''Toast'' K_toast 300 300],
     em_ocr_text = []\<rparr>"

theorem resolve_unique_witness:
  "resolve (Loc_dict [(u ''text'', PStr (u ''sav''))]) sample_map
     = Inr (Some (sample_element ''Save'' K_button (-6) 100))"
proof -
  let ?loc = "\<lparr>lc_element_id = None, lc_text = Some (u ''sav''), lc_kind = None, lc_region = None,
    lc_app_hint = None\<rparr>"
  have c: "coerce_locator (Loc_dict [(u ''text'', PStr (u ''sav''))]) = Inr ?loc" by code_simp
  have "satisfies_spec ?loc (sample_element ''Save'' K_button (-6) 100)"
    "\<not> satisfies_spec ?loc (sample_element ''Toast'' K_toast 300 300)"
    by code_simp+
  then have "\<exists>before after. em_elements sample_map = before @ sample_element ''Save'' K_button (-6) 100 # after
      \<and> satisfies_spec ?loc (sample_element ''Save'' K_button (-6) 100)
      \<and> \<not> (\<exists>other \<in> set before \<union> set after. satisfies_spec ?loc other)"
    by (intro exI [of _ "[]"] exI [of _ "[sample_element ''Toast'' K_toast 300 300]"])
      (simp add: sample_map_def)
  then show ?thesis by (rule resolve_unique [THEN iffD2, OF c, rotated]) simp
qed

theorem actionable_click_lands_witness:
  "actionable (sample_element ''Save'' K_button (-6) 100) sample_map 3 2 640 480 1 = Reason_ok
   \<and> 0 \<le> (14 :: int) \<and> (14 :: int) < 640"
proof -
  have a: "actionable (sample_element ''Save'' K_button (-6) 100) sample_map 3 2 640 480 1 = Reason_ok"
    by code_simp
  moreover have "box_center (el_bbox (sample_element ''Save'' K_button (-6) 100)) = (14, 110)"
    by (simp add: box_center_def sample_element_def)
  ultimately show ?thesis using actionable_click_lands [OF a] by simp
qed

end
