(* ===== verification/PikvmText.thy ===== *)
theory PikvmText
  imports Regex
begin

text \<open>\<open>pikvm/text.py\<close>: line breaks become one space, so typed text never presses Enter.\<close>

text \<open>The class \<open>[\n\r\v\f\x1c-\x1e\x85\u2028\u2029]\<close>.\<close>

definition is_line_break :: "int \<Rightarrow> bool" where
  "is_line_break c \<longleftrightarrow> 10 \<le> c \<and> c \<le> 13 \<or> 28 \<le> c \<and> c \<le> 30 \<or> c = 133 \<or> c = 8232 \<or> c = 8233"

definition line_break :: rx where
  "line_break = Alt (Cat (chr_eq 13) (chr_eq 10)) (Chr is_line_break)"

definition blank_tab :: rx where
  "blank_tab = Chr (\<lambda>c. c = 32 \<or> c = 9)"

definition line_break_boundary :: rx where
  "line_break_boundary = Cat (Star blank_tab) (plus (Cat line_break (Star blank_tab)))"

definition flatten_line_breaks :: "pystr \<Rightarrow> pystr" where
  "flatten_line_breaks text =
     (if \<not> rx_search line_break text then text else rx_sub line_break_boundary [32] text)"

lemma line_break_covers: "rx_covers line_break is_line_break"
  by (auto simp: rx_covers_def line_break_def intro: r_altr r_chr)

lemma boundary_covers: "rx_covers line_break_boundary is_line_break"
  unfolding rx_covers_def
proof (intro allI impI)
  fix l c s
  assume "is_line_break c"
  then have "rx_rel line_break (l, c # s) (Some c, s)"
    by (simp add: line_break_def r_altr r_chr)
  then have "rx_rel (Cat line_break (Star blank_tab)) (l, c # s) (Some c, s)"
    by (rule r_cat) (rule r_star0)
  then have "rx_rel (plus (Cat line_break (Star blank_tab))) (l, c # s) (Some c, s)"
    unfolding plus_def by (rule r_cat) (rule r_star0)
  then have "rx_rel line_break_boundary (l, c # s) (Some c, s)"
    unfolding line_break_boundary_def by (rule r_cat [OF r_star0])
  then show "\<exists>q. rx_rel line_break_boundary (l, c # s) q" by blast
qed

lemma boundary_consumes: "rx_consumes line_break_boundary"
proof -
  have "rx_consumes line_break"
    unfolding line_break_def chr_eq_def
    by (rule rx_consumes_alt) (rule rx_consumes_cat, rule disjI1, rule rx_consumes_chr, rule rx_consumes_chr)
  then have "rx_consumes (plus (Cat line_break (Star blank_tab)))"
    by (intro rx_consumes_plus) (rule rx_consumes_cat, rule disjI1)
  then show ?thesis
    unfolding line_break_boundary_def by (intro rx_consumes_cat) (rule disjI2)
qed

definition is_boundary_char :: "int \<Rightarrow> bool" where
  "is_boundary_char c \<longleftrightarrow> is_line_break c \<or> c = 32 \<or> c = 9"

lemma boundary_over: "rx_over is_boundary_char line_break_boundary"
  by (auto simp: line_break_boundary_def plus_def line_break_def chr_eq_def blank_tab_def
      is_boundary_char_def is_line_break_def)

lemma flatten_no_break: "\<forall>c \<in> set (flatten_line_breaks t). \<not> is_line_break c"
proof (cases "rx_search line_break t")
  case False
  then show ?thesis
    using rx_search_covers [OF line_break_covers] by (simp add: flatten_line_breaks_def)
next
  case True
  obtain ps rest where p: "rx_pieces line_break_boundary None t = (ps, rest)" by fastforce
  from rx_pieces_covered [OF boundary_covers boundary_consumes p] True p show ?thesis
    by (auto simp: flatten_line_breaks_def rx_sub_def is_line_break_def)
qed

lemma no_break_no_match:
  assumes "\<forall>c \<in> set s. \<not> is_line_break c"
  shows "\<not> rx_search line_break s"
proof
  assume "rx_search line_break s"
  then obtain a b q l where s: "s = a @ b" and r: "rx_rel line_break (l, b) q"
    unfolding rx_search_def rx_search_from_iff by blast
  from r obtain c b' where "b = c # b'" "is_line_break c"
    unfolding line_break_def chr_eq_def
    by (auto elim!: rx_rel_AltE rx_rel_CatE rx_rel_ChrE simp: is_line_break_def)
  with s assms show False by auto
qed

lemma flatten_keeps_text:
  "filter (\<lambda>c. \<not> is_boundary_char c) (flatten_line_breaks t) = filter (\<lambda>c. \<not> is_boundary_char c) t"
  using rx_sub_keeps [OF boundary_over, of "[32]" t]
  by (simp add: flatten_line_breaks_def is_boundary_char_def)

text \<open>
  C31. Text typed through the flattening never contains a line break of any kind, so it can never
  submit; every other character that is no blank or tab is kept, in order; text without line breaks
  is untouched, which makes the flattening idempotent.
\<close>

theorem flatten_never_submits:
  "\<not> (\<exists>c \<in> set (flatten_line_breaks t). is_line_break c)
   \<and> filter (\<lambda>c. \<not> is_boundary_char c) (flatten_line_breaks t) = filter (\<lambda>c. \<not> is_boundary_char c) t
   \<and> flatten_line_breaks (flatten_line_breaks t) = flatten_line_breaks t"
  using flatten_no_break [of t] flatten_keeps_text [of t]
    no_break_no_match [of "flatten_line_breaks t"]
  by (auto simp: flatten_line_breaks_def [of "flatten_line_breaks t"])

end
