(* ===== verification/EditDistance.thy ===== *)
theory EditDistance
  imports Prelude
begin

text \<open>
  The bounded edit distance of \<open>executor/verification.py\<close>, row by row with its two early exits, and
  the proof that it computes the least number of insertions, deletions and substitutions.
\<close>

subsection \<open>The code\<close>

text \<open>One row: \<open>prev\<close> is the row above, \<open>left\<close> the cell just written.\<close>

fun lev_cells :: "'a \<Rightarrow> 'a list \<Rightarrow> int list \<Rightarrow> int \<Rightarrow> int list" where
  "lev_cells x (y # ys) (d # up # prev) left =
     (let c = min (min (up + 1) (left + 1)) (d + (if x = y then 0 else 1))
      in c # lev_cells x ys (up # prev) c)"
| "lev_cells x _ _ _ = []"

definition lev_row :: "'a \<Rightarrow> 'a list \<Rightarrow> int list \<Rightarrow> int \<Rightarrow> int list" where
  "lev_row x b prev i = i # lev_cells x b prev i"

fun lev_rows :: "int \<Rightarrow> 'a list \<Rightarrow> 'a list \<Rightarrow> int \<Rightarrow> int list \<Rightarrow> int" where
  "lev_rows max_d [] b i prev = last prev"
| "lev_rows max_d (x # xs) b i prev =
     (let cur = lev_row x b prev i in
      if max_d < foldl min (hd cur) (tl cur) then max_d + 1
      else lev_rows max_d xs b (i + 1) cur)"

definition levenshtein :: "'a list \<Rightarrow> 'a list \<Rightarrow> int \<Rightarrow> int" where
  "levenshtein a b max_d =
     (if max_d < \<bar>int (length a) - int (length b)\<bar> then max_d + 1
      else lev_rows max_d a b 1 (map int [0..<length b + 1]))"

subsection \<open>The specification\<close>

inductive edits :: "nat \<Rightarrow> 'a list \<Rightarrow> 'a list \<Rightarrow> bool" where
  e_nil: "edits 0 [] []"
| e_keep: "edits n xs ys \<Longrightarrow> edits n (x # xs) (x # ys)"
| e_subst: "edits n xs ys \<Longrightarrow> edits (Suc n) (x # xs) (y # ys)"
| e_del: "edits n xs ys \<Longrightarrow> edits (Suc n) (x # xs) ys"
| e_ins: "edits n xs ys \<Longrightarrow> edits (Suc n) xs (y # ys)"

fun edit_dist :: "'a list \<Rightarrow> 'a list \<Rightarrow> int" where
  "edit_dist [] ys = int (length ys)"
| "edit_dist (x # xs) [] = int (length xs) + 1"
| "edit_dist (x # xs) (y # ys) =
     min (min (edit_dist xs (y # ys) + 1) (edit_dist (x # xs) ys + 1))
         (edit_dist xs ys + (if x = y then 0 else 1))"

lemma edit_dist_nonneg: "0 \<le> edit_dist xs ys"
  by (induction xs ys rule: edit_dist.induct) auto

lemma edit_dist_Nil2 [simp]: "edit_dist xs [] = int (length xs)"
  by (cases xs) auto

lemma edit_dist_del: "edit_dist (x # xs) ys \<le> edit_dist xs ys + 1"
  by (cases ys) auto

lemma edit_dist_ins: "edit_dist xs (y # ys) \<le> edit_dist xs ys + 1"
  by (cases xs) auto

lemma edit_dist_least: "edits n xs ys \<Longrightarrow> edit_dist xs ys \<le> int n"
proof (induction rule: edits.induct)
  case (e_del n xs ys x)
  then show ?case using edit_dist_del [of x xs ys] by simp
next
  case (e_ins n xs ys y)
  then show ?case using edit_dist_ins [of xs y ys] by simp
qed (auto split: if_splits)

lemma edits_insert_all: "edits (length ys) [] ys"
  by (induction ys) (auto intro: edits.intros)

lemma edits_delete_all: "edits (length xs) xs []"
  by (induction xs) (auto intro: edits.intros)

lemma edit_dist_edits: "edits (nat (edit_dist xs ys)) xs ys"
proof (induction xs ys rule: edit_dist.induct)
  case (1 ys)
  then show ?case by (simp add: edits_insert_all)
next
  case (2 x xs)
  have "nat (edit_dist (x # xs) []) = length (x # xs)" by simp
  then show ?case using edits_delete_all [of "x # xs"] by (simp only:)
next
  case (3 x xs y ys)
  let ?a = "edit_dist xs (y # ys)" and ?b = "edit_dist (x # xs) ys" and ?c = "edit_dist xs ys"
  have p: "0 \<le> ?a" "0 \<le> ?b" "0 \<le> ?c" by (simp_all add: edit_dist_nonneg)
  have "edits (Suc (nat ?a)) (x # xs) (y # ys)" "edits (Suc (nat ?b)) (x # xs) (y # ys)"
    using "3.IH" by (auto intro: edits.intros)
  then have ab: "edits (nat (?a + 1)) (x # xs) (y # ys)" "edits (nat (?b + 1)) (x # xs) (y # ys)"
    using p by (simp_all add: nat_add_distrib)
  have c: "edits (nat (?c + (if x = y then 0 else 1))) (x # xs) (y # ys)"
    using "3.IH"(3) p by (auto simp: nat_add_distrib intro: edits.intros)
  show ?case using ab c by (simp add: min_def)
qed

lemma edits_append: "edits n xs ys \<Longrightarrow> edits m us vs \<Longrightarrow> edits (n + m) (xs @ us) (ys @ vs)"
  by (induction rule: edits.induct) (auto intro: edits.intros)

lemma edits_rev: "edits n xs ys \<Longrightarrow> edits n (rev xs) (rev ys)"
proof (induction rule: edits.induct)
  case (e_keep n xs ys x)
  then show ?case using edits_append [OF e_keep.IH, of 0 "[x]" "[x]"] by (auto intro: edits.intros)
next
  case (e_subst n xs ys x y)
  then show ?case using edits_append [OF e_subst.IH, of 1 "[x]" "[y]"] by (auto intro: edits.intros)
next
  case (e_del n xs ys x)
  then show ?case using edits_append [OF e_del.IH, of 1 "[x]" "[]"] by (auto intro: edits.intros)
next
  case (e_ins n xs ys y)
  then show ?case using edits_append [OF e_ins.IH, of 1 "[]" "[y]"] by (auto intro: edits.intros)
qed (auto intro: edits.intros)

lemma edit_dist_rev_le: "edit_dist (rev xs) (rev ys) \<le> edit_dist xs ys"
  using edit_dist_least [OF edits_rev [OF edit_dist_edits [of xs ys]]] edit_dist_nonneg [of xs ys]
  by simp

lemma edit_dist_rev: "edit_dist (rev xs) (rev ys) = edit_dist xs ys"
  using edit_dist_rev_le [of xs ys] edit_dist_rev_le [of "rev xs" "rev ys"] by simp

lemma edits_length: "edits n xs ys \<Longrightarrow> \<bar>int (length xs) - int (length ys)\<bar> \<le> int n"
  by (induction rule: edits.induct) auto

lemma edit_dist_length: "\<bar>int (length xs) - int (length ys)\<bar> \<le> edit_dist xs ys"
  using edits_length [OF edit_dist_edits [of xs ys]] edit_dist_nonneg [of xs ys] by simp

text \<open>A prefix of one side pays for some prefix of the other.\<close>

lemma edits_split:
  "edits n zs ys \<Longrightarrow> zs = xs @ us \<Longrightarrow> \<exists>y1 y2 m. ys = y1 @ y2 \<and> m \<le> n \<and> edits m xs y1"
proof (induction arbitrary: xs rule: edits.induct)
  case e_nil
  then show ?case by (auto intro: edits.intros)
next
  case (e_keep n zs ys x)
  show ?case
  proof (cases xs)
    case Nil
    then show ?thesis by (metis append_Nil e_nil le0)
  next
    case (Cons x' xs')
    then obtain y1 y2 m where "ys = y1 @ y2" "m \<le> n" "edits m xs' y1"
      using e_keep by auto
    then show ?thesis using Cons e_keep.prems
      by (intro exI [of _ "x # y1"] exI [of _ y2] exI [of _ m]) (auto intro: edits.intros)
  qed
next
  case (e_subst n zs ys x y)
  show ?case
  proof (cases xs)
    case Nil
    then show ?thesis by (metis append_Nil e_nil le0)
  next
    case (Cons x' xs')
    then obtain y1 y2 m where "ys = y1 @ y2" "m \<le> n" "edits m xs' y1"
      using e_subst by auto
    then show ?thesis using Cons
      by (intro exI [of _ "y # y1"] exI [of _ y2] exI [of _ "Suc m"]) (auto intro: edits.intros)
  qed
next
  case (e_del n zs ys x)
  show ?case
  proof (cases xs)
    case Nil
    then show ?thesis by (metis append_Nil e_nil le0)
  next
    case (Cons x' xs')
    then obtain y1 y2 m where "ys = y1 @ y2" "m \<le> n" "edits m xs' y1"
      using e_del by auto
    then show ?thesis using Cons
      by (intro exI [of _ y1] exI [of _ y2] exI [of _ "Suc m"]) (auto intro: edits.intros)
  qed
next
  case (e_ins n zs ys y)
  then obtain y1 y2 m where "ys = y1 @ y2" "m \<le> n" "edits m xs y1" by blast
  then show ?case
    by (intro exI [of _ "y # y1"] exI [of _ y2] exI [of _ "Suc m"]) (auto intro: edits.intros)
qed

subsection \<open>The rows are rows of the distance matrix\<close>

fun dist_row :: "'a list \<Rightarrow> 'a list \<Rightarrow> 'a list \<Rightarrow> int list" where
  "dist_row as bs [] = [edit_dist as bs]"
| "dist_row as bs (y # ys) = edit_dist as bs # dist_row as (bs @ [y]) ys"

lemma dist_row_hd: "dist_row as bs ys = edit_dist as bs # tl (dist_row as bs ys)"
  by (cases ys) auto

lemma dist_row_last: "last (dist_row as bs ys) = edit_dist as (bs @ ys)"
proof (induction ys arbitrary: bs)
  case (Cons y ys)
  then show ?case using dist_row_hd [of as "bs @ [y]" ys] by (auto simp: last_ConsR)
qed simp

lemma dist_row_mem: "edit_dist as (bs @ y1) \<in> set (dist_row as bs (y1 @ y2))"
proof (induction y1 arbitrary: bs)
  case Nil
  then show ?case using dist_row_hd [of as bs y2] by (metis append_Nil append_Nil2 list.set_intros(1))
next
  case (Cons y y1)
  then show ?case using Cons [of "bs @ [y]"] by simp
qed

lemma edit_dist_snoc:
  "edit_dist (as @ [x]) (bs @ [y]) =
     min (min (edit_dist as (bs @ [y]) + 1) (edit_dist (as @ [x]) bs + 1))
         (edit_dist as bs + (if x = y then 0 else 1))"
proof -
  have "edit_dist (as @ [x]) (bs @ [y]) = edit_dist (x # rev as) (y # rev bs)"
    using edit_dist_rev [of "as @ [x]" "bs @ [y]"] by simp
  then show ?thesis
    using edit_dist_rev [of as "bs @ [y]"] edit_dist_rev [of "as @ [x]" bs] edit_dist_rev [of as bs]
    by simp
qed

lemma lev_cells_row:
  "lev_cells x ys (dist_row as bs ys) (edit_dist (as @ [x]) bs) = tl (dist_row (as @ [x]) bs ys)"
proof (induction ys arbitrary: bs)
  case Nil
  then show ?case by simp
next
  case (Cons y ys)
  let ?rest = "tl (dist_row as (bs @ [y]) ys)"
  have r: "dist_row as bs (y # ys) = edit_dist as bs # edit_dist as (bs @ [y]) # ?rest"
    using dist_row_hd [of as "bs @ [y]" ys] by simp
  have "lev_cells x (y # ys) (dist_row as bs (y # ys)) (edit_dist (as @ [x]) bs)
      = edit_dist (as @ [x]) (bs @ [y])
        # lev_cells x ys (edit_dist as (bs @ [y]) # ?rest) (edit_dist (as @ [x]) (bs @ [y]))"
    unfolding r by (simp only: lev_cells.simps Let_def edit_dist_snoc)
  also have "edit_dist as (bs @ [y]) # ?rest = dist_row as (bs @ [y]) ys"
    using dist_row_hd [of as "bs @ [y]" ys] by simp
  also have "lev_cells x ys \<dots> (edit_dist (as @ [x]) (bs @ [y])) = tl (dist_row (as @ [x]) (bs @ [y]) ys)"
    by (rule Cons)
  finally show ?case using dist_row_hd [of "as @ [x]" "bs @ [y]" ys] by simp
qed

lemma lev_row_row:
  "lev_row x b (dist_row as [] b) (int (length as) + 1) = dist_row (as @ [x]) [] b"
  using lev_cells_row [of x b as "[]"] dist_row_hd [of "as @ [x]" "[]" b]
  by (simp add: lev_row_def add.commute)

lemma less_foldl_min: "(k :: int) < foldl min z xs \<longleftrightarrow> (\<forall>d \<in> set (z # xs). k < d)"
  by (induction xs arbitrary: z) auto

text \<open>A row bounds every later cell from below, so a row above the limit decides the result.\<close>

lemma row_above_limit:
  assumes "\<forall>d \<in> set (dist_row as [] b). k < d"
  shows "k < edit_dist (as @ xs) b"
proof -
  have "edits (nat (edit_dist (as @ xs) b)) (as @ xs) b" by (rule edit_dist_edits)
  from edits_split [OF this refl]
  obtain y1 y2 m where b: "b = y1 @ y2" and m: "m \<le> nat (edit_dist (as @ xs) b)" "edits m as y1"
    by blast
  have "edit_dist as y1 \<in> set (dist_row as [] b)" using b dist_row_mem [of as "[]" y1 y2] by simp
  then have "k < edit_dist as y1" using assms by blast
  also have "\<dots> \<le> int m" using m(2) by (rule edit_dist_least)
  also have "\<dots> \<le> edit_dist (as @ xs) b" using m(1) edit_dist_nonneg [of "as @ xs" b] by simp
  finally show ?thesis .
qed

lemma lev_rows_correct:
  "(lev_rows k xs b (int (length as) + 1) (dist_row as [] b) = edit_dist (as @ xs) b)
   \<or> k < edit_dist (as @ xs) b \<and> lev_rows k xs b (int (length as) + 1) (dist_row as [] b) = k + 1"
proof (induction xs arbitrary: as)
  case Nil
  then show ?case by (simp add: dist_row_last)
next
  case (Cons x xs)
  let ?cur = "dist_row (as @ [x]) [] b"
  have ne: "hd ?cur # tl ?cur = ?cur" using dist_row_hd [of "as @ [x]" "[]" b] by (metis list.sel(1,3))
  show ?case
  proof (cases "k < foldl min (hd ?cur) (tl ?cur)")
    case True
    then have "\<forall>d \<in> set ?cur. k < d" unfolding less_foldl_min ne .
    from row_above_limit [OF this, of xs] True show ?thesis
      by (simp add: lev_row_row Let_def del: One_nat_def)
  next
    case False
    have "int (length (as @ [x])) + 1 = (int (length as) + 1) + 1" by simp
    with Cons [of "as @ [x]"] False show ?thesis
      by (simp only: lev_rows.simps lev_row_row Let_def if_False append_assoc append_Cons append_Nil)
  qed
qed

lemma first_row: "map int [0..<length b + 1] = dist_row [] [] b"
proof -
  have "dist_row [] bs ys = map (\<lambda>j. int (length bs + j)) [0..<length ys + 1]" for bs ys :: "'a list"
  proof (induction ys arbitrary: bs)
    case (Cons y ys)
    show ?case
      unfolding dist_row.simps Cons
      by (simp add: upt_conv_Cons map_Suc_upt [symmetric] del: upt_Suc)
  qed simp
  from this [of "[]" b] show ?thesis by simp
qed

lemma levenshtein_cases:
  "levenshtein a b k = k + 1 \<and> k < edit_dist a b \<or> levenshtein a b k = edit_dist a b"
  using lev_rows_correct [of k a b "[]"] edit_dist_length [of a b]
  unfolding levenshtein_def first_row by auto

lemma levenshtein_bounded: "levenshtein a b k \<le> k \<Longrightarrow> edit_dist a b \<le> k"
  using levenshtein_cases [of a b k] by auto

text \<open>
  C34. The bounded edit distance with its early exits equals the textbook distance whenever that is
  within the bound, and is one more than the bound otherwise; and the textbook distance is the least
  number of insertions, deletions and substitutions that turn one text into the other.
\<close>

theorem levenshtein_exact:
  "(edit_dist a b \<le> k \<longrightarrow> levenshtein a b k = edit_dist a b)
   \<and> (k < edit_dist a b \<longrightarrow> k < levenshtein a b k)
   \<and> edits (nat (edit_dist a b)) a b \<and> \<not> (\<exists>n. edits n a b \<and> int n < edit_dist a b)"
  using levenshtein_cases [of a b k] edit_dist_edits [of a b] edit_dist_least [of _ a b] by fastforce

theorem levenshtein_exact_witness:
  "levenshtein [1, 2, 3, 4 :: nat] [1, 3, 4, 5] 2 = 2 \<and> 1 < levenshtein [1, 2, 3 :: nat] [4, 5, 6] 1"
proof -
  have "edit_dist [1, 2, 3, 4 :: nat] [1, 3, 4, 5] = 2" "edit_dist [1, 2, 3 :: nat] [4, 5, 6] = 3"
    by code_simp+
  then show ?thesis
    using levenshtein_exact [of "[1, 2, 3, 4 :: nat]" "[1, 3, 4, 5]" 2]
      levenshtein_exact [of "[1, 2, 3 :: nat]" "[4, 5, 6]" 1] by simp
qed

end
