(* ===== verification/Verification.thy ===== *)
theory Verification
  imports Models PikvmText EditDistance "HOL-Library.List_Lexorder"
begin

text \<open>
  \<open>executor/verification.py\<close>: what was typed against what the screen shows. Ratios of lengths are
  compared exactly where the code multiplies by a float literal (1.6, 0.08, 0.04); the two agree for
  every length that occurs.
\<close>

subsection \<open>Constants and patterns\<close>

definition verify_high_risk :: "int set" where
  "verify_high_risk = set (u ''|&;><$`~*'' @ [34, 39, 92] @ u ''!{}[]()'')"

definition single_quotes :: "int set" where
  "single_quotes = {39, 8216, 8217, 180, 8242}"

definition double_quotes :: "int set" where
  "double_quotes = {34, 8220, 8221, 8243}"

definition confusable :: "int \<Rightarrow> int" where
  "confusable c =
     (if c = 48 then 111 else if c = 49 \<or> c = 105 then 108 else if c = 53 then 115
      else if c = 56 then 98 else if c = 50 then 122
      else if c = 57 \<or> c = 113 \<or> c = 54 then 103 else c)"

definition az :: "int \<Rightarrow> bool" where "az c \<longleftrightarrow> 97 \<le> c \<and> c \<le> 122"
definition AZ :: "int \<Rightarrow> bool" where "AZ c \<longleftrightarrow> 65 \<le> c \<and> c \<le> 90"
definition d09 :: "int \<Rightarrow> bool" where "d09 c \<longleftrightarrow> 48 \<le> c \<and> c \<le> 57"

text \<open>\<open>[a-z]\<close> under \<open>re.IGNORECASE\<close> also accepts the four letters whose case folds into it.\<close>

definition az_ci :: "int \<Rightarrow> bool" where
  "az_ci c \<longleftrightarrow> az c \<or> AZ c \<or> c = 304 \<or> c = 305 \<or> c = 383 \<or> c = 8490"

definition prompt_re :: rx where
  "prompt_re = rx_cat [bos, spaces,
     rx_alt [
       rx_cat [lit ''PS'', spaces1, Star (none_of [62, 10]), lit ''>''],
       rx_cat [Chr (\<lambda>c. az c \<or> AZ c), chr_eq 58, chr_eq 92, Star (none_of [62, 10]), lit ''>''],
       rx_cat [plus (Chr (\<lambda>c. \<not> is_space c \<and> c \<noteq> 64)), lit ''@'',
               plus (Chr (\<lambda>c. \<not> is_space c \<and> c \<noteq> 64)), Star (none_of [36, 35, 37, 62, 10]),
               one_of ''$#%>''],
       Chr (\<lambda>c. c \<in> set (u ''$#%>'') \<union> {10095, 10140, 955, 187})],
     spaces1]"

definition code_symbols_re :: rx where
  "code_symbols_re = one_of ''{}();=<>[]''"

definition indented_line_re :: rx where
  "indented_line_re = rx_cat [bos, at_least 2 (Chr (\<lambda>c. c = 9 \<or> c = 32))]"

definition shell_metachars_re :: rx where
  "shell_metachars_re = Chr (\<lambda>c. c \<in> set (u ''|<>$`~'') \<or> c = 92)"

definition flags_paths_re :: rx where
  "flags_paths_re = rx_cat [Alt bos space,
     rx_alt [
       rx_cat [lit ''-'', opt (lit ''-''), Chr (\<lambda>c. az c \<or> AZ c)],
       rx_cat [lit ''/'', plus (Chr (\<lambda>c. is_word c \<or> c = 46 \<or> c = 47 \<or> c = 45))],
       lit ''~/'',
       rx_cat [times_mn 1 2 (lit ''.''), lit ''/'']]]"

definition url_scheme_re :: rx where
  "url_scheme_re = rx_cat [bos, Chr az_ci,
     Star (Chr (\<lambda>c. az_ci c \<or> d09 c \<or> c = 43 \<or> c = 46 \<or> c = 45)), lit ''://'']"

definition command_heads :: "string list" where
  "command_heads = [''sudo'', ''git'', ''npm'', ''yarn'', ''pnpm'', ''node'', ''cd'', ''ls'', ''cat'',
     ''grep'', ''find'', ''echo'', ''rm'', ''mkdir'', ''cp'', ''mv'', ''chmod'', ''chown'', ''ssh'', ''scp'',
     ''curl'', ''wget'', ''docker'', ''kubectl'', ''systemctl'', ''tar'', ''sed'', ''awk'']"

definition command_head_re :: rx where
  "command_head_re = rx_cat [Alt bos space, rx_alt (map lit command_heads), Alt space eos]"

definition code_or_command_head_re :: rx where
  "code_or_command_head_re = rx_cat [bos, spaces,
     words_ci [''select'', ''insert'', ''update'', ''delete'', ''create'', ''alter'', ''drop'', ''merge'',
       ''def'', ''class'', ''function'', ''import'', ''from'', ''const'', ''let'', ''var'', ''if'', ''for'',
       ''while'', ''terraform'', ''powershell'', ''pwsh'', ''cmd''], wb]"

definition prose_word_re :: rx where
  "prose_word_re = rx_cat [plus (Chr (\<lambda>c. az c \<or> AZ c)),
     opt (rx_cat [Chr (\<lambda>c. c = 39 \<or> c = 8217), plus (Chr (\<lambda>c. az c \<or> AZ c))])]"

definition prose_unsafe_re :: rx where
  "prose_unsafe_re = Chr (\<lambda>c. c \<in> set (u ''|&><$`~*{}[]='') \<or> c = 92)"

definition caret_glyphs :: "int set" where
  "caret_glyphs = {124, 9474, 9475, 73}"

subsection \<open>Helpers\<close>

definition fold_quote :: "int \<Rightarrow> int" where
  "fold_quote c = (if c \<in> single_quotes then 39 else if c \<in> double_quotes then 34 else c)"

definition fold_quotes :: "pystr \<Rightarrow> pystr" where
  "fold_quotes s = map fold_quote s"

definition norm_text :: "pystr \<Rightarrow> bool \<Rightarrow> pystr" where
  "norm_text s precise =
     (let compact = py_strip (rx_sub spaces1 [32] (fold_quotes s))
      in if precise then compact else py_lower compact)"

definition strip_prompt :: "pystr \<Rightarrow> pystr" where
  "strip_prompt s = rx_sub1 prompt_re [] s"

definition has_whitespace_only_difference :: "pystr \<Rightarrow> pystr \<Rightarrow> bool" where
  "has_whitespace_only_difference intended observed =
     (let left = py_strip (flatten_line_breaks (fold_quotes intended));
          right = py_strip (flatten_line_breaks (fold_quotes (strip_prompt observed)))
      in left \<noteq> right \<and> rx_sub spaces1 [] left = rx_sub spaces1 [] right
         \<and> rx_findall spaces1 left \<noteq> rx_findall spaces1 right)"

definition fold_confusables :: "pystr \<Rightarrow> pystr" where
  "fold_confusables s = map confusable s"

definition alnum_text :: "pystr \<Rightarrow> bool \<Rightarrow> pystr" where
  "alnum_text s precise = filter (\<lambda>c. az_ci c \<or> d09 c) (if precise then s else py_lower s)"

definition alnum_fold_case :: "pystr \<Rightarrow> pystr" where
  "alnum_fold_case s = filter (\<lambda>c. az c \<or> d09 c) (py_lower s)"

definition conf_key :: "pystr \<Rightarrow> bool \<Rightarrow> pystr" where
  "conf_key s precise = (if precise then norm_text s precise else fold_confusables (norm_text s precise))"

definition is_prefix_read :: "pystr \<Rightarrow> pystr \<Rightarrow> bool" where
  "is_prefix_read intended_norm read_norm \<longleftrightarrow>
     0 < length read_norm \<and> length read_norm < length intended_norm
     \<and> py_startswith intended_norm read_norm"

definition read_caught_extra :: "pystr \<Rightarrow> pystr \<Rightarrow> bool" where
  "read_caught_extra ni nr \<longleftrightarrow>
     3 \<le> length ni \<and> 8 * length ni < 5 * length nr \<and> \<not> py_in ni nr"

definition looks_like_trailing_caret :: "pystr \<Rightarrow> pystr \<Rightarrow> bool" where
  "looks_like_trailing_caret intended_norm read_norm \<longleftrightarrow>
     length read_norm = length intended_norm + 1 \<and> butlast read_norm = intended_norm
     \<and> last read_norm \<in> caret_glyphs"

text \<open>\<open>overlap_ratio\<close> counts against a pool that each hit depletes; \<open>remove1\<close> depletes the list itself.\<close>

fun overlap_hits :: "pystr \<Rightarrow> pystr \<Rightarrow> nat" where
  "overlap_hits [] pool = 0"
| "overlap_hits (c # a) pool =
     (if c \<in> set pool then Suc (overlap_hits a (remove1 c pool)) else overlap_hits a pool)"

definition overlap_ratio :: "pystr \<Rightarrow> pystr \<Rightarrow> rat" where
  "overlap_ratio a b = (if a = [] then 1 else of_nat (overlap_hits a b) / of_nat (length a))"

definition word_set :: "pystr \<Rightarrow> bool \<Rightarrow> pystr" where
  "word_set s precise =
     py_join [32] (sort (filter (\<lambda>w. w \<noteq> []) (py_split_on 32 (norm_text s precise))))"

definition looks_like_code :: "pystr \<Rightarrow> bool" where
  "looks_like_code s =
     (let symbols = length (rx_findall code_symbols_re s);
          indented = length (filter (rx_match indented_line_re) (py_split_on 10 s))
      in max (length s) 1 < 25 * symbols \<or> 2 \<le> indented)"

definition is_exact_text :: "pystr \<Rightarrow> bool" where
  "is_exact_text s =
     (list_ex (\<lambda>c. c \<in> verify_high_risk) s \<or> looks_like_code s \<or> rx_search shell_metachars_re s
      \<or> rx_search flags_paths_re s \<or> rx_search url_scheme_re s \<or> rx_search command_head_re s)"

definition is_editor_prose :: "pystr \<Rightarrow> bool" where
  "is_editor_prose s =
     (\<not> (length s < 80 \<or> length (rx_findall prose_word_re s) < 12)
      \<and> \<not> rx_search prose_unsafe_re s
      \<and> \<not> (rx_search flags_paths_re s \<or> rx_search url_scheme_re s)
      \<and> \<not> (rx_search command_head_re s \<or> rx_search code_or_command_head_re s)
      \<and> \<not> looks_like_code s)"

subsection \<open>Verdict and mismatch\<close>

datatype verdict = Vd_match | Vd_contains | Vd_mismatch | Vd_unverified

datatype mismatch_kind = Mm_layout | Mm_case | Mm_prepend_autocorrect | Mm_prefix_tail

text \<open>\<open>max(1, math.ceil(len(ni) * 0.08))\<close>.\<close>

definition tolerance :: "pystr \<Rightarrow> int" where
  "tolerance ni = max 1 ((2 * int (length ni) + 24) div 25)"

definition compute_verdict :: "pystr \<Rightarrow> pystr \<Rightarrow> bool \<Rightarrow> verdict" where
  "compute_verdict intended read_back precise =
     (let ni = norm_text intended precise;
          raw_nr = norm_text read_back precise;
          nr = norm_text (strip_prompt read_back) precise;
          ck = conf_key intended precise; cr = conf_key read_back precise;
          tol = tolerance ni
      in if read_back = [] then Vd_unverified
         else if has_whitespace_only_difference intended read_back then Vd_unverified
         else if ni = raw_nr then Vd_match
         else if ni = nr then Vd_match
         else if precise \<and> looks_like_trailing_caret ni nr then Vd_unverified
         else if py_in ni nr then Vd_contains
         else if is_prefix_read ni nr then Vd_unverified
         else if alnum_fold_case ni \<noteq> [] \<and> alnum_fold_case ni = alnum_fold_case nr \<and> ni \<noteq> nr
         then Vd_mismatch
         else if read_caught_extra ni nr then Vd_unverified
         else if precise
         then (if levenshtein ni nr tol \<le> tol then Vd_unverified
               else if overlap_ratio ni nr < 1 / 2 then Vd_unverified else Vd_mismatch)
         else if ck = cr then Vd_match
         else if py_in ck cr then Vd_contains
         else if is_prefix_read ck cr then Vd_unverified
         else if levenshtein ni nr tol \<le> tol then Vd_match
         else if overlap_ratio ni nr < 1 / 2 then Vd_unverified
         else Vd_mismatch)"

definition classify_mismatch :: "pystr \<Rightarrow> pystr \<Rightarrow> bool \<Rightarrow> mismatch_kind option" where
  "classify_mismatch intended read_back precise =
     (let ni = norm_text intended precise;
          nr = norm_text (strip_prompt read_back) precise;
          ck = conf_key intended precise; cr = conf_key read_back precise;
          tol = tolerance ni
      in if nr = [] then None
         else if ni = nr then None
         else if precise \<and> looks_like_trailing_caret ni nr then None
         else if py_in ni nr then None
         else if is_prefix_read ni nr then None
         else if precise \<and> py_casefold ni = py_casefold nr then Some Mm_case
         else if alnum_fold_case ni \<noteq> [] \<and> alnum_fold_case ni = alnum_fold_case nr
         then Some Mm_layout
         else if read_caught_extra ni nr then None
         else if precise
         then (if levenshtein ni nr tol \<le> tol then None
               else if overlap_ratio ni nr < 1 / 2 then None else Some Mm_prefix_tail)
         else if ck = cr \<or> py_in ck cr then None
         else if is_prefix_read ck cr then None
         else if levenshtein ni nr tol \<le> tol then None
         else if py_endswith nr ni \<or> word_set ni precise = word_set nr precise
         then Some Mm_prepend_autocorrect
         else if overlap_ratio ni nr < 1 / 2 then None
         else Some Mm_prefix_tail)"

definition verify_status :: "pystr \<Rightarrow> pystr \<Rightarrow> bool \<Rightarrow> verification_status \<times> pystr" where
  "verify_status intended observed precise =
     (let ni = norm_text intended precise;
          nr = norm_text (strip_prompt observed) precise
      in case compute_verdict intended observed precise of
        Vd_match \<Rightarrow>
          (if precise then (Verified_exact, u ''precise exact match'')
           else (Verified_safe_normalized, u ''safe normalized match''))
      | Vd_contains \<Rightarrow>
          (if precise
           then (Unverified_wrong_region, u ''exact read-back contains surrounding or extra text'')
           else (Verified_with_warnings, u ''read-back contains the intended text plus extra''))
      | Vd_unverified \<Rightarrow>
          (if has_whitespace_only_difference intended observed
           then (Unverified_whitespace, u ''visible spacing differs from the delivery payload'')
           else if is_prefix_read ni nr
           then (Unverified_truncated,
                 u ''read-back is a prefix of the intended text (viewport truncation)'')
           else if read_caught_extra ni nr
           then (Unverified_wrong_region, u ''read-back caught surrounding UI, not the typed field'')
           else (Unverified_ambiguous, u ''read-back too dissimilar to confirm or refute''))
      | Vd_mismatch \<Rightarrow>
          (if classify_mismatch intended observed precise = Some Mm_layout
           then (Failed_keyboard_layout,
                 u ''alphanumerics match but symbols differ '' @ [8212] @ u '' keyboard layout slip'')
           else if alnum_fold_case ni = alnum_fold_case nr \<and> ni \<noteq> nr
           then (Failed_case_mismatch, u ''difference is purely letter case'')
           else (Failed_symbol_mismatch, u ''symbols or characters differ from the intended text'')))"

definition verify_text :: "pystr \<Rightarrow> pystr \<Rightarrow> bool \<Rightarrow> verification_result" where
  "verify_text intended observed code =
     (let precise = code \<or> is_exact_text intended;
          (status, detail) = verify_status intended observed precise
      in \<lparr>vr_status = status, vr_safe_to_continue = (status \<in> set verified_statuses),
          vr_intended = Some intended, vr_observed = Some observed, vr_detail = detail\<rparr>)"

subsection \<open>Facts\<close>

definition glyphs :: "pystr \<Rightarrow> pystr" where
  "glyphs s = filter (\<lambda>c. \<not> is_space c) (fold_quotes s)"

lemma filter_dropWhile: "filter (\<lambda>x. \<not> P x) (dropWhile P xs) = filter (\<lambda>x. \<not> P x) xs"
  by (induction xs) auto

lemma nonspace_strip: "filter (\<lambda>c. \<not> is_space c) (py_strip s) = filter (\<lambda>c. \<not> is_space c) s"
  by (simp add: py_strip_def py_lstrip_def py_rstrip_def rev_filter [symmetric] filter_dropWhile)

lemma spaces1_over: "rx_over is_space spaces1"
  by (simp add: spaces1_def plus_def space_def)

lemma nonspace_norm: "filter (\<lambda>c. \<not> is_space c) (norm_text s True) = glyphs s"
proof -
  have "is_space 32" by (simp add: is_space_def)
  then show ?thesis
    using rx_sub_keeps [OF spaces1_over, of "[32]" "fold_quotes s"]
    by (simp add: norm_text_def glyphs_def nonspace_strip)
qed

lemma verdict_precise_match:
  "compute_verdict i r True = Vd_match \<longleftrightarrow>
     r \<noteq> [] \<and> \<not> has_whitespace_only_difference i r
     \<and> (norm_text i True = norm_text r True \<or> norm_text i True = norm_text (strip_prompt r) True)"
  by (simp add: compute_verdict_def Let_def)

lemma verify_status_verified:
  "fst (verify_status i r p) \<in> set verified_statuses \<longleftrightarrow>
     compute_verdict i r p = Vd_match \<or> compute_verdict i r p = Vd_contains \<and> \<not> p"
  by (cases "compute_verdict i r p") (simp_all add: verify_status_def verified_statuses_def Let_def)

lemma verify_text_verified:
  "vr_verified (verify_text i r code) \<longleftrightarrow>
     compute_verdict i r (code \<or> is_exact_text i) = Vd_match
     \<or> compute_verdict i r (code \<or> is_exact_text i) = Vd_contains \<and> \<not> (code \<or> is_exact_text i)"
  using verify_status_verified [of i r "code \<or> is_exact_text i"]
  by (simp add: verify_text_def vr_verified_def Let_def split_beta)

text \<open>
  C14. Commands, code, paths and URLs are verified exactly when the screen shows them: the observation is
  not empty, does not differ in spacing only, and equals the intended text, with or without a leading
  shell prompt, after straightening quotes within their family and collapsing white space. So a
  verified command has the same visible characters, in the same order and case, as the intended one.
\<close>

theorem exact_text_verified_iff:
  assumes "code \<or> is_exact_text intended"
  shows "(vr_verified (verify_text intended observed code) \<longleftrightarrow>
      observed \<noteq> [] \<and> \<not> has_whitespace_only_difference intended observed
      \<and> (norm_text intended True = norm_text observed True
         \<or> norm_text intended True = norm_text (strip_prompt observed) True))
    \<and> (vr_verified (verify_text intended observed code) \<longrightarrow>
         glyphs intended = glyphs observed \<or> glyphs intended = glyphs (strip_prompt observed))"
proof -
  have p: "(code \<or> is_exact_text intended) = True" using assms by simp
  have v: "vr_verified (verify_text intended observed code) \<longleftrightarrow>
      observed \<noteq> [] \<and> \<not> has_whitespace_only_difference intended observed
      \<and> (norm_text intended True = norm_text observed True
         \<or> norm_text intended True = norm_text (strip_prompt observed) True)"
    unfolding verify_text_verified p verdict_precise_match [symmetric] by simp
  then show ?thesis by (metis nonspace_norm)
qed

theorem exact_text_verified_iff_witness:
  "glyphs (u ''rm -rf x'') = glyphs (u ''me@box:~# rm -rf x'')
   \<or> glyphs (u ''rm -rf x'') = glyphs (strip_prompt (u ''me@box:~# rm -rf x''))"
proof -
  have "is_exact_text (u ''rm -rf x'')" by code_simp
  moreover have "vr_verified (verify_text (u ''rm -rf x'') (u ''me@box:~# rm -rf x'') False)"
    by code_simp
  ultimately show ?thesis
    using exact_text_verified_iff [of False "u ''rm -rf x''" "u ''me@box:~# rm -rf x''"] by simp
qed

text \<open>
  Prose is verified only on evidence. When text compared leniently is reported verified, then
  either the normalized read-back (with or without a prompt) equals the intended text, or the two
  agree after folding the characters OCR confuses, or one contains the other's key, or the least
  number of edits between them is at most eight per cent of the length, rounded up, and at least 1.
\<close>

theorem lenient_verified_evidence:
  assumes "\<not> (code \<or> is_exact_text intended)"
    and "vr_verified (verify_text intended observed code)"
  shows "observed \<noteq> [] \<and> \<not> has_whitespace_only_difference intended observed
    \<and> (let ni = norm_text intended False; nr = norm_text (strip_prompt observed) False
       in ni = norm_text observed False \<or> py_in ni nr
          \<or> py_in (conf_key intended False) (conf_key observed False)
          \<or> (\<exists>n. edits n ni nr \<and> int n \<le> tolerance ni))"
proof -
  have p: "(code \<or> is_exact_text intended) = False" using assms(1) by simp
  let ?ni = "norm_text intended False" and ?nr = "norm_text (strip_prompt observed) False"
  have v: "compute_verdict intended observed False \<in> {Vd_match, Vd_contains}"
    using assms(2) unfolding verify_text_verified p by auto
  have e: "\<exists>n. edits n ?ni ?nr \<and> int n \<le> tolerance ?ni"
    if "levenshtein ?ni ?nr (tolerance ?ni) \<le> tolerance ?ni"
  proof (intro exI conjI)
    show "edits (nat (edit_dist ?ni ?nr)) ?ni ?nr" by (rule edit_dist_edits)
    show "int (nat (edit_dist ?ni ?nr)) \<le> tolerance ?ni"
      using levenshtein_bounded [OF that] edit_dist_nonneg [of ?ni ?nr] by simp
  qed
  show ?thesis
    using v e unfolding compute_verdict_def Let_def
    by (auto split: if_splits)
qed

theorem lenient_verified_evidence_witness:
  "\<not> has_whitespace_only_difference (u ''Hello there'') (u ''hell0 there.'')"
proof -
  have "\<not> (False \<or> is_exact_text (u ''Hello there''))"
    "vr_verified (verify_text (u ''Hello there'') (u ''hell0 there.'') False)"
    by code_simp+
  from lenient_verified_evidence [OF this] show ?thesis by simp
qed

text \<open>
  The verifier fails closed: it calls text safe to continue exactly when it calls it verified, it
  verifies nothing on an empty read-back, and a difference in spacing alone is always reported as such.
\<close>

theorem verify_text_fails_closed:
  "vr_safe_to_continue (verify_text i r code) = vr_verified (verify_text i r code)
   \<and> \<not> vr_verified (verify_text i [] code)
   \<and> (r \<noteq> [] \<and> has_whitespace_only_difference i r \<longrightarrow>
        vr_status (verify_text i r code) = Unverified_whitespace)"
proof -
  have "compute_verdict i [] p = Vd_unverified" for p by (simp add: compute_verdict_def)
  moreover have "compute_verdict i r p = Vd_unverified"
    if "r \<noteq> []" "has_whitespace_only_difference i r" for p
    using that by (simp add: compute_verdict_def)
  moreover have "vr_safe_to_continue (verify_text i r code) = vr_verified (verify_text i r code)"
    by (simp add: verify_text_def vr_verified_def Let_def split_beta)
  ultimately show ?thesis
    by (simp add: verify_text_verified) (simp add: verify_text_def verify_status_def Let_def)
qed

theorem verify_text_fails_closed_witness:
  "vr_status (verify_text (u ''rm  -rf x'') (u ''rm -rf x'') False) = Unverified_whitespace"
proof -
  have "has_whitespace_only_difference (u ''rm  -rf x'') (u ''rm -rf x'')" by code_simp
  moreover have "u ''rm -rf x'' \<noteq> []" by (simp add: u_def)
  ultimately show ?thesis
    using verify_text_fails_closed [of "u ''rm  -rf x''" "u ''rm -rf x''" False] by simp
qed

text \<open>
  Two mismatches carry the wrong name. Symbols in the wrong order, without a letter in them, are
  reported as a difference of letter case; and a space that moved, with every glyph in place, is
  reported as a keyboard layout slip, because spacing counts as different only when the runs of white
  space themselves differ.
\<close>

theorem mismatch_labels:
  "vr_status (verify_text (u ''()[]{}'') (u '')(][}{'') False) = Failed_case_mismatch
   \<and> vr_status (verify_text (u ''rm ab c'') (u ''rm a bc'') False) = Failed_keyboard_layout"
  by code_simp

end
