(* ===== verification/ModeDetector.thy ===== *)
theory ModeDetector
  imports SafetyPolicy
begin

text \<open>
  \<open>vision/mode_detector.py\<close>: the interaction mode from the OCR text of the screen. Every rule of the
  table is a pattern with its mode; the first that matches anywhere wins.
\<close>

abbreviation apostrophe :: "rx" where
  "apostrophe \<equiv> Chr (\<lambda>c. c = 39 \<or> c = 8217)"

definition pager_rules :: "rx list" where
  "pager_rules = [
     lit_ci ''(END)'',
     rx_cat [lit ''--'', spaces, lit_ci ''more'', spaces, lit ''--''],
     rx_cat [lit_ci ''press'', spaces1, opt (rx_cat [lit_ci ''the'', spaces1]),
             words_ci [''RETURN'', ''ENTER''], wb],
     Alt (rx_cat [wb, lit_ci ''press'', spaces1, lit_ci ''q'', wb])
         (rx_cat [wb, lit_ci ''q'', spaces1, lit_ci ''to'', spaces1, lit_ci ''quit'', wb]),
     rx_cat [wb, lit_ci ''line'', opt (lit_ci ''s''), spaces1, plus decimal, lit ''-'', plus decimal, wb],
     Alt (rx_cat [bol, spaces, lit_ci ''manual page'', wb])
         (rx_cat [wb, lit_ci ''manual page '', Star dot, lit_ci '' line '', plus decimal]),
     rx_cat [bol, spaces, lit '':'', spaces, eol]]"

definition captcha_rules :: "rx list" where
  "captcha_rules = [
     rx_cat [lit_ci ''i'', opt apostrophe, lit_ci ''m'', spaces1, lit_ci ''not'', spaces1, lit_ci ''a'',
             spaces1, lit_ci ''robot''],
     rx_alt [rx_cat [wb, lit_ci ''captcha'', wb], rx_cat [wb, lit_ci ''recaptcha'', wb],
             rx_cat [wb, lit_ci ''hcaptcha'', wb]],
     rx_cat [lit_ci ''verify'', spaces1, opt (rx_cat [lit_ci ''that'', spaces1]), lit_ci ''you'',
             Alt (rx_cat [spaces1, lit_ci ''are'']) (rx_cat [opt apostrophe, lit_ci ''re'']),
             spaces1, opt (rx_cat [lit_ci ''a'', spaces1]), lit_ci ''human''],
     rx_cat [lit_ci ''are'', spaces1, lit_ci ''you'', spaces1, opt (rx_cat [lit_ci ''a'', spaces1]),
             lit_ci ''human'', wb]]"

definition password_rule :: rx where
  "password_rule = rx_cat [wb, lit_ci ''password'', spaces, lit '':'']"

definition credential_rules :: "rx list" where
  "credential_rules = [
     password_rule,
     rx_cat [lit_ci ''enter'', spaces1, lit_ci ''your'', spaces1, lit_ci ''password'', wb],
     rx_cat [lit_ci ''authentication'', spaces1, lit_ci ''required'', wb],
     rx_cat [wb, lit_ci ''sign'', spaces, lit_ci ''in'', wb],
     Alt (rx_cat [bol, spaces, lit_ci ''login'', spaces, lit '':''])
         (rx_cat [bol, spaces, lit_ci ''log'', spaces, lit_ci ''in'', wb])]"

definition update_rules :: "rx list" where
  "update_rules = [
     rx_cat [lit_ci ''windows'', spaces1, lit_ci ''update'', wb],
     rx_cat [lit_ci ''update'', opt (lit_ci ''s''), spaces1, lit_ci ''are'', spaces1,
             lit_ci ''available'', wb],
     rx_cat [wb, lit_ci ''restart'', spaces1, lit_ci ''now'', wb]]"

definition quick_open_rules :: "rx list" where
  "quick_open_rules = [
     rx_cat [wb, lit_ci ''go'', spaces1, lit_ci ''to'', spaces1, lit_ci ''file'', wb],
     rx_cat [lit_ci ''search'', spaces1, lit_ci ''files'', spaces1, lit_ci ''by'', spaces1,
             lit_ci ''name'', wb],
     rx_cat [lit_ci ''type'', spaces1, lit_ci ''the'', spaces1, lit_ci ''name'', spaces1, lit_ci ''of'',
             spaces1, lit_ci ''a'', spaces1, lit_ci ''file'', spaces1, lit_ci ''to'', spaces1,
             lit_ci ''open'']]"

definition address_bar_rules :: "rx list" where
  "address_bar_rules = [
     rx_cat [lit_ci ''search'', spaces1, opt (rx_cat [lit_ci ''google'', spaces1]), lit_ci ''or'', spaces1,
             words_ci [''type'', ''enter''], spaces1, opt (rx_cat [lit_ci ''a'', spaces1]),
             words_ci [''url'', ''address'', ''web address'']],
     rx_cat [wb, lit_ci ''address'', spaces1, lit_ci ''bar'', wb]]"

definition mode_rules :: "(rx \<times> ui_mode) list" where
  "mode_rules =
     map (\<lambda>r. (r, M_terminal_pager)) pager_rules
     @ map (\<lambda>r. (r, M_captcha_or_human_verification)) captcha_rules
     @ map (\<lambda>r. (r, M_credential_prompt)) credential_rules
     @ map (\<lambda>r. (r, M_windows_update_modal)) update_rules
     @ map (\<lambda>r. (r, M_vscode_quick_open)) quick_open_rules
     @ map (\<lambda>r. (r, M_browser_address_bar)) address_bar_rules"

definition bare_url_re :: rx where
  "bare_url_re = rx_cat [bol, spaces, lit_ci ''http'', opt (lit_ci ''s''), lit ''://'',
     plus (Chr (\<lambda>c. \<not> is_space c)), spaces, eol]"

definition host_char :: "int \<Rightarrow> bool" where
  "host_char c \<longleftrightarrow> 65 \<le> c \<and> c \<le> 90 \<or> 97 \<le> c \<and> c \<le> 122 \<or> 48 \<le> c \<and> c \<le> 57 \<or> c = 46 \<or> c = 95 \<or> c = 45"

definition drive_path :: rx where
  "drive_path = rx_cat [Chr (\<lambda>c. 65 \<le> c \<and> c \<le> 90 \<or> 97 \<le> c \<and> c \<le> 122), chr_eq 58, chr_eq 92,
     Star (none_of [10]), lit ''>'']"

definition mode_prompt_re :: rx where
  "mode_prompt_re = rx_cat [bol,
     rx_alt [
       rx_cat [Star dot, plus (Chr host_char), lit ''@'', plus (Chr host_char), Star dot,
               Chr (\<lambda>c. c \<in> set (u ''$#%>'') \<union> {10095, 10140})],
       rx_cat [Star dot, Alt (rx_cat [lit ''PS'', spaces1, drive_path]) drive_path],
       Chr (\<lambda>c. c \<in> set (u ''$#%>'') \<union> {10095, 10140, 955, 187})],
     spaces, eol]"

definition matches_any :: "pystr \<Rightarrow> ui_mode option" where
  "matches_any text = map_option snd (List.find (\<lambda>p. rx_search (fst p) text) mode_rules)"

definition detect_mode :: "pystr \<Rightarrow> pystr option \<Rightarrow> ui_mode" where
  "detect_mode text app_hint =
     (case matches_any text of
        Some m \<Rightarrow> m
      | None \<Rightarrow>
          (if rx_search bare_url_re text then M_browser_address_bar
           else if rx_search mode_prompt_re text then M_terminal_readline
           else let hint = py_casefold (case app_hint of Some h \<Rightarrow> h | None \<Rightarrow> []) in
             if py_in (u ''vscode'') hint \<or> py_in (u ''code'') hint then M_vscode_editor
             else if py_in (u ''terminal'') hint \<or> py_in (u ''konsole'') hint \<or> py_in (u ''xterm'') hint
             then M_terminal_readline
             else M_unknown))"

subsection \<open>Blocking screens\<close>

definition blocking_rules :: "rx list" where
  "blocking_rules = pager_rules @ captcha_rules @ credential_rules"

definition blocking_modes :: "ui_mode set" where
  "blocking_modes = {M_terminal_pager, M_captcha_or_human_verification, M_credential_prompt}"

lemma find_append:
  "List.find P (xs @ ys) = (case List.find P xs of Some x \<Rightarrow> Some x | None \<Rightarrow> List.find P ys)"
  by (induction xs) auto

lemma matches_any_blocking:
  assumes "r \<in> set blocking_rules" and "rx_search r text"
  shows "\<exists>m \<in> blocking_modes. matches_any text = Some m"
proof -
  define front where "front = map (\<lambda>r. (r, M_terminal_pager)) pager_rules
     @ map (\<lambda>r. (r, M_captcha_or_human_verification)) captcha_rules
     @ map (\<lambda>r. (r, M_credential_prompt)) credential_rules"
  obtain rest where m: "mode_rules = front @ rest" by (auto simp: mode_rules_def front_def)
  have "fst ` set front = set blocking_rules"
    by (simp add: front_def blocking_rules_def image_Un image_image)
  with assms(1) obtain p where "p \<in> set front" "fst p = r" by (metis imageE)
  with assms(2) have "List.find (\<lambda>p. rx_search (fst p) text) front \<noteq> None"
    unfolding find_None_iff by blast
  then obtain p where p: "List.find (\<lambda>p. rx_search (fst p) text) front = Some p" by blast
  then have "p \<in> set front" by (auto simp: find_Some_iff)
  then have "snd p \<in> blocking_modes" by (auto simp: front_def blocking_modes_def)
  moreover have "matches_any text = Some (snd p)"
    by (simp add: matches_any_def m find_append p)
  ultimately show ?thesis by blast
qed

lemma blocking_modes_block_typing:
  "m \<in> blocking_modes \<Longrightarrow> \<not> fst (action_allowed_in_mode T_type_text m)"
  by (auto simp: blocking_modes_def action_allowed_in_mode_def type_text_blocked_modes_def)

text \<open>
  A blocking screen blocks typing, whatever else it shows. If any pager, captcha or credential rule
  matches anywhere in the OCR text, the detected mode is one of the three blocking modes, which the
  policy lets nobody type into, no matter which other rules match, whether the text also ends in a
  shell prompt, and what the application hint says.
\<close>

theorem blocking_screen_blocks_typing:
  assumes "r \<in> set blocking_rules" and "rx_search r text"
  shows "detect_mode text hint \<in> blocking_modes
    \<and> \<not> fst (action_allowed_in_mode T_type_text (detect_mode text hint))"
  using matches_any_blocking [OF assms] blocking_modes_block_typing
  by (auto simp: detect_mode_def)

theorem blocking_screen_blocks_typing_witness:
  "\<not> fst (action_allowed_in_mode T_type_text
     (detect_mode (u ''me@box:~$ sudo ls'' @ [10] @ u ''Password: '' @ [10] @ u ''me@box:~$ '') None))"
proof -
  have "password_rule \<in> set blocking_rules" by (simp add: blocking_rules_def credential_rules_def)
  moreover have "rx_search password_rule
      (u ''me@box:~$ sudo ls'' @ [10] @ u ''Password: '' @ [10] @ u ''me@box:~$ '')"
    by code_simp
  ultimately show ?thesis using blocking_screen_blocks_typing by blast
qed

lemma password_matches:
  assumes "py_lower word = u ''password''" and "\<not> prev_word (adv None before, [])"
  shows "rx_search password_rule (before @ word @ u '':'' @ rest)"
proof -
  obtain c w where w: "word = c # w" and c: "lower1 c = 112"
    using assms(1) by (cases word) (auto simp: u_def)
  have "is_word c" using c
    by (auto simp: char_class_defs lower1_def split: if_splits)
  then have 1: "rx_rel wb (adv None before, word @ u '':'' @ rest) (adv None before, word @ u '':'' @ rest)"
    using assms(2) by (intro rx_rel_wb) (simp add: prev_word_def next_word_def w)
  have 2: "rx_rel (lit_ci ''password'') (l, word @ s) (adv l word, s)" for l s
    by (rule rx_rel_lit_ci) (simp add: assms(1), simp add: u_def lower1_def is_upper_ascii_def)
  have 3: "rx_rel spaces (l, s) (l, s)" for l s by (simp add: spaces_def r_star0)
  have 4: "rx_rel (lit '':'') (l, u '':'' @ s) (adv l (u '':''), s)" for l s by (rule rx_rel_lit)
  have "\<exists>q. rx_rel password_rule (adv None before, word @ u '':'' @ rest) q"
    unfolding password_rule_def by (rule exI) (rule rx_cat_steps 1 2 3 4)+
  then show ?thesis using rx_search_intro by blast
qed

text \<open>
  No password prompt is typed into: on every screen whose text contains the word password in any
  case, at the start of a word and followed by a colon, typing is blocked.
\<close>

theorem password_prompt_blocks_typing:
  assumes "py_lower word = u ''password''" and "before = [] \<or> \<not> is_word (last before)"
  shows "\<not> fst (action_allowed_in_mode T_type_text (detect_mode (before @ word @ u '':'' @ rest) hint))"
proof -
  have "\<not> prev_word (adv None before, [])"
    using assms(2) by (auto simp: prev_word_def adv_def)
  from password_matches [OF assms(1) this, of rest] show ?thesis
    using blocking_screen_blocks_typing [of password_rule]
    by (simp add: blocking_rules_def credential_rules_def)
qed

theorem password_prompt_blocks_typing_witness:
  "\<not> fst (action_allowed_in_mode T_type_text
     (detect_mode (u ''[sudo] '' @ u ''PassWord'' @ u '':'' @ u '' '') (Some (u ''terminal''))))"
  by (rule password_prompt_blocks_typing) (code_simp, code_simp)

end
