(* ===== verification/Transactions.thy ===== *)
theory Transactions
  imports Recovery Actionability Verification ModeDetector
begin

text \<open>
  \<open>executor/transactions.py\<close>: the guarded executor. Its effect is the list of calls it makes, to the
  backend or to the injected typer; what it learns while it runs (the control gate before each
  action, the typer's verdict, the text read back, the screens it polls) is an environment per action.
\<close>

datatype exec_call = Xc_hid hid_call | Xc_typer pystr

record exec_env =
  xe_continue :: bool
  xe_typer_status :: verification_status
  xe_typer_ok :: bool
  xe_typer_field :: "pystr option"
  xe_typer_summary :: pystr
  xe_observed :: pystr
  xe_polls :: "(pystr \<times> bool) list"

record exec_ctx =
  cx_has_typer :: bool
  cx_element_map :: element_map
  cx_frame_id :: int
  cx_world_version :: int
  cx_width :: int
  cx_height :: int
  cx_based_on_world :: int

definition scroll_vector :: "scroll_direction \<Rightarrow> int \<times> int" where
  "scroll_vector d = (case d of Scroll_up \<Rightarrow> (0, 1) | Scroll_down \<Rightarrow> (0, -1)
     | Scroll_right \<Rightarrow> (1, 0) | Scroll_left \<Rightarrow> (-1, 0))"

text \<open>
  The polls of \<open>_wait_for_mode\<close> end with the first one at or after the deadline (flag \<open>True\<close>); the mode
  is detected from the text alone.
\<close>

fun wait_for_mode :: "pystr \<Rightarrow> (pystr \<times> bool) list \<Rightarrow> bool" where
  "wait_for_mode target [] = False"
| "wait_for_mode target ((text, late) # polls) =
     (if u (mode_name (detect_mode text None)) = target then True
      else if late then False else wait_for_mode target polls)"

definition type_and_verify :: "exec_ctx \<Rightarrow> exec_env \<Rightarrow> pystr \<Rightarrow> exec_call list \<times> verification_result" where
  "type_and_verify cx e text =
     (if cx_has_typer cx
      then ([Xc_typer text],
            \<lparr>vr_status = xe_typer_status e, vr_safe_to_continue = xe_typer_ok e,
             vr_intended = Some text,
             vr_observed = Some (case xe_typer_field e of Some f \<Rightarrow> f | None \<Rightarrow> []),
             vr_detail = xe_typer_summary e\<rparr>)
      else ([Xc_hid (Hid_type_text text)], verify_text text (xe_observed e) False))"

datatype click_result = Click_done int int | Click_refused pystr | Click_raised locator_error

definition check_reason_text :: "check_reason \<Rightarrow> pystr" where
  "check_reason_text r = (case r of
       Reason_ok \<Rightarrow> [] | Reason_stale_world \<Rightarrow> u ''stale_world'' | Reason_stale_frame \<Rightarrow> u ''stale_frame''
     | Reason_not_unique \<Rightarrow> u ''not_unique'' | Reason_not_visible \<Rightarrow> u ''not_visible''
     | Reason_obscured_by k \<Rightarrow> u ''obscured_by_'' @ u (element_kind_name k))"

text \<open>\<open>action.get("element_id") or action.get("locator")\<close>; an empty one counts as missing.\<close>

definition click_spec :: "pystr option \<Rightarrow> pydict option \<Rightarrow> locator_arg option" where
  "click_spec element_id locator =
     (case element_id of
        Some (c # i) \<Rightarrow> Some (Loc_id (c # i))
      | _ \<Rightarrow> (case locator of Some (p # d) \<Rightarrow> Some (Loc_dict (p # d)) | _ \<Rightarrow> None))"

definition click_element :: "exec_ctx \<Rightarrow> pystr option \<Rightarrow> pydict option \<Rightarrow> click_result" where
  "click_element cx element_id locator = (case click_spec element_id locator of
       None \<Rightarrow> Click_refused (u ''click_element needs an element_id or locator'')
     | Some spec \<Rightarrow>
         (case (resolve_all spec (cx_element_map cx), resolve spec (cx_element_map cx)) of
            (Inl err, _) \<Rightarrow> Click_raised err
          | (_, Inl err) \<Rightarrow> Click_raised err
          | (Inr candidates, Inr None) \<Rightarrow>
              Click_refused (u ''element not found or ambiguous ('' @ int_str (int (length candidates))
                @ u '' matches)'')
          | (Inr candidates, Inr (Some el)) \<Rightarrow>
              (let check = actionable el (cx_element_map cx) (cx_frame_id cx) (cx_world_version cx)
                     (cx_width cx) (cx_height cx) (int (length candidates))
               in if check \<noteq> Reason_ok
                  then Click_refused (u ''not actionable: '' @ check_reason_text check)
                  else Click_done (fst (bbox_center (el_bbox el))) (snd (bbox_center (el_bbox el))))))"

text \<open>One action: its calls, and whether the transaction goes on (with the verification), or ends.\<close>

datatype action_outcome =
    Act_next "verification_result option"
  | Act_failed "verification_result option" pystr
  | Act_raised locator_error

fun run_action ::
  "exec_ctx \<Rightarrow> exec_env \<Rightarrow> verification_result option \<Rightarrow> action \<Rightarrow> exec_call list \<times> action_outcome" where
  "run_action cx e v (Keypress ks) = ([Xc_hid (Hid_keypress ks)], Act_next v)"
| "run_action cx e v (TypeText t) =
     (let (calls, r) = type_and_verify cx e t in
      if vr_verified r then (calls, Act_next (Some r))
      else (calls, Act_failed (Some r)
              (u ''typing verification: '' @ u (verification_status_name (vr_status r)))))"
| "run_action cx e v (ClickElement i loc button) = (case click_element cx i loc of
       Click_done x y \<Rightarrow> ([Xc_hid (Hid_click x y)], Act_next v)
     | Click_refused why \<Rightarrow> ([], Act_failed None why)
     | Click_raised err \<Rightarrow> ([], Act_raised err))"
| "run_action cx e v (Scroll d amount) =
     (let n = max 1 amount in
      ([Xc_hid (Hid_scroll (fst (scroll_vector d) * n) (snd (scroll_vector d) * n))], Act_next v))"
| "run_action cx e v (Wait ms) = ([], Act_next v)"
| "run_action cx e v (WaitForMode m ms) =
     (if wait_for_mode m (xe_polls e) then ([], Act_next v)
      else ([], Act_failed None (u ''mode '' @ [39] @ m @ [39] @ u '' not reached before typing/acting'')))"

fun exec_loop ::
  "exec_ctx \<Rightarrow> (action \<times> exec_env) list \<Rightarrow> action list \<Rightarrow> verification_result option
     \<Rightarrow> exec_call list \<times> (locator_error, transaction_result) result" where
  "exec_loop cx [] executed v =
     ([], Inr \<lparr>tr_status = (case v of Some r \<Rightarrow> if vr_verified r then Tx_verified else Tx_executed
                            | None \<Rightarrow> Tx_executed),
               tr_executed = executed, tr_verification = v,
               tr_world_after = Some (cx_based_on_world cx), tr_error = []\<rparr>)"
| "exec_loop cx ((a, e) # rest) executed v =
     (if \<not> xe_continue e
      then ([Xc_hid Hid_release_all],
            Inr \<lparr>tr_status = Tx_blocked_by_policy, tr_executed = executed, tr_verification = v,
                 tr_world_after = None, tr_error = u ''control_changed''\<rparr>)
      else (case run_action cx e v a of
          (calls, Act_next v') \<Rightarrow>
            (let (calls', r) = exec_loop cx rest (executed @ [a]) v' in (calls @ calls', r))
        | (calls, Act_failed v' why) \<Rightarrow>
            (calls, Inr \<lparr>tr_status = Tx_failed, tr_executed = executed @ [a], tr_verification = v',
                         tr_world_after = None, tr_error = why\<rparr>)
        | (calls, Act_raised err) \<Rightarrow> (calls, Inl err)))"

definition guarded_execute ::
  "exec_ctx \<Rightarrow> guarded_transaction \<Rightarrow> exec_env list \<Rightarrow>
     exec_call list \<times> (locator_error, transaction_result) result" where
  "guarded_execute cx tx envs = exec_loop cx (zip (tx_actions tx) envs) [] None"

subsection \<open>What a run of the executor did\<close>

definition act_calls :: "exec_ctx \<Rightarrow> action \<times> exec_env \<Rightarrow> exec_call list" where
  "act_calls cx p = fst (run_action cx (snd p) None (fst p))"

fun goes_on :: "action_outcome \<Rightarrow> bool" where
  "goes_on (Act_next _) = True"
| "goes_on _ = False"

definition act_ok :: "exec_ctx \<Rightarrow> action \<times> exec_env \<Rightarrow> bool" where
  "act_ok cx p = goes_on (snd (run_action cx (snd p) None (fst p)))"

lemma run_action_verification_irrelevant:
  "fst (run_action cx e v a) = act_calls cx (a, e)
   \<and> goes_on (snd (run_action cx e v a)) = act_ok cx (a, e)"
  by (cases a) (auto simp: act_calls_def act_ok_def Let_def split: prod.splits click_result.splits)

definition loop_shape ::
  "exec_ctx \<Rightarrow> (action \<times> exec_env) list \<Rightarrow> nat \<Rightarrow> exec_call list \<Rightarrow> tx_status \<Rightarrow> bool" where
  "loop_shape cx ps k calls s \<longleftrightarrow> k \<le> length ps
     \<and> (\<forall>p \<in> set (take k ps). xe_continue (snd p))
     \<and> calls = concat (map (act_calls cx) (take k ps))
         @ (if s = Tx_blocked_by_policy then [Xc_hid Hid_release_all] else [])
     \<and> (case s of
          Tx_executed \<Rightarrow> k = length ps \<and> (\<forall>p \<in> set ps. act_ok cx p)
        | Tx_verified \<Rightarrow> k = length ps \<and> (\<forall>p \<in> set ps. act_ok cx p)
        | Tx_failed \<Rightarrow> 0 < k \<and> (\<forall>p \<in> set (take (k - 1) ps). act_ok cx p) \<and> \<not> act_ok cx (ps ! (k - 1))
        | Tx_blocked_by_policy \<Rightarrow> k < length ps \<and> (\<forall>p \<in> set (take k ps). act_ok cx p)
            \<and> \<not> xe_continue (snd (ps ! k))
        | _ \<Rightarrow> False)"

lemma loop_shape_Cons:
  assumes "loop_shape cx ps k calls s" and "xe_continue (snd p)" and "act_ok cx p"
  shows "loop_shape cx (p # ps) (Suc k) (act_calls cx p @ calls) s"
  using assms by (cases k) (auto simp: loop_shape_def split: tx_status.splits)

lemma exec_loop_shape:
  "exec_loop cx ps executed v = (calls, Inr r) \<Longrightarrow>
     \<exists>k. tr_executed r = executed @ map fst (take k ps) \<and> loop_shape cx ps k calls (tr_status r)"
proof (induction ps arbitrary: executed v calls r)
  case Nil
  then show ?case by (auto simp: loop_shape_def split: option.splits if_splits)
next
  case (Cons p ps)
  obtain a e where p: "p = (a, e)" by (cases p)
  show ?case
  proof (cases "xe_continue e")
    case False
    with Cons.prems p show ?thesis
      by (intro exI [of _ 0]) (auto simp: loop_shape_def)
  next
    case cont: True
    obtain cs out where ra: "run_action cx e v a = (cs, out)" by fastforce
    from run_action_verification_irrelevant [of cx e v a] ra
    have cs: "cs = act_calls cx p" and ok: "goes_on out = act_ok cx p" by (simp_all add: p)
    show ?thesis
    proof (cases out)
      case (Act_next v')
      obtain calls' where rec: "exec_loop cx ps (executed @ [a]) v' = (calls', Inr r)"
        and calls: "calls = cs @ calls'"
        using Cons.prems cont ra Act_next p by (auto split: prod.splits)
      from Cons.IH [OF rec] obtain k where
        k: "tr_executed r = (executed @ [a]) @ map fst (take k ps)" "loop_shape cx ps k calls' (tr_status r)"
        by blast
      have "loop_shape cx (p # ps) (Suc k) (act_calls cx p @ calls') (tr_status r)"
        using loop_shape_Cons [OF k(2), of p] cont ok Act_next p by simp
      with k(1) show ?thesis unfolding calls cs by (intro exI [of _ "Suc k"]) (simp add: p)
    next
      case (Act_failed v' why)
      with Cons.prems cont ra p cs ok show ?thesis
        by (intro exI [of _ "Suc 0"]) (auto simp: loop_shape_def)
    next
      case (Act_raised err)
      with Cons.prems cont ra p show ?thesis by simp
    qed
  qed
qed

lemma act_ok_typed: "act_ok cx (TypeText t, e) \<Longrightarrow> vr_verified (snd (type_and_verify cx e t))"
  by (auto simp: act_ok_def Let_def split: prod.splits if_splits)

lemma zip_entries:
  assumes "length envs = length as" "i < k" "k \<le> length as"
  shows "(as ! i, envs ! i) \<in> set (take k (zip as envs))" "(as ! i, envs ! i) \<in> set (zip as envs)"
proof -
  have "take k (zip as envs) ! i = (as ! i, envs ! i)" "i < length (take k (zip as envs))" using assms by simp_all
  then show "(as ! i, envs ! i) \<in> set (take k (zip as envs))" using nth_mem by metis
  then show "(as ! i, envs ! i) \<in> set (zip as envs)" by (rule in_set_takeD)
qed


subsection \<open>Clicks and scrolls\<close>

lemma click_done:
  assumes "click_element cx i loc = Click_done x y"
  shows "\<exists>el n. actionable el (cx_element_map cx) (cx_frame_id cx) (cx_world_version cx)
       (cx_width cx) (cx_height cx) n = Reason_ok \<and> box_center (el_bbox el) = (x, y)"
  using assms unfolding click_element_def Let_def
  by (auto simp: box_center_def bbox_center_def split: option.splits sum.splits if_splits prod.splits)

lemma run_action_calls:
  "Xc_hid (Hid_click x y) \<in> set (act_calls cx (a, e)) \<Longrightarrow>
     \<exists>i loc b. a = ClickElement i loc b \<and> click_element cx i loc = Click_done x y"
  "Xc_hid (Hid_scroll dx dy) \<in> set (act_calls cx (a, e)) \<Longrightarrow> (dx, dy) \<noteq> (0, 0)"
  by (cases a; auto simp: act_calls_def Let_def type_and_verify_def scroll_vector_def
      split: click_result.splits if_splits scroll_direction.splits)+

lemma exec_loop_calls:
  "exec_loop cx ps executed v = (calls, r) \<Longrightarrow> c \<in> set calls \<Longrightarrow>
     c = Xc_hid Hid_release_all \<or> (\<exists>p \<in> set ps. c \<in> set (act_calls cx p))"
proof (induction ps arbitrary: executed v calls r)
  case Nil
  then show ?case by simp
next
  case (Cons p ps)
  obtain a e where p: "p = (a, e)" by (cases p)
  obtain cs out where ra: "run_action cx e v a = (cs, out)" by fastforce
  have cs: "cs = act_calls cx p"
    using run_action_verification_irrelevant [of cx e v a] ra by (simp add: p)
  show ?case
  proof (cases "xe_continue e")
    case False
    with Cons.prems p show ?thesis by auto
  next
    case cont: True
    show ?thesis
    proof (cases out)
      case (Act_next v')
      obtain calls' r' where rec: "exec_loop cx ps (executed @ [a]) v' = (calls', r')" by fastforce
      with Cons.prems cont ra Act_next p have "calls = cs @ calls'" by simp
      with Cons.IH [OF rec] Cons.prems(2) cs show ?thesis by auto
    qed (use Cons.prems cont ra p cs in auto)
  qed
qed

text \<open>
  The executor never clicks or scrolls blindly. Every click it makes, whatever the operator's
  locators, is at the centre of an element of the current frame and world version that lies inside the
  frame and is not covered by a modal, toast or notification; every scroll moves.
\<close>

theorem executor_clicks_are_grounded:
  assumes "guarded_execute cx tx envs = (calls, r)"
  shows "(Xc_hid (Hid_click x y) \<in> set calls \<longrightarrow>
      0 \<le> x \<and> x < cx_width cx \<and> 0 \<le> y \<and> y < cx_height cx
      \<and> (\<exists>el :: visual_element. el_world_version el = cx_world_version cx \<and> el_frame_id el = cx_frame_id cx
           \<and> box_center (el_bbox el) = (x, y)
           \<and> \<not> (\<exists>other \<in> set (em_elements (cx_element_map cx)). el_id other \<noteq> el_id el
                \<and> el_kind other \<in> obscuring_kinds \<and> box_contains (el_bbox other) (x, y))))
    \<and> (Xc_hid (Hid_scroll dx dy) \<in> set calls \<longrightarrow> (dx, dy) \<noteq> (0, 0))"
proof (intro conjI impI)
  assume c: "Xc_hid (Hid_click x y) \<in> set calls"
  obtain a e where "Xc_hid (Hid_click x y) \<in> set (act_calls cx (a, e))"
    using exec_loop_calls [of cx "zip (tx_actions tx) envs" "[]" None calls r, OF _ c] assms
    by (auto simp: guarded_execute_def)
  then obtain i loc where "click_element cx i loc = Click_done x y"
    using run_action_calls(1) by blast
  from click_done [OF this] obtain el n where
    a: "actionable el (cx_element_map cx) (cx_frame_id cx) (cx_world_version cx) (cx_width cx)
          (cx_height cx) n = Reason_ok" and b: "box_center (el_bbox el) = (x, y)" by blast
  note lands = actionable_lands [OF a b]
  show "0 \<le> x" "x < cx_width cx" "0 \<le> y" "y < cx_height cx" using lands by simp_all
  show "\<exists>el :: visual_element. el_world_version el = cx_world_version cx \<and> el_frame_id el = cx_frame_id cx
           \<and> box_center (el_bbox el) = (x, y)
           \<and> \<not> (\<exists>other \<in> set (em_elements (cx_element_map cx)). el_id other \<noteq> el_id el
                \<and> el_kind other \<in> obscuring_kinds \<and> box_contains (el_bbox other) (x, y))"
    using lands b by blast
next
  assume c: "Xc_hid (Hid_scroll dx dy) \<in> set calls"
  obtain a e where "Xc_hid (Hid_scroll dx dy) \<in> set (act_calls cx (a, e))"
    using exec_loop_calls [of cx "zip (tx_actions tx) envs" "[]" None calls r, OF _ c] assms
    by (auto simp: guarded_execute_def)
  then show "(dx, dy) \<noteq> (0, 0)" using run_action_calls(2) by blast
qed

subsection \<open>A run\<close>

definition demo_ctx :: exec_ctx where
  "demo_ctx = \<lparr>cx_has_typer = False, cx_element_map = sample_map, cx_frame_id = 3,
     cx_world_version = 2, cx_width = 640, cx_height = 480, cx_based_on_world = 2\<rparr>"

definition demo_exec_env :: "string \<Rightarrow> exec_env" where
  "demo_exec_env seen = \<lparr>xe_continue = True, xe_typer_status = Unverified_ambiguous,
     xe_typer_ok = False, xe_typer_field = None, xe_typer_summary = [], xe_observed = u seen,
     xe_polls = []\<rparr>"

definition demo_tx :: "action list \<Rightarrow> guarded_transaction" where
  "demo_tx as = \<lparr>tx_session = u ''s'', tx_frame_id = 3, tx_world_version = 2, tx_intent = u ''i'',
     tx_actions = as, tx_risk = \<lparr>ra_level = Low, ra_category = Text_entry, ra_requires_human = False,
       ra_reason = []\<rparr>, tx_approval_id = None\<rparr>"

definition demo_actions :: "action list" where
  "demo_actions = [ClickElement (Some (u ''Save'')) None (u ''left''), TypeText (u ''ls -l''),
     TypeText (u ''rm -rf x''), Keypress [u ''Enter'']]"

definition demo_run :: "exec_call list \<times> (locator_error, transaction_result) result" where
  "demo_run = guarded_execute demo_ctx (demo_tx demo_actions)
     (map demo_exec_env [''x'', ''ls -l'', ''rm -rf z'', ''x''])"

definition demo_result :: transaction_result where
  "demo_result = (case snd demo_run of Inr r \<Rightarrow> r | Inl _ \<Rightarrow>
     \<lparr>tr_status = Tx_failed, tr_executed = [], tr_verification = None, tr_world_after = None,
      tr_error = []\<rparr>)"


theorem executor_clicks_are_grounded_witness:
  "Xc_hid (Hid_click 14 110) \<in> set (fst demo_run) \<and> 0 \<le> (14 :: int) \<and> (14 :: int) < cx_width demo_ctx"
proof -
  have c: "Xc_hid (Hid_click 14 110) \<in> set (fst demo_run)" by code_simp
  have "guarded_execute demo_ctx (demo_tx demo_actions)
     (map demo_exec_env [''x'', ''ls -l'', ''rm -rf z'', ''x'']) = (fst demo_run, snd demo_run)"
    by (simp add: demo_run_def)
  from executor_clicks_are_grounded [OF this, of 14 110] c show ?thesis by blast
qed

end
