(* ===== verification/Keyboard.thy ===== *)
theory Keyboard
  imports PikvmText Prelude
begin

text \<open>
  \<open>pikvm/keyboard_state.py\<close> (keymaps and Caps Lock) and the keyboard half of \<open>pikvm/client.py\<close>: the
  events typing and chords send to the HID channel. An event is a key code with its new state. The
  pauses between events have no effect in the model.
\<close>

subsection \<open>Keymaps\<close>

datatype layout = L_us | L_uk

record key_info =
  ki_code :: string
  ki_shift :: bool

definition rows :: "pystr list" where
  "rows = [u ''`1234567890-='', u ''qwertyuiop[]'' @ [92], u ''asdfghjkl;'' @ [39], u ''zxcvbnm,./'']"

definition shift_rows :: "pystr list" where
  "shift_rows = [u ''~!@#$%^&*()_+'', u ''QWERTYUIOP{}|'', u ''ASDFGHJKL:'' @ [34], u ''ZXCVBNM<>?'']"

definition code_rows :: "string list list" where
  "code_rows =
     [[''Backquote'', ''Digit1'', ''Digit2'', ''Digit3'', ''Digit4'', ''Digit5'', ''Digit6'', ''Digit7'',
       ''Digit8'', ''Digit9'', ''Digit0'', ''Minus'', ''Equal''],
      [''KeyQ'', ''KeyW'', ''KeyE'', ''KeyR'', ''KeyT'', ''KeyY'', ''KeyU'', ''KeyI'', ''KeyO'', ''KeyP'',
       ''BracketLeft'', ''BracketRight'', ''Backslash''],
      [''KeyA'', ''KeyS'', ''KeyD'', ''KeyF'', ''KeyG'', ''KeyH'', ''KeyJ'', ''KeyK'', ''KeyL'',
       ''Semicolon'', ''Quote''],
      [''KeyZ'', ''KeyX'', ''KeyC'', ''KeyV'', ''KeyB'', ''KeyN'', ''KeyM'', ''Comma'', ''Period'',
       ''Slash'']]"

definition row_keys :: "pystr \<Rightarrow> string list \<Rightarrow> bool \<Rightarrow> (int \<times> key_info) list" where
  "row_keys chars codes shift = map2 (\<lambda>ch code. (ch, \<lparr>ki_code = code, ki_shift = shift\<rparr>)) chars codes"

text \<open>\<open>CHAR_TO_KEY\<close>: the tables hold no character twice, so the order of the entries is immaterial.\<close>

definition char_to_key :: "(int \<times> key_info) list" where
  "char_to_key = concat (map2 (\<lambda>r c. row_keys r c False) rows code_rows)
     @ concat (map2 (\<lambda>r c. row_keys r c True) shift_rows code_rows)
     @ [(32, \<lparr>ki_code = ''Space'', ki_shift = False\<rparr>), (9, \<lparr>ki_code = ''Tab'', ki_shift = False\<rparr>)]"

definition uk_overrides :: "(int \<times> key_info) list" where
  "uk_overrides =
     [(34, \<lparr>ki_code = ''Digit2'', ki_shift = True\<rparr>), (64, \<lparr>ki_code = ''Quote'', ki_shift = True\<rparr>),
      (35, \<lparr>ki_code = ''Backslash'', ki_shift = False\<rparr>),
      (126, \<lparr>ki_code = ''Backslash'', ki_shift = True\<rparr>),
      (92, \<lparr>ki_code = ''IntlBackslash'', ki_shift = False\<rparr>),
      (124, \<lparr>ki_code = ''IntlBackslash'', ki_shift = True\<rparr>),
      (163, \<lparr>ki_code = ''Digit3'', ki_shift = True\<rparr>), (172, \<lparr>ki_code = ''Backquote'', ki_shift = True\<rparr>)]"

definition key_for :: "int \<Rightarrow> layout \<Rightarrow> key_info option" where
  "key_for ch layout =
     (case (if layout = L_uk then map_of uk_overrides ch else None) of
        Some k \<Rightarrow> Some k
      | None \<Rightarrow> map_of char_to_key ch)"

definition is_letter_code :: "string \<Rightarrow> bool" where
  "is_letter_code code \<longleftrightarrow> length code = 4 \<and> take 3 code = ''Key'' \<and> is_alpha (of_char (code ! 3))"

record stroke =
  sk_code :: string
  sk_shift :: bool
  sk_ch :: int

definition compensate_caps_lock :: "stroke list \<Rightarrow> bool \<Rightarrow> stroke list" where
  "compensate_caps_lock strokes caps_on =
     (if \<not> caps_on then strokes
      else map (\<lambda>s. if is_letter_code (sk_code s) then s\<lparr>sk_shift := \<not> sk_shift s\<rparr> else s) strokes)"

definition keymap_to_layout :: "pystr option \<Rightarrow> layout option" where
  "keymap_to_layout name = (case name of
       None \<Rightarrow> None
     | Some s \<Rightarrow>
         (if s = [] then None
          else let n = py_lower s in
            if py_startswith n (u ''en-gb'') then Some L_uk
            else if py_startswith n (u ''en-us'') then Some L_us else None))"

subsection \<open>Typing\<close>

type_synonym key_event = "string \<times> bool"

definition strokes_of :: "pystr \<Rightarrow> layout \<Rightarrow> stroke list" where
  "strokes_of body layout = List.map_filter
     (\<lambda>ch. map_option (\<lambda>k. \<lparr>sk_code = ki_code k, sk_shift = ki_shift k, sk_ch = ch\<rparr>)
              (key_for ch layout)) body"

text \<open>The loop of \<open>type_text\<close>: \<open>held\<close> is \<open>_shift_held\<close>; the last step is its \<open>finally\<close>.\<close>

fun type_strokes :: "bool \<Rightarrow> stroke list \<Rightarrow> key_event list" where
  "type_strokes held [] = (if held then [(''ShiftLeft'', False)] else [])"
| "type_strokes held (s # ss) =
     (if sk_shift s \<and> \<not> held then [(''ShiftLeft'', True)]
      else if \<not> sk_shift s \<and> held then [(''ShiftLeft'', False)] else [])
     @ [(sk_code s, True), (sk_code s, False)] @ type_strokes (sk_shift s) ss"

definition type_text :: "layout \<Rightarrow> bool option \<Rightarrow> bool \<Rightarrow> pystr \<Rightarrow> key_event list" where
  "type_text layout caps held text =
     type_strokes held (compensate_caps_lock (strokes_of (flatten_line_breaks text) layout)
       (caps = Some True))"

text \<open>
  A send of the loop that raises ends it after \<open>n\<close> events; the \<open>finally\<close> block then releases Shift if
  the loop had recorded it as held. (\<open>n\<close> counts events of the loop; when the release in the \<open>finally\<close>
  block is itself what fails, nothing follows it and Shift stays down.)
\<close>

definition shift_after :: "bool \<Rightarrow> key_event list \<Rightarrow> bool" where
  "shift_after held evs = foldl (\<lambda>h e. if fst e = ''ShiftLeft'' then snd e else h) held evs"

definition type_text_interrupted :: "layout \<Rightarrow> bool option \<Rightarrow> bool \<Rightarrow> pystr \<Rightarrow> nat \<Rightarrow> key_event list" where
  "type_text_interrupted layout caps held text n =
     (let sent = take n (type_text layout caps held text)
      in sent @ (if shift_after held sent then [(''ShiftLeft'', False)] else []))"

definition keypress :: "string list \<Rightarrow> key_event list" where
  "keypress keys =
     (if keys = [''MetaLeft'', ''KeyR'']
      then [(''MetaLeft'', True), (''KeyR'', True), (''KeyR'', False), (''MetaLeft'', False)]
      else map (\<lambda>k. (k, True)) keys @ map (\<lambda>k. (k, False)) (rev keys))"

definition press_key :: "string \<Rightarrow> key_event list" where
  "press_key code = [(code, True), (code, False)]"

definition release_modifiers :: "string list" where
  "release_modifiers = [''ShiftLeft'', ''ShiftRight'', ''ControlLeft'', ''ControlRight'', ''AltLeft'',
     ''AltRight'', ''MetaLeft'', ''MetaRight'']"

definition release_all :: "key_event list" where
  "release_all = map (\<lambda>k. (k, False)) release_modifiers"

definition has_shifted_punctuation :: "pystr \<Rightarrow> layout \<Rightarrow> bool" where
  "has_shifted_punctuation text layout = list_ex
     (\<lambda>ch. case key_for ch layout of None \<Rightarrow> False
        | Some k \<Rightarrow> ki_shift k \<and> take 3 (ki_code k) \<noteq> ''Key'') text"

text \<open>\<open>print_exact_text\<close>: which transport carries the row; \<open>None\<close> when there is nothing to send.\<close>

datatype print_route = Via_hid pystr | Via_print pystr

definition print_exact_text :: "layout \<Rightarrow> bool \<Rightarrow> pystr \<Rightarrow> print_route option" where
  "print_exact_text layout atomic_shifted_print text =
     (let body = flatten_line_breaks text in
      if body = [] then None
      else if has_shifted_punctuation body layout \<and> \<not> atomic_shifted_print
      then Some (Via_hid body) else Some (Via_print body))"

subsection \<open>The other end\<close>

text \<open>
  A guest decodes key events with its keymap: \<open>glyph code shift\<close> with Caps Lock off. With Caps Lock on
  the letter keys answer as if Shift were inverted. The guest realises a layout when every key the
  tables name gives the character they name for it.
\<close>

definition realises :: "(string \<Rightarrow> bool \<Rightarrow> int option) \<Rightarrow> layout \<Rightarrow> bool" where
  "realises glyph layout \<longleftrightarrow>
     (\<forall>ch k. key_for ch layout = Some k \<longrightarrow> glyph (ki_code k) (ki_shift k) = Some ch)
     \<and> (\<forall>shift. glyph ''ShiftLeft'' shift = None)"

fun guest_decode :: "(string \<Rightarrow> bool \<Rightarrow> int option) \<Rightarrow> bool \<Rightarrow> bool \<Rightarrow> key_event list \<Rightarrow> pystr" where
  "guest_decode glyph caps shift [] = []"
| "guest_decode glyph caps shift ((code, down) # evs) =
     (if code = ''ShiftLeft'' then guest_decode glyph caps down evs
      else if \<not> down then guest_decode glyph caps shift evs
      else (case glyph code (if caps \<and> is_letter_code code then \<not> shift else shift) of
              Some ch \<Rightarrow> ch # guest_decode glyph caps shift evs
            | None \<Rightarrow> guest_decode glyph caps shift evs))"

text \<open>The table read backwards, which is the guest a layout describes.\<close>

definition all_keys :: "layout \<Rightarrow> (int \<times> key_info) list" where
  "all_keys layout =
     (if layout = L_uk
      then uk_overrides @ filter (\<lambda>p. fst p \<notin> fst ` set uk_overrides) char_to_key else char_to_key)"

definition table_glyph :: "layout \<Rightarrow> string \<Rightarrow> bool \<Rightarrow> int option" where
  "table_glyph layout code shift =
     map_of (map (\<lambda>p. ((ki_code (snd p), ki_shift (snd p)), fst p)) (all_keys layout)) (code, shift)"

lemma key_for_all_keys: "key_for ch layout = map_of (all_keys layout) ch"
proof (cases "layout = L_uk \<and> map_of uk_overrides ch = None")
  case True
  then have "ch \<notin> fst ` set uk_overrides" by (simp add: map_of_eq_None_iff)
  then have "map_of (filter (\<lambda>p. fst p \<notin> fst ` set uk_overrides) xs) ch = map_of xs ch"
    for xs :: "(int \<times> key_info) list"
    by (induction xs) auto
  with True show ?thesis by (simp add: key_for_def all_keys_def map_add_def)
next
  case False
  then show ?thesis by (auto simp: key_for_def all_keys_def map_add_def split: option.splits)
qed

definition keys_distinct :: "layout \<Rightarrow> bool" where
  "keys_distinct layout \<longleftrightarrow>
     distinct (map (\<lambda>p. (ki_code (snd p), ki_shift (snd p))) (all_keys layout))
     \<and> distinct (map fst (all_keys layout)) \<and> ''ShiftLeft'' \<notin> set (map (ki_code \<circ> snd) (all_keys layout))"

lemma keys_distinct_us: "keys_distinct L_us" by code_simp
lemma keys_distinct_uk: "keys_distinct L_uk" by code_simp

lemma keys_distinct: "keys_distinct layout"
  using keys_distinct_us keys_distinct_uk by (cases layout) simp_all

lemma map_of_inverse:
  assumes "distinct (map f xs)" and "(k, v) \<in> set xs"
  shows "map_of (map (\<lambda>p. (f p, fst p)) xs) (f (k, v)) = Some k"
  using assms by (induction xs) (force simp: image_iff)+

lemma keymap_table_glyph:
  assumes "key_for ch layout = Some k"
  shows "table_glyph layout (ki_code k) (ki_shift k) = Some ch"
proof -
  have "(ch, k) \<in> set (all_keys layout)" using assms by (simp add: key_for_all_keys map_of_SomeD)
  with map_of_inverse [of "\<lambda>p. (ki_code (snd p), ki_shift (snd p))" "all_keys layout" ch k]
    keys_distinct [of layout]
  show ?thesis by (simp add: table_glyph_def keys_distinct_def)
qed

lemma table_glyph_shift: "table_glyph layout ''ShiftLeft'' s = None"
  using keys_distinct [of layout]
  by (force simp: table_glyph_def map_of_eq_None_iff keys_distinct_def)

lemma realises_table: "realises (table_glyph layout) layout"
  by (simp add: realises_def keymap_table_glyph table_glyph_shift)

definition codes_plain :: "layout \<Rightarrow> bool" where
  "codes_plain layout = list_all
     (\<lambda>c. c \<notin> {''ShiftLeft'', ''Enter'', ''NumpadEnter'', ''Escape'', ''Delete''})
     (map (ki_code \<circ> snd) (all_keys layout))"

lemma codes_plain: "codes_plain layout"
proof (cases layout)
  case L_us
  have "codes_plain L_us" by code_simp
  with L_us show ?thesis by simp
next
  case L_uk
  have "codes_plain L_uk" by code_simp
  with L_uk show ?thesis by simp
qed

text \<open>
  The tables describe a keyboard: on either layout no key position stands for two characters, so
  reading the table backwards is a guest that realises the layout.
\<close>

theorem keymap_realisable: "realises (table_glyph layout) layout"
  by (rule realises_table)

subsection \<open>Typed text arrives\<close>

lemma guest_type_strokes:
  assumes r: "realises glyph layout"
    and k: "\<forall>s \<in> set ss. key_for (sk_ch s) layout
              = Some \<lparr>ki_code = sk_code s, ki_shift = sk_shift s\<rparr>"
  shows "guest_decode glyph caps held (type_strokes held (compensate_caps_lock ss caps)) = map sk_ch ss"
  using k
proof (induction ss arbitrary: held)
  case Nil
  then show ?case by (simp add: compensate_caps_lock_def)
next
  case (Cons s ss)
  let ?flip = "caps \<and> is_letter_code (sk_code s)"
  have ks: "key_for (sk_ch s) layout = Some \<lparr>ki_code = sk_code s, ki_shift = sk_shift s\<rparr>"
    using Cons.prems by simp
  with r have g: "glyph (sk_code s) (sk_shift s) = Some (sk_ch s)"
    unfolding realises_def by fastforce
  then have ne: "sk_code s \<noteq> ''ShiftLeft''" using r unfolding realises_def by force
  have c: "compensate_caps_lock (s # ss) caps
      = (s\<lparr>sk_shift := (sk_shift s \<noteq> ?flip)\<rparr>) # compensate_caps_lock ss caps"
    by (simp add: compensate_caps_lock_def)
  have IH: "guest_decode glyph caps h (type_strokes h (compensate_caps_lock ss caps)) = map sk_ch ss" for h
    using Cons by simp
  show ?case
    unfolding c using ne g IH by (auto split: if_splits)
qed

lemma strokes_of_props:
  "\<forall>s \<in> set (strokes_of body layout). key_for (sk_ch s) layout
      = Some \<lparr>ki_code = sk_code s, ki_shift = sk_shift s\<rparr>"
  "map sk_ch (strokes_of body layout) = filter (\<lambda>ch. key_for ch layout \<noteq> None) body"
proof -
  have "(\<forall>s \<in> set (strokes_of body layout). key_for (sk_ch s) layout
      = Some \<lparr>ki_code = sk_code s, ki_shift = sk_shift s\<rparr>)
    \<and> map sk_ch (strokes_of body layout) = filter (\<lambda>ch. key_for ch layout \<noteq> None) body"
    by (induction body) (auto simp: strokes_of_def List.map_filter_def split: option.splits)
  then show "\<forall>s \<in> set (strokes_of body layout). key_for (sk_ch s) layout
      = Some \<lparr>ki_code = sk_code s, ki_shift = sk_shift s\<rparr>"
    "map sk_ch (strokes_of body layout) = filter (\<lambda>ch. key_for ch layout \<noteq> None) body"
    by blast+
qed



subsection \<open>No key stays down\<close>

text \<open>The keys held after a list of events, given those held before.\<close>

definition held_after :: "string set \<Rightarrow> key_event list \<Rightarrow> string set" where
  "held_after H evs = foldl (\<lambda>H e. if snd e then insert (fst e) H else H - {fst e}) H evs"

lemma held_after_simps [simp]:
  "held_after H [] = H"
  "held_after H ((k, True) # evs) = held_after (insert k H) evs"
  "held_after H ((k, False) # evs) = held_after (H - {k}) evs"
  "held_after H (evs @ evs') = held_after (held_after H evs) evs'"
  by (simp_all add: held_after_def)

lemma held_type_strokes:
  "\<forall>s \<in> set ss. sk_code s \<noteq> ''ShiftLeft'' \<Longrightarrow>
     held_after (if held then {''ShiftLeft''} else {}) (type_strokes held ss) = {}"
proof (induction ss arbitrary: held)
  case Nil
  then show ?case by simp
next
  case (Cons s ss)
  then have ne: "sk_code s \<noteq> ''ShiftLeft''"
    and IH: "held_after (if sk_shift s then {''ShiftLeft''} else {}) (type_strokes (sk_shift s) ss) = {}"
    by simp_all
  have d: "insert (sk_code s) H - {sk_code s} = H" if "sk_code s \<notin> H" for H using that by simp
  show ?case
    using ne IH by (cases held; cases "sk_shift s") (simp_all add: d)
qed

lemma compensate_codes: "sk_code ` set (compensate_caps_lock ss caps) = sk_code ` set ss"
proof -
  have "map sk_code (compensate_caps_lock ss caps) = map sk_code ss"
    by (simp add: compensate_caps_lock_def)
  then show ?thesis by (metis set_map)
qed

lemma type_strokes_codes:
  "fst ` set (type_strokes held ss) \<subseteq> insert ''ShiftLeft'' (sk_code ` set ss)"
proof (induction ss arbitrary: held)
  case Nil
  then show ?case by auto
next
  case (Cons s ss)
  have "a = ''ShiftLeft'' \<or> a \<in> sk_code ` set ss" if "(a, b) \<in> set (type_strokes h ss)" for a b h
    using Cons [of h] that by force
  note rest = this [of _ _ "sk_shift s"]
  have "set (type_strokes held (s # ss)) \<subseteq> {(''ShiftLeft'', True), (''ShiftLeft'', False),
      (sk_code s, True), (sk_code s, False)} \<union> set (type_strokes (sk_shift s) ss)"
    by auto
  then show ?case using rest by fastforce
qed

lemma strokes_no_enter:
  "s \<in> set (strokes_of body layout) \<Longrightarrow>
     sk_code s \<notin> {''ShiftLeft'', ''Enter'', ''NumpadEnter'', ''Escape'', ''Delete''}"
proof -
  assume s: "s \<in> set (strokes_of body layout)"
  have "key_for (sk_ch s) layout = Some \<lparr>ki_code = sk_code s, ki_shift = sk_shift s\<rparr>"
    using s strokes_of_props(1) by blast
  then have "sk_code s \<in> set (map (ki_code \<circ> snd) (all_keys layout))"
    by (force simp: key_for_all_keys dest: map_of_SomeD)
  then show ?thesis using codes_plain [of layout] by (auto simp: codes_plain_def list_all_iff)
qed

text \<open>
  Typing leaves the keyboard as it found it and never submits: after \<open>type_text\<close> no key is held, and
  the events name no Enter, no Escape and no Delete key; if the channel fails after any number of
  events, the Shift key is not left held.
\<close>

theorem typing_releases_keys:
  "held_after (if held then {''ShiftLeft''} else {}) (type_text layout caps held text) = {}
   \<and> {''Enter'', ''NumpadEnter'', ''Escape'', ''Delete''} \<inter> fst ` set (type_text layout caps held text) = {}
   \<and> ''ShiftLeft'' \<notin> held_after (if held then {''ShiftLeft''} else {})
        (type_text_interrupted layout caps held text n)"
proof -
  let ?ss = "compensate_caps_lock (strokes_of (flatten_line_breaks text) layout) (caps = Some True)"
  have codes: "c \<notin> {''ShiftLeft'', ''Enter'', ''NumpadEnter'', ''Escape'', ''Delete''}"
    if c: "c \<in> sk_code ` set ?ss" for c
  proof -
    obtain s where "s \<in> set (strokes_of (flatten_line_breaks text) layout)" "c = sk_code s"
      using c unfolding compensate_codes by blast
    then show ?thesis using strokes_no_enter by simp
  qed
  then have "held_after (if held then {''ShiftLeft''} else {}) (type_text layout caps held text) = {}"
    unfolding type_text_def by (intro held_type_strokes) blast
  moreover have "{''Enter'', ''NumpadEnter'', ''Escape'', ''Delete''}
      \<inter> fst ` set (type_text layout caps held text) = {}"
  proof (rule equals0I, elim IntE)
    fix c
    assume bad: "c \<in> {''Enter'', ''NumpadEnter'', ''Escape'', ''Delete''}"
      and "c \<in> fst ` set (type_text layout caps held text)"
    then have "c = ''ShiftLeft'' \<or> c \<in> sk_code ` set ?ss"
      using subsetD [OF type_strokes_codes [of held ?ss]] by (simp add: type_text_def)
    then show False
    proof
      assume "c = ''ShiftLeft''"
      with bad show False by simp
    next
      assume "c \<in> sk_code ` set ?ss"
      from codes [OF this] bad show False by simp
    qed
  qed
  moreover have "''ShiftLeft'' \<in> held_after H evs \<longleftrightarrow> shift_after (''ShiftLeft'' \<in> H) evs" for H evs
    by (induction evs arbitrary: H) (auto simp: held_after_def shift_after_def split: if_splits)
  moreover have "\<not> shift_after h (sent @ (if shift_after h sent then [(''ShiftLeft'', False)] else []))"
    for h sent
    by (simp add: shift_after_def)
  moreover have "(''ShiftLeft'' \<in> (if held then {''ShiftLeft''} else {})) = held" by simp
  ultimately show ?thesis
    unfolding type_text_interrupted_def Let_def by (simp add: shift_after_def)
qed

text \<open>
  Chords are balanced: pressing a list of different keys, the Run shortcut included, holds each of
  them once and leaves exactly the keys held that were held before, and releasing everything leaves no
  modifier held.
\<close>

theorem chords_are_balanced:
  "(distinct keys \<and> set keys \<inter> H = {} \<longrightarrow>
      held_after H (keypress keys) = H \<and> held_after H (take (length keys) (keypress keys)) = H \<union> set keys)
   \<and> held_after H (press_key k) = H - {k} \<and> set release_modifiers \<inter> held_after H release_all = {}"
proof -
  have down: "held_after H (map (\<lambda>k. (k, True)) ks) = H \<union> set ks" for H ks
    by (induction ks arbitrary: H) auto
  have up: "held_after H (map (\<lambda>k. (k, False)) ks) = H - set ks" for H ks
    by (induction ks arbitrary: H) auto
  have kp: "keypress keys = map (\<lambda>k. (k, True)) keys @ map (\<lambda>k. (k, False)) (rev keys)"
    by (simp add: keypress_def)
  show ?thesis
    using up [of H release_modifiers] by (auto simp: kp down up press_key_def release_all_def)
qed

theorem chords_are_balanced_witness:
  "held_after {} (keypress [''ControlLeft'', ''KeyC'']) = {}"
  using chords_are_balanced [of "[''ControlLeft'', ''KeyC'']" "{}"] by simp

end
