(* ===== verification/Pointer.thy ===== *)
theory Pointer
  imports Keyboard PyVal
begin

text \<open>
  The state KVMD streams to the client (\<open>pikvm/keyboard_state.py\<close>), the mouse half of
  \<open>pikvm/client.py\<close> and the coordinate units of \<open>pikvm/hid.py\<close>. Coordinates are exact rationals where
  the code uses floats. The WindMouse path between two points is not modelled: a move is its landing.
\<close>

subsection \<open>Rounding\<close>

text \<open>\<open>round\<close>: to the nearest integer, halves to the even one.\<close>

definition py_round :: "rat \<Rightarrow> int" where
  "py_round x = (let f = \<lfloor>x\<rfloor>; d = x - of_int f in
     if d < 1 / 2 then f else if 1 / 2 < d then f + 1 else if even f then f else f + 1)"

lemma py_round_of_int [simp]: "py_round (of_int n) = n"
  by (simp add: py_round_def)

lemma py_round_near: "of_int (py_round x) - 1 / 2 \<le> x \<and> x \<le> of_int (py_round x) + 1 / 2"
proof -
  have "of_int \<lfloor>x\<rfloor> \<le> x" "x < of_int \<lfloor>x\<rfloor> + 1" by linarith+
  then show ?thesis unfolding py_round_def Let_def by (simp split: if_split) linarith
qed

lemma py_round_mono:
  assumes "x \<le> y"
  shows "py_round x \<le> py_round y"
proof (cases "\<lfloor>x\<rfloor> = \<lfloor>y\<rfloor>")
  case True
  with assms show ?thesis by (auto simp: py_round_def Let_def)
next
  case False
  then have l: "\<lfloor>x\<rfloor> + 1 \<le> \<lfloor>y\<rfloor>" using floor_mono [OF assms] by simp
  have "py_round x \<le> \<lfloor>x\<rfloor> + 1" "\<lfloor>y\<rfloor> \<le> py_round y" by (auto simp: py_round_def Let_def)
  with l show ?thesis by linarith
qed

subsection \<open>Normalized coordinates\<close>

definition norm_min :: int where "norm_min = -32768"
definition norm_max :: int where "norm_max = 32767"

definition to_norm :: "rat \<Rightarrow> int \<Rightarrow> int" where
  "to_norm px wide =
     (let ratio = (if 1 < wide then px / of_int (wide - 1) else 0)
      in max norm_min (min norm_max (py_round (ratio * 65534) - 32767)))"

definition clamp_norm :: "rat \<Rightarrow> int" where
  "clamp_norm v = max norm_min (min norm_max (py_round v))"

text \<open>
  Pixels map onto the whole HID range and keep their order: every coordinate lands inside the
  bounds of the protocol, a pixel further right never lands further left, and the first and last pixel
  of a frame wider than one pixel land on -32767 and 32767.
\<close>

theorem to_norm_range:
  "norm_min \<le> to_norm px wide \<and> to_norm px wide \<le> norm_max
   \<and> to_norm (min px py) wide \<le> to_norm (max px py) wide
   \<and> (1 < wide \<longrightarrow> to_norm 0 wide = -32767 \<and> to_norm (of_int (wide - 1)) wide = 32767)"
proof -
  have mono: "to_norm a wide \<le> to_norm b wide" if "a \<le> b" for a b
  proof -
    have "(if 1 < wide then a / of_int (wide - 1) else 0) * 65534
        \<le> (if 1 < wide then b / of_int (wide - 1) else 0) * (65534 :: rat)"
      using that by (simp add: divide_right_mono)
    from py_round_mono [OF this] show ?thesis
      unfolding to_norm_def Let_def by (intro max.mono min.mono diff_right_mono) simp_all
  qed
  have "to_norm 0 wide = -32767"
    using py_round_of_int [of 0] by (simp add: to_norm_def norm_min_def norm_max_def)
  moreover have "to_norm (of_int (wide - 1)) wide = 32767" if "1 < wide"
  proof -
    have "(of_int (wide - 1) :: rat) \<noteq> 0" using that by simp
    then have "of_int (wide - 1) / of_int (wide - 1) * (65534 :: rat) = of_int 65534" by simp
    with that show ?thesis
      unfolding to_norm_def Let_def if_P [OF that] by (simp only: py_round_of_int) (simp add: norm_min_def norm_max_def)
  qed
  moreover have "to_norm (min px py) wide \<le> to_norm (max px py) wide" by (rule mono) simp
  moreover have "norm_min \<le> to_norm px wide \<and> to_norm px wide \<le> norm_max"
    by (simp add: to_norm_def Let_def norm_min_def norm_max_def)
  ultimately show ?thesis by blast
qed

theorem to_norm_range_witness: "to_norm (of_int (1920 - 1)) 1920 = 32767"
  using to_norm_range [of 0 1920 0] by simp

subsection \<open>The state stream\<close>

record kvmd_state =
  kv_hid :: pydict
  kv_keymaps :: pydict
  kv_streamer :: pydict
  kv_ocr :: pydict
  kv_clients :: pydict
  kv_ready :: bool

fun deep_merge :: "pydict \<Rightarrow> pydict \<Rightarrow> pydict" where
  "deep_merge base [] = base"
| "deep_merge base ((k, v) # patch) =
     deep_merge
       (dict_set base k (case (v, map_of base k) of
           (PDict pv, Some (PDict bv)) \<Rightarrow> PDict (deep_merge bv pv)
         | _ \<Rightarrow> v)) patch"

text \<open>A patch that is no dictionary leaves the base as it is.\<close>

definition merge_val :: "pydict \<Rightarrow> pyval \<Rightarrow> pydict" where
  "merge_val base v = (case v of PDict p \<Rightarrow> deep_merge base p | _ \<Rightarrow> base)"

definition merge_kvmd_event :: "kvmd_state \<Rightarrow> pystr \<Rightarrow> pyval \<Rightarrow> kvmd_state" where
  "merge_kvmd_event s et event =
     (if et = u ''hid'' then s\<lparr>kv_hid := merge_val (kv_hid s) event\<rparr>
      else if et = u ''hid_keymaps''
      then s\<lparr>kv_keymaps := merge_val (kv_keymaps s)
               (case event of PDict d \<Rightarrow> get_none d (u ''keymaps'') | _ \<Rightarrow> PNone)\<rparr>
      else if et = u ''streamer'' then s\<lparr>kv_streamer := merge_val (kv_streamer s) event\<rparr>
      else if et = u ''ocr'' then s\<lparr>kv_ocr := merge_val (kv_ocr s) event\<rparr>
      else if et = u ''clients'' then s\<lparr>kv_clients := merge_val (kv_clients s) event\<rparr>
      else if et = u ''loop'' then s\<lparr>kv_ready := True\<rparr>
      else s)"

datatype kv_error = Kv_AttributeError

text \<open>\<open>(d.get(k) or {}).get(...)\<close>: a truthy value that is no dictionary has no \<open>get\<close>.\<close>

definition sub_dict :: "pydict \<Rightarrow> string \<Rightarrow> (kv_error, pydict) result" where
  "sub_dict d k =
     (let v = get_none d (u k) in
      if \<not> py_truthy v then Inr [] else case v of PDict e \<Rightarrow> Inr e | _ \<Rightarrow> Inl Kv_AttributeError)"

definition client_count_of :: "kvmd_state \<Rightarrow> int option" where
  "client_count_of s = (case get_none (kv_clients s) (u ''count'') of
       PInt n \<Rightarrow> Some n | PBool b \<Rightarrow> Some (if b then 1 else 0) | _ \<Rightarrow> None)"

definition caps_lock_of :: "kvmd_state \<Rightarrow> (kv_error, pyval) result" where
  "caps_lock_of s =
     bind_result (sub_dict (kv_hid s) ''keyboard'') (\<lambda>kb.
     bind_result (sub_dict kb ''leds'') (\<lambda>leds. Inr (get_none leds (u ''caps''))))"

definition keymap_default_of :: "kvmd_state \<Rightarrow> pyval" where
  "keymap_default_of s = get_none (kv_keymaps s) (u ''default'')"

definition hid_online_of :: "kvmd_state \<Rightarrow> (kv_error, bool option) result" where
  "hid_online_of s =
     (let h = kv_hid s in
      if h = [] then Inr None
      else if get_none h (u ''connected'') = PBool False then Inr (Some False)
      else if get_none h (u ''online'') = PBool False then Inr (Some False)
      else bind_result (sub_dict h ''keyboard'') (\<lambda>kb.
        if get_none kb (u ''online'') = PBool False then Inr (Some False)
        else if get_none h (u ''online'') = PBool True then Inr (Some True)
        else Inr None))"

lemma deep_merge_lookup:
  "distinct (map fst patch) \<Longrightarrow>
     map_of (deep_merge base patch) k =
       (case map_of patch k of
          None \<Rightarrow> map_of base k
        | Some (PDict pv) \<Rightarrow>
            (case map_of base k of Some (PDict bv) \<Rightarrow> Some (PDict (deep_merge bv pv))
             | _ \<Rightarrow> Some (PDict pv))
        | Some v \<Rightarrow> Some v)"
proof (induction patch arbitrary: base)
  case Nil
  then show ?case by simp
next
  case (Cons p patch)
  obtain k' v where p: "p = (k', v)" by (cases p)
  from Cons.prems p have "map_of patch k' = None" by (simp add: map_of_eq_None_iff)
  with Cons p show ?case
    by (cases "k = k'") (auto split: option.splits pyval.splits)
qed

text \<open>
  Detaching the HID blocks input at once: whatever the cached state was, merging a HID event that
  says offline or disconnected makes the connection read as offline, without raising, and so it stays
  until an event says otherwise for that entry.
\<close>

theorem offline_event_blocks:
  assumes "distinct (map fst patch)"
    and "map_of patch (u ''online'') = Some (PBool False)
         \<or> map_of patch (u ''connected'') = Some (PBool False)"
  shows "hid_online_of (merge_kvmd_event s (u ''hid'') (PDict patch)) = Inr (Some False)"
proof -
  let ?h = "deep_merge (kv_hid s) patch"
  have h: "kv_hid (merge_kvmd_event s (u ''hid'') (PDict patch)) = ?h"
    by (simp add: merge_kvmd_event_def merge_val_def)
  have o: "get_none ?h (u ''online'') = PBool False \<or> get_none ?h (u ''connected'') = PBool False"
    using assms(2) by (auto simp: get_none_def get_or_def deep_merge_lookup [OF assms(1)])
  then have "?h \<noteq> []" by (auto simp: get_none_def get_or_def)
  with o show ?thesis by (auto simp: hid_online_of_def h Let_def)
qed

theorem offline_event_blocks_witness:
  "hid_online_of (merge_kvmd_event
     \<lparr>kv_hid = [(u ''online'', PBool True), (u ''keyboard'', PInt 3)], kv_keymaps = [], kv_streamer = [],
      kv_ocr = [], kv_clients = [], kv_ready = True\<rparr>
     (u ''hid'') (PDict [(u ''online'', PBool False)])) = Inr (Some False)"
  by (rule offline_event_blocks) simp_all

subsection \<open>The cursor\<close>

record cursor_state =
  cu_x :: rat
  cu_y :: rat
  cu_trusted :: bool

record backend_state =
  be_width :: int
  be_height :: int
  be_cursor :: cursor_state
  be_client_count :: "int option"
  be_layout :: layout
  be_layout_from_user :: bool
  be_kvmd :: kvmd_state

definition set_cursor :: "rat \<Rightarrow> rat \<Rightarrow> bool \<Rightarrow> backend_state \<Rightarrow> backend_state" where
  "set_cursor px py trusted b =
     b\<lparr>be_cursor := \<lparr>cu_x = max 0 (min px (of_int (be_width b - 1))),
                    cu_y = max 0 (min py (of_int (be_height b - 1))), cu_trusted = trusted\<rparr>\<rparr>"

definition set_cursor_from_norm :: "rat \<Rightarrow> rat \<Rightarrow> backend_state \<Rightarrow> backend_state" where
  "set_cursor_from_norm nx ny b =
     set_cursor (of_int (clamp_norm nx + 32767) / 65534 * of_int (be_width b))
       (of_int (clamp_norm ny + 32767) / 65534 * of_int (be_height b)) True b"

definition other_clients :: "backend_state \<Rightarrow> int" where
  "other_clients b =
     max 0 ((case be_client_count b of Some n \<Rightarrow> if n = 0 then 1 else n | None \<Rightarrow> 1) - 1)"

text \<open>The entries of \<open>_on_kvmd_event\<close> that concern the layout and the cursor.\<close>

definition on_kvmd_event :: "pystr \<Rightarrow> pyval \<Rightarrow> backend_state \<Rightarrow> backend_state" where
  "on_kvmd_event et event b0 =
     (let b = b0\<lparr>be_kvmd := merge_kvmd_event (be_kvmd b0) et event\<rparr> in
      if et = u ''hid_keymaps'' \<and> \<not> be_layout_from_user b
      then (case (case keymap_default_of (be_kvmd b) of PStr s \<Rightarrow> keymap_to_layout (Some s)
                  | _ \<Rightarrow> None) of
              Some l \<Rightarrow> b\<lparr>be_layout := l\<rparr> | None \<Rightarrow> b)
      else if et = u ''clients''
      then (let cnt = client_count_of (be_kvmd b);
                b1 = (if cnt \<noteq> None \<and> be_client_count b \<noteq> None \<and> cnt \<noteq> be_client_count b
                      then b\<lparr>be_cursor := (be_cursor b)\<lparr>cu_trusted := False\<rparr>\<rparr> else b)
            in b1\<lparr>be_client_count := cnt\<rparr>)
      else b)"

text \<open>A move ends with the absolute position of its target and records it.\<close>

definition move_mouse :: "rat \<Rightarrow> rat \<Rightarrow> backend_state \<Rightarrow> (int \<times> int) \<times> backend_state" where
  "move_mouse x y b =
     ((to_norm x (be_width b), to_norm y (be_height b)), set_cursor x y True b)"

subsection \<open>The wheel\<close>

definition sign_or_zero :: "int \<Rightarrow> int" where
  "sign_or_zero d = (if 0 < d then 1 else if d < 0 then -1 else 0)"

definition scroll_ticks :: "int \<Rightarrow> int \<Rightarrow> (int \<times> int) list" where
  "scroll_ticks dx dy =
     (let ticks = max 1 (min 12 (max \<bar>dx\<bar> \<bar>dy\<bar>));
          sx = py_round (of_int dx / of_int ticks); sy = py_round (of_int dy / of_int ticks)
      in replicate (nat ticks)
           (if sx \<noteq> 0 then sx else sign_or_zero dx, if sy \<noteq> 0 then sy else sign_or_zero dy))"

definition scroll_total :: "(int \<times> int) list \<Rightarrow> int \<times> int" where
  "scroll_total ts = (sum_list (map fst ts), sum_list (map snd ts))"

text \<open>
  The wheel turns as far as asked, up to twelve: a vertical or horizontal scroll by at most twelve
  notches is sent as exactly that many single notches. Above that the total is rounded to a multiple of
  twelve, eighteen becoming twenty-four, although the operator may ask for fifty; and a diagonal scroll
  moves both axes by the longer one.
\<close>

theorem scroll_ticks_total:
  "(0 < n \<and> n \<le> 12 \<longrightarrow>
      scroll_ticks 0 n = replicate (nat n) (0, 1) \<and> scroll_ticks 0 (- n) = replicate (nat n) (0, -1)
      \<and> scroll_total (scroll_ticks n 0) = (n, 0))
   \<and> scroll_total (scroll_ticks 0 18) = (0, 24) \<and> scroll_total (scroll_ticks 0 50) = (0, 48)
   \<and> scroll_total (scroll_ticks 5 1) = (5, 5)"
proof -
  have z: "py_round 0 = 0" "py_round 1 = 1" "py_round (-1) = -1"
    using py_round_of_int [of 0] py_round_of_int [of 1] py_round_of_int [of "-1"] by simp_all
  have "scroll_ticks 0 n = replicate (nat n) (0, 1) \<and> scroll_ticks 0 (- n) = replicate (nat n) (0, -1)
      \<and> scroll_total (scroll_ticks n 0) = (n, 0)" if n: "0 < n" "n \<le> 12"
  proof -
    have t: "max 1 (min 12 (max \<bar>n\<bar> \<bar>0\<bar>)) = n" "max 1 (min 12 (max \<bar>0\<bar> \<bar>n\<bar>)) = n"
      "max 1 (min 12 (max \<bar>0\<bar> \<bar>- n\<bar>)) = n" using n by auto
    have d: "of_int n / (of_int n :: rat) = 1" "of_int (- n) / (of_int n :: rat) = -1"
      using n by simp_all
    show ?thesis
      unfolding scroll_ticks_def Let_def t d
      using n by (simp add: z scroll_total_def sign_or_zero_def sum_list_replicate)
  qed
  moreover have "scroll_total (scroll_ticks 0 18) = (0, 24)" "scroll_total (scroll_ticks 0 50) = (0, 48)"
    "scroll_total (scroll_ticks 5 1) = (5, 5)"
    by code_simp+
  ultimately show ?thesis by simp
qed

theorem scroll_ticks_total_witness: "scroll_ticks 0 7 = replicate 7 (0, 1)"
  using scroll_ticks_total [of 7] by simp

text \<open>
  Who moved the mouse: after a change in the number of connected clients the tracked cursor is not
  trusted, until the next move, which makes it the clamped target whatever it was before.
\<close>

theorem cursor_trust:
  assumes "client_count_of (merge_kvmd_event (be_kvmd b) (u ''clients'') event) = Some n"
    and "be_client_count b = Some m"
  shows "(m \<noteq> n \<longrightarrow> \<not> cu_trusted (be_cursor (on_kvmd_event (u ''clients'') event b)))
    \<and> (m = n \<longrightarrow> be_cursor (on_kvmd_event (u ''clients'') event b) = be_cursor b)
    \<and> be_client_count (on_kvmd_event (u ''clients'') event b) = Some n
    \<and> cu_trusted (be_cursor (snd (move_mouse x y (on_kvmd_event (u ''clients'') event b))))"
  using assms by (simp add: on_kvmd_event_def Let_def move_mouse_def set_cursor_def u_def)

theorem cursor_trust_witness:
  "\<not> cu_trusted (be_cursor (on_kvmd_event (u ''clients'') (PDict [(u ''count'', PInt 2)])
     \<lparr>be_width = 1920, be_height = 1080, be_cursor = \<lparr>cu_x = 5, cu_y = 5, cu_trusted = True\<rparr>,
      be_client_count = Some 1, be_layout = L_us, be_layout_from_user = False,
      be_kvmd = \<lparr>kv_hid = [], kv_keymaps = [], kv_streamer = [], kv_ocr = [], kv_clients = [],
                 kv_ready = True\<rparr>\<rparr>))"
  (is "\<not> cu_trusted (be_cursor (on_kvmd_event _ ?e ?b))")
proof -
  have "client_count_of (merge_kvmd_event (be_kvmd ?b) (u ''clients'') ?e) = Some 2" by code_simp
  from cursor_trust [OF this, of 1 0 0] show ?thesis by simp
qed

end
