(* ===== verification/WindowsLaunch.thy ===== *)
theory WindowsLaunch
  imports PyVal Regex
begin

text \<open>
  \<open>core/windows_launch.py\<close>: the grammar of the launches through the Windows Run dialog that may skip
  read-back. An action is a dictionary.
\<close>

definition safe_windows_run_executables :: "pystr list" where
  "safe_windows_run_executables = map u [''calc'', ''excel'', ''explorer'', ''mspaint'', ''notepad'',
     ''taskmgr'', ''winver'', ''winword'', ''write'']"

definition uri_first :: "int \<Rightarrow> bool" where
  "uri_first c \<longleftrightarrow> in_range 97 122 c \<or> in_range 48 57 c"

definition uri_rest :: "int \<Rightarrow> bool" where
  "uri_rest c \<longleftrightarrow> uri_first c \<or> c = 45"

definition safe_windows_settings_uri :: rx where
  "safe_windows_settings_uri =
     rx_cat [lit ''ms-settings:'', Chr uri_first, times_mn 0 80 (Chr uri_rest)]"

definition windows_run_modifiers :: "pystr list" where
  "windows_run_modifiers = map u [''cmd'', ''meta'', ''super'', ''win'', ''windows'']"

definition passive_action_types :: "pystr list" where
  "passive_action_types = map u [''wait'', ''wait_for_change'', ''wait_for_stable_screen'']"

text \<open>\<open>x in S\<close> for a set of strings and a value read from a dictionary.\<close>

definition str_in :: "pyval \<Rightarrow> pystr list \<Rightarrow> bool" where
  "str_in v ws = (case v of PStr s \<Rightarrow> s \<in> set ws | _ \<Rightarrow> False)"

definition action_type :: "pydict \<Rightarrow> pyval" where
  "action_type a = get_none a (u ''type'')"

definition is_passive :: "pydict \<Rightarrow> bool" where
  "is_passive a = str_in (action_type a) passive_action_types"

definition is_safe_windows_run_text :: "pystr \<Rightarrow> bool" where
  "is_safe_windows_run_text text =
     (let folded = py_casefold text;
          executable = (if py_endswith folded (u ''.exe'') then take (length folded - 4) folded else folded)
      in executable \<in> set safe_windows_run_executables \<or> rx_fullmatch safe_windows_settings_uri text)"

definition folded_key :: "pyval \<Rightarrow> pystr" where
  "folded_key v = py_casefold (py_str v)"

definition is_windows_run_key_action :: "pydict \<Rightarrow> bool" where
  "is_windows_run_key_action a =
     (action_type a = PStr (u ''key'')
      \<and> (case get_none a (u ''keys'') of
           PList [k1, k2] \<Rightarrow> folded_key k1 \<in> set windows_run_modifiers
                             \<and> folded_key k2 \<in> {u ''keyr'', u ''r''}
         | _ \<Rightarrow> False))"

definition is_windows_run_focus_preflight :: "pydict \<Rightarrow> bool" where
  "is_windows_run_focus_preflight a =
     (action_type a = PStr (u ''key'')
      \<and> (case get_none a (u ''keys'') of
           PList [k] \<Rightarrow> folded_key k \<in> {u ''escape'', u ''esc''}
         | _ \<Rightarrow> False))"

definition is_submit_key_action :: "pydict \<Rightarrow> bool" where
  "is_submit_key_action a =
     (action_type a = PStr (u ''key'')
      \<and> (case get_none a (u ''keys'') of
           PList [k] \<Rightarrow> folded_key k \<in> {u ''enter'', u ''return''}
         | _ \<Rightarrow> False))"

definition is_verified_run_text :: "pydict \<Rightarrow> bool" where
  "is_verified_run_text a =
     (action_type a = PStr (u ''type_text'')
      \<and> (case get_none a (u ''text'') of
           PStr text \<Rightarrow>
             get_none a (u ''context'') = PStr (u ''field'')
             \<and> get_none a (u ''verification'') = PStr (u ''exact'')
             \<and> \<not> py_truthy (get_or a (u ''code'') (PBool False))
             \<and> \<not> py_truthy (get_or a (u ''secret'') (PBool False))
             \<and> is_safe_windows_run_text text
         | _ \<Rightarrow> False))"

definition active_actions :: "pydict list \<Rightarrow> (nat \<times> pydict) list" where
  "active_actions actions = filter (\<lambda>ia. \<not> is_passive (snd ia)) (zip [0..<length actions] actions)"

definition is_verified_windows_run_launch :: "pydict list \<Rightarrow> bool" where
  "is_verified_windows_run_launch actions =
     (let active = active_actions actions;
          preflight = (length active = 4 \<and> is_windows_run_focus_preflight (snd (hd active)));
          rest = (if preflight then tl active else active)
      in case rest of
           [(run_index, run_key), (_, typed), (_, submit_key)] \<Rightarrow>
             (run_index = 0 \<or> preflight) \<and> is_windows_run_key_action run_key
             \<and> is_verified_run_text typed \<and> is_submit_key_action submit_key
         | _ \<Rightarrow> False)"

subsection \<open>What a recognised launch is\<close>

definition launch_char :: "int \<Rightarrow> bool" where
  "launch_char c \<longleftrightarrow> in_range 97 122 c \<or> in_range 48 57 c \<or> c \<in> {45, 46, 58}"

lemma rx_over_upto [simp]: "rx_over Q r \<Longrightarrow> rx_over Q (upto_n n r)"
  by (induction n) (simp_all add: opt_def)

lemma rx_over_mono: "rx_over P r \<Longrightarrow> (\<And>c. P c \<Longrightarrow> Q c) \<Longrightarrow> rx_over Q r"
  by (induction r) auto

lemma fullmatch_over: "rx_fullmatch r s \<Longrightarrow> rx_over Q r \<Longrightarrow> \<forall>c \<in> set s. Q c"
proof -
  assume "rx_fullmatch r s" and o: "rx_over Q r"
  then obtain q where "rx_rel r (None, s) q" "snd q = []"
    by (auto simp: rx_fullmatch_def list_ex_iff rx_ends_iff)
  with rx_rel_over [OF this(1) o] show ?thesis by simp
qed

lemma settings_uri_chars:
  assumes "rx_fullmatch safe_windows_settings_uri text"
  shows "\<forall>c \<in> set text. launch_char c"
proof (rule fullmatch_over [OF assms])
  show "rx_over launch_char safe_windows_settings_uri"
    by (simp add: safe_windows_settings_uri_def lit_def chr_eq_def u_def times_mn_def
        launch_char_def uri_first_def uri_rest_def in_range_def)
qed

lemma casefold_launch_char: "launch_char c \<Longrightarrow> casefold1 c = [c]"
proof -
  assume c: "launch_char c"
  have "list_all (\<lambda>k. \<not> launch_char k) (map fst casefold_special)" by code_simp
  with c have "map_of casefold_special c = None"
    by (auto simp: map_of_eq_None_iff list_all_iff)
  moreover have "lower1 c = c"
    using c by (auto simp: launch_char_def in_range_def lower1_def is_upper_ascii_def)
  ultimately show ?thesis by (simp add: casefold1_def)
qed

lemma casefold_launch_chars: "\<forall>c \<in> set s. launch_char c \<Longrightarrow> py_casefold s = s"
  by (induction s) (auto simp: casefold_launch_char)

lemma executable_chars: "w \<in> set safe_windows_run_executables \<Longrightarrow> \<forall>c \<in> set (w @ u ''.exe''). launch_char c"
  by (simp add: safe_windows_run_executables_def)
     (elim disjE; simp add: u_def launch_char_def in_range_def)

lemma safe_text_chars:
  assumes "is_safe_windows_run_text text"
  shows "\<forall>c \<in> set (py_casefold text). launch_char c"
proof (cases "rx_fullmatch safe_windows_settings_uri text")
  case True
  with settings_uri_chars casefold_launch_chars show ?thesis by metis
next
  case False
  let ?f = "py_casefold text"
  show ?thesis
  proof (cases "py_endswith ?f (u ''.exe'')")
    case True
    then obtain w where "?f = w @ u ''.exe''" by (auto simp: py_endswith_iff)
    with assms False True executable_chars show ?thesis
      by (simp add: is_safe_windows_run_text_def Let_def)
  next
    case False
    with assms \<open>\<not> rx_fullmatch safe_windows_settings_uri text\<close> executable_chars [of ?f] show ?thesis
      by (simp add: is_safe_windows_run_text_def Let_def)
  qed
qed

lemma case_three_iff:
  "(case xs of [(i, a), (_, b), (_, c)] \<Rightarrow> Q i a b c | _ \<Rightarrow> False)
     \<longleftrightarrow> (\<exists>i a j b k c. xs = [(i, a), (j, b), (k, c)] \<and> Q i a b c)"
  by (auto split: list.split prod.split)

lemma run_text_text:
  assumes "is_verified_run_text a"
  shows "\<exists>text. get_none a (u ''text'') = PStr text \<and> is_safe_windows_run_text text"
  using assms unfolding is_verified_run_text_def by (auto split: pyval.splits)

text \<open>
  The launch that may skip read-back is a narrow one. Its active actions are the Run shortcut, one
  typed text and Enter, after at most one Escape; without the Escape the shortcut is the first action
  of the burst. The text, case folded, has only letters, digits, dots, colons and hyphens, so it has no
  space, path separator, quote or shell operator, and names an allowed program or a settings page.
\<close>

theorem windows_launch_sound:
  assumes "is_verified_windows_run_launch actions"
  shows "\<exists>pre run typed submit text.
     map snd (active_actions actions) = pre @ [run, typed, submit]
     \<and> (pre = [] \<and> hd actions = run \<or> (\<exists>e. pre = [e] \<and> is_windows_run_focus_preflight e))
     \<and> is_windows_run_key_action run \<and> is_submit_key_action submit
     \<and> action_type typed = PStr (u ''type_text'') \<and> get_none typed (u ''text'') = PStr text
     \<and> (\<forall>c \<in> set (py_casefold text). launch_char c)"
proof -
  define act where "act = active_actions actions"
  define pf where "pf = (length act = 4 \<and> is_windows_run_focus_preflight (snd (hd act)))"
  obtain i run j typed k submit where r: "(if pf then tl act else act) = [(i, run), (j, typed), (k, submit)]"
    and ok: "i = 0 \<or> pf" "is_windows_run_key_action run" "is_verified_run_text typed"
      "is_submit_key_action submit"
    using assms unfolding is_verified_windows_run_launch_def Let_def act_def [symmetric] pf_def [symmetric]
      case_three_iff by blast
  from run_text_text [OF ok(3)] obtain tx where t: "get_none typed (u ''text'') = PStr tx"
    "is_safe_windows_run_text tx" by blast
  have ty: "action_type typed = PStr (u ''type_text'')"
    using ok(3) by (simp add: is_verified_run_text_def)
  have "\<exists>pre. map snd act = pre @ [run, typed, submit]
      \<and> (pre = [] \<and> hd actions = run \<or> (\<exists>e. pre = [e] \<and> is_windows_run_focus_preflight e))"
  proof (cases pf)
    case True
    then have ne: "act \<noteq> []" by (auto simp: pf_def)
    from True r have "tl act = [(i, run), (j, typed), (k, submit)]" by simp
    with ne have "act = hd act # [(i, run), (j, typed), (k, submit)]" by (cases act) simp_all
    from arg_cong [where f = "map snd", OF this]
    have "map snd act = [snd (hd act)] @ [run, typed, submit]" by simp
    with True show ?thesis unfolding pf_def by blast
  next
    case False
    with r ok(1) have a: "act = [(0, run), (j, typed), (k, submit)]" by simp
    then have "(0, run) \<in> set act" by simp
    then have "actions ! 0 = run" "actions \<noteq> []"
      by (auto simp: act_def active_actions_def set_zip)
    with a show ?thesis by (auto simp: hd_conv_nth)
  qed
  with ok t ty safe_text_chars [OF t(2)] show ?thesis unfolding act_def by blast
qed

definition example_launch :: "pydict list" where
  "example_launch =
     [[(u ''type'', PStr (u ''key'')), (u ''keys'', PList [PStr (u ''WIN''), PStr (u ''r'')])],
      [(u ''type'', PStr (u ''wait'')), (u ''ms'', PInt 400)],
      [(u ''type'', PStr (u ''type_text'')), (u ''text'', PStr (u ''Notepad.exe'')),
       (u ''context'', PStr (u ''field'')), (u ''verification'', PStr (u ''exact''))],
      [(u ''type'', PStr (u ''key'')), (u ''keys'', PList [PStr (u ''Enter'')])]]"

theorem windows_launch_sound_witness: "length (active_actions example_launch) = 3"
proof -
  have "is_verified_windows_run_launch example_launch" by code_simp
  from windows_launch_sound [OF this] obtain pre run typed submit
    where "map snd (active_actions example_launch) = pre @ [run, typed, submit]" by blast
  then have "length (map snd (active_actions example_launch)) = length pre + 3" by simp
  then have "3 \<le> length (active_actions example_launch)" by simp
  moreover have "length (active_actions example_launch) \<le> 3" by code_simp
  ultimately show ?thesis by simp
qed

end
