(* ===== verification/BurstKeys.thy ===== *)
theory BurstKeys
  imports PyVal Regex
begin

text \<open>
  The key names of \<open>executor/burst.py\<close>: friendly tokens, physical codes and chords written with plus
  signs, and the codes they are sent as. Errors are values of \<open>burst_exn\<close>.
\<close>

datatype burst_exn = Burst_Error | Value_Error | Type_Error | Key_Error | Overflow_Error

definition keypairs :: "(string \<times> string) list \<Rightarrow> (pystr \<times> pystr) list" where
  "keypairs ps = map (\<lambda>(a, b). (u a, u b)) ps"

definition mod_names :: "(pystr \<times> pystr) list" where
  "mod_names = keypairs
     [(''CTRL'', ''ControlLeft''), (''CONTROL'', ''ControlLeft''), (''LCTRL'', ''ControlLeft''),
      (''RCTRL'', ''ControlRight''), (''SHIFT'', ''ShiftLeft''), (''LSHIFT'', ''ShiftLeft''),
      (''RSHIFT'', ''ShiftRight''), (''ALT'', ''AltLeft''), (''OPTION'', ''AltLeft''),
      (''LALT'', ''AltLeft''), (''RALT'', ''AltRight''), (''ALTGR'', ''AltRight''),
      (''META'', ''MetaLeft''), (''WIN'', ''MetaLeft''), (''WINDOWS'', ''MetaLeft''),
      (''CMD'', ''MetaLeft''), (''SUPER'', ''MetaLeft'')]"

definition named_keys :: "(pystr \<times> pystr) list" where
  "named_keys = keypairs
     [(''ENTER'', ''Enter''), (''RETURN'', ''Enter''), (''TAB'', ''Tab''), (''ESC'', ''Escape''),
      (''ESCAPE'', ''Escape''), (''SPACE'', ''Space''), (''SPACEBAR'', ''Space''),
      (''BACKSPACE'', ''Backspace''), (''BKSP'', ''Backspace''), (''DELETE'', ''Delete''),
      (''DEL'', ''Delete''), (''HOME'', ''Home''), (''END'', ''End''), (''PAGEUP'', ''PageUp''),
      (''PGUP'', ''PageUp''), (''PAGEDOWN'', ''PageDown''), (''PGDN'', ''PageDown''),
      (''UP'', ''ArrowUp''), (''DOWN'', ''ArrowDown''), (''LEFT'', ''ArrowLeft''),
      (''RIGHT'', ''ArrowRight''), (''INSERT'', ''Insert''), (''INS'', ''Insert''),
      (''CAPSLOCK'', ''CapsLock''), (''PRINTSCREEN'', ''PrintScreen''), (''MINUS'', ''Minus''),
      (''-'', ''Minus''), (''EQUAL'', ''Equal''), (''='', ''Equal''), (''PLUS'', ''NumpadAdd''),
      (''ADD'', ''NumpadAdd''), (''+'', ''NumpadAdd''), (''MULTIPLY'', ''NumpadMultiply''),
      (''TIMES'', ''NumpadMultiply''), (''ASTERISK'', ''NumpadMultiply''), (''*'', ''NumpadMultiply''),
      (''DIVIDE'', ''NumpadDivide''), (''/'', ''NumpadDivide''), (''PERIOD'', ''Period''),
      (''DOT'', ''Period''), (''.'', ''Period''), (''COMMA'', ''Comma''), ('','', ''Comma''),
      (''SLASH'', ''Slash''), (''BACKSLASH'', ''Backslash''), (''SEMICOLON'', ''Semicolon'')]"

definition lits :: "string list \<Rightarrow> rx" where
  "lits ws = rx_alt (map lit ws)"

definition valid_key_code :: rx where
  "valid_key_code = rx_alt
     [rx_cat [lits [''Control'', ''Shift'', ''Alt'', ''Meta''], lits [''Left'', ''Right'']],
      rx_cat [lit ''Key'', Chr (in_range 65 90)],
      rx_cat [lit ''Digit'', Chr (in_range 48 57)],
      rx_cat [lit ''F'', rx_alt [Chr (in_range 49 57), rx_cat [lit ''1'', Chr (in_range 48 57)],
                                rx_cat [lit ''2'', Chr (in_range 48 52)]]],
      rx_cat [lit ''Numpad'', rx_alt [Chr (in_range 48 57),
        lits [''Add'', ''Subtract'', ''Multiply'', ''Divide'', ''Decimal'', ''Enter'']]],
      lits [''Enter'', ''Tab'', ''Escape'', ''Space'', ''Backspace'', ''Delete'', ''Home'', ''End'',
        ''PageUp'', ''PageDown'', ''ArrowUp'', ''ArrowDown'', ''ArrowLeft'', ''ArrowRight'', ''Insert'',
        ''CapsLock'', ''NumLock'', ''ScrollLock'', ''Pause'', ''PrintScreen'', ''Backquote'', ''Minus'',
        ''Equal'', ''BracketLeft'', ''BracketRight'', ''Backslash'', ''IntlBackslash'', ''Semicolon'',
        ''Quote'', ''Comma'', ''Period'', ''Slash'']]"

text \<open>\<open>int(s)\<close> of a run of digits; superscripts are digits for \<open>isdigit\<close> but not for \<open>int\<close>.\<close>

definition digits_val :: "pystr \<Rightarrow> int" where
  "digits_val s = foldl (\<lambda>acc c. 10 * acc + (c - 48)) 0 s"

definition int_of_digits :: "pystr \<Rightarrow> (burst_exn, int) result" where
  "int_of_digits s = (if list_all is_decimal s then Inr (digits_val s) else Inl Value_Error)"

definition is_digit_string :: "pystr \<Rightarrow> bool" where
  "is_digit_string s \<longleftrightarrow> s \<noteq> [] \<and> list_all is_digit s"

definition normalize_key :: "pystr \<Rightarrow> (burst_exn, pystr option) result" where
  "normalize_key token =
     (let t = py_strip token; up = py_upper t in
      if t = [] then Inr None
      else case map_of mod_names up of Some k \<Rightarrow> Inr (Some k)
      | None \<Rightarrow> (case map_of named_keys up of Some k \<Rightarrow> Inr (Some k)
      | None \<Rightarrow>
          if length t = 1 \<and> is_alpha (hd t) then Inr (Some (u ''Key'' @ py_upper t))
          else if length t = 1 \<and> is_digit (hd t) then Inr (Some (u ''Digit'' @ t))
          else bind_result
            (if hd up = 70 \<and> is_digit_string (tl up)
             then bind_result (int_of_digits (tl up)) (\<lambda>n. Inr (1 \<le> n \<and> n \<le> 24))
             else Inr False)
            (\<lambda>function_key.
               if function_key then Inr (Some up)
               else if rx_fullmatch valid_key_code t then Inr (Some t)
               else Inl Burst_Error)))"

definition token_parts :: "pystr \<Rightarrow> pystr list" where
  "token_parts token = (if 43 \<in> set token \<and> token \<noteq> [43] then py_split_on 43 token else [token])"

definition normalize_token :: "pyval \<Rightarrow> (burst_exn, pystr list) result" where
  "normalize_token raw =
     (let token = py_strip (str_or_empty raw) in
      if token = [] then Inr []
      else let parts = token_parts token in
        if list_ex (\<lambda>p. py_strip p = []) parts then Inl Burst_Error
        else bind_result (map_result normalize_key parts) (\<lambda>ks. Inr (List.map_filter id ks)))"

definition normalize_keys :: "pyval list \<Rightarrow> (burst_exn, pystr list) result" where
  "normalize_keys keys = bind_result (map_result normalize_token keys) (\<lambda>kss. Inr (concat kss))"

subsection \<open>The codes that come out\<close>

definition key_code :: "pystr \<Rightarrow> bool" where
  "key_code k = rx_fullmatch valid_key_code k"

text \<open>The function keys spelled with leading zeros, \<open>F01\<close> or \<open>F007\<close>, which no keymap has.\<close>

definition padded_function_key :: "pystr \<Rightarrow> bool" where
  "padded_function_key k \<longleftrightarrow> (\<exists>ds. k = 70 # 48 # ds \<and> ds \<noteq> [] \<and> list_all is_decimal ds)"

definition ascii :: "pystr \<Rightarrow> bool" where
  "ascii s \<longleftrightarrow> list_all (\<lambda>c. 0 \<le> c \<and> c < 128) s"

lemma table_codes: "list_all key_code (map snd mod_names)" "list_all key_code (map snd named_keys)"
  by code_simp+

lemma int_range_codes: "list_all P [a..b] \<Longrightarrow> a \<le> c \<Longrightarrow> c \<le> b \<Longrightarrow> P c"
  by (simp add: list_all_iff)

lemma letter_codes: "65 \<le> c \<Longrightarrow> c \<le> 90 \<Longrightarrow> key_code (u ''Key'' @ [c])"
proof -
  have "list_all (\<lambda>c. key_code (u ''Key'' @ [c])) [65..90]" by code_simp
  then show "65 \<le> c \<Longrightarrow> c \<le> 90 \<Longrightarrow> key_code (u ''Key'' @ [c])" by (rule int_range_codes)
qed

lemma digit_codes: "48 \<le> c \<Longrightarrow> c \<le> 57 \<Longrightarrow> key_code (u ''Digit'' @ [c])"
proof -
  have "list_all (\<lambda>c. key_code (u ''Digit'' @ [c])) [48..57]" by code_simp
  then show "48 \<le> c \<Longrightarrow> c \<le> 57 \<Longrightarrow> key_code (u ''Digit'' @ [c])" by (rule int_range_codes)
qed

lemma function_codes1: "49 \<le> a \<Longrightarrow> a \<le> 57 \<Longrightarrow> key_code [70, a]"
proof -
  have "list_all (\<lambda>a. key_code [70, a]) [49..57]" by code_simp
  then show "49 \<le> a \<Longrightarrow> a \<le> 57 \<Longrightarrow> key_code [70, a]" by (rule int_range_codes)
qed

lemma function_codes2:
  assumes "49 \<le> a" "a \<le> 57" "48 \<le> b" "b \<le> 57" "10 * (a - 48) + (b - 48) \<le> 24"
  shows "key_code [70, a, b]"
proof -
  have "list_all (\<lambda>a. list_all (\<lambda>b. 10 * (a - 48) + (b - 48) \<le> 24 \<longrightarrow> key_code [70, a, b]) [48..57]) [49..57]"
    by code_simp
  from int_range_codes [OF int_range_codes [OF this assms(1,2)] assms(3,4)] assms(5) show ?thesis by blast
qed

lemma foldl_digits_ge: "list_all is_decimal s \<Longrightarrow> 0 \<le> a \<Longrightarrow> a \<le> foldl (\<lambda>acc c. 10 * acc + (c - 48)) a s"
proof (induction s arbitrary: a)
  case Nil
  then show ?case by simp
next
  case (Cons c s)
  then have "a \<le> 10 * a + (c - 48)" "0 \<le> 10 * a + (c - 48)" by (auto simp: is_decimal_def)
  with Cons show ?case by fastforce
qed

lemma function_key_code:
  assumes "list_all is_decimal ds" "ds \<noteq> []" "1 \<le> digits_val ds" "digits_val ds \<le> 24"
  shows "key_code (70 # ds) \<or> padded_function_key (70 # ds)"
proof -
  obtain a r where ds: "ds = a # r" using assms(2) by (cases ds) auto
  show ?thesis
  proof (cases "a = 48")
    case True
    with assms ds have "r \<noteq> []" by (auto simp: digits_val_def)
    with True ds assms(1) show ?thesis by (auto simp: padded_function_key_def)
  next
    case False
    with assms ds have a: "49 \<le> a" "a \<le> 57" by (auto simp: is_decimal_def)
    consider "r = []" | b where "r = [b]" | b c r' where "r = b # c # r'"
      by (cases r; cases "tl r") auto
    then have "key_code (70 # ds)"
    proof cases
      case 1
      with a ds function_codes1 show ?thesis by simp
    next
      case (2 b)
      with assms ds a show ?thesis
        by (simp add: function_codes2 is_decimal_def digits_val_def)
    next
      case (3 b c r')
      with assms ds have "48 \<le> b" "48 \<le> c" "list_all is_decimal r'" by (auto simp: is_decimal_def)
      then have "10 * (10 * (a - 48) + (b - 48)) + (c - 48) \<le> digits_val ds"
        using foldl_digits_ge [of r' "10 * (10 * (a - 48) + (b - 48)) + (c - 48)"] a
        by (simp add: digits_val_def ds 3)
      with assms(4) a \<open>48 \<le> b\<close> \<open>48 \<le> c\<close> have False by simp
      then show ?thesis ..
    qed
    then show ?thesis by simp
  qed
qed

lemma ascii_upper1: "0 \<le> c \<Longrightarrow> c < 128 \<Longrightarrow> upper1 c = [if is_lower_ascii c then c - 32 else c]"
  by (auto simp: upper1_def is_lower_ascii_def)

lemma ascii_digit: "0 \<le> c \<Longrightarrow> c < 128 \<Longrightarrow> is_digit c = is_decimal c"
  by (auto simp: is_digit_def)

lemma ascii_upper: "ascii s \<Longrightarrow> ascii (py_upper s)"
  by (induction s) (auto simp: ascii_def ascii_upper1 is_lower_ascii_def)

lemma ascii_alpha: "0 \<le> c \<Longrightarrow> c < 128 \<Longrightarrow> is_alpha c \<Longrightarrow> 65 \<le> hd (upper1 c) \<and> hd (upper1 c) \<le> 90 \<and> upper1 c = [hd (upper1 c)]"
  by (auto simp: ascii_upper1 is_alpha_def is_lower_ascii_def is_upper_ascii_def)

lemma set_py_strip: "set (py_strip s) \<subseteq> set s"
proof
  fix x assume "x \<in> set (py_strip s)"
  then have "x \<in> set (dropWhile is_space (rev (dropWhile is_space s)))"
    by (simp add: py_strip_def py_rstrip_def py_lstrip_def)
  from set_dropWhileD [OF this] have "x \<in> set (dropWhile is_space s)" by simp
  from set_dropWhileD [OF this] show "x \<in> set s" by simp
qed

lemma ascii_strip: "ascii s \<Longrightarrow> ascii (py_strip s)"
  using set_py_strip [of s] by (auto simp: ascii_def list_all_iff)

lemma normalize_key_code:
  assumes "normalize_key token = Inr (Some k)" "ascii token"
  shows "key_code k \<or> padded_function_key k"
proof -
  define t where "t = py_strip token"
  have t: "ascii t" unfolding t_def by (rule ascii_strip [OF assms(2)])
  have up: "ascii (py_upper t)" by (rule ascii_upper [OF t])
  from assms(1) have ne: "t \<noteq> []"
    unfolding normalize_key_def Let_def t_def [symmetric] by auto
  show ?thesis
  proof (cases "map_of mod_names (py_upper t)")
    case (Some k')
    with assms(1) ne have "k \<in> set (map snd mod_names)"
      unfolding normalize_key_def Let_def t_def [symmetric] by (force dest: map_of_SomeD)
    with table_codes show ?thesis by (metis list_all_iff)
  next
    case m: None
    show ?thesis
    proof (cases "map_of named_keys (py_upper t)")
      case (Some k')
      with assms(1) ne m have "k \<in> set (map snd named_keys)"
        unfolding normalize_key_def Let_def t_def [symmetric] by (force dest: map_of_SomeD)
      with table_codes show ?thesis by (metis list_all_iff)
    next
      case n: None
      note body = assms(1) [unfolded normalize_key_def Let_def t_def [symmetric] m n option.case if_not_P [OF ne]]
      have ht: "0 \<le> hd t \<and> hd t < 128" using t ne by (cases t) (auto simp: ascii_def)
      show ?thesis
      proof (cases "length t = 1")
        case True
        then obtain c where c: "t = [c]" by (cases t) auto
        show ?thesis
        proof (cases "is_alpha c")
          case a: True
          with body c have "k = u ''Key'' @ [hd (upper1 c)]" "65 \<le> hd (upper1 c)" "hd (upper1 c) \<le> 90"
            using ascii_alpha [of c] ht by auto
          with letter_codes show ?thesis by blast
        next
          case a: False
          show ?thesis
          proof (cases "is_digit c")
            case True
            with body c a have "k = u ''Digit'' @ [c]" by simp
            moreover have "48 \<le> c" "c \<le> 57"
              using True ht c ascii_digit [of c] by (simp_all add: is_decimal_def)
            ultimately show ?thesis using digit_codes by blast
          next
            case False
            have "\<not> (hd (py_upper t) = 70 \<and> is_digit_string (tl (py_upper t)))"
              using c ht by (simp add: ascii_upper1 is_digit_string_def)
            with body c a False have "rx_fullmatch valid_key_code t \<and> k = t"
              by (simp split: if_splits)
            then show ?thesis by (simp add: key_code_def)
          qed
        qed
      next
        case False
        show ?thesis
        proof (cases "hd (py_upper t) = 70 \<and> is_digit_string (tl (py_upper t))
            \<and> 1 \<le> digits_val (tl (py_upper t)) \<and> digits_val (tl (py_upper t)) \<le> 24")
          case True
          then have une: "py_upper t \<noteq> []" by (auto simp: is_digit_string_def)
          have "list_all is_decimal (tl (py_upper t))"
            using True up une ascii_digit
            by (cases "py_upper t") (auto simp: is_digit_string_def ascii_def list_all_iff)
          moreover from this body False True have "k = py_upper t"
            by (simp add: int_of_digits_def)
          ultimately show ?thesis
            using function_key_code [of "tl (py_upper t)"] True une
            by (cases "py_upper t") (auto simp: is_digit_string_def)
        next
          case nf: False
          with body False have "rx_fullmatch valid_key_code t \<and> k = t"
            by (simp add: int_of_digits_def split: if_splits)
          then show ?thesis by (simp add: key_code_def)
        qed
      qed
    qed
  qed
qed

lemma ascii_split_on: "ascii s \<Longrightarrow> \<forall>p \<in> set (py_split_on d s). ascii p"
proof (induction d s rule: py_split_on.induct)
  case (1 d)
  then show ?case by (simp add: ascii_def)
next
  case (2 d c s)
  then show ?case by (auto simp: ascii_def split: list.splits)
qed

lemma normalize_token_code:
  assumes "normalize_token raw = Inr ks" "ascii (str_or_empty raw)" "k \<in> set ks"
  shows "key_code k \<or> padded_function_key k"
proof -
  define t where "t = py_strip (str_or_empty raw)"
  have at: "ascii t" unfolding t_def by (rule ascii_strip [OF assms(2)])
  then have parts: "\<forall>p \<in> set (token_parts t). ascii p"
    using ascii_split_on by (auto simp: token_parts_def)
  from assms(1,3) obtain ms where ms: "map_result normalize_key (token_parts t) = Inr ms" "Some k \<in> set ms"
    unfolding normalize_token_def Let_def t_def [symmetric]
    by (auto simp: bind_result_Inr_iff List.map_filter_def split: if_splits)
  from ms(2) obtain i where i: "i < length ms" "ms ! i = Some k" by (auto simp: in_set_conv_nth)
  from ms(1) have "list_all2 (\<lambda>x y. normalize_key x = Inr y) (token_parts t) ms"
    by (simp add: map_result_Inr_iff)
  with i have "normalize_key (token_parts t ! i) = Inr (Some k)" "i < length (token_parts t)"
    by (auto simp: list_all2_conv_all_nth)
  with parts normalize_key_code show ?thesis by (meson nth_mem)
qed

text \<open>
  What reaches the keyboard is a key: every code a list of plain ASCII tokens normalises to is one of
  the physical codes of the protocol, with one exception, function keys written with leading zeros,
  which pass through as codes no keyboard has. Anything else is rejected, mostly as a burst error; a
  superscript digit after an F is the exception, where the conversion to a number raises.
\<close>

theorem normalize_keys_codes:
  "(normalize_keys keys = Inr ks \<and> (\<forall>v \<in> set keys. ascii (str_or_empty v)) \<and> k \<in> set ks
      \<longrightarrow> key_code k \<or> padded_function_key k)
   \<and> normalize_keys [PStr (u ''F01'')] = Inr [u ''F01''] \<and> \<not> key_code (u ''F01'')
   \<and> normalize_keys [PStr (u ''ctrl+End'')] = Inr [u ''ControlLeft'', u ''End'']
   \<and> normalize_keys [PStr (u ''ctrl++'')] = Inl Burst_Error
   \<and> normalize_keys [PStr (u ''HyperLeft'')] = Inl Burst_Error
   \<and> normalize_keys [PStr [70, 178]] = Inl Value_Error"
proof -
  have "key_code k \<or> padded_function_key k"
    if n: "normalize_keys keys = Inr ks" and a: "\<forall>v \<in> set keys. ascii (str_or_empty v)" and k: "k \<in> set ks"
  proof -
    from n k obtain kss where m: "list_all2 (\<lambda>x y. normalize_token x = Inr y) keys kss" "k \<in> set (concat kss)"
      by (auto simp: normalize_keys_def bind_result_Inr_iff map_result_Inr_iff)
    from m(2) obtain ws where ws: "ws \<in> set kss" "k \<in> set ws" by auto
    from ws(1) obtain i where "i < length kss" "kss ! i = ws" by (auto simp: in_set_conv_nth)
    with ws(2) have i: "i < length kss" "k \<in> set (kss ! i)" by simp_all
    with m(1) have "normalize_token (keys ! i) = Inr (kss ! i)" "i < length keys"
      by (auto simp: list_all2_conv_all_nth)
    with a i normalize_token_code show ?thesis by (meson nth_mem)
  qed
  moreover have "normalize_keys [PStr (u ''F01'')] = Inr [u ''F01'']" "\<not> key_code (u ''F01'')"
    "normalize_keys [PStr (u ''ctrl+End'')] = Inr [u ''ControlLeft'', u ''End'']"
    "normalize_keys [PStr (u ''ctrl++'')] = Inl Burst_Error"
    "normalize_keys [PStr (u ''HyperLeft'')] = Inl Burst_Error"
    "normalize_keys [PStr [70, 178]] = Inl Value_Error"
    by code_simp+
  ultimately show ?thesis by blast
qed

theorem normalize_keys_codes_witness: "key_code (u ''KeyS'') \<or> padded_function_key (u ''KeyS'')"
proof -
  have "normalize_keys [PStr (u ''ctrl''), PStr (u ''s'')] = Inr [u ''ControlLeft'', u ''KeyS'']"
    by code_simp
  moreover have "ascii (str_or_empty (PStr (u ''ctrl'')))" "ascii (str_or_empty (PStr (u ''s'')))" by code_simp+
  ultimately show ?thesis
    using normalize_keys_codes [of "[PStr (u ''ctrl''), PStr (u ''s'')]" "[u ''ControlLeft'', u ''KeyS'']" "u ''KeyS''"]
    by simp
qed

end
