(* ===== verification/SpreadsheetGrid.thy ===== *)
theory SpreadsheetGrid
  imports PyVal
begin

text \<open>
  \<open>core/spreadsheet_grid.py\<close>: the contract of one bounded spreadsheet entry. A validated grid is its
  rows; the logical payload joins cells with tabs and rows with newlines.
\<close>

definition max_grid_rows :: nat where "max_grid_rows = 8"
definition max_grid_columns :: nat where "max_grid_columns = 8"
definition max_grid_cell_characters :: nat where "max_grid_cell_characters = 80"
definition max_grid_characters :: nat where "max_grid_characters = 240"

datatype grid_error = Ge_row_count | Ge_ragged | Ge_column_count | Ge_cell | Ge_total | Ge_control

record spreadsheet_grid =
  sg_rows :: "pystr list list"

definition sg_row_count :: "spreadsheet_grid \<Rightarrow> nat" where
  "sg_row_count g = length (sg_rows g)"

definition sg_column_count :: "spreadsheet_grid \<Rightarrow> nat" where
  "sg_column_count g = length (hd (sg_rows g))"

definition sg_cell_count :: "spreadsheet_grid \<Rightarrow> nat" where
  "sg_cell_count g = sg_row_count g * sg_column_count g"

definition sg_character_count :: "spreadsheet_grid \<Rightarrow> nat" where
  "sg_character_count g = sum_list (map length (concat (sg_rows g)))"

definition sg_navigation_count :: "spreadsheet_grid \<Rightarrow> nat" where
  "sg_navigation_count g =
     sg_row_count g * (sg_column_count g - 1) + sg_row_count g + (sg_row_count g - 1)"

fun logical_rows :: "nat \<Rightarrow> pystr list list \<Rightarrow> pystr list" where
  "logical_rows remaining [] = []"
| "logical_rows remaining (row # rows) =
     (let values = take remaining row in
      if values = [] then []
      else py_join [9] values # logical_rows (remaining - length values) rows)"

definition sg_payload :: "nat option \<Rightarrow> spreadsheet_grid \<Rightarrow> pystr" where
  "sg_payload cell_limit g =
     py_join [10] (logical_rows (case cell_limit of None \<Rightarrow> sg_cell_count g | Some n \<Rightarrow> n) (sg_rows g))"

definition sg_issued_character_count :: "spreadsheet_grid \<Rightarrow> nat \<Rightarrow> nat" where
  "sg_issued_character_count g n = sum_list (map length (take n (concat (sg_rows g))))"

definition control_char :: "int \<Rightarrow> bool" where
  "control_char c \<longleftrightarrow> c < 32 \<or> c = 127"

definition validate_spreadsheet_grid :: "pyval \<Rightarrow> nat \<Rightarrow> (grid_error, spreadsheet_grid) result" where
  "validate_spreadsheet_grid rows max_characters =
     (if \<not> is_PList rows \<or> the_PList rows = [] \<or> max_grid_rows < length (the_PList rows)
      then Inl Ge_row_count
      else let rs = the_PList rows in
        if list_ex (\<lambda>r. \<not> is_PList r \<or> the_PList r = []) rs then Inl Ge_ragged
        else if list_ex (\<lambda>r. length (the_PList r) \<noteq> length (the_PList (hd rs))) rs then Inl Ge_ragged
        else if max_grid_columns < length (the_PList (hd rs)) then Inl Ge_column_count
        else let vs = concat (map the_PList rs) in
          if list_ex (\<lambda>v. \<not> is_PStr v \<or> the_PStr v = [] \<or> max_grid_cell_characters < length (the_PStr v)) vs
          then Inl Ge_cell
          else if max_characters < sum_list (map (length \<circ> the_PStr) vs) then Inl Ge_total
          else if list_ex (\<lambda>v. list_ex control_char (the_PStr v)) vs then Inl Ge_control
          else Inr \<lparr>sg_rows = map (\<lambda>r. map the_PStr (the_PList r)) rs\<rparr>)"

subsection \<open>What validation promises\<close>

definition grid_ok :: "nat \<Rightarrow> spreadsheet_grid \<Rightarrow> bool" where
  "grid_ok mx g \<longleftrightarrow>
     sg_rows g \<noteq> [] \<and> length (sg_rows g) \<le> max_grid_rows
     \<and> (\<forall>r \<in> set (sg_rows g). length r = sg_column_count g)
     \<and> 1 \<le> sg_column_count g \<and> sg_column_count g \<le> max_grid_columns
     \<and> (\<forall>r \<in> set (sg_rows g). \<forall>c \<in> set r. 1 \<le> length c \<and> length c \<le> max_grid_cell_characters
          \<and> (\<forall>x \<in> set c. \<not> control_char x))
     \<and> sg_character_count g \<le> mx"

text \<open>The six checks a validated grid has passed.\<close>

lemma validate_InrE:
  assumes "validate_spreadsheet_grid rows mx = Inr g"
  obtains rs where "rows = PList rs" "rs \<noteq> []" "length rs \<le> max_grid_rows"
    "\<not> list_ex (\<lambda>r. \<not> is_PList r \<or> the_PList r = []) rs"
    "\<not> list_ex (\<lambda>r. length (the_PList r) \<noteq> length (the_PList (hd rs))) rs"
    "length (the_PList (hd rs)) \<le> max_grid_columns"
    "\<not> list_ex (\<lambda>v. \<not> is_PStr v \<or> the_PStr v = [] \<or> max_grid_cell_characters < length (the_PStr v))
        (concat (map the_PList rs))"
    "sum_list (map (length \<circ> the_PStr) (concat (map the_PList rs))) \<le> mx"
    "\<not> list_ex (\<lambda>v. list_ex control_char (the_PStr v)) (concat (map the_PList rs))"
    "sg_rows g = map (\<lambda>r. map the_PStr (the_PList r)) rs"
proof (cases rows)
  case (PList rs)
  with assms show ?thesis
    unfolding validate_spreadsheet_grid_def Let_def PList is_PList.simps the_PList.simps guard_Inr_iff
    by (intro that [OF PList]) (simp_all add: not_less, auto)
qed (use assms in \<open>simp_all add: validate_spreadsheet_grid_def\<close>)

lemma validate_shape:
  assumes "validate_spreadsheet_grid rows mx = Inr g"
  shows "rows = PList (map (\<lambda>r. PList (map PStr r)) (sg_rows g))"
proof -
  from assms obtain rs where r: "rows = PList rs" "\<not> list_ex (\<lambda>r. \<not> is_PList r \<or> the_PList r = []) rs"
      "\<not> list_ex (\<lambda>v. \<not> is_PStr v \<or> the_PStr v = [] \<or> max_grid_cell_characters < length (the_PStr v))
        (concat (map the_PList rs))"
    and g: "sg_rows g = map (\<lambda>r. map the_PStr (the_PList r)) rs"
    by (rule validate_InrE)
  note rs = r(1)
  have pl: "\<forall>r \<in> set rs. is_PList r" using r(2) by (simp add: list_ex_iff)
  have ps: "\<forall>r \<in> set rs. \<forall>v \<in> set (the_PList r). is_PStr v" using r(3) by (simp add: list_ex_iff)
  have "PList (map (\<lambda>v. PStr (the_PStr v)) (the_PList r)) = r" if "r \<in> set rs" for r
  proof -
    from pl that obtain vs where "r = PList vs" by (auto simp: is_PList_iff)
    with ps that have "\<forall>v \<in> set vs. PStr (the_PStr v) = v" by (fastforce simp: is_PStr_iff)
    with \<open>r = PList vs\<close> show ?thesis by (simp add: map_idI)
  qed
  then show ?thesis unfolding rs g by (simp add: map_idI comp_def)
qed

lemma validate_grid_ok:
  assumes "validate_spreadsheet_grid rows mx = Inr g"
  shows "grid_ok mx g"
proof -
  from assms obtain rs where ne: "rs \<noteq> []" and len: "length rs \<le> max_grid_rows"
    and r: "\<not> list_ex (\<lambda>r. \<not> is_PList r \<or> the_PList r = []) rs"
      "\<not> list_ex (\<lambda>r. length (the_PList r) \<noteq> length (the_PList (hd rs))) rs"
    and col: "length (the_PList (hd rs)) \<le> max_grid_columns"
    and c: "\<not> list_ex (\<lambda>v. \<not> is_PStr v \<or> the_PStr v = [] \<or> max_grid_cell_characters < length (the_PStr v))
        (concat (map the_PList rs))"
    and tot: "sum_list (map (length \<circ> the_PStr) (concat (map the_PList rs))) \<le> mx"
    and ct: "\<not> list_ex (\<lambda>v. list_ex control_char (the_PStr v)) (concat (map the_PList rs))"
    and g: "sg_rows g = map (\<lambda>r. map the_PStr (the_PList r)) rs"
    by (rule validate_InrE)
  have pl: "\<forall>r \<in> set rs. the_PList r \<noteq> []" using r(1) by (simp add: list_ex_iff)
  have eq: "\<forall>r \<in> set rs. length (the_PList r) = length (the_PList (hd rs))"
    using r(2) by (simp add: list_ex_iff)
  have cell: "\<forall>r \<in> set rs. \<forall>v \<in> set (the_PList r). the_PStr v \<noteq> [] \<and> length (the_PStr v) \<le> max_grid_cell_characters"
    using c by (simp add: list_ex_iff not_less)
  have ctl: "\<forall>r \<in> set rs. \<forall>v \<in> set (the_PList r). \<forall>x \<in> set (the_PStr v). \<not> control_char x"
    using ct by (simp add: list_ex_iff)
  have "sg_column_count g = length (the_PList (hd rs))"
    using ne by (simp add: sg_column_count_def g hd_map)
  moreover have "the_PList (hd rs) \<noteq> []" using pl ne by simp
  moreover have "sg_character_count g \<le> mx"
    using tot by (simp add: sg_character_count_def g map_concat comp_def)
  ultimately show ?thesis
    unfolding grid_ok_def g
  proof (intro conjI)
    show "map (\<lambda>r. map the_PStr (the_PList r)) rs \<noteq> []" using ne by simp
    show "length (map (\<lambda>r. map the_PStr (the_PList r)) rs) \<le> max_grid_rows" using len by simp
  qed (use eq col cell ctl in \<open>simp_all add: Suc_le_eq\<close>)
qed

subsection \<open>The payload\<close>

lemma take_cells:
  assumes "\<forall>r \<in> set rows. length r = n" "0 < n" "length rows * n \<le> k"
  shows "logical_rows k rows = map (py_join [9]) rows"
  using assms
proof (induction rows arbitrary: k)
  case Nil
  then show ?case by simp
next
  case (Cons r rows)
  then have "length r = n" "n \<le> k" "length rows * n \<le> k - n" by simp_all
  with Cons show ?case by (auto simp: Let_def)
qed

lemma payload_full:
  assumes "grid_ok mx g"
  shows "sg_payload None g = py_join [10] (map (py_join [9]) (sg_rows g))"
  using assms take_cells [of "sg_rows g" "sg_column_count g" "sg_cell_count g"]
  by (simp add: sg_payload_def grid_ok_def sg_cell_count_def sg_row_count_def)

lemma split_on_append:
  "d \<notin> set w \<Longrightarrow> py_split_on d (w @ d # s) = w # py_split_on d s"
  by (induction w) auto

lemma split_on_single: "d \<notin> set w \<Longrightarrow> py_split_on d w = [w]"
  by (induction w) auto

lemma split_join:
  assumes "ws \<noteq> []" "\<forall>w \<in> set ws. d \<notin> set w"
  shows "py_split_on d (py_join [d] ws) = ws"
  using assms by (induction "[d]" ws rule: py_join.induct) (auto simp: split_on_append split_on_single)

lemma set_py_join: "set (py_join sep ws) \<subseteq> set sep \<union> (\<Union>w \<in> set ws. set w)"
  by (induction sep ws rule: py_join.induct) auto

definition payload_cells :: "pystr \<Rightarrow> pystr list list" where
  "payload_cells s = map (py_split_on 9) (py_split_on 10 s)"

lemma payload_roundtrip:
  assumes "grid_ok mx g"
  shows "payload_cells (sg_payload None g) = sg_rows g"
proof -
  have c: "9 \<notin> set w \<and> 10 \<notin> set w" if "r \<in> set (sg_rows g)" "w \<in> set r" for r w
  proof -
    have "\<forall>x \<in> set w. \<not> control_char x" using assms that by (simp add: grid_ok_def)
    moreover have "control_char 9" "control_char 10" by (simp_all add: control_char_def)
    ultimately show ?thesis by blast
  qed
  have ne: "r \<noteq> []" if "r \<in> set (sg_rows g)" for r using assms that by (auto simp: grid_ok_def)
  have "\<forall>w \<in> set (map (py_join [9]) (sg_rows g)). 10 \<notin> set w"
    using c set_py_join [of "[9]"] by fastforce
  moreover have "map (py_join [9]) (sg_rows g) \<noteq> []" using assms by (simp add: grid_ok_def)
  ultimately have "py_split_on 10 (sg_payload None g) = map (py_join [9]) (sg_rows g)"
    unfolding payload_full [OF assms] by (intro split_join)
  moreover have "map (py_split_on 9 \<circ> py_join [9]) (sg_rows g) = sg_rows g"
    by (rule map_idI) (use c ne in \<open>auto intro!: split_join\<close>)
  ultimately show ?thesis by (simp add: payload_cells_def)
qed

lemma take_length_sum: "sum_list (map length (take n xs)) \<le> sum_list (map length xs)"
  by (induction xs arbitrary: n) (auto simp: take_Cons split: nat.splits)

text \<open>
  A validated grid is small, rectangular and printable, and its payload determines it: at most eight
  rows of one common width of at most eight, no empty or long cell, no control character, at most the
  allowed number of characters in all; and splitting the payload at newlines and tabs gives the
  requested cells back, so equal payload digests mean equal grids.
\<close>

theorem grid_payload_roundtrip:
  assumes "validate_spreadsheet_grid rows mx = Inr g"
  shows "payload_cells (sg_payload None g) = sg_rows g
    \<and> rows = PList (map (\<lambda>r. PList (map PStr r)) (sg_rows g))
    \<and> length (sg_rows g) \<le> 8 \<and> sg_character_count g \<le> mx
    \<and> (\<forall>r \<in> set (sg_rows g). length r = sg_column_count g \<and> length r \<le> 8
         \<and> (\<forall>c \<in> set r. c \<noteq> [] \<and> length c \<le> 80 \<and> (\<forall>x \<in> set c. \<not> control_char x)))"
proof -
  have ok: "grid_ok mx g" by (rule validate_grid_ok [OF assms])
  have ne: "\<forall>r \<in> set (sg_rows g). \<forall>c \<in> set r. c \<noteq> []" using ok by (fastforce simp: grid_ok_def)
  from ok payload_roundtrip [OF ok] validate_shape [OF assms] ne show ?thesis
    by (simp add: grid_ok_def max_grid_rows_def max_grid_columns_def max_grid_cell_characters_def)
qed

theorem grid_payload_roundtrip_witness:
  "payload_cells (sg_payload None \<lparr>sg_rows = [[u ''a'', u ''b''], [u ''=A1+B1'', u ''x'']]\<rparr>)
     = [[u ''a'', u ''b''], [u ''=A1+B1'', u ''x'']]"
proof -
  have "validate_spreadsheet_grid
     (PList [PList [PStr (u ''a''), PStr (u ''b'')], PList [PStr (u ''=A1+B1''), PStr (u ''x'')]]) 240
     = Inr \<lparr>sg_rows = [[u ''a'', u ''b''], [u ''=A1+B1'', u ''x'']]\<rparr>"
    by code_simp
  from grid_payload_roundtrip [OF this] show ?thesis by simp
qed

end
