(* ===== verification/BurstShape.thy ===== *)
theory BurstShape
  imports BurstKeys Verification SpreadsheetGrid WindowsLaunch
begin

text \<open>
  The checks of \<open>executor/burst.py\<close> on a proposed burst, before anything is sent: the limits, the
  payloads that are never typed, the deadline estimate and \<open>validate_actions\<close>. An action is a
  dictionary; the messages of the errors are left out, and so is the TypeError of \<open>needs_post_action_settle\<close>
  on a type that cannot be hashed, which validation has rejected before.
\<close>

subsection \<open>Numbers\<close>

text \<open>\<open>int(v)\<close>: truncation of floats, decimal text with optional sign and single underscores.\<close>

definition py_int_of_str :: "pystr \<Rightarrow> (burst_exn, int) result" where
  "py_int_of_str s =
     (let t = py_strip s;
          neg = (t \<noteq> [] \<and> hd t = 45);
          ds = (if t \<noteq> [] \<and> hd t \<in> {43, 45} then tl t else t);
          parts = py_split_on 95 ds
      in if list_all (\<lambda>p. p \<noteq> [] \<and> list_all is_decimal p) parts
         then Inr (if neg then - digits_val (concat parts) else digits_val (concat parts))
         else Inl Value_Error)"

definition truncate :: "rat \<Rightarrow> int" where
  "truncate r = (if r < 0 then \<lceil>r\<rceil> else \<lfloor>r\<rfloor>)"

fun py_int_of :: "pyval \<Rightarrow> (burst_exn, int) result" where
  "py_int_of (PInt n) = Inr n"
| "py_int_of (PBool b) = Inr (if b then 1 else 0)"
| "py_int_of (PFloat (Finite r) _) = Inr (truncate r)"
| "py_int_of (PFloat NaN _) = Inl Value_Error"
| "py_int_of (PFloat _ _) = Inl Overflow_Error"
| "py_int_of (PStr s) = py_int_of_str s"
| "py_int_of _ = Inl Type_Error"

definition positive_int_env :: "pystr option \<Rightarrow> int \<Rightarrow> int" where
  "positive_int_env value dflt =
     (case (case value of None \<Rightarrow> Inr dflt | Some s \<Rightarrow> py_int_of_str s) of
        Inl _ \<Rightarrow> dflt | Inr v \<Rightarrow> if 0 < v then v else dflt)"

record burst_limits =
  bl_type_text :: int
  bl_burst_type_text :: int
  bl_actions :: int

definition burst_limits_of :: "(string \<Rightarrow> pystr option) \<Rightarrow> burst_limits" where
  "burst_limits_of env =
     \<lparr>bl_type_text = positive_int_env (env ''PIKVM_AGENT_MAX_TYPE_TEXT_CHARS'') 240,
      bl_burst_type_text = positive_int_env (env ''PIKVM_AGENT_MAX_BURST_TYPE_TEXT_CHARS'') 480,
      bl_actions = positive_int_env (env ''PIKVM_AGENT_MAX_BURST_ACTIONS'') 20\<rparr>"

definition auto_runtime_floor_ms :: int where "auto_runtime_floor_ms = 4000"
definition auto_runtime_ceiling_ms :: int where "auto_runtime_ceiling_ms = 110000"
definition default_stable_timeout_ms :: int where "default_stable_timeout_ms = 1500"
definition default_change_timeout_ms :: int where "default_change_timeout_ms = 8000"
definition exact_readback_overhead_ms :: int where "exact_readback_overhead_ms = 30000"

subsection \<open>Payloads that are never typed\<close>

definition base64_char :: "int \<Rightarrow> bool" where
  "base64_char c \<longleftrightarrow> in_range 65 90 c \<or> in_range 97 122 c \<or> in_range 48 57 c \<or> c = 43 \<or> c = 47"

definition dense_base64_token :: rx where
  "dense_base64_token = rx_cat
     [not_behind base64_char, at_least 64 (Chr base64_char), times_mn 0 2 (chr_eq 61),
      not_ahead (Chr (\<lambda>c. base64_char c \<or> c = 61))]"

definition redirect_rx :: rx where
  "redirect_rx = rx_alt [rx_cat [lit ''>'', opt (lit ''>'')], lit_ci ''out-file'', lit_ci ''set-content'']"

definition encoded_file_transfer_command :: rx where
  "encoded_file_transfer_command = rx_alt
     [rx_cat [wb, words_ci [''printf'', ''echo''], wb, Star dot, redirect_rx],
      rx_cat [redirect_rx, Star dot, wb, words_ci [''printf'', ''echo''], wb]]"

definition encoded_shell_command :: rx where
  "encoded_shell_command = rx_cat
     [wb, words_ci [''powershell'', ''pwsh''], wb, Star dot, space, lit ''-'',
      words_ci [''enc'', ''encodedcommand''], wb]"

definition ident_start :: "int \<Rightarrow> bool" where
  "ident_start c \<longleftrightarrow> Verification.az_ci c \<or> c = 95"

definition heredoc_shell_payload :: rx where
  "heredoc_shell_payload = rx_cat
     [rx_alt [bos, rx_cat [one_of '';&|'', spaces]],
      rx_alt [rx_cat [lit_ci ''python'', opt (lit ''3'')],
              words_ci [''bash'', ''sh'', ''zsh'', ''cat'', ''tee'', ''ruby'', ''node'']], wb,
      times_mn 0 80 (none_of [13, 10]), lit ''<<'', opt (lit ''-''), spaces,
      opt (Chr (\<lambda>c. c = 39 \<or> c = 34)), Chr ident_start,
      Star (Chr (\<lambda>c. ident_start c \<or> in_range 48 57 c)), opt (Chr (\<lambda>c. c = 39 \<or> c = 34))]"

definition nested_shell_launcher :: rx where
  "nested_shell_launcher = rx_cat
     [bos, spaces,
      rx_alt
        [rx_cat [words_ci [''bash'', ''sh'', ''zsh''], spaces1, lit ''-'', Star (Chr Verification.az_ci),
                 lit_ci ''c'', wb],
         rx_cat [lit_ci ''cmd'', opt (lit_ci ''.exe''), spaces1, lit ''/'', rx_alt [chr_ci 99, chr_ci 107], wb],
         rx_cat [words_ci [''powershell'', ''pwsh''], opt (lit_ci ''.exe''), wb, Star dot, space,
                 lit ''-'', words_ci [''command'', ''c''], wb]]]"

definition max_inspectable_nested_shell_chars :: nat where
  "max_inspectable_nested_shell_chars = 120"

datatype unsafe_payload = Up_encoded_shell | Up_heredoc | Up_nested_shell | Up_encoded_transfer

definition unsafe_payload_reason :: "pystr \<Rightarrow> unsafe_payload option" where
  "unsafe_payload_reason text =
     (if rx_search encoded_shell_command text then Some Up_encoded_shell
      else if rx_search heredoc_shell_payload text then Some Up_heredoc
      else if max_inspectable_nested_shell_chars < length text \<and> rx_search nested_shell_launcher text
      then Some Up_nested_shell
      else if rx_search dense_base64_token text \<and> rx_search encoded_file_transfer_command text
      then Some Up_encoded_transfer
      else None)"

subsection \<open>The deadline\<close>

record runtime_tally =
  rt_typed :: int
  rt_exact :: int
  rt_navigation :: int
  rt_wait :: int

definition action_is :: "pydict \<Rightarrow> string \<Rightarrow> bool" where
  "action_is a k \<longleftrightarrow> action_type a = PStr (u k)"

definition grid_of :: "pydict \<Rightarrow> int \<Rightarrow> (grid_error, spreadsheet_grid) result" where
  "grid_of a max_characters = validate_spreadsheet_grid (get_none a (u ''rows'')) (nat max_characters)"

definition declared_wait :: "pydict \<Rightarrow> string \<Rightarrow> int \<Rightarrow> (burst_exn, int) result" where
  "declared_wait a k dflt =
     bind_result (py_int_of (get_or a (u k) (PInt dflt))) (\<lambda>n. Inr (max 0 n))"

definition tally_action :: "burst_limits \<Rightarrow> pydict \<Rightarrow> runtime_tally \<Rightarrow> (burst_exn, runtime_tally) result" where
  "tally_action lms a t =
     (if action_is a ''type_text''
      then Inr (t\<lparr>rt_typed := rt_typed t + int (length (py_str (get_or a (u ''text'') (PStr [])))),
                 rt_exact := rt_exact t
                   + (if get_none a (u ''verification'') = PStr (u ''exact'')
                         \<or> get_none a (u ''code'') = PBool True
                           \<and> get_none a (u ''verification'') \<noteq> PStr (u ''deferred_exact'')
                      then 1 else 0)\<rparr>)
      else if action_is a ''spreadsheet_grid''
      then (case grid_of a (bl_type_text lms) of
              Inl _ \<Rightarrow> Inr t
            | Inr g \<Rightarrow> Inr (t\<lparr>rt_typed := rt_typed t + int (sg_character_count g),
                             rt_navigation := rt_navigation t + int (sg_navigation_count g)\<rparr>))
      else if action_is a ''wait''
      then bind_result (declared_wait a ''ms'' 0) (\<lambda>n. Inr (t\<lparr>rt_wait := rt_wait t + n\<rparr>))
      else if action_is a ''wait_for_stable_screen''
      then bind_result (declared_wait a ''timeout_ms'' default_stable_timeout_ms)
             (\<lambda>n. Inr (t\<lparr>rt_wait := rt_wait t + n\<rparr>))
      else if action_is a ''wait_for_change''
      then bind_result (declared_wait a ''timeout_ms'' default_change_timeout_ms)
             (\<lambda>n. Inr (t\<lparr>rt_wait := rt_wait t + n\<rparr>))
      else Inr t)"

fun tally_actions :: "burst_limits \<Rightarrow> pydict list \<Rightarrow> runtime_tally \<Rightarrow> (burst_exn, runtime_tally) result" where
  "tally_actions lms [] t = Inr t"
| "tally_actions lms (a # as) t = bind_result (tally_action lms a t) (tally_actions lms as)"

definition runtime_estimate :: "runtime_tally \<Rightarrow> int" where
  "runtime_estimate t =
     auto_runtime_floor_ms + rt_wait t + (if rt_typed t \<noteq> 0 then 6000 + rt_typed t * 400 else 0)
     + rt_exact t * exact_readback_overhead_ms + rt_navigation t * 250"

definition recommended_runtime_ms :: "burst_limits \<Rightarrow> pydict list \<Rightarrow> (burst_exn, int) result" where
  "recommended_runtime_ms lms actions =
     bind_result (tally_actions lms actions \<lparr>rt_typed = 0, rt_exact = 0, rt_navigation = 0, rt_wait = 0\<rparr>)
       (\<lambda>t. Inr (min auto_runtime_ceiling_ms (max auto_runtime_floor_ms (runtime_estimate t))))"

definition settling_types :: "pystr list" where
  "settling_types = map u [''key'', ''type_text'', ''spreadsheet_grid'', ''click'', ''double_click'', ''scroll'']"

definition needs_post_action_settle :: "pydict list \<Rightarrow> (burst_exn, bool) result" where
  "needs_post_action_settle actions =
     (if \<not> list_ex (\<lambda>a. str_in (action_type a) settling_types) actions then Inr False
      else let final = last actions in
        if action_is final ''wait_for_stable_screen'' \<or> action_is final ''wait_for_change'' then Inr False
        else if action_is final ''wait''
        then bind_result (py_int_of (get_or final (u ''ms'') (PInt 0))) (\<lambda>n. Inr (\<not> 300 \<le> n))
        else Inr True)"

subsection \<open>Validation\<close>

text \<open>A list or dictionary cannot be looked up in a set.\<close>

definition unhashable :: "pyval \<Rightarrow> bool" where
  "unhashable v = (case v of PList _ \<Rightarrow> True | PDict _ \<Rightarrow> True | _ \<Rightarrow> False)"

definition keys_arg :: "pydict \<Rightarrow> pyval" where
  "keys_arg a =
     (let v = get_none a (u ''keys'') in
      if py_truthy v then v
      else if py_truthy (get_none a (u ''key'')) then PList [get_none a (u ''key'')] else PList [])"

definition check_payload :: "pystr \<Rightarrow> (burst_exn, unit) result" where
  "check_payload text = (if unsafe_payload_reason text \<noteq> None then Inl Burst_Error else Inr ())"

definition check_key :: "pydict \<Rightarrow> (burst_exn, unit) result" where
  "check_key a =
     (if \<not> is_PList (keys_arg a) then Inl Burst_Error
      else bind_result (normalize_keys (the_PList (keys_arg a)))
        (\<lambda>ks. if ks = [] then Inl Burst_Error else Inr ()))"

definition check_grid :: "burst_limits \<Rightarrow> pydict \<Rightarrow> (burst_exn, unit) result" where
  "check_grid lms a = (case grid_of a (bl_type_text lms) of
       Inl _ \<Rightarrow> Inl Burst_Error | Inr g \<Rightarrow> check_payload (sg_payload None g))"

definition action_text :: "pydict \<Rightarrow> pystr" where
  "action_text a = py_str (get_or a (u ''text'') (PStr []))"

definition verification_arg :: "pydict \<Rightarrow> pystr" where
  "verification_arg a =
     (let v = get_none a (u ''verification'')
      in py_lower (if py_truthy v then py_str v else u ''auto''))"

definition validate_editor_prose :: "pydict \<Rightarrow> bool" where
  "validate_editor_prose a =
     (py_lower (py_str (get_or a (u ''context'') (PStr []))) = u ''editor''
      \<and> get_none a (u ''code'') \<noteq> PBool True \<and> \<not> is_exact_text (action_text a))"

text \<open>The state of the loop: characters typed so far and the texts of the current run.\<close>

type_synonym validate_state = "int \<times> pystr list"

definition close_run :: "pystr list \<Rightarrow> (burst_exn, unit) result" where
  "close_run parts = (if 1 < length parts then check_payload (concat parts) else Inr ())"

definition check_text :: "burst_limits \<Rightarrow> pydict \<Rightarrow> validate_state \<Rightarrow> (burst_exn, validate_state) result" where
  "check_text lms a st =
     (let t = action_text a; total = fst st + int (length t) in
      if verification_arg a \<notin> {u ''auto'', u ''exact'', u ''deferred_exact''} then Inl Burst_Error
      else if py_strip t = [] then Inl Burst_Error
      else if validate_editor_prose a \<and> is_space (last t) then Inl Burst_Error
      else if validate_editor_prose a \<and> py_in [32, 32] t then Inl Burst_Error
      else bind_result (check_payload t) (\<lambda>_.
        if bl_type_text lms < int (length t) then Inl Burst_Error
        else if bl_burst_type_text lms < total then Inl Burst_Error
        else Inr (total, snd st @ [t])))"

definition validate_action ::
    "burst_limits \<Rightarrow> pydict \<Rightarrow> validate_state \<Rightarrow> (burst_exn, validate_state) result" where
  "validate_action lms a st =
     (if map_of a (u ''no_verify'') \<noteq> None then Inl Burst_Error
      else if unhashable (action_type a) then Inl Type_Error
      else bind_result (if action_is a ''key'' then check_key a else Inr ()) (\<lambda>_.
        bind_result (if action_is a ''spreadsheet_grid'' then check_grid lms a else Inr ()) (\<lambda>_.
          if \<not> action_is a ''type_text''
          then bind_result (close_run (snd st)) (\<lambda>_. Inr (fst st, []))
          else check_text lms a st)))"

fun validate_loop :: "burst_limits \<Rightarrow> pydict list \<Rightarrow> validate_state \<Rightarrow> (burst_exn, validate_state) result" where
  "validate_loop lms [] st = Inr st"
| "validate_loop lms (a # as) st = bind_result (validate_action lms a st) (validate_loop lms as)"

definition is_deferred :: "pydict \<Rightarrow> bool" where
  "is_deferred a \<longleftrightarrow> action_is a ''type_text'' \<and> verification_arg a = u ''deferred_exact''"

definition deferred_row :: "pydict \<Rightarrow> bool" where
  "deferred_row a \<longleftrightarrow> action_is a ''type_text'' \<and> get_none a (u ''code'') = PBool True
     \<and> py_casefold (str_or_empty (get_none a (u ''context''))) = u ''editor''
     \<and> py_casefold (str_or_empty (get_none a (u ''verification''))) = u ''deferred_exact''"

definition enter_key :: "pydict \<Rightarrow> bool" where
  "enter_key a \<longleftrightarrow> action_is a ''key''
     \<and> (case normalize_keys (the_PList (keys_arg a)) of
          Inl _ \<Rightarrow> False | Inr ks \<Rightarrow> set ks = {u ''Enter''})"

definition deferred_shape_ok :: "pydict list \<Rightarrow> bool" where
  "deferred_shape_ok actions =
     (let typed = filter (\<lambda>a. action_is a ''type_text'') actions;
          active = filter (\<lambda>a. \<not> is_passive a) actions
      in 2 \<le> length (filter is_deferred actions) \<and> list_all is_deferred typed
         \<and> list_all (\<lambda>a. deferred_row a \<or> enter_key a) active
         \<and> active \<noteq> [] \<and> action_is (hd active) ''type_text''
         \<and> list_all (\<lambda>(l, r). action_type l \<noteq> action_type r \<or> action_is l ''key'') (zip active (tl active)))"

definition validate_actions :: "burst_limits \<Rightarrow> pydict list \<Rightarrow> (burst_exn, unit) result" where
  "validate_actions lms actions =
     (if bl_actions lms < int (length actions) then Inl Burst_Error
      else bind_result (validate_loop lms actions (0, [])) (\<lambda>st.
        bind_result (close_run (snd st)) (\<lambda>_.
          if list_ex is_deferred actions \<and> \<not> deferred_shape_ok actions then Inl Burst_Error
          else let grids = length (filter (\<lambda>a. action_is a ''spreadsheet_grid'') actions);
                   others = length (filter (\<lambda>a. \<not> action_is a ''spreadsheet_grid'' \<and> \<not> is_passive a) actions)
               in if 0 < grids \<and> (grids \<noteq> 1 \<or> 0 < others) then Inl Burst_Error else Inr ())))"

subsection \<open>What validation promises\<close>

lemmas validate_unfold = validate_action_def check_text_def check_key_def check_payload_def Let_def

lemma validate_loop_append:
  "validate_loop lms (xs @ ys) st = bind_result (validate_loop lms xs st) (validate_loop lms ys)"
  by (induction xs arbitrary: st) (simp_all add: bind_result_def split: sum.splits)

lemma validate_text:
  assumes "validate_action lms a st = Inr st'" "action_is a ''type_text''"
  shows "py_strip (action_text a) \<noteq> []" "int (length (action_text a)) \<le> bl_type_text lms"
    "unsafe_payload_reason (action_text a) = None"
    "fst st' = fst st + int (length (action_text a))" "fst st' \<le> bl_burst_type_text lms"
    "snd st' = snd st @ [action_text a]"
proof -
  have nk: "\<not> action_is a ''key''" "\<not> action_is a ''spreadsheet_grid''"
    using assms(2) by (simp_all add: action_is_def)
  from assms(1) have "check_text lms a st = Inr st'"
    using assms(2) nk by (simp add: validate_action_def split: if_splits)
  then have c: "py_strip (action_text a) \<noteq> []" "check_payload (action_text a) = Inr ()"
    "\<not> bl_type_text lms < int (length (action_text a))"
    "\<not> bl_burst_type_text lms < fst st + int (length (action_text a))"
    "(fst st + int (length (action_text a)), snd st @ [action_text a]) = st'"
    by (auto simp: check_text_def Let_def guard_Inr_iff bind_result_Inr_iff)
  show "py_strip (action_text a) \<noteq> []" "int (length (action_text a)) \<le> bl_type_text lms"
    "unsafe_payload_reason (action_text a) = None"
    "fst st' = fst st + int (length (action_text a))" "fst st' \<le> bl_burst_type_text lms"
    "snd st' = snd st @ [action_text a]"
    using c by (auto simp: check_payload_def split: if_splits)
qed

lemma validate_other:
  assumes "validate_action lms a st = Inr st'" "\<not> action_is a ''type_text''"
  shows "fst st' = fst st" "snd st' = []" "close_run (snd st) = Inr ()"
  using assms by (auto simp: validate_action_def guard_Inr_iff bind_result_Inr_iff)

lemma validate_head:
  assumes "validate_action lms a st = Inr st'"
  shows "map_of a (u ''no_verify'') = None" "\<not> unhashable (action_type a)"
    "action_is a ''key'' \<Longrightarrow> check_key a = Inr ()"
    "action_is a ''spreadsheet_grid'' \<Longrightarrow> check_grid lms a = Inr ()"
  using assms by (auto simp: validate_action_def guard_Inr_iff bind_result_Inr_iff split: if_splits)

lemma check_key_ok: "check_key a = Inr () \<Longrightarrow> \<exists>ks. normalize_keys (the_PList (keys_arg a)) = Inr ks \<and> ks \<noteq> []"
  by (auto simp: check_key_def guard_Inr_iff bind_result_Inr_iff)

definition typed_lengths :: "pydict list \<Rightarrow> int list" where
  "typed_lengths actions = map (int \<circ> length \<circ> action_text) (filter (\<lambda>a. action_is a ''type_text'') actions)"

lemma validate_loop_member:
  "validate_loop lms actions st = Inr st' \<Longrightarrow> a \<in> set actions \<Longrightarrow> \<exists>st1 st2. validate_action lms a st1 = Inr st2"
  by (induction actions arbitrary: st) (auto simp: bind_result_Inr_iff)

lemma validate_loop_total:
  "validate_loop lms actions st = Inr st' \<Longrightarrow> fst st' = fst st + sum_list (typed_lengths actions)"
proof (induction actions arbitrary: st)
  case Nil
  then show ?case by (simp add: typed_lengths_def)
next
  case (Cons a as)
  then obtain st1 where a: "validate_action lms a st = Inr st1" and l: "validate_loop lms as st1 = Inr st'"
    by (auto simp: bind_result_Inr_iff)
  from Cons.IH [OF l] validate_text(4) [OF a] validate_other(1) [OF a] show ?case
    by (cases "action_is a ''type_text''") (simp_all add: typed_lengths_def)
qed

lemma validate_loop_burst:
  "validate_loop lms actions st = Inr st' \<Longrightarrow> fst st \<le> bl_burst_type_text lms \<Longrightarrow> fst st' \<le> bl_burst_type_text lms"
proof (induction actions arbitrary: st)
  case Nil
  then show ?case by simp
next
  case (Cons a as)
  then obtain st1 where a: "validate_action lms a st = Inr st1" and l: "validate_loop lms as st1 = Inr st'"
    by (auto simp: bind_result_Inr_iff)
  have "fst st1 \<le> bl_burst_type_text lms"
    using Cons.prems(2) validate_text(5) [OF a] validate_other(1) [OF a]
    by (cases "action_is a ''type_text''") simp_all
  with Cons.IH [OF l] show ?case .
qed

lemma validate_loop_run:
  "validate_loop lms seg st = Inr st' \<Longrightarrow> list_all (\<lambda>a. action_is a ''type_text'') seg
     \<Longrightarrow> snd st' = snd st @ map action_text seg"
proof (induction seg arbitrary: st)
  case Nil
  then show ?case by simp
next
  case (Cons a as)
  then obtain st1 where a: "validate_action lms a st = Inr st1" and l: "validate_loop lms as st1 = Inr st'"
    by (auto simp: bind_result_Inr_iff)
  from Cons.IH [OF l] Cons.prems(2) validate_text(6) [OF a] show ?case by simp
qed

lemma validate_loop_fresh:
  assumes "validate_loop lms pre (0, []) = Inr st" "pre = [] \<or> \<not> action_is (last pre) ''type_text''"
  shows "snd st = []"
proof (cases pre rule: rev_cases)
  case Nil
  with assms show ?thesis by auto
next
  case (snoc as a)
  with assms obtain st1 where "validate_action lms a st1 = Inr st"
    by (auto simp: validate_loop_append bind_result_Inr_iff)
  with assms(2) snoc validate_other(2) show ?thesis by simp
qed

definition whole_run :: "pydict list \<Rightarrow> pydict list \<Rightarrow> pydict list \<Rightarrow> bool" where
  "whole_run pre seg post \<longleftrightarrow> list_all (\<lambda>a. action_is a ''type_text'') seg
     \<and> (pre = [] \<or> \<not> action_is (last pre) ''type_text'')
     \<and> (post = [] \<or> \<not> action_is (hd post) ''type_text'')"

lemma validate_run_safe:
  assumes v: "validate_actions lms (pre @ seg @ post) = Inr ()" and w: "whole_run pre seg post"
    and "1 < length seg"
  shows "unsafe_payload_reason (concat (map action_text seg)) = None"
proof -
  from v obtain st where l: "validate_loop lms (pre @ seg @ post) (0, []) = Inr st" and c: "close_run (snd st) = Inr ()"
    by (auto simp: validate_actions_def guard_Inr_iff bind_result_Inr_iff)
  then obtain s1 s2 where s1: "validate_loop lms pre (0, []) = Inr s1" and s2: "validate_loop lms seg s1 = Inr s2"
    and s3: "validate_loop lms post s2 = Inr st"
    by (auto simp: validate_loop_append bind_result_Inr_iff)
  from w validate_loop_fresh [OF s1] validate_loop_run [OF s2] have r: "snd s2 = map action_text seg"
    by (simp add: whole_run_def)
  have "close_run (snd s2) = Inr ()"
  proof (cases post)
    case Nil
    with c s3 show ?thesis by simp
  next
    case (Cons a as)
    with s3 obtain s where "validate_action lms a s2 = Inr s" by (auto simp: bind_result_Inr_iff)
    from validate_other(3) [OF this] w Cons show ?thesis by (simp add: whole_run_def)
  qed
  with r assms(3) show ?thesis by (simp add: close_run_def check_payload_def split: if_splits)
qed

text \<open>
  C20. What a validated burst can be: it is within the limit on actions; no action disables verification;
  every typed text is visible, within its own limit, and free of the encoded and nested payloads; every
  key action names keys; all typed texts together are within the limit of the burst; and a run of
  consecutive typed texts is free of those payloads when read as one.
\<close>

theorem validated_burst_limits:
  assumes "validate_actions lms actions = Inr ()"
  shows "int (length actions) \<le> bl_actions lms
    \<and> (0 \<le> bl_burst_type_text lms \<longrightarrow> sum_list (typed_lengths actions) \<le> bl_burst_type_text lms)
    \<and> (\<forall>a \<in> set actions. map_of a (u ''no_verify'') = None
         \<and> (action_is a ''type_text'' \<longrightarrow> py_strip (action_text a) \<noteq> []
              \<and> int (length (action_text a)) \<le> bl_type_text lms \<and> unsafe_payload_reason (action_text a) = None)
         \<and> (action_is a ''key'' \<longrightarrow> (\<exists>ks. normalize_keys (the_PList (keys_arg a)) = Inr ks \<and> ks \<noteq> [])))
    \<and> (\<forall>pre seg post. actions = pre @ seg @ post \<and> whole_run pre seg post \<and> 1 < length seg
         \<longrightarrow> unsafe_payload_reason (concat (map action_text seg)) = None)"
proof -
  from assms obtain st where l: "validate_loop lms actions (0, []) = Inr st" and n: "int (length actions) \<le> bl_actions lms"
    by (auto simp: validate_actions_def guard_Inr_iff bind_result_Inr_iff)
  have "sum_list (typed_lengths actions) \<le> bl_burst_type_text lms" if "0 \<le> bl_burst_type_text lms"
    using validate_loop_total [OF l] validate_loop_burst [OF l] that by simp
  moreover have "map_of a (u ''no_verify'') = None
         \<and> (action_is a ''type_text'' \<longrightarrow> py_strip (action_text a) \<noteq> []
              \<and> int (length (action_text a)) \<le> bl_type_text lms \<and> unsafe_payload_reason (action_text a) = None)
         \<and> (action_is a ''key'' \<longrightarrow> (\<exists>ks. normalize_keys (the_PList (keys_arg a)) = Inr ks \<and> ks \<noteq> []))"
    if "a \<in> set actions" for a
  proof -
    from validate_loop_member [OF l that] obtain s1 s2 where v: "validate_action lms a s1 = Inr s2" by blast
    from validate_text(1-3) [OF v] validate_head [OF v] check_key_ok [of a] show ?thesis by blast
  qed
  moreover have "unsafe_payload_reason (concat (map action_text seg)) = None"
    if "actions = pre @ seg @ post \<and> whole_run pre seg post \<and> 1 < length seg" for pre seg post
    using validate_run_safe [of lms pre seg post] assms that by blast
  ultimately show ?thesis using n by blast
qed

definition default_limits :: burst_limits where
  "default_limits = burst_limits_of (\<lambda>_. None)"

definition text_action :: "string \<Rightarrow> pydict" where
  "text_action t = [(u ''type'', PStr (u ''type_text'')), (u ''text'', PStr (u t))]"

theorem validated_burst_limits_witness:
  "unsafe_payload_reason (concat (map action_text [text_action ''ls '', text_action ''-la''])) = None"
proof -
  have "validate_actions default_limits ([] @ [text_action ''ls '', text_action ''-la''] @ []) = Inr ()"
    by code_simp
  moreover have "whole_run [] [text_action ''ls '', text_action ''-la''] []" by code_simp
  ultimately show ?thesis
    using validated_burst_limits [of default_limits "[text_action ''ls '', text_action ''-la'']"] by fastforce
qed

text \<open>
  The check on split payloads does not look across a wait: an encoded shell command typed in two
  parts is rejected when the parts are consecutive and accepted when a wait, which the guest does not
  see, stands between them.
\<close>

theorem wait_hides_split_payload:
  "validate_actions default_limits [text_action ''powershell -e'', text_action ''nc SQBFAFgA''] = Inl Burst_Error
   \<and> validate_actions default_limits
       [text_action ''powershell -e'', [(u ''type'', PStr (u ''wait''))], text_action ''nc SQBFAFgA''] = Inr ()
   \<and> unsafe_payload_reason (action_text (text_action ''powershell -e'') @ action_text (text_action ''nc SQBFAFgA''))
       = Some Up_encoded_shell"
proof (intro conjI)
  show "validate_actions default_limits [text_action ''powershell -e'', text_action ''nc SQBFAFgA''] = Inl Burst_Error"
    by code_simp
  show "validate_actions default_limits
       [text_action ''powershell -e'', [(u ''type'', PStr (u ''wait''))], text_action ''nc SQBFAFgA''] = Inr ()"
    by code_simp
  show "unsafe_payload_reason (action_text (text_action ''powershell -e'') @ action_text (text_action ''nc SQBFAFgA''))
       = Some Up_encoded_shell"
    by code_simp
qed

end
