(* ===== verification/Chunking.thy ===== *)
theory Chunking
  imports PyText
begin

text \<open>
  How a text is cut into deliveries: \<open>chunk_text\<close> and \<open>_guarded_print_chunks\<close> of \<open>executor/typing.py\<close>
  and \<open>word_chunks\<close> of \<open>pikvm/timing.py\<close>. The random jitter of the last is the list of caps it draws.
\<close>

definition chunk_target :: nat where "chunk_target = 16"
definition fast_print_chunk_target :: nat where "fast_print_chunk_target = 64"

definition blank :: "pystr \<Rightarrow> bool" where
  "blank s \<longleftrightarrow> list_all is_space s"

text \<open>
  \<open>re.split\<close> at a captured run of white space, without the empty pieces: the maximal runs of white
  space and of other characters.
\<close>

function ws_runs :: "pystr \<Rightarrow> pystr list" where
  "ws_runs [] = []"
| "ws_runs (c # s) =
     (c # takeWhile (\<lambda>x. is_space x = is_space c) s) # ws_runs (dropWhile (\<lambda>x. is_space x = is_space c) s)"
  by pat_completeness auto
termination
  by (relation "measure length") (auto simp: less_Suc_eq_le length_dropWhile_le)

declare ws_runs.simps(2) [simp del]

function slices :: "nat \<Rightarrow> pystr \<Rightarrow> pystr list" where
  "slices n s = (if n = 0 \<or> s = [] then [] else take n s # slices n (drop n s))"
  by pat_completeness auto
termination
  by (relation "measure (\<lambda>(n, s). length s)") auto

declare slices.simps [simp del]

fun chunk_loop :: "pystr list \<Rightarrow> pystr \<Rightarrow> pystr list \<Rightarrow> pystr list" where
  "chunk_loop out buf [] = (if buf \<noteq> [] then out @ [buf] else out)"
| "chunk_loop out buf (word # ws) =
     (let flush = (buf \<noteq> [] \<and> chunk_target < length buf + length word \<and> \<not> blank buf);
          out1 = (if flush then out @ [buf] else out);
          buf1 = (if flush then [] else buf)
      in if chunk_target < length word
         then chunk_loop ((if buf1 \<noteq> [] then out1 @ [buf1] else out1) @ slices chunk_target word) [] ws
         else chunk_loop out1 (buf1 @ word) ws)"

text \<open>The last loop: trailing white space moves to the front of the next chunk, unless it is all there is.\<close>

definition tail_space :: "pystr \<Rightarrow> pystr" where
  "tail_space x = drop (length (py_rstrip x)) x"

fun move_separators :: "pystr list \<Rightarrow> pystr list" where
  "move_separators [] = []"
| "move_separators [x] = [x]"
| "move_separators (x # y # rest) =
     (if py_rstrip x = [] \<or> tail_space x = [] then x # move_separators (y # rest)
      else py_rstrip x # move_separators ((tail_space x @ y) # rest))"

definition chunk_text :: "pystr \<Rightarrow> pystr list" where
  "chunk_text s =
     (if length s \<le> chunk_target then (if s = [] then [] else [s])
      else move_separators (chunk_loop [] [] (ws_runs s)))"

fun coalesce :: "pystr list \<Rightarrow> pystr \<Rightarrow> pystr list" where
  "coalesce [] pending = (if pending \<noteq> [] then [pending] else [])"
| "coalesce (chunk # chunks) pending =
     (if pending \<noteq> [] \<and> fast_print_chunk_target < length pending + length chunk
      then pending # coalesce chunks chunk
      else coalesce chunks (pending @ chunk))"

definition guarded_print_chunks :: "pystr \<Rightarrow> pystr list" where
  "guarded_print_chunks s =
     (case chunk_text s of
        [] \<Rightarrow> []
      | [c] \<Rightarrow> [c]
      | c # cs \<Rightarrow> c # coalesce cs [])"

text \<open>\<open>word_chunks\<close>: \<open>caps\<close> is the stream of jittered caps.\<close>

fun word_loop :: "(nat \<Rightarrow> nat) \<Rightarrow> nat \<Rightarrow> pystr list \<Rightarrow> pystr \<Rightarrow> pystr list \<Rightarrow> pystr list" where
  "word_loop caps i out buf [] = (if buf \<noteq> [] then out @ [buf] else out)"
| "word_loop caps i out buf (word # ws) =
     (if buf \<noteq> [] \<and> caps i < length buf + length word \<and> \<not> blank buf
      then word_loop caps (Suc i) (out @ [buf]) word ws
      else word_loop caps i out (buf @ word) ws)"

definition word_chunks :: "(nat \<Rightarrow> nat) \<Rightarrow> nat \<Rightarrow> pystr \<Rightarrow> pystr list" where
  "word_chunks caps target s =
     (if length s \<le> target then (if s = [] then [] else [s]) else word_loop caps 0 [] [] (ws_runs s))"

subsection \<open>Runs and slices\<close>

lemma concat_ws_runs [simp]: "concat (ws_runs s) = s"
  by (induction s rule: ws_runs.induct) (simp_all add: ws_runs.simps)

lemma concat_slices [simp]: "0 < n \<Longrightarrow> concat (slices n s) = s"
  by (induction n s rule: slices.induct) (subst slices.simps, simp)

lemma slices_members: "x \<in> set (slices n s) \<Longrightarrow> x \<noteq> [] \<and> length x \<le> n"
proof (induction n s rule: slices.induct)
  case (1 n s)
  then show ?case by (subst (asm) (2) slices.simps) (auto split: if_splits)
qed

text \<open>Runs alternate: \<open>alternating\<close> says that no two neighbours are both white or both not.\<close>

definition pure_run :: "pystr \<Rightarrow> bool" where
  "pure_run w \<longleftrightarrow> w \<noteq> [] \<and> (blank w \<or> list_all (\<lambda>c. \<not> is_space c) w)"

fun alternating :: "pystr list \<Rightarrow> bool" where
  "alternating (v # w # ws) = (blank v \<noteq> blank w \<and> alternating (w # ws))"
| "alternating _ = True"

lemma pure_takeWhile: "pure_run (c # takeWhile (\<lambda>x. is_space x = is_space c) s)"
  by (cases "is_space c") (auto simp: pure_run_def blank_def list_all_iff dest: set_takeWhileD)

lemma ws_runs_pure: "list_all pure_run (ws_runs s)"
  by (induction s rule: ws_runs.induct) (simp_all add: ws_runs.simps pure_takeWhile)

lemma blank_run: "blank (c # takeWhile (\<lambda>x. is_space x = is_space c) s) = is_space c"
  by (auto simp: blank_def list_all_iff dest: set_takeWhileD)

lemma ws_runs_alternate: "alternating (ws_runs s)"
proof (induction s rule: ws_runs.induct)
  case 1
  then show ?case by simp
next
  case (2 c s)
  show ?case
  proof (cases "dropWhile (\<lambda>x. is_space x = is_space c) s")
    case Nil
    show ?thesis unfolding ws_runs.simps(2) Nil by simp
  next
    case (Cons d t)
    then have "is_space d \<noteq> is_space c"
      using hd_dropWhile [of "\<lambda>x. is_space x = is_space c" s] by simp
    moreover from 2 have "alternating (ws_runs (d # t))" unfolding Cons .
    ultimately show ?thesis
      unfolding ws_runs.simps(2) [of c s] Cons ws_runs.simps(2) [of d t]
      by (simp only: alternating.simps blank_run) simp
  qed
qed

subsection \<open>Nothing is lost\<close>

lemma concat_chunk_loop: "concat (chunk_loop out buf ws) = concat out @ buf @ concat ws"
  by (induction out buf ws rule: chunk_loop.induct) (auto simp: Let_def chunk_target_def)

lemma rstrip_tail: "py_rstrip x @ tail_space x = x"
proof -
  have "x = py_rstrip x @ rev (takeWhile is_space (rev x))"
    unfolding py_rstrip_def by (metis rev_append rev_rev_ident takeWhile_dropWhile_id)
  then show ?thesis unfolding tail_space_def by (metis append_eq_conv_conj)
qed

lemma concat_move_separators [simp]: "concat (move_separators xs) = concat xs"
proof (induction xs rule: move_separators.induct)
  case (3 x y rest)
  have "py_rstrip x @ tail_space x @ r = x @ r" for r
    using rstrip_tail [of x] by (metis append_assoc)
  with 3 show ?case by simp
qed simp_all

lemma concat_coalesce: "concat (coalesce cs p) = p @ concat cs"
  by (induction cs p rule: coalesce.induct) auto

lemma concat_chunk_text: "concat (chunk_text s) = s"
  by (simp add: chunk_text_def concat_chunk_loop)

subsection \<open>Bounds\<close>

text \<open>A chunk before the separators move: short, and its trailing white space shorter still.\<close>

definition raw_ok :: "pystr \<Rightarrow> bool" where
  "raw_ok x \<longleftrightarrow> x \<noteq> [] \<and> length x \<le> 32 \<and> (blank x \<or> length (tail_space x) \<le> 16)"

lemma tail_space_length: "length (tail_space x) \<le> length x"
  by (simp add: tail_space_def)

lemma rstrip_Nil_iff: "py_rstrip x = [] \<longleftrightarrow> blank x"
  by (simp add: py_rstrip_def blank_def list_all_iff)

lemma tail_space_word: "list_all (\<lambda>c. \<not> is_space c) w \<Longrightarrow> w \<noteq> [] \<Longrightarrow> tail_space (x @ w) = []"
  by (cases w rule: rev_cases) (auto simp: tail_space_def py_rstrip_def)

lemma tail_space_prefix: "\<not> blank y \<Longrightarrow> tail_space (x @ y) = tail_space y"
proof -
  assume "\<not> blank y"
  then have "py_rstrip (x @ y) = x @ py_rstrip y"
    by (auto simp: py_rstrip_def dropWhile_append blank_def list_all_iff)
  then show ?thesis by (simp add: tail_space_def)
qed

text \<open>The buffer of the loop: either empty, one short white run, or text of bounded size.\<close>

definition buf_ok :: "pystr \<Rightarrow> pystr list \<Rightarrow> bool" where
  "buf_ok buf ws \<longleftrightarrow> buf = []
     \<or> blank buf \<and> length buf \<le> 16 \<and> (ws \<noteq> [] \<longrightarrow> \<not> blank (hd ws))
     \<or> \<not> blank buf \<and> raw_ok buf"

lemma buf_raw: "buf_ok buf ws \<Longrightarrow> buf \<noteq> [] \<Longrightarrow> raw_ok buf"
  by (auto simp: buf_ok_def raw_ok_def)

lemma alternating_tl: "alternating (w # ws) \<Longrightarrow> alternating ws"
  by (cases ws) auto

lemma alternating_hd: "alternating (w # ws) \<Longrightarrow> ws \<noteq> [] \<Longrightarrow> blank (hd ws) \<noteq> blank w"
  by (cases ws) auto

lemma short_word_buf:
  assumes "pure_run w" "length w \<le> 16" "alternating (w # ws)"
  shows "buf_ok w ws"
  using assms alternating_hd [OF assms(3)] tail_space_word [of w "[]"]
  by (auto simp: buf_ok_def raw_ok_def pure_run_def)

lemma grow_buf:
  assumes b: "buf_ok buf (w # ws)" and w: "pure_run w" "length w \<le> 16" and alt: "alternating (w # ws)"
    and keep: "buf = [] \<or> length buf + length w \<le> 16 \<or> blank buf"
  shows "buf_ok (buf @ w) ws"
proof (cases "buf = []")
  case True
  with short_word_buf [OF w alt] show ?thesis by simp
next
  case ne: False
  show ?thesis
  proof (cases "blank buf")
    case True
    with b ne have l: "length buf \<le> 16" and nb: "\<not> blank w" by (auto simp: buf_ok_def)
    with w have "tail_space (buf @ w) = []" by (intro tail_space_word) (auto simp: pure_run_def)
    moreover have "\<not> blank (buf @ w)" using nb by (simp add: blank_def)
    ultimately show ?thesis using l w ne by (simp add: buf_ok_def raw_ok_def)
  next
    case False
    with keep ne have l: "length (buf @ w) \<le> 16" by simp
    then have "length (tail_space (buf @ w)) \<le> 16" using tail_space_length [of "buf @ w"] by linarith
    moreover have "\<not> blank (buf @ w)" using False by (simp add: blank_def)
    ultimately show ?thesis using l ne by (simp add: buf_ok_def raw_ok_def)
  qed
qed

lemma slices_raw: "x \<in> set (slices chunk_target w) \<Longrightarrow> raw_ok x"
  using slices_members [of x chunk_target w] tail_space_length [of x]
  by (simp add: raw_ok_def chunk_target_def)

lemma chunk_loop_raw:
  "list_all raw_ok out \<Longrightarrow> buf_ok buf ws \<Longrightarrow> list_all pure_run ws \<Longrightarrow> alternating ws
     \<Longrightarrow> list_all raw_ok (chunk_loop out buf ws)"
proof (induction out buf ws rule: chunk_loop.induct)
  case (1 out buf)
  then show ?case using buf_raw [of buf "[]"] by simp
next
  case (2 out buf word ws)
  define flush where "flush = (buf \<noteq> [] \<and> chunk_target < length buf + length word \<and> \<not> blank buf)"
  define out1 where "out1 = (if flush then out @ [buf] else out)"
  define buf1 where "buf1 = (if flush then [] else buf)"
  have out1: "list_all raw_ok out1"
    using 2(3) buf_raw [OF 2(4)] by (simp add: out1_def flush_def)
  have buf1: "buf_ok buf1 (word # ws)" using 2(4) by (simp add: buf1_def buf_ok_def)
  have rest: "list_all pure_run ws" "alternating ws" "pure_run word"
    using 2(5,6) alternating_tl by auto
  show ?case
  proof (cases "chunk_target < length word")
    case True
    have "list_all raw_ok ((if buf1 \<noteq> [] then out1 @ [buf1] else out1) @ slices chunk_target word)"
      using out1 buf_raw [OF buf1] slices_raw by (auto simp: list_all_iff)
    then have "list_all raw_ok (chunk_loop ((if buf1 \<noteq> [] then out1 @ [buf1] else out1) @ slices chunk_target word) [] ws)"
      using 2(1) [OF flush_def out1_def buf1_def True] rest by (simp add: buf_ok_def)
    with True show ?thesis
      unfolding chunk_loop.simps(2) Let_def flush_def [symmetric]
      unfolding out1_def [symmetric] buf1_def [symmetric] by simp
  next
    case False
    have "buf_ok (buf1 @ word) ws"
    proof (rule grow_buf [OF buf1 rest(3) _ 2(6)])
      show "length word \<le> 16" using False by (simp add: chunk_target_def)
      show "buf1 = [] \<or> length buf1 + length word \<le> 16 \<or> blank buf1"
        by (auto simp: buf1_def flush_def chunk_target_def)
    qed
    then have "list_all raw_ok (chunk_loop out1 (buf1 @ word) ws)"
      using 2(2) [OF flush_def out1_def buf1_def False] out1 rest by simp
    with False show ?thesis
      unfolding chunk_loop.simps(2) Let_def flush_def [symmetric]
      unfolding out1_def [symmetric] buf1_def [symmetric] by simp
  qed
qed

lemma tail_space_blank: "blank (tail_space x)"
proof -
  have "x = py_rstrip x @ rev (takeWhile is_space (rev x))"
    unfolding py_rstrip_def by (metis rev_append rev_rev_ident takeWhile_dropWhile_id)
  then have "tail_space x = rev (takeWhile is_space (rev x))"
    unfolding tail_space_def by (metis append_eq_conv_conj)
  then show ?thesis by (auto simp: blank_def list_all_iff dest: set_takeWhileD)
qed

lemma last_rstrip: "py_rstrip x \<noteq> [] \<Longrightarrow> \<not> is_space (last (py_rstrip x))"
  unfolding py_rstrip_def by (simp add: last_rev hd_dropWhile)

lemma move_separators_ne: "xs \<noteq> [] \<Longrightarrow> move_separators xs \<noteq> []"
  by (induction xs rule: move_separators.induct) auto

text \<open>A chunk with the separator it received; what the pass leaves behind it.\<close>

definition moved_ok :: "pystr \<Rightarrow> bool" where
  "moved_ok x \<longleftrightarrow> x \<noteq> [] \<and> length x \<le> 48"

definition settled :: "pystr \<Rightarrow> bool" where
  "settled x \<longleftrightarrow> blank x \<or> \<not> is_space (last x)"

lemma move_separators_bound:
  "list_all raw_ok ys \<Longrightarrow> raw_ok y \<Longrightarrow> blank sep \<Longrightarrow> length sep \<le> 16
     \<Longrightarrow> list_all moved_ok (move_separators ((sep @ y) # ys))
       \<and> length (hd (move_separators ((sep @ y) # ys))) \<le> length sep + 32
       \<and> list_all settled (butlast (move_separators ((sep @ y) # ys)))"
proof (induction ys arbitrary: y sep)
  case Nil
  then show ?case by (auto simp: raw_ok_def moved_ok_def)
next
  case (Cons z zs)
  define x where "x = sep @ y"
  have l: "x \<noteq> []" "length x \<le> length sep + 32" "length x \<le> 48"
    using Cons.prems by (auto simp: x_def raw_ok_def)
  have z: "raw_ok z" "list_all raw_ok zs" using Cons.prems by simp_all
  show ?case
  proof (cases "py_rstrip x = [] \<or> tail_space x = []")
    case True
    have "settled x"
    proof (cases "py_rstrip x = []")
      case False
      with True have "py_rstrip x = x" using rstrip_tail [of x] by simp
      with False last_rstrip [of x] show ?thesis by (simp add: settled_def)
    qed (simp add: settled_def rstrip_Nil_iff)
    with True l Cons.IH [OF z(2,1), of "[]"] move_separators_ne [of "z # zs"] show ?thesis
      unfolding x_def [symmetric] by (simp add: moved_ok_def blank_def)
  next
    case False
    then have "\<not> blank y" using Cons.prems(3) by (auto simp: x_def rstrip_Nil_iff blank_def)
    with Cons.prems(2) tail_space_prefix [of y sep] have t: "length (tail_space x) \<le> 16"
      by (simp add: x_def raw_ok_def)
    have "length (py_rstrip x) \<le> length x" by (rule py_rstrip_length)
    with False l Cons.IH [OF z(2,1) tail_space_blank t] last_rstrip [of x]
      move_separators_ne [of "(tail_space x @ z) # zs"]
    show ?thesis unfolding x_def [symmetric] by (simp add: moved_ok_def settled_def)
  qed
qed

lemma chunk_text_bound:
  "list_all moved_ok (chunk_text s) \<and> list_all settled (butlast (chunk_text s))
   \<and> (chunk_text s \<noteq> [] \<longrightarrow> length (hd (chunk_text s)) \<le> 32)"
proof (cases "length s \<le> chunk_target")
  case True
  then show ?thesis by (simp add: chunk_text_def moved_ok_def chunk_target_def)
next
  case False
  let ?r = "chunk_loop [] [] (ws_runs s)"
  have raw: "list_all raw_ok ?r"
    by (rule chunk_loop_raw) (simp_all add: buf_ok_def ws_runs_pure ws_runs_alternate)
  show ?thesis
  proof (cases ?r)
    case Nil
    with False show ?thesis by (simp add: chunk_text_def)
  next
    case (Cons y ys)
    with raw have "raw_ok y" "list_all raw_ok ys" by simp_all
    from move_separators_bound [OF this(2,1), of "[]"] False Cons show ?thesis
      by (simp add: chunk_text_def blank_def)
  qed
qed

lemma coalesce_bound:
  "list_all moved_ok cs \<Longrightarrow> length p \<le> 64 \<Longrightarrow> list_all (\<lambda>x. x \<noteq> [] \<and> length x \<le> 64) (coalesce cs p)"
  by (induction cs p rule: coalesce.induct)
     (auto simp: moved_ok_def fast_print_chunk_target_def not_less)

lemma concat_word_loop: "concat (word_loop caps i out buf ws) = concat out @ buf @ concat ws"
  by (induction caps i out buf ws rule: word_loop.induct) auto



end
