(* ===== verification/BurstReceipts.thy ===== *)
theory BurstReceipts
  imports BurstShape Chunking PikvmText
begin

text \<open>
  The receipts of \<open>executor/burst.py\<close>: what a typed text or a grid is reported as. A receipt is the
  dictionary the code builds. \<open>sha\<close> stands for the hexadecimal SHA-256 of the UTF-8 text.
\<close>

record watched_result =
  wt_verdict :: verdict
  wt_status :: verification_status
  wt_field_text :: pystr
  wt_used_fast_path :: bool
  wt_summary :: pystr
  wt_typed_characters :: int
  wt_intended_characters :: int
  wt_correction_count :: int
  wt_delivery_retries :: int
  wt_emitted_characters :: int
  wt_emitted_sha256 :: pystr
  wt_emitted_exactly_once :: bool
  wt_readback_frame_sha256 :: pystr

definition verdict_name :: "verdict \<Rightarrow> string" where
  "verdict_name v = (case v of Vd_match \<Rightarrow> ''match'' | Vd_contains \<Rightarrow> ''contains''
     | Vd_mismatch \<Rightarrow> ''mismatch'' | Vd_unverified \<Rightarrow> ''unverified'')"

definition hex64 :: "pystr \<Rightarrow> bool" where
  "hex64 s \<longleftrightarrow> length s = 64 \<and> list_all (\<lambda>c. in_range 48 57 c \<or> in_range 97 102 c) s"

definition dct :: "(string \<times> pyval) list \<Rightarrow> pydict" where
  "dct ps = map (\<lambda>(k, v). (u k, v)) ps"

definition pnat :: "nat \<Rightarrow> pyval" where
  "pnat n = PInt (int n)"

text \<open>\<open>s[:n]\<close>: a negative bound counts from the end.\<close>

definition slice_to :: "pystr \<Rightarrow> int \<Rightarrow> pystr" where
  "slice_to s n = (if n < 0 then take (nat (int (length s) + n)) s else take (nat n) s)"

definition typing_proof_state ::
    "pystr \<Rightarrow> pystr \<Rightarrow> pystr \<Rightarrow> pystr \<Rightarrow> int \<Rightarrow> bool \<Rightarrow> pystr \<Rightarrow> string" where
  "typing_proof_state status verdict intended observed issued hash_match frame =
     (if status = u ''verified_exact'' \<and> verdict = u ''match'' \<and> issued = int (length intended) \<and> hash_match
      then (if hex64 frame then ''exact_visual_readback'' else ''exact_ocr_readback'')
      else if status = u ''verified_safe_normalized'' \<and> verdict \<in> {u ''match'', u ''contains''}
      then ''normalized_readback''
      else if observed \<noteq> []
      then (if length observed < length intended \<and> py_startswith intended observed then ''partial_readback''
            else if verdict = u ''mismatch'' \<or> py_startswith status (u ''failed_'') then ''mismatched_readback''
            else ''ambiguous_readback'')
      else ''issued_only'')"

definition issued_of :: "pystr \<Rightarrow> int \<Rightarrow> int" where
  "issued_of delivery n = min (int (length delivery)) (max 0 n)"

definition exact_hash_match :: "(pystr \<Rightarrow> pystr) \<Rightarrow> pystr \<Rightarrow> watched_result \<Rightarrow> bool" where
  "exact_hash_match sha delivery r \<longleftrightarrow>
     issued_of delivery (wt_typed_characters r) = int (length delivery) \<and> sha delivery = sha (wt_field_text r)"

text \<open>The status after the digest check: a verified exact text whose digest differs is not verified.\<close>

definition receipt_status :: "(pystr \<Rightarrow> pystr) \<Rightarrow> pystr \<Rightarrow> watched_result \<Rightarrow> pystr" where
  "receipt_status sha delivery r =
     (if wt_status r = Verified_exact \<and> \<not> exact_hash_match sha delivery r
      then u ''unverified_exact_hash_mismatch'' else u (verification_status_name (wt_status r)))"

definition typing_receipt :: "(pystr \<Rightarrow> pystr) \<Rightarrow> pydict \<Rightarrow> watched_result \<Rightarrow> bool \<Rightarrow> pydict" where
  "typing_receipt sha a r precise =
     (let requested = action_text a;
          delivery = flatten_line_breaks requested;
          observed = wt_field_text r;
          verdict = u (verdict_name (wt_verdict r));
          ni = norm_text delivery precise;
          no = norm_text observed precise;
          issued = issued_of delivery (wt_typed_characters r);
          hash_match = exact_hash_match sha delivery r;
          status = receipt_status sha delivery r
      in dct ([(''type'', PStr (u ''type_text'')), (''status'', PStr status), (''verdict'', PStr verdict),
               (''observed_text'', PStr observed), (''observed_text_redacted'', PBool False),
               (''issued_characters'', PInt (wt_typed_characters r)),
               (''requested_characters'', pnat (length requested)),
               (''delivery_characters'', pnat (length delivery)),
               (''delivery_transformed'', PBool (delivery \<noteq> requested)),
               (''observed_characters'', pnat (length observed)),
               (''correction_count'', PInt (wt_correction_count r)),
               (''delivery_retries'', PInt (wt_delivery_retries r)),
               (''used_fast_path'', PBool (wt_used_fast_path r))]
          @ (if wt_summary r \<noteq> [] then [(''summary'', PStr (wt_summary r))] else [])
          @ [(''edit_distance'', PInt (levenshtein ni no (int (max (length ni) (length no))))),
             (''requested_sha256'', PStr (sha requested)), (''delivery_sha256'', PStr (sha delivery)),
             (''issued_prefix_sha256'', PStr (sha (slice_to delivery issued))),
             (''readback_sha256'', PStr (sha observed)),
             (''exact_readback_sha256_match'', PBool hash_match),
             (''emitted_characters'', PInt (max 0 (wt_emitted_characters r)))]
          @ (if hex64 (wt_emitted_sha256 r) then [(''emitted_sha256'', PStr (wt_emitted_sha256 r))] else [])
          @ [(''emitted_exactly_once'', PBool (wt_emitted_exactly_once r))]
          @ (if hex64 (wt_readback_frame_sha256 r)
             then [(''readback_frame_sha256'', PStr (wt_readback_frame_sha256 r))] else [])
          @ [(''proof_state'', PStr (u (typing_proof_state status verdict delivery observed issued hash_match
                                          (wt_readback_frame_sha256 r)))),
             (''focus_evidence'', PStr (u
                (if status = u ''failed_focus_lost'' then ''focus_lost''
                 else if py_startswith status (u ''verified_'') \<or> verdict \<in> {u ''match'', u ''contains''}
                 then ''read_back_verified''
                 else if py_startswith status (u ''unverified_'') then ''read_back_unverified''
                 else ''read_back_mismatch'')))]))"

definition unwatched_issued :: "pystr \<Rightarrow> int option \<Rightarrow> int" where
  "unwatched_issued delivery typed = (case typed of
       None \<Rightarrow> int (length delivery) | Some n \<Rightarrow> issued_of delivery n)"

definition unwatched_typing_receipt :: "(pystr \<Rightarrow> pystr) \<Rightarrow> pystr \<Rightarrow> bool \<Rightarrow> int option \<Rightarrow> pydict" where
  "unwatched_typing_receipt sha text secret typed =
     (let delivery = flatten_line_breaks text; issued = unwatched_issued delivery typed
      in dct ([(''type'', PStr (u ''type_text'')), (''status'', PStr (u ''delivered_unverified'')),
               (''verdict'', PStr (u ''unverified'')), (''observed_text_redacted'', PBool secret),
               (''issued_characters'', PInt issued), (''requested_characters'', pnat (length text)),
               (''delivery_characters'', pnat (length delivery)),
               (''delivery_transformed'', PBool (delivery \<noteq> text)),
               (''correction_count'', PInt 0), (''delivery_retries'', PInt 0), (''used_fast_path'', PBool False),
               (''focus_evidence'', PStr (u (if secret then ''read_back_not_retained'' else ''read_back_unavailable''))),
               (''proof_state'', PStr (u (if secret then ''not_retained'' else ''issued_only'')))]
          @ (if \<not> secret
             then [(''requested_sha256'', PStr (sha text)), (''delivery_sha256'', PStr (sha delivery)),
                   (''issued_prefix_sha256'', PStr (sha (slice_to delivery issued))),
                   (''exact_readback_sha256_match'', PBool False)]
             else [])))"

definition spreadsheet_grid_receipt :: "(pystr \<Rightarrow> pystr) \<Rightarrow> spreadsheet_grid \<Rightarrow> nat \<Rightarrow> pydict" where
  "spreadsheet_grid_receipt sha g issued =
     dct [(''type'', PStr (u ''spreadsheet_grid'')), (''status'', PStr (u ''delivered_unverified'')),
          (''verdict'', PStr (u ''unverified'')), (''proof_state'', PStr (u ''issued_only'')),
          (''focus_evidence'', PStr (u ''read_back_unavailable'')),
          (''requested_cells'', pnat (sg_cell_count g)), (''issued_cells'', pnat issued),
          (''requested_characters'', pnat (sg_character_count g)),
          (''issued_characters'', pnat (sg_issued_character_count g issued)),
          (''emitted_characters'', pnat (sg_issued_character_count g issued)),
          (''emitted_exactly_once'', PBool True),
          (''requested_sha256'', PStr (sha (sg_payload None g))),
          (''issued_prefix_sha256'', PStr (sha (sg_payload (Some issued) g))),
          (''emitted_sha256'', PStr (sha (sg_payload (Some issued) g)))]"

subsection \<open>What an exact receipt means\<close>

lemma get_dct: "get_none (dct ps) (u k) = (case map_of ps k of None \<Rightarrow> PNone | Some v \<Rightarrow> v)"
proof -
  have "map_of (dct ps) (u k) = map_of ps k" by (induction ps) (auto simp: dct_def)
  then show ?thesis by (simp add: get_none_def get_or_def)
qed

definition verified_names :: "pystr list" where
  "verified_names = map (u \<circ> verification_status_name) verified_statuses"

definition text_verified :: "(pystr \<Rightarrow> pystr) \<Rightarrow> pydict \<Rightarrow> watched_result \<Rightarrow> bool" where
  "text_verified sha a r \<longleftrightarrow> receipt_status sha (flatten_line_breaks (action_text a)) r \<in> set verified_names"

lemma receipt_get_status:
  "get_none (typing_receipt sha a r precise) (u ''status'')
     = PStr (receipt_status sha (flatten_line_breaks (action_text a)) r)"
  by (simp add: typing_receipt_def Let_def get_dct)

lemma receipt_get_proof:
  "get_none (typing_receipt sha a r precise) (u ''proof_state'')
     = PStr (u (typing_proof_state (receipt_status sha (flatten_line_breaks (action_text a)) r)
         (u (verdict_name (wt_verdict r))) (flatten_line_breaks (action_text a)) (wt_field_text r)
         (issued_of (flatten_line_breaks (action_text a)) (wt_typed_characters r))
         (exact_hash_match sha (flatten_line_breaks (action_text a)) r) (wt_readback_frame_sha256 r)))"
  by (simp add: typing_receipt_def Let_def get_dct)

lemma status_name_inj: "verification_status_name s = verification_status_name t \<longleftrightarrow> s = t"
  by (cases s; cases t) (simp_all add: verification_status_name_def)

lemma status_not_mismatch: "verification_status_name s \<noteq> ''unverified_exact_hash_mismatch''"
  by (cases s) (simp_all add: verification_status_name_def)

text \<open>
  An exact receipt is exact: unless the digests of the two texts collide, a receipt that says verified
  exactly, or claims an exact read-back as its proof, was issued for a text all of whose characters were
  sent and whose read-back equals, character for character, the text with its line breaks flattened; a
  looser match never carries either.
\<close>

theorem exact_receipt_is_exact:
  assumes "sha (flatten_line_breaks (action_text a)) = sha (wt_field_text r)
           \<Longrightarrow> flatten_line_breaks (action_text a) = wt_field_text r"
    and "get_none (typing_receipt sha a r precise) (u ''status'') = PStr (u ''verified_exact'')
         \<or> get_none (typing_receipt sha a r precise) (u ''proof_state'') = PStr (u ''exact_visual_readback'')
         \<or> get_none (typing_receipt sha a r precise) (u ''proof_state'') = PStr (u ''exact_ocr_readback'')"
  shows "wt_field_text r = flatten_line_breaks (action_text a)
    \<and> issued_of (wt_field_text r) (wt_typed_characters r) = int (length (wt_field_text r))
    \<and> wt_status r = Verified_exact"
proof -
  define d where "d = flatten_line_breaks (action_text a)"
  have st: "wt_status r = Verified_exact \<and> exact_hash_match sha d r" if "receipt_status sha d r = u ''verified_exact''"
    using that status_name_inj [of "wt_status r" Verified_exact]
    by (auto simp: receipt_status_def verification_status_name_def split: if_splits)
  have pf: "receipt_status sha d r = u ''verified_exact''"
    if "typing_proof_state (receipt_status sha d r) v d ob i (exact_hash_match sha d r) f
        \<in> {''exact_visual_readback'', ''exact_ocr_readback''}" for v ob i f
    using that by (auto simp: typing_proof_state_def split: if_splits)
  have "receipt_status sha d r = u ''verified_exact''"
    using assms(2) pf unfolding receipt_get_status receipt_get_proof d_def [symmetric] pyval.inject u_eq_iff
    by blast
  then have "wt_status r = Verified_exact" and h: "exact_hash_match sha d r" using st by blast+
  moreover from h have "issued_of d (wt_typed_characters r) = int (length d)" "d = wt_field_text r"
    using assms(1) by (auto simp: exact_hash_match_def d_def)
  ultimately show ?thesis unfolding d_def by simp
qed

definition example_result :: watched_result where
  "example_result = \<lparr>wt_verdict = Vd_match, wt_status = Verified_exact, wt_field_text = u ''ls -la'',
     wt_used_fast_path = False, wt_summary = [], wt_typed_characters = 6, wt_intended_characters = 6,
     wt_correction_count = 0, wt_delivery_retries = 0, wt_emitted_characters = 6, wt_emitted_sha256 = [],
     wt_emitted_exactly_once = True, wt_readback_frame_sha256 = []\<rparr>"

theorem exact_receipt_is_exact_witness:
  "flatten_line_breaks (u ''ls -la'') = u ''ls -la''"
proof -
  have "get_none (typing_receipt (\<lambda>x. x) (text_action ''ls -la'') example_result True) (u ''status'')
      = PStr (u ''verified_exact'')"
    by code_simp
  moreover have t: "action_text (text_action ''ls -la'') = u ''ls -la''" by code_simp
  ultimately show ?thesis
    using exact_receipt_is_exact [of "\<lambda>x. x" "text_action ''ls -la''" example_result True]
    unfolding t by (simp add: example_result_def)
qed

end
