(* ===== verification/BurstRun.thy ===== *)
theory BurstRun
  imports BurstReceipts
begin

text \<open>
  The engine of \<open>executor/burst.py\<close>: \<open>_dispatch\<close> and \<open>run_burst\<close>. A run is a trace of events: a poll of the
  stop gates with its answer, a call to the backend, and a watched typing with what the typist returned.
  The environment says, for each position of the trace, what the gates answer, whether a backend call
  raises, and what the typist returns (nothing when it raises). Pauses have no effect; a wait for the
  screen is one call, whose own polls and screenshots are not recorded.
\<close>

datatype stop_reason = Control_changed | Deadline

datatype backend_call =
    Bk_keypress "pystr list"
  | Bk_print_exact pystr
  | Bk_print pystr
  | Bk_type_text pyval bool bool
  | Bk_click int int pyval
  | Bk_double_click int int pyval
  | Bk_move int int
  | Bk_scroll int int
  | Bk_sleep int
  | Bk_wait_stable int int
  | Bk_wait_change int
  | Bk_screenshot
  | Bk_release_all

record typer_call =
  tc_text :: pyval
  tc_code :: bool
  tc_prose :: bool
  tc_exact :: bool
  tc_context :: pystr

text \<open>\<open>Ev_typed\<close> carries the action it types for, and whether the receipt counts as verified.\<close>

datatype burst_event =
    Ev_poll "stop_reason option"
  | Ev_call backend_call
  | Ev_typed typer_call bool

type_synonym burst_trace = "burst_event list"

record burst_env =
  bv_sha :: "pystr \<Rightarrow> pystr"
  bv_stop :: "nat \<Rightarrow> stop_reason option"
  bv_raises :: "nat \<Rightarrow> bool"
  bv_typer :: "nat \<Rightarrow> watched_result option"
  bv_has_typer :: bool
  bv_print_exact :: bool
  bv_print :: bool
  bv_double_click :: bool
  bv_release_all :: bool

datatype burst_raise =
    Br_exn burst_exn
  | Br_backend
  | Br_interrupted pydict "pydict option"
  | Br_unverified bool pydict

subsection \<open>The monad of a dispatch: the trace so far, and a value or an exception\<close>

type_synonym 'a burst_m = "burst_trace \<Rightarrow> (burst_raise, 'a) result \<times> burst_trace"

definition bm_return :: "'a \<Rightarrow> 'a burst_m" where
  "bm_return x tr = (Inr x, tr)"

definition bm_raise :: "burst_raise \<Rightarrow> 'a burst_m" where
  "bm_raise e tr = (Inl e, tr)"

definition bm_bind :: "'a burst_m \<Rightarrow> ('a \<Rightarrow> 'b burst_m) \<Rightarrow> 'b burst_m" where
  "bm_bind m f tr = (case m tr of (Inl e, tr') \<Rightarrow> (Inl e, tr') | (Inr x, tr') \<Rightarrow> f x tr')"

definition bm_lift :: "(burst_exn, 'a) result \<Rightarrow> 'a burst_m" where
  "bm_lift r tr = (case r of Inl e \<Rightarrow> (Inl (Br_exn e), tr) | Inr x \<Rightarrow> (Inr x, tr))"

definition bm_call :: "burst_env \<Rightarrow> backend_call \<Rightarrow> unit burst_m" where
  "bm_call E c tr = (if bv_raises E (length tr) then Inl Br_backend else Inr (), tr @ [Ev_call c])"

text \<open>A check of \<open>should_continue\<close> that raises when it fails.\<close>

definition bm_control :: "burst_env \<Rightarrow> burst_raise \<Rightarrow> unit burst_m" where
  "bm_control E e tr =
     (if bv_stop E (length tr) = None then Inr () else Inl e, tr @ [Ev_poll (bv_stop E (length tr))])"

subsection \<open>Typed text\<close>

definition interrupted_text :: "int \<Rightarrow> int \<Rightarrow> pydict" where
  "interrupted_text issued requested =
     dct [(''type'', PStr (u ''type_text'')), (''issued_characters'', PInt issued),
          (''requested_characters'', PInt requested)]"

definition arg_lower :: "pydict \<Rightarrow> string \<Rightarrow> pystr" where
  "arg_lower a k = py_lower (py_str (get_or a (u k) (PStr [])))"

definition raw_text :: "pydict \<Rightarrow> pyval" where
  "raw_text a = get_or a (u ''text'') (PStr [])"

definition is_code :: "pydict \<Rightarrow> bool" where "is_code a = py_truthy (get_none a (u ''code''))"
definition is_secret :: "pydict \<Rightarrow> bool" where "is_secret a = py_truthy (get_none a (u ''secret''))"

definition editor_prose :: "pydict \<Rightarrow> bool" where
  "editor_prose a \<longleftrightarrow> \<not> is_code a \<and> arg_lower a ''context'' = u ''editor'' \<and> is_editor_prose (action_text a)"

definition requested_verification :: "pydict \<Rightarrow> pystr" where
  "requested_verification a = py_lower (str_or_empty (get_none a (u ''verification'')))"

definition precise_text :: "pydict \<Rightarrow> bool" where
  "precise_text a \<longleftrightarrow>
     requested_verification a = u ''exact'' \<or> requested_verification a = [] \<or> is_code a
     \<or> arg_lower a ''context'' \<in> {u ''field'', u ''terminal''}
     \<or> is_exact_text (action_text a) \<and> \<not> editor_prose a"

definition print_call :: "burst_env \<Rightarrow> pystr \<Rightarrow> bool \<Rightarrow> backend_call" where
  "print_call E chunk code =
     (if bv_print_exact E then Bk_print_exact chunk
      else if bv_print E then Bk_print chunk else Bk_type_text (PStr chunk) code False)"

definition has_printer :: "burst_env \<Rightarrow> bool" where
  "has_printer E \<longleftrightarrow> bv_print_exact E \<or> bv_print E"

definition deferred_stop_receipt :: "burst_env \<Rightarrow> pydict \<Rightarrow> nat \<Rightarrow> pydict" where
  "deferred_stop_receipt E a emitted =
     dict_update (unwatched_typing_receipt (bv_sha E) (action_text a) False (Some (int emitted)))
       (dct [(''focus_evidence'', PStr (u ''read_back_deferred'')), (''emitted_characters'', pnat emitted),
             (''emitted_sha256'', PStr (bv_sha E (take emitted (flatten_line_breaks (action_text a))))),
             (''emitted_exactly_once'', PBool False)])"

fun deferred_chunks :: "burst_env \<Rightarrow> pydict \<Rightarrow> nat \<Rightarrow> pystr list \<Rightarrow> nat burst_m" where
  "deferred_chunks E a emitted [] = bm_return emitted"
| "deferred_chunks E a emitted (c # cs) =
     bm_bind (bm_control E (Br_interrupted
                (interrupted_text (int emitted) (int (length (flatten_line_breaks (action_text a)))))
                (Some (deferred_stop_receipt E a emitted))))
       (\<lambda>_. bm_bind (bm_call E (print_call E c (is_code a)))
         (\<lambda>_. deferred_chunks E a (emitted + length c) cs))"

definition type_deferred :: "burst_env \<Rightarrow> pydict \<Rightarrow> pydict burst_m" where
  "type_deferred E a =
     (let d = flatten_line_breaks (action_text a) in
      bm_bind (deferred_chunks E a 0 (chunk_text d)) (\<lambda>emitted. bm_return
        (dict_update (unwatched_typing_receipt (bv_sha E) (action_text a) False (Some (int emitted)))
          (dct [(''focus_evidence'', PStr (u ''read_back_deferred'')), (''emitted_characters'', pnat emitted),
                (''emitted_sha256'', PStr (bv_sha E d)), (''emitted_exactly_once'', PBool (emitted = length d)),
                (''used_fast_path'', PBool (has_printer E))]))))"

definition type_windows_run :: "burst_env \<Rightarrow> pydict \<Rightarrow> pydict burst_m" where
  "type_windows_run E a =
     (let d = flatten_line_breaks (action_text a) in
      bm_bind (bm_control E (Br_interrupted (interrupted_text 0 (int (length d)))
                 (Some (unwatched_typing_receipt (bv_sha E) (action_text a) False (Some 0)))))
       (\<lambda>_. bm_bind (bm_call E (print_call E d False)) (\<lambda>_. bm_return
         (dict_update (unwatched_typing_receipt (bv_sha E) (action_text a) False None)
           (dct [(''used_fast_path'', PBool (has_printer E)),
                 (''focus_evidence'', PStr (u ''atomic_windows_run_gesture'')),
                 (''emitted_characters'', pnat (length d)), (''emitted_sha256'', PStr (bv_sha E d)),
                 (''emitted_exactly_once'', PBool True),
                 (''verification_deferred_to'', PStr (u ''post_launch_visual_verifier''))])))))"

definition typer_args :: "pydict \<Rightarrow> typer_call" where
  "typer_args a = \<lparr>tc_text = raw_text a,
     tc_code = (is_code a \<or> is_exact_text (action_text a) \<and> \<not> editor_prose a),
     tc_prose = editor_prose a, tc_exact = precise_text a, tc_context = arg_lower a ''context''\<rparr>"

definition type_watched :: "burst_env \<Rightarrow> pydict \<Rightarrow> pydict burst_m" where
  "type_watched E a tr = (case bv_typer E (length tr) of
       None \<Rightarrow> (Inl Br_backend, tr @ [Ev_typed (typer_args a) False])
     | Some r \<Rightarrow>
         (let receipt = typing_receipt (bv_sha E) a r (precise_text a);
              status = receipt_status (bv_sha E) (flatten_line_breaks (action_text a)) r;
              tr' = tr @ [Ev_typed (typer_args a) (text_verified (bv_sha E) a r)]
          in if status = u ''blocked_by_policy''
             then (Inl (Br_interrupted
                     (interrupted_text (wt_typed_characters r)
                       (if wt_intended_characters r \<noteq> 0 then wt_intended_characters r
                        else int (length (action_text a)))) (Some receipt)), tr')
             else if status \<notin> set verified_names
             then (Inl (Br_unverified (py_startswith status (u ''unverified_'')) receipt), tr')
             else (Inr receipt, tr')))"

fun print_chunks :: "burst_env \<Rightarrow> pydict \<Rightarrow> nat \<Rightarrow> pystr list \<Rightarrow> unit burst_m" where
  "print_chunks E a typed [] = bm_return ()"
| "print_chunks E a typed (c # cs) =
     bm_bind (bm_control E (Br_interrupted (interrupted_text (int typed) (int (length (action_text a))))
                (Some (unwatched_typing_receipt (bv_sha E) (action_text a) (is_secret a) (Some (int typed))))))
       (\<lambda>_. bm_bind (bm_call E (Bk_print c)) (\<lambda>_. print_chunks E a (typed + length c) cs))"

definition unwatched_return :: "burst_env \<Rightarrow> pydict \<Rightarrow> pydict burst_m" where
  "unwatched_return E a = bm_return (unwatched_typing_receipt (bv_sha E) (action_text a) (is_secret a) None)"

definition dispatch_text :: "burst_env \<Rightarrow> bool \<Rightarrow> pydict \<Rightarrow> pydict burst_m" where
  "dispatch_text E windows_run a =
     (if requested_verification a = u ''deferred_exact'' then type_deferred E a
      else if windows_run then type_windows_run E a
      else if bv_has_typer E \<and> \<not> is_secret a then type_watched E a
      else if arg_lower a ''method'' \<in> {u ''print'', u ''hid_print'', u ''pikvm_hid_print''} \<and> bv_print E
      then bm_bind (print_chunks E a 0 (chunk_text (flatten_line_breaks (action_text a))))
             (\<lambda>_. unwatched_return E a)
      else bm_bind (bm_call E (Bk_type_text (raw_text a) (is_code a) (is_secret a)))
             (\<lambda>_. unwatched_return E a))"

subsection \<open>Grids\<close>

definition grid_control :: "burst_env \<Rightarrow> spreadsheet_grid \<Rightarrow> nat \<Rightarrow> unit burst_m" where
  "grid_control E g issued = bm_control E (Br_interrupted
     (dct [(''type'', PStr (u ''spreadsheet_grid'')), (''issued_cells'', pnat issued),
           (''requested_cells'', pnat (sg_cell_count g))])
     (Some (spreadsheet_grid_receipt (bv_sha E) g issued)))"

definition grid_key :: "burst_env \<Rightarrow> spreadsheet_grid \<Rightarrow> nat \<Rightarrow> string \<Rightarrow> unit burst_m" where
  "grid_key E g issued k =
     bm_bind (grid_control E g issued) (\<lambda>_.
     bm_bind (bm_lift (normalize_keys [PStr (u k)])) (\<lambda>ks. bm_call E (Bk_keypress ks)))"

fun grid_cells :: "burst_env \<Rightarrow> spreadsheet_grid \<Rightarrow> nat \<Rightarrow> pystr list \<Rightarrow> nat burst_m" where
  "grid_cells E g issued [] = bm_return issued"
| "grid_cells E g issued (value # rest) =
     bm_bind (grid_control E g issued) (\<lambda>_.
     bm_bind (bm_call E (Bk_type_text (PStr value) True False)) (\<lambda>_.
     bm_bind (if rest \<noteq> [] then grid_key E g (Suc issued) ''TAB'' else bm_return ()) (\<lambda>_.
     grid_cells E g (Suc issued) rest)))"

fun grid_rows :: "burst_env \<Rightarrow> spreadsheet_grid \<Rightarrow> nat \<Rightarrow> pystr list list \<Rightarrow> nat burst_m" where
  "grid_rows E g issued [] = bm_return issued"
| "grid_rows E g issued (row # rest) =
     bm_bind (grid_cells E g issued row) (\<lambda>issued'.
     bm_bind (grid_key E g issued' ''ENTER'') (\<lambda>_.
     bm_bind (if rest \<noteq> [] then grid_key E g issued' ''HOME'' else bm_return ()) (\<lambda>_.
     grid_rows E g issued' rest)))"

definition dispatch_grid :: "burst_env \<Rightarrow> burst_limits \<Rightarrow> pydict \<Rightarrow> pydict burst_m" where
  "dispatch_grid E lms a = (case grid_of a (bl_type_text lms) of
       Inl _ \<Rightarrow> bm_raise (Br_exn Value_Error)
     | Inr g \<Rightarrow> bm_bind (grid_rows E g 0 (sg_rows g))
         (\<lambda>issued. bm_return (spreadsheet_grid_receipt (bv_sha E) g issued)))"

subsection \<open>Dispatch\<close>

definition required_int :: "pydict \<Rightarrow> string \<Rightarrow> (burst_exn, int) result" where
  "required_int a k = (case map_of a (u k) of None \<Rightarrow> Inl Key_Error | Some v \<Rightarrow> py_int_of v)"

definition optional_int :: "pydict \<Rightarrow> string \<Rightarrow> int \<Rightarrow> (burst_exn, int) result" where
  "optional_int a k dflt = py_int_of (get_or a (u k) (PInt dflt))"

definition scroll_unit :: "pyval \<Rightarrow> int \<times> int" where
  "scroll_unit v =
     (if v = PStr (u ''up'') then (0, 1) else if v = PStr (u ''down'') then (0, -1)
      else if v = PStr (u ''right'') then (1, 0) else if v = PStr (u ''left'') then (-1, 0) else (0, -1))"

definition no_receipt :: "unit burst_m \<Rightarrow> pydict option burst_m" where
  "no_receipt m = bm_bind m (\<lambda>_. bm_return None)"

definition some_receipt :: "pydict burst_m \<Rightarrow> pydict option burst_m" where
  "some_receipt m = bm_bind m (\<lambda>r. bm_return (Some r))"

definition dispatch_action :: "burst_env \<Rightarrow> burst_limits \<Rightarrow> bool \<Rightarrow> pydict \<Rightarrow> pydict option burst_m" where
  "dispatch_action E lms windows_run a =
     (if action_is a ''key''
      then no_receipt (bm_bind (bm_lift (normalize_keys (the_PList (keys_arg a)))) (\<lambda>ks.
             if ks = [] then bm_raise (Br_exn Burst_Error) else bm_call E (Bk_keypress ks)))
      else if action_is a ''type_text'' then some_receipt (dispatch_text E windows_run a)
      else if action_is a ''spreadsheet_grid'' then some_receipt (dispatch_grid E lms a)
      else if action_is a ''click'' \<or> action_is a ''double_click''
      then no_receipt (bm_bind (bm_lift (required_int a ''x'')) (\<lambda>x.
             bm_bind (bm_lift (required_int a ''y'')) (\<lambda>y.
               bm_call E ((if action_is a ''double_click'' \<and> bv_double_click E then Bk_double_click else Bk_click)
                            x y (get_or a (u ''button'') (PStr (u ''left'')))))))
      else if action_is a ''move''
      then no_receipt (bm_bind (bm_lift (required_int a ''x'')) (\<lambda>x.
             bm_bind (bm_lift (required_int a ''y'')) (\<lambda>y. bm_call E (Bk_move x y))))
      else if action_is a ''scroll''
      then no_receipt (if unhashable (get_or a (u ''direction'') (PStr (u ''down''))) then bm_raise (Br_exn Type_Error)
             else bm_bind (bm_lift (optional_int a ''amount'' 3)) (\<lambda>n.
               let (ux, uy) = scroll_unit (get_or a (u ''direction'') (PStr (u ''down''))); amount = max 1 n
               in bm_call E (Bk_scroll (ux * amount) (uy * amount))))
      else if action_is a ''wait''
      then no_receipt (bm_bind (bm_lift (optional_int a ''ms'' 0)) (\<lambda>n. bm_call E (Bk_sleep (max 0 n))))
      else if action_is a ''wait_for_stable_screen''
      then no_receipt (bm_bind (bm_lift (optional_int a ''stable_ms'' 300)) (\<lambda>s.
             bm_bind (bm_lift (optional_int a ''timeout_ms'' default_stable_timeout_ms)) (\<lambda>t.
               bm_call E (Bk_wait_stable s t))))
      else if action_is a ''wait_for_change''
      then no_receipt (bm_bind (bm_lift (optional_int a ''timeout_ms'' default_change_timeout_ms)) (\<lambda>t.
             bm_call E (Bk_wait_change t)))
      else bm_raise (Br_exn Burst_Error))"

subsection \<open>The run\<close>

datatype burst_status = Bs_completed | Bs_interrupted | Bs_failed | Bs_unverified

datatype stop_cause = Sc_none | Sc_stop stop_reason | Sc_type_unverified | Sc_action_error

text \<open>The texts of the errors are left out.\<close>

record burst_outcome =
  bo_status :: burst_status
  bo_completed :: nat
  bo_total :: nat
  bo_reason :: stop_cause
  bo_executed :: "pystr list"
  bo_partial_action :: "pydict option"
  bo_action_receipts :: "(nat \<times> pydict) list"

definition bo_remaining :: "burst_outcome \<Rightarrow> int" where
  "bo_remaining b = int (bo_total b) - int (bo_completed b)"

text \<open>What the loop carries: the actions run, the receipts, and whether a text is unverified.\<close>

record burst_loop =
  lp_executed :: "pystr list"
  lp_receipts :: "(nat \<times> pydict) list"
  lp_unverified :: bool

definition stop_outcome :: "burst_loop \<Rightarrow> nat \<Rightarrow> nat \<Rightarrow> burst_status \<Rightarrow> stop_cause \<Rightarrow> pydict option \<Rightarrow> burst_outcome" where
  "stop_outcome L i tot status reason partial =
     \<lparr>bo_status = status, bo_completed = i, bo_total = tot, bo_reason = reason,
      bo_executed = lp_executed L, bo_partial_action = partial, bo_action_receipts = lp_receipts L\<rparr>"

definition release_quietly :: "burst_env \<Rightarrow> burst_trace \<Rightarrow> burst_trace" where
  "release_quietly E tr = (if bv_release_all E then tr @ [Ev_call Bk_release_all] else tr)"

definition add_receipt :: "nat \<Rightarrow> pydict option \<Rightarrow> burst_loop \<Rightarrow> burst_loop" where
  "add_receipt i r L = (case r of None \<Rightarrow> L | Some d \<Rightarrow> L\<lparr>lp_receipts := lp_receipts L @ [(i, d)]\<rparr>)"

definition capture_baseline :: "pydict \<Rightarrow> pydict list \<Rightarrow> burst_trace \<Rightarrow> burst_trace" where
  "capture_baseline a rest tr =
     (if rest \<noteq> [] \<and> \<not> is_passive a \<and> action_is (hd rest) ''wait_for_change''
      then tr @ [Ev_call Bk_screenshot] else tr)"

definition action_kind :: "pydict \<Rightarrow> pystr" where
  "action_kind a = py_str (action_type a)"

fun burst_loop_run ::
  "burst_env \<Rightarrow> burst_limits \<Rightarrow> int \<Rightarrow> nat \<Rightarrow> nat \<Rightarrow> pydict list \<Rightarrow> burst_loop \<Rightarrow> burst_trace
     \<Rightarrow> (burst_exn, burst_outcome) result \<times> burst_trace" where
  "burst_loop_run E lms safe_index tot i [] L tr =
     (Inr (stop_outcome L tot tot (if lp_unverified L then Bs_unverified else Bs_completed)
        (if lp_unverified L then Sc_type_unverified else Sc_none) None), tr)"
| "burst_loop_run E lms safe_index tot i (a # rest) L tr =
     (let tr1 = tr @ [Ev_poll (bv_stop E (length tr))] in
      case bv_stop E (length tr) of
        Some why \<Rightarrow> (Inr (stop_outcome L i tot Bs_interrupted (Sc_stop why) None), release_quietly E tr1)
      | None \<Rightarrow>
        (case dispatch_action E lms (int i = safe_index) a (capture_baseline a rest tr1) of
           (Inr receipt, tr2) \<Rightarrow>
             burst_loop_run E lms safe_index tot (Suc i) rest
               (add_receipt i receipt (L\<lparr>lp_executed := lp_executed L @ [action_kind a]\<rparr>)) tr2
         | (Inl (Br_exn Burst_Error), tr2) \<Rightarrow> (Inl Burst_Error, tr2)
         | (Inl (Br_interrupted partial receipt), tr2) \<Rightarrow>
             (let L' = add_receipt i receipt L;
                  tr3 = release_quietly E tr2;
                  why = (case bv_stop E (length tr3) of Some w \<Rightarrow> w | None \<Rightarrow> Control_changed)
              in (Inr (stop_outcome L' i tot Bs_interrupted (Sc_stop why) (Some partial)),
                  tr3 @ [Ev_poll (bv_stop E (length tr3))]))
         | (Inl (Br_unverified ambiguous receipt), tr2) \<Rightarrow>
             (let L' = add_receipt i (Some receipt) L in
              if ambiguous \<and> list_all is_passive rest
              then burst_loop_run E lms safe_index tot (Suc i) rest
                     (L'\<lparr>lp_executed := lp_executed L' @ [action_kind a], lp_unverified := True\<rparr>) tr2
              else (Inr (stop_outcome L' i tot Bs_failed Sc_type_unverified None), tr2))
         | (Inl _, tr2) \<Rightarrow> (Inr (stop_outcome L i tot Bs_failed Sc_action_error None), tr2)))"

definition first_text_index :: "pydict list \<Rightarrow> int" where
  "first_text_index actions =
     (let skipped = takeWhile (\<lambda>a. \<not> action_is a ''type_text'') actions
      in if length skipped < length actions then int (length skipped) else -1)"

definition run_burst :: "burst_env \<Rightarrow> burst_limits \<Rightarrow> pydict list \<Rightarrow> (burst_exn, burst_outcome) result \<times> burst_trace" where
  "run_burst E lms actions = (case validate_actions lms actions of
       Inl e \<Rightarrow> (Inl e, [])
     | Inr _ \<Rightarrow>
         burst_loop_run E lms (if is_verified_windows_run_launch actions then first_text_index actions else -1)
           (length actions) 0 actions \<lparr>lp_executed = [], lp_receipts = [], lp_unverified = False\<rparr> [])"

subsection \<open>Halting and quiet events\<close>

text \<open>
  An event is halting when a gate said stop or a watched text was not verified, and quiet when it sends
  nothing to the guest but the release of held keys.
\<close>

definition halting :: "burst_event \<Rightarrow> bool" where
  "halting e \<longleftrightarrow> (case e of Ev_poll p \<Rightarrow> p \<noteq> None | Ev_typed _ ok \<Rightarrow> \<not> ok | Ev_call _ \<Rightarrow> False)"

definition quiet_call :: "backend_call \<Rightarrow> bool" where
  "quiet_call c \<longleftrightarrow> (case c of Bk_sleep _ \<Rightarrow> True | Bk_wait_stable _ _ \<Rightarrow> True | Bk_wait_change _ \<Rightarrow> True
     | Bk_screenshot \<Rightarrow> True | Bk_release_all \<Rightarrow> True | _ \<Rightarrow> False)"

definition quiet :: "burst_event \<Rightarrow> bool" where
  "quiet e \<longleftrightarrow> (case e of Ev_poll _ \<Rightarrow> True | Ev_typed _ _ \<Rightarrow> False | Ev_call c \<Rightarrow> quiet_call c)"

abbreviation calm :: "burst_trace \<Rightarrow> bool" where
  "calm seg \<equiv> list_all (\<lambda>e. \<not> halting e) seg"

text \<open>A computation is tidy when only the last event it adds can be halting, and then it raises.\<close>

definition tidy :: "'a burst_m \<Rightarrow> bool" where
  "tidy m \<longleftrightarrow> (\<forall>tr. \<exists>seg. snd (m tr) = tr @ seg \<and> calm (butlast seg) \<and> (is_ok (fst (m tr)) \<longrightarrow> calm seg))"

lemma tidyI:
  "(\<And>tr. \<exists>seg. snd (m tr) = tr @ seg \<and> calm (butlast seg) \<and> (is_ok (fst (m tr)) \<longrightarrow> calm seg)) \<Longrightarrow> tidy m"
  by (simp add: tidy_def)

named_theorems tidy_intros \<open>tidy computations\<close>

lemma tidy_return [tidy_intros]: "tidy (bm_return x)"
  by (simp add: tidy_def bm_return_def)

lemma tidy_raise [tidy_intros]: "tidy (bm_raise e)"
  by (simp add: tidy_def bm_raise_def)

lemma tidy_lift [tidy_intros]: "tidy (bm_lift r)"
  by (cases r) (simp_all add: tidy_def bm_lift_def)

lemma tidy_call [tidy_intros]: "tidy (bm_call E c)"
  by (simp add: tidy_def bm_call_def halting_def)

lemma tidy_control [tidy_intros]: "tidy (bm_control E e)"
  by (simp add: tidy_def bm_control_def halting_def)

lemma tidy_bind [tidy_intros]:
  assumes "tidy m" "\<And>x. tidy (f x)"
  shows "tidy (bm_bind m f)"
proof (rule tidyI)
  fix tr
  obtain r tr1 where m: "m tr = (r, tr1)" by fastforce
  from assms(1) m obtain s1 where s1: "tr1 = tr @ s1" "calm (butlast s1)" "is_ok r \<longrightarrow> calm s1"
    unfolding tidy_def by (metis fst_conv snd_conv)
  show "\<exists>seg. snd (bm_bind m f tr) = tr @ seg \<and> calm (butlast seg) \<and> (is_ok (fst (bm_bind m f tr)) \<longrightarrow> calm seg)"
  proof (cases r)
    case (Inl e)
    with m s1 show ?thesis by (simp add: bm_bind_def)
  next
    case (Inr x)
    obtain r2 tr2 where f: "f x tr1 = (r2, tr2)" by fastforce
    from assms(2) [of x] f obtain s2 where s2: "tr2 = tr1 @ s2" "calm (butlast s2)" "is_ok r2 \<longrightarrow> calm s2"
      unfolding tidy_def by (metis fst_conv snd_conv)
    have "calm (butlast (s1 @ s2))"
      using s1 s2 Inr by (cases "s2 = []") (simp_all add: butlast_append)
    with m f s1 s2 Inr show ?thesis by (intro exI [of _ "s1 @ s2"]) (simp add: bm_bind_def)
  qed
qed

lemma tidy_if [tidy_intros]: "tidy m \<Longrightarrow> tidy n \<Longrightarrow> tidy (if c then m else n)"
  by simp

lemma tidy_watched [tidy_intros]: "tidy (type_watched E a)"
proof (rule tidyI)
  fix tr
  show "\<exists>seg. snd (type_watched E a tr) = tr @ seg \<and> calm (butlast seg)
      \<and> (is_ok (fst (type_watched E a tr)) \<longrightarrow> calm seg)"
  proof (cases "bv_typer E (length tr)")
    case None
    then show ?thesis by (simp add: type_watched_def)
  next
    case (Some r)
    then show ?thesis
      by (simp add: type_watched_def Let_def halting_def text_verified_def)
  qed
qed

lemma tidy_deferred_chunks [tidy_intros]: "tidy (deferred_chunks E a n cs)"
  by (induction E a n cs rule: deferred_chunks.induct) (simp_all add: tidy_intros)

lemma tidy_print_chunks [tidy_intros]: "tidy (print_chunks E a n cs)"
  by (induction E a n cs rule: print_chunks.induct) (simp_all add: tidy_intros)

lemma tidy_text [tidy_intros]: "tidy (dispatch_text E w a)"
  unfolding dispatch_text_def type_deferred_def type_windows_run_def unwatched_return_def Let_def
  by (intro tidy_intros)

lemma tidy_grid_key [tidy_intros]: "tidy (grid_key E g n k)"
  unfolding grid_key_def grid_control_def by (intro tidy_intros)

lemma tidy_grid_cells [tidy_intros]: "tidy (grid_cells E g n row)"
  by (induction E g n row rule: grid_cells.induct) (simp_all add: tidy_intros grid_control_def)

lemma tidy_grid_rows [tidy_intros]: "tidy (grid_rows E g n rs)"
  by (induction E g n rs rule: grid_rows.induct) (simp_all add: tidy_intros)

lemma tidy_grid [tidy_intros]: "tidy (dispatch_grid E lms a)"
  unfolding dispatch_grid_def by (cases "grid_of a (bl_type_text lms)") (simp_all add: tidy_intros)

lemma tidy_dispatch: "tidy (dispatch_action E lms w a)"
  unfolding dispatch_action_def no_receipt_def some_receipt_def Let_def case_prod_beta by (intro tidy_intros)

text \<open>A passive action adds only quiet events.\<close>

definition hushed :: "'a burst_m \<Rightarrow> bool" where
  "hushed m \<longleftrightarrow> (\<forall>tr. \<exists>seg. snd (m tr) = tr @ seg \<and> list_all quiet seg)"

named_theorems hushed_intros \<open>computations that add only quiet events\<close>

lemma hushed_return [hushed_intros]: "hushed (bm_return x)"
  by (simp add: hushed_def bm_return_def)

lemma hushed_lift [hushed_intros]: "hushed (bm_lift r)"
  by (cases r) (simp_all add: hushed_def bm_lift_def)

lemma hushed_call [hushed_intros]: "quiet_call c \<Longrightarrow> hushed (bm_call E c)"
  by (simp add: hushed_def bm_call_def quiet_def)

lemma hushed_bind [hushed_intros]:
  assumes "hushed m" "\<And>x. hushed (f x)"
  shows "hushed (bm_bind m f)"
  unfolding hushed_def
proof
  fix tr
  obtain r tr1 where m: "m tr = (r, tr1)" by fastforce
  from assms(1) m obtain s1 where s1: "tr1 = tr @ s1" "list_all quiet s1"
    unfolding hushed_def by (metis snd_conv)
  show "\<exists>seg. snd (bm_bind m f tr) = tr @ seg \<and> list_all quiet seg"
  proof (cases r)
    case (Inl e)
    with m s1 show ?thesis by (simp add: bm_bind_def)
  next
    case (Inr x)
    from assms(2) [of x] obtain s2 where "snd (f x tr1) = tr1 @ s2" "list_all quiet s2"
      unfolding hushed_def by blast
    with m s1 Inr show ?thesis by (intro exI [of _ "s1 @ s2"]) (simp add: bm_bind_def)
  qed
qed

lemma hushed_passive:
  assumes "is_passive a"
  shows "hushed (dispatch_action E lms w a)"
proof -
  from assms consider "action_is a ''wait''" | "action_is a ''wait_for_change''" | "action_is a ''wait_for_stable_screen''"
    by (auto simp: is_passive_def str_in_def passive_action_types_def action_is_def split: pyval.splits)
  then show ?thesis
    by cases (simp add: dispatch_action_def action_is_def no_receipt_def;
      intro hushed_intros; simp add: quiet_call_def)+
qed

lemma release_quiet: "\<exists>seg. release_quietly E tr = tr @ seg \<and> list_all quiet seg"
  by (simp add: release_quietly_def quiet_def quiet_call_def)

lemma capture_calm: "\<exists>seg. capture_baseline a rest tr = tr @ seg \<and> calm seg"
  by (simp add: capture_baseline_def halting_def)

lemma capture_passive: "is_passive a \<Longrightarrow> capture_baseline a rest tr = tr"
  by (simp add: capture_baseline_def)

lemma quiet_poll [simp]: "quiet (Ev_poll r)"
  by (simp add: quiet_def)

text \<open>One step of the loop: how it ends, or what it hands to the rest.\<close>

lemma loop_step_cases:
  assumes "burst_loop_run E lms si tot i (a # rest) L tr = (res, tr')"
  obtains (stopped) why where "bv_stop E (length tr) = Some why"
      "res = Inr (stop_outcome L i tot Bs_interrupted (Sc_stop why) None)"
      "tr' = release_quietly E (tr @ [Ev_poll (Some why)])"
  | (done_one) receipt tr2 where "bv_stop E (length tr) = None"
      "dispatch_action E lms (int i = si) a (capture_baseline a rest (tr @ [Ev_poll None])) = (Inr receipt, tr2)"
      "burst_loop_run E lms si tot (Suc i) rest
         (add_receipt i receipt (L\<lparr>lp_executed := lp_executed L @ [action_kind a]\<rparr>)) tr2 = (res, tr')"
  | (ended) e tr2 seg where "bv_stop E (length tr) = None"
      "dispatch_action E lms (int i = si) a (capture_baseline a rest (tr @ [Ev_poll None])) = (Inl e, tr2)"
      "tr' = tr2 @ seg" "list_all quiet seg"
      "\<And>o1. res = Inr o1 \<Longrightarrow> bo_executed o1 = lp_executed L \<and> bo_completed o1 = i \<and> bo_total o1 = tot
         \<and> bo_status o1 \<in> {Bs_interrupted, Bs_failed}"
  | (ambiguous) receipt tr2 where "bv_stop E (length tr) = None"
      "dispatch_action E lms (int i = si) a (capture_baseline a rest (tr @ [Ev_poll None]))
         = (Inl (Br_unverified True receipt), tr2)" "list_all is_passive rest"
      "burst_loop_run E lms si tot (Suc i) rest
         ((add_receipt i (Some receipt) L)\<lparr>lp_executed := lp_executed (add_receipt i (Some receipt) L) @ [action_kind a],
            lp_unverified := True\<rparr>) tr2 = (res, tr')"
proof (cases "bv_stop E (length tr)")
  case (Some why)
  with assms show ?thesis by (intro stopped) (auto simp: Let_def)
next
  case None
  obtain r tr2 where d: "dispatch_action E lms (int i = si) a (capture_baseline a rest (tr @ [Ev_poll None])) = (r, tr2)"
    by fastforce
  show ?thesis
  proof (cases r)
    case (Inr receipt)
    with assms None d show ?thesis by (intro done_one [of receipt tr2]) (simp_all add: Let_def)
  next
    case (Inl e)
    show ?thesis
    proof (cases e)
      case (Br_exn x)
      with assms None d Inl show ?thesis
        by (intro ended [of e tr2 "[]"]) (cases x; auto simp: Let_def stop_outcome_def)+
    next
      case Br_backend
      with assms None d Inl show ?thesis
        by (intro ended [of e tr2 "[]"]) (auto simp: Let_def stop_outcome_def)
    next
      case (Br_interrupted partial receipt)
      obtain seg where seg: "release_quietly E tr2 = tr2 @ seg" "list_all quiet seg" using release_quiet by blast
      with assms None d Inl Br_interrupted show ?thesis
        by (intro ended [of e tr2 "seg @ [Ev_poll (bv_stop E (length (tr2 @ seg)))]"])
           (auto simp: Let_def stop_outcome_def add_receipt_def split: option.splits)
    next
      case (Br_unverified ambig receipt)
      show ?thesis
      proof (cases "ambig \<and> list_all is_passive rest")
        case True
        with assms None d Inl Br_unverified show ?thesis
          by (intro ambiguous [of receipt tr2]) (simp_all add: Let_def)
      next
        case False
        with assms None d Inl Br_unverified show ?thesis
          by (intro ended [of e tr2 "[]"]) (auto simp: Let_def stop_outcome_def add_receipt_def)
      qed
    qed
  qed
qed

lemma passive_run_quiet:
  "list_all is_passive rest \<Longrightarrow> burst_loop_run E lms si tot i rest L tr = (res, tr')
     \<Longrightarrow> \<exists>seg. tr' = tr @ seg \<and> list_all quiet seg"
proof (induction rest arbitrary: i L tr)
  case Nil
  then show ?case by simp
next
  case (Cons a rest)
  then have p: "is_passive a" "list_all is_passive rest" by simp_all
  have h: "\<exists>seg. tr2 = tr @ seg \<and> list_all quiet seg"
    if "dispatch_action E lms (int i = si) a (capture_baseline a rest (tr @ [Ev_poll None])) = (r, tr2)" for r tr2
  proof -
    from hushed_passive [OF p(1), of E lms "int i = si"] that obtain seg where
      "tr2 = (tr @ [Ev_poll None]) @ seg" "list_all quiet seg"
      unfolding hushed_def capture_passive [OF p(1)] by (metis snd_conv)
    then show ?thesis by (intro exI [of _ "Ev_poll None # seg"]) simp
  qed
  from Cons.prems(2) show ?case
  proof (cases rule: loop_step_cases)
    case (stopped why)
    with release_quiet [of E "tr @ [Ev_poll (Some why)]"] show ?thesis by fastforce
  next
    case (done_one receipt tr2)
    with h Cons.IH [OF p(2) done_one(3)] show ?thesis by fastforce
  next
    case (ended e tr2 seg)
    with h [OF ended(2)] show ?thesis by fastforce
  next
    case (ambiguous receipt tr2)
    with h Cons.IH [OF p(2) ambiguous(4)] show ?thesis by fastforce
  qed
qed

definition sealed :: "burst_trace \<Rightarrow> bool" where
  "sealed tr \<longleftrightarrow> (\<exists>pre post. tr = pre @ post \<and> calm (butlast pre) \<and> list_all quiet post)"

lemma sealed_append_quiet: "calm (butlast tr) \<Longrightarrow> list_all quiet seg \<Longrightarrow> sealed (tr @ seg)"
  unfolding sealed_def by blast

lemma sealed_after:
  assumes "sealed tr" "tr = pre @ e # post" "halting e"
  shows "list_all quiet post"
proof -
  from assms(1) obtain p q where pq: "tr = p @ q" "calm (butlast p)" "list_all quiet q"
    by (auto simp: sealed_def)
  from pq(1) assms(2) have eq: "p @ q = pre @ e # post" by simp
  have "length p \<le> Suc (length pre)"
  proof (rule ccontr)
    assume "\<not> ?thesis"
    then have l: "length pre < length p - 1" by simp
    then have "length pre < length p" by simp
    with l have "butlast p ! length pre = (p @ q) ! length pre" by (simp add: nth_butlast nth_append)
    then have "butlast p ! length pre = e" unfolding eq by simp
    moreover have "butlast p ! length pre \<in> set (butlast p)" using l by simp
    ultimately show False using pq(2) assms(3) by (auto simp: list_all_iff)
  qed
  then obtain k where "post = drop k q"
  proof -
    have "drop (Suc (length pre)) (p @ q) = post" by (simp add: eq)
    with that [of "Suc (length pre) - length p"] \<open>length p \<le> Suc (length pre)\<close> show thesis by simp
  qed
  with pq(3) show ?thesis by (auto simp: list_all_iff dest: in_set_dropD)
qed

lemma dispatch_calm:
  assumes "dispatch_action E lms w a tr = (r, tr2)" "calm tr"
  shows "calm (butlast tr2)" "is_ok r \<Longrightarrow> calm tr2"
proof -
  from tidy_dispatch [of E lms w a] assms(1) obtain seg where
    "tr2 = tr @ seg" "calm (butlast seg)" "is_ok r \<longrightarrow> calm seg"
    unfolding tidy_def by (metis fst_conv snd_conv)
  with assms(2) show "calm (butlast tr2)" "is_ok r \<Longrightarrow> calm tr2"
    by (auto simp: butlast_append list_all_iff dest: in_set_butlastD)
qed

lemma poll_capture_calm: "calm tr \<Longrightarrow> calm (capture_baseline a rest (tr @ [Ev_poll None]))"
  using capture_calm [of a rest "tr @ [Ev_poll None]"] by (auto simp: halting_def)

lemma loop_sealed:
  "calm tr \<Longrightarrow> burst_loop_run E lms si tot i rest L tr = (res, tr') \<Longrightarrow> sealed tr'"
proof (induction rest arbitrary: i L tr)
  case Nil
  then have "calm (butlast tr')" by (auto simp: list_all_iff dest: in_set_butlastD)
  then show ?case using sealed_append_quiet [of tr' "[]"] by simp
next
  case (Cons a rest)
  note c = poll_capture_calm [OF Cons.prems(1), of a rest]
  from Cons.prems(2) show ?case
  proof (cases rule: loop_step_cases)
    case (stopped why)
    obtain seg where "release_quietly E (tr @ [Ev_poll (Some why)]) = (tr @ [Ev_poll (Some why)]) @ seg" "list_all quiet seg"
      using release_quiet by blast
    with stopped Cons.prems(1) show ?thesis
      using sealed_append_quiet [of "tr @ [Ev_poll (Some why)]" seg] by simp
  next
    case (done_one receipt tr2)
    from dispatch_calm(2) [OF done_one(2) c] Cons.IH done_one(3) show ?thesis by simp
  next
    case (ended e tr2 seg)
    from dispatch_calm(1) [OF ended(2) c] ended show ?thesis by (simp add: sealed_append_quiet)
  next
    case (ambiguous receipt tr2)
    from passive_run_quiet [OF ambiguous(3,4)] dispatch_calm(1) [OF ambiguous(2) c] show ?thesis
      by (auto intro: sealed_append_quiet)
  qed
qed

lemma run_sealed: "sealed (snd (run_burst E lms actions))"
proof (cases "validate_actions lms actions")
  case (Inl x)
  then show ?thesis by (simp add: run_burst_def sealed_def)
next
  case (Inr x)
  then show ?thesis
    using loop_sealed [of "[]"] by (simp add: run_burst_def) (metis surjective_pairing)
qed

subsection \<open>The properties of a run\<close>

text \<open>
  C6. After a stop, or a watched text that was not verified, nothing more is sent: in every run, whatever
  the burst, the gates, the backend and the typist do, the events after a gate that answered stop and
  after a typed text without a verified read-back are polls, waits, screenshots and the release of held
  keys. No Enter, click or further text follows.
\<close>

theorem nothing_after_stop_or_unverified:
  assumes "snd (run_burst E lms actions) = pre @ e # post"
    and "case e of Ev_poll p \<Rightarrow> p \<noteq> None | Ev_typed _ verified \<Rightarrow> \<not> verified | Ev_call _ \<Rightarrow> False"
  shows "\<forall>x \<in> set post. case x of Ev_poll _ \<Rightarrow> True | Ev_typed _ _ \<Rightarrow> False | Ev_call c \<Rightarrow> quiet_call c"
proof -
  from sealed_after [OF run_sealed assms(1)] assms(2) show ?thesis
    by (auto simp: halting_def quiet_def list_all_iff)
qed

lemma loop_outcome:
  "burst_loop_run E lms si tot i rest L tr = (Inr o1, tr') \<Longrightarrow> tot = i + length rest
     \<Longrightarrow> (\<exists>k \<le> length rest. bo_completed o1 = i + k
            \<and> bo_executed o1 = lp_executed L @ map action_kind (take k rest)
            \<and> (k < length rest \<longrightarrow> bo_status o1 \<in> {Bs_interrupted, Bs_failed}))
         \<and> bo_total o1 = tot
         \<and> (bo_status o1 = Bs_completed \<longrightarrow> bo_completed o1 = tot \<and> \<not> lp_unverified L \<and> (calm tr \<longrightarrow> calm tr'))"
proof (induction rest arbitrary: i L tr)
  case Nil
  then show ?case by (auto simp: stop_outcome_def)
next
  case (Cons a rest)
  have step: "(\<exists>k \<le> length (a # rest). bo_completed o1 = i + k
            \<and> bo_executed o1 = lp_executed L @ map action_kind (take k (a # rest))
            \<and> (k < length (a # rest) \<longrightarrow> bo_status o1 \<in> {Bs_interrupted, Bs_failed}))"
    if "\<exists>k \<le> length rest. bo_completed o1 = Suc i + k
            \<and> bo_executed o1 = (lp_executed L @ [action_kind a]) @ map action_kind (take k rest)
            \<and> (k < length rest \<longrightarrow> bo_status o1 \<in> {Bs_interrupted, Bs_failed})"
  proof -
    from that obtain k where k: "k \<le> length rest" "bo_completed o1 = Suc i + k"
      "bo_executed o1 = (lp_executed L @ [action_kind a]) @ map action_kind (take k rest)"
      "k < length rest \<longrightarrow> bo_status o1 \<in> {Bs_interrupted, Bs_failed}" by blast
    then show ?thesis by (intro exI [of _ "Suc k"]) simp
  qed
  from Cons.prems(1) show ?case
  proof (cases rule: loop_step_cases)
    case (stopped why)
    then show ?thesis using Cons.prems(2) by (auto simp: stop_outcome_def intro!: exI [of _ 0])
  next
    case (done_one receipt tr2)
    have "calm tr \<Longrightarrow> calm tr2"
      using dispatch_calm(2) [OF done_one(2) poll_capture_calm] by simp
    moreover have ex: "lp_executed (add_receipt i receipt (L\<lparr>lp_executed := lp_executed L @ [action_kind a]\<rparr>))
        = lp_executed L @ [action_kind a]"
      "lp_unverified (add_receipt i receipt (L\<lparr>lp_executed := lp_executed L @ [action_kind a]\<rparr>)) = lp_unverified L"
      by (simp_all add: add_receipt_def split: option.splits)
    ultimately show ?thesis
      using Cons.IH [OF done_one(3)] Cons.prems(2) step unfolding ex by simp
  next
    case (ended e tr2 seg)
    with ended(5) [of o1] Cons.prems(2) show ?thesis by (auto intro!: exI [of _ 0])
  next
    case (ambiguous receipt tr2)
    have ex: "lp_executed ((add_receipt i (Some receipt) L)\<lparr>lp_executed := lp_executed (add_receipt i (Some receipt) L)
           @ [action_kind a], lp_unverified := True\<rparr>) = lp_executed L @ [action_kind a]"
      by (simp add: add_receipt_def)
    from Cons.IH [OF ambiguous(4)] Cons.prems(2) step show ?thesis unfolding ex by simp
  qed
qed

text \<open>
  A burst reports what it did: the kinds it lists as executed are those of its first completed
  actions, in order; it stopped early exactly with the status interrupted or failed; and it calls itself
  completed only if every action ran, no gate answered stop and every watched text was verified.
\<close>

theorem burst_reports_truth:
  assumes "run_burst E lms actions = (Inr o1, tr)"
  shows "bo_total o1 = length actions \<and> bo_completed o1 \<le> length actions
    \<and> bo_executed o1 = map (\<lambda>a. py_str (action_type a)) (take (bo_completed o1) actions)
    \<and> (bo_completed o1 < length actions \<longrightarrow> bo_status o1 \<in> {Bs_interrupted, Bs_failed})
    \<and> (bo_status o1 = Bs_completed \<longrightarrow> bo_completed o1 = length actions
         \<and> (\<forall>x \<in> set tr. case x of Ev_poll p \<Rightarrow> p = None | Ev_typed _ verified \<Rightarrow> verified | Ev_call _ \<Rightarrow> True))"
proof -
  from assms have v: "validate_actions lms actions = Inr ()"
    by (cases "validate_actions lms actions") (simp_all add: run_burst_def)
  note run = assms [unfolded run_burst_def v sum.case]
  have c: "(\<forall>x \<in> set tr. case x of Ev_poll p \<Rightarrow> p = None | Ev_typed _ verified \<Rightarrow> verified | Ev_call _ \<Rightarrow> True)"
    if "calm tr"
    using that by (auto simp: list_all_iff halting_def split: burst_event.splits)
  have k: "map action_kind xs = map (\<lambda>a. py_str (action_type a)) xs" for xs
    by (simp add: action_kind_def)
  from loop_outcome [OF run] c show ?thesis unfolding k by auto
qed

definition quiet_env :: burst_env where
  "quiet_env = \<lparr>bv_sha = (\<lambda>x. x), bv_stop = (\<lambda>_. None), bv_raises = (\<lambda>_. False),
     bv_typer = (\<lambda>_. Some example_result), bv_has_typer = True, bv_print_exact = False, bv_print = True,
     bv_double_click = True, bv_release_all = True\<rparr>"

definition enter_action :: pydict where
  "enter_action = [(u ''type'', PStr (u ''key'')), (u ''keys'', PList [PStr (u ''Enter'')])]"

theorem burst_reports_truth_witness:
  "bo_executed (projr (fst (run_burst quiet_env default_limits [text_action ''ls -la'', enter_action])))
     = [u ''type_text'', u ''key'']"
proof -
  have r: "is_ok (fst (run_burst quiet_env default_limits [text_action ''ls -la'', enter_action]))"
    "bo_completed (projr (fst (run_burst quiet_env default_limits [text_action ''ls -la'', enter_action]))) = 2"
    by code_simp+
  then obtain o1 tr where o1: "run_burst quiet_env default_limits [text_action ''ls -la'', enter_action] = (Inr o1, tr)"
    by (metis is_ok_iff surjective_pairing)
  from burst_reports_truth [OF o1] r(2) show ?thesis
    unfolding o1 by (simp add: text_action_def enter_action_def action_type_def get_none_def get_or_def)
qed

text \<open>A misread text: the typist reports an ambiguous read-back.\<close>

definition misread_env :: burst_env where
  "misread_env = quiet_env\<lparr>bv_typer := (\<lambda>_. Some (example_result\<lparr>wt_status := Unverified_ambiguous,
     wt_verdict := Vd_unverified\<rparr>))\<rparr>"

definition wait_action :: pydict where
  "wait_action = [(u ''type'', PStr (u ''wait'')), (u ''ms'', PInt 300)]"

theorem nothing_after_stop_or_unverified_witness:
  "list_all quiet (drop 2 (snd (run_burst misread_env default_limits [text_action ''ls -la'', wait_action])))"
proof -
  let ?tr = "snd (run_burst misread_env default_limits [text_action ''ls -la'', wait_action])"
  have tr: "?tr = [Ev_poll None] @ Ev_typed (typer_args (text_action ''ls -la'')) False
      # [Ev_poll None, Ev_call (Bk_sleep 300)]"
    by code_simp
  from nothing_after_stop_or_unverified [OF tr] show ?thesis unfolding tr by (simp add: quiet_def)
qed

end
