(* ===== verification/DirectSurfaces.thy ===== *)
theory DirectSurfaces
  imports BurstShape CommandRisk
begin

text \<open>
  The recognisers of \<open>policy/direct.py\<close>: the patterns for the text of a commit target, the fuzzy match that
  tolerates OCR errors, the safe local drafts, and the predicates that say which burst needs which
  surface and which OCR text confirms it. An action is a dictionary, and where it needs a list of keys
  it has one, as validation has checked.
\<close>

subsection \<open>Patterns\<close>

fun phrase_ci :: "string list \<Rightarrow> rx" where
  "phrase_ci [] = Eps"
| "phrase_ci [w] = lit_ci w"
| "phrase_ci (w # v # ws) = Cat (lit_ci w) (Cat spaces1 (phrase_ci (v # ws)))"

definition whole_ci :: "rx list \<Rightarrow> rx" where
  "whole_ci rs = rx_cat [wb, rx_alt rs, wb]"

definition loose_ci :: "string \<Rightarrow> string \<Rightarrow> rx" where
  "loose_ci a b = rx_cat [lit_ci a, spaces, lit_ci b]"

definition communication_re :: rx where
  "communication_re = whole_ci (map lit_ci [''send'', ''submit'', ''reply'', ''email'', ''message'', ''post'',
       ''publish'', ''tweet'', ''comment'', ''broadcast'', ''share'', ''invite'', ''rsvp'', ''forward'']
     @ [rx_cat [lit_ci ''join'', spaces1, words_ci [''meeting'', ''call'']], phrase_ci [''start'', ''call''],
        rx_cat [words_ci [''accept'', ''decline'', ''cancel''], spaces1, lit_ci ''meeting'']])"

definition delete_re :: rx where
  "delete_re = whole_ci (map lit_ci [''delete'', ''remove'', ''trash'', ''erase'', ''purge'', ''discard'']
     @ [rx_cat [lit_ci ''empty'', spaces1, rx_alt [phrase_ci [''recycle'', ''bin''], lit_ci ''trash'']]])"

definition financial_re :: rx where
  "financial_re = whole_ci (map lit_ci [''pay'', ''purchase'', ''buy'', ''checkout'', ''subscribe'', ''donate'', ''tip'']
     @ [phrase_ci [''place'', ''order''], phrase_ci [''renew'', ''subscription''],
        rx_cat [lit_ci ''confirm'', spaces1, words_ci [''order'', ''payment'']],
        rx_cat [lit_ci ''transfer'', spaces1, words_ci [''funds'', ''money'']]])"

definition permissions_re :: rx where
  "permissions_re = whole_ci (map lit_ci [''grant'', ''revoke'', ''permission'']
     @ map phrase_ci [[''admin'', ''access''], [''make'', ''admin''], [''role'', ''change''],
         [''add'', ''member''], [''remove'', ''member''], [''transfer'', ''ownership''],
         [''change'', ''owner''], [''allow'', ''access''], [''deny'', ''access''], [''approve'', ''request'']])"

definition install_re :: rx where
  "install_re = whole_ci [lit_ci ''install'', phrase_ci [''update'', ''now''], phrase_ci [''allow'', ''extension'']]"

definition credential_re :: rx where
  "credential_re = whole_ci [loose_ci ''sign'' ''in'', loose_ci ''log'' ''in'', lit_ci ''password'',
     lit_ci ''passcode'', phrase_ci [''api'', ''key''], phrase_ci [''access'', ''token'']]"

definition consent_re :: rx where
  "consent_re = whole_ci [phrase_ci [''accept'', ''terms''], lit_ci ''agree'', lit_ci ''consent'',
     lit_ci ''authorize'', phrase_ci [''sign'', ''document'']]"

definition external_upload_re :: rx where
  "external_upload_re = whole_ci [lit_ci ''upload'',
     rx_cat [lit_ci ''attach'', spaces1, words_ci [''file'', ''document'']],
     phrase_ci [''import'', ''to'', ''cloud'']]"

definition power_re :: rx where
  "power_re = whole_ci [Cat (lit_ci ''restart'') (opt (Cat spaces1 (lit_ci ''now''))), lit_ci ''reboot'',
     loose_ci ''shut'' ''down'', loose_ci ''power'' ''off'', phrase_ci [''factory'', ''reset''],
     rx_cat [phrase_ci [''turn'', ''off''], spaces1, words_ci [''computer'', ''device'', ''machine'']]]"

definition local_edit_re :: rx where
  "local_edit_re = whole_ci [Cat (lit_ci ''save'') (opt (Cat spaces1 (lit_ci ''as''))), lit_ci ''rename'',
     lit_ci ''overwrite'',
     rx_cat [lit_ci ''replace'', spaces1,
       rx_alt [lit_ci ''all'', phrase_ci [''in'', ''files''], lit_ci ''file'', lit_ci ''existing'']],
     rx_cat [lit_ci ''move'', spaces1, words_ci [''file'', ''folder'']]]"

definition system_setting_re :: rx where
  "system_setting_re = whole_ci [phrase_ci [''apply'', ''changes''], lit_ci ''enable'', lit_ci ''disable'',
     rx_cat [lit_ci ''turn'', spaces1, words_ci [''on'', ''off'']], phrase_ci [''reset'', ''settings''],
     rx_cat [lit_ci ''change'', spaces1, lit_ci ''setting'', opt (lit_ci ''s'')]]"

definition disable_security_re :: rx where
  "disable_security_re = whole_ci
     [rx_cat [rx_alt [lit_ci ''disable'', phrase_ci [''turn'', ''off''], lit_ci ''stop''], spaces1,
        words_ci [''security'', ''firewall'', ''antivirus'', ''defender'', ''protection'']],
      rx_cat [lit_ci ''bypass'', spaces1, words_ci [''security'', ''protection'']]]"

definition ambiguous_commit_re :: rx where
  "ambiguous_commit_re = whole_ci (map lit_ci [''ok'', ''okay'', ''continue'', ''done'', ''finish'', ''yes'', ''confirm''])"

text \<open>A label, the category it commits to and the level of that category.\<close>

type_synonym commit_term = "string \<times> string \<times> string"

definition fuzzy_commit_terms :: "commit_term list" where
  "fuzzy_commit_terms =
     [(''delete'', ''delete'', ''high''), (''remove'', ''delete'', ''high''),
      (''purchase'', ''financial_or_purchase'', ''high''), (''checkout'', ''financial_or_purchase'', ''high''),
      (''grant'', ''account_or_permission_change'', ''high''),
      (''revoke'', ''account_or_permission_change'', ''high''),
      (''permission'', ''account_or_permission_change'', ''high''),
      (''install'', ''software_installation'', ''medium''), (''upload'', ''file_external_upload'', ''high''),
      (''submit'', ''communication_send'', ''medium''), (''publish'', ''communication_send'', ''medium''),
      (''message'', ''communication_send'', ''medium'')]"

definition fuzzy_commit_phrases :: "commit_term list" where
  "fuzzy_commit_phrases =
     [(''disable security'', ''disable_security'', ''high''),
      (''turn off firewall'', ''disable_security'', ''high''),
      (''disable antivirus'', ''disable_security'', ''high''),
      (''bypass protection'', ''disable_security'', ''high''),
      (''grant access'', ''account_or_permission_change'', ''high''),
      (''revoke permission'', ''account_or_permission_change'', ''high''),
      (''add member'', ''account_or_permission_change'', ''high''),
      (''transfer ownership'', ''account_or_permission_change'', ''high''),
      (''allow access'', ''account_or_permission_change'', ''high''),
      (''approve request'', ''account_or_permission_change'', ''high''),
      (''delete record'', ''delete'', ''high''), (''remove file'', ''delete'', ''high''),
      (''empty recycle bin'', ''delete'', ''high''), (''discard changes'', ''delete'', ''high''),
      (''purge data'', ''delete'', ''high''), (''pay now'', ''financial_or_purchase'', ''high''),
      (''purchase item'', ''financial_or_purchase'', ''high''),
      (''checkout'', ''financial_or_purchase'', ''high''),
      (''donate now'', ''financial_or_purchase'', ''high''),
      (''transfer funds'', ''financial_or_purchase'', ''high''),
      (''renew subscription'', ''financial_or_purchase'', ''high''),
      (''install update'', ''software_installation'', ''medium''),
      (''update now'', ''software_installation'', ''medium''),
      (''allow extension'', ''software_installation'', ''medium''),
      (''sign in'', ''credential_entry'', ''high''), (''log in'', ''credential_entry'', ''high''),
      (''enter password'', ''credential_entry'', ''high''), (''accept terms'', ''legal_or_consent'', ''high''),
      (''authorize access'', ''legal_or_consent'', ''high''),
      (''sign document'', ''legal_or_consent'', ''high''),
      (''upload file'', ''file_external_upload'', ''high''),
      (''attach file'', ''file_external_upload'', ''high''),
      (''restart now'', ''power_or_firmware'', ''high''), (''shut down'', ''power_or_firmware'', ''high''),
      (''factory reset'', ''power_or_firmware'', ''high''), (''power off'', ''power_or_firmware'', ''high''),
      (''save as'', ''local_file_edit'', ''medium''), (''rename file'', ''local_file_edit'', ''medium''),
      (''overwrite existing'', ''local_file_edit'', ''medium''),
      (''move file'', ''local_file_edit'', ''medium''), (''replace all'', ''local_file_edit'', ''medium''),
      (''replace in files'', ''local_file_edit'', ''medium''), (''replace'', ''local_file_edit'', ''medium''),
      (''save'', ''local_file_edit'', ''medium''), (''apply changes'', ''system_setting_change'', ''medium''),
      (''enable feature'', ''system_setting_change'', ''medium''),
      (''turn on setting'', ''system_setting_change'', ''medium''),
      (''reset settings'', ''system_setting_change'', ''medium''),
      (''send message'', ''communication_send'', ''medium''),
      (''submit form'', ''communication_send'', ''medium''),
      (''forward email'', ''communication_send'', ''medium''),
      (''join meeting'', ''communication_send'', ''medium''),
      (''start call'', ''communication_send'', ''medium''),
      (''publish post'', ''communication_send'', ''medium''),
      (''share document'', ''communication_send'', ''medium''),
      (''invite guest'', ''communication_send'', ''medium''),
      (''send teams message'', ''communication_send'', ''medium''),
      (''send email'', ''communication_send'', ''medium''),
      (''reply all'', ''communication_send'', ''medium''),
      (''send meeting invite'', ''communication_send'', ''medium''),
      (''post channel message'', ''communication_send'', ''medium''),
      (''accept meeting'', ''communication_send'', ''medium''),
      (''decline meeting'', ''communication_send'', ''medium''),
      (''cancel meeting'', ''communication_send'', ''medium''), (''continue'', ''unknown'', ''medium''),
      (''confirm'', ''unknown'', ''medium''), (''done'', ''unknown'', ''medium''),
      (''ok'', ''unknown'', ''medium'')]"

subsection \<open>Text helpers\<close>

text \<open>\<open>s.replace(a, b)\<close> for a non-empty \<open>a\<close>.\<close>

function py_replace :: "pystr \<Rightarrow> pystr \<Rightarrow> pystr \<Rightarrow> pystr" where
  "py_replace a b [] = []"
| "py_replace a b (c # s) =
     (if a \<noteq> [] \<and> py_startswith (c # s) a then b @ py_replace a b (drop (length a) (c # s))
      else c # py_replace a b s)"
  by pat_completeness auto
termination
  by (relation "measure (\<lambda>(a, b, s). length s)") auto

declare py_replace.simps(2) [simp del]

definition squeeze :: "pystr \<Rightarrow> pystr" where
  "squeeze s = py_join [32] (py_split s)"

definition keep :: "(int \<Rightarrow> bool) \<Rightarrow> pystr \<Rightarrow> pystr" where
  "keep P s = rx_sub (plus (Chr (\<lambda>c. \<not> P c))) [] s"

definition blank_out :: "(int \<Rightarrow> bool) \<Rightarrow> pystr \<Rightarrow> pystr" where
  "blank_out P s = rx_sub (plus (Chr (\<lambda>c. \<not> P c))) [32] s"

definition low_alpha :: "int \<Rightarrow> bool" where "low_alpha c \<longleftrightarrow> in_range 97 122 c"
definition low_alnum :: "int \<Rightarrow> bool" where "low_alnum c \<longleftrightarrow> in_range 97 122 c \<or> in_range 48 57 c"
definition ascii_alnum :: "int \<Rightarrow> bool" where "ascii_alnum c \<longleftrightarrow> low_alnum c \<or> in_range 65 90 c"

definition has :: "string \<Rightarrow> pystr \<Rightarrow> bool" where
  "has w s \<longleftrightarrow> py_in (u w) s"

definition rx_text :: "pystr \<Rightarrow> rx" where
  "rx_text s = rx_cat (map chr_eq s)"

definition has_word :: "pystr \<Rightarrow> pystr \<Rightarrow> bool" where
  "has_word w s \<longleftrightarrow> rx_search (rx_cat [wb, rx_text w, wb]) s"

definition alnum_tokens :: "pystr \<Rightarrow> pystr list" where
  "alnum_tokens s = rx_findall (plus (Chr ascii_alnum)) s"

subsection \<open>Keys and passive actions\<close>

definition key_tokens :: "pydict \<Rightarrow> pystr list" where
  "key_tokens a =
     (let v = get_none a (u ''keys'');
          raws = (if py_truthy v then the_PList v else [get_none a (u ''key'')])
      in map (\<lambda>k. py_upper (py_strip (py_str k))) (filter py_truthy raws))"

definition keys_are :: "pydict \<Rightarrow> string list \<Rightarrow> bool" where
  "keys_are a ws \<longleftrightarrow> set (key_tokens a) = set (map u ws)"

definition keys_meet :: "pydict \<Rightarrow> string list \<Rightarrow> bool" where
  "keys_meet a ws \<longleftrightarrow> list_ex (\<lambda>w. w \<in> set (key_tokens a)) (map u ws)"

definition bare_commit :: "pydict \<Rightarrow> bool" where
  "bare_commit a \<longleftrightarrow> keys_are a [''ENTER''] \<or> keys_are a [''RETURN''] \<or> keys_are a [''NUMPADENTER'']"

definition alt_keys :: "string list" where
  "alt_keys = [''ALT'', ''ALTLEFT'', ''ALTRIGHT'', ''LALT'', ''RALT'', ''OPTION'']"

definition control_keys :: "string list" where
  "control_keys = [''CTRL'', ''CONTROL'', ''CONTROLLEFT'', ''CONTROLRIGHT'', ''LCTRL'', ''RCTRL'']"

definition meta_keys :: "string list" where
  "meta_keys = [''META'', ''WIN'', ''WINDOWS'', ''SUPER'', ''METALEFT'', ''METARIGHT'']"

definition active_of :: "pydict list \<Rightarrow> pydict list" where
  "active_of actions = filter (\<lambda>a. \<not> is_passive a) actions"

definition is_click :: "pydict \<Rightarrow> bool" where
  "is_click a \<longleftrightarrow> action_is a ''click'' \<or> action_is a ''double_click''"

subsection \<open>Safe local drafts\<close>

definition forbidden_in_name :: "int \<Rightarrow> bool" where
  "forbidden_in_name c \<longleftrightarrow> c \<in> set (u ''<>:/|?*'') \<or> c = 34 \<or> in_range 0 31 c"

definition windows_local_path :: rx where
  "windows_local_path = rx_cat [bos, Chr (\<lambda>c. in_range 65 90 c \<or> in_range 97 122 c), chr_eq 58, chr_eq 92,
     times_mn 1 256 (Chr (\<lambda>c. \<not> forbidden_in_name c)), eos]"

definition windows_local_filename :: rx where
  "windows_local_filename = rx_cat [bos, times_mn 1 128 (Chr (\<lambda>c. \<not> forbidden_in_name c \<and> c \<noteq> 92)), eos]"

definition windows_reserved_filenames :: rx where
  "windows_reserved_filenames = rx_cat [bos,
     rx_alt [words_ci [''con'', ''prn'', ''aux'', ''nul''],
             rx_cat [words_ci [''com'', ''lpt''], Chr (in_range 49 57)]],
     opt (rx_cat [lit ''.'', Star dot]), eos]"

definition ends_bad :: "pystr \<Rightarrow> bool" where
  "ends_bad s \<longleftrightarrow> s \<noteq> [] \<and> last s \<in> {32, 46}"

definition is_safe_local_navigation_target :: "pystr \<Rightarrow> bool" where
  "is_safe_local_navigation_target text =
     (text = u ''This PC''
      \<or> rx_fullmatch windows_local_path text
        \<and> list_all (\<lambda>p. p \<noteq> [] \<and> p \<notin> {u ''.'', u ''..''} \<and> \<not> ends_bad p) (py_split_on 92 (drop 3 text)))"

definition is_safe_local_filename_draft :: "pystr \<Rightarrow> bool" where
  "is_safe_local_filename_draft text =
     (rx_fullmatch windows_local_filename text \<and> text \<notin> {u ''.'', u ''..''} \<and> \<not> ends_bad text
      \<and> \<not> is_safe_windows_run_text text \<and> \<not> rx_fullmatch windows_reserved_filenames text)"

definition is_safe_local_commit_draft :: "pystr \<Rightarrow> bool" where
  "is_safe_local_commit_draft text =
     (is_safe_local_navigation_target text \<or> is_safe_local_filename_draft text \<or> is_safe_windows_run_text text)"

subsection \<open>Which burst needs which surface\<close>

definition calculator_digit_keys :: "pystr list" where
  "calculator_digit_keys = map (\<lambda>d. u ''DIGIT'' @ [d]) [48..57] @ map (\<lambda>d. u ''NUMPAD'' @ [d]) [48..57]"

definition calculator_operator_keys :: "pystr list" where
  "calculator_operator_keys = map u [''NUMPADADD'', ''NUMPADSUBTRACT'', ''NUMPADMULTIPLY'', ''NUMPADDIVIDE'']"

definition calculator_decimal_keys :: "pystr list" where
  "calculator_decimal_keys = map u [''NUMPADDECIMAL'', ''PERIOD'']"

definition commit_keys :: "pystr list" where
  "commit_keys = map u [''ENTER'', ''RETURN'', ''NUMPADENTER'']"

definition needs_calculator_surface_grounding :: "pydict list \<Rightarrow> bool" where
  "needs_calculator_surface_grounding actions =
     (let active = active_of actions; ks = concat (map key_tokens active); expr = butlast ks in
      active \<noteq> [] \<and> list_all (\<lambda>a. action_is a ''key'') active \<and> ks \<noteq> [] \<and> last ks \<in> set commit_keys
      \<and> length ks = length active
      \<and> 2 \<le> length (filter (\<lambda>k. k \<in> set calculator_digit_keys) expr)
      \<and> list_ex (\<lambda>k. k \<in> set calculator_operator_keys) expr
      \<and> list_all (\<lambda>k. k \<in> set (calculator_digit_keys @ calculator_operator_keys @ calculator_decimal_keys)) expr)"

definition is_confirmed_calculator_surface :: "pystr \<Rightarrow> bool" where
  "is_confirmed_calculator_surface observed =
     (let text = squeeze (py_casefold observed) in
      has ''calculator'' text \<and> has ''standard'' text
      \<or> has ''standard'' text \<and> has ''history'' text \<and> has ''memory'' text)"

definition folded_arg :: "pydict \<Rightarrow> string \<Rightarrow> pystr" where
  "folded_arg a k = py_casefold (str_or_empty (get_none a (u k)))"

definition needs_deferred_exact_editor_surface_grounding :: "pydict list \<Rightarrow> bool" where
  "needs_deferred_exact_editor_surface_grounding actions =
     (let active = active_of actions in
      2 \<le> length (filter (\<lambda>a. action_is a ''type_text'') active) \<and> action_is (hd active) ''type_text''
      \<and> list_all (\<lambda>a. if action_is a ''type_text'' then deferred_row a
                      else action_is a ''key'' \<and> (keys_are a [''ENTER''] \<or> keys_are a [''RETURN''])) active
      \<and> list_all (\<lambda>(l, r). action_type l \<noteq> action_type r \<or> action_is l ''key'') (zip active (tl active)))"

definition needs_exact_editor_surface_grounding :: "pydict list \<Rightarrow> bool" where
  "needs_exact_editor_surface_grounding actions = (case active_of actions of
       [a] \<Rightarrow> action_is a ''type_text'' \<and> folded_arg a ''context'' = u ''editor''
              \<and> folded_arg a ''verification'' = u ''exact''
              \<and> str_or_empty (get_none a (u ''text'')) \<noteq> []
              \<and> classify_command (str_or_empty (get_none a (u ''text''))) = CR_side_effect
     | _ \<Rightarrow> False)"

definition is_confirmed_notepad_editor_surface :: "pystr \<Rightarrow> bool" where
  "is_confirmed_notepad_editor_surface observed =
     (let text = squeeze (py_casefold observed) in
      has ''notepad'' text
        \<and> (list_all (\<lambda>m. has m text) [''file'', ''edit'', ''view'']
           \<or> list_all (\<lambda>m. has m text) [''ln '', ''col'', ''characters''])
      \<or> list_all (\<lambda>m. has m text) [''plain text'', ''windows (crlf)'', ''utf-8''])"

definition needs_local_navigation_surface_grounding :: "pydict list \<Rightarrow> bool" where
  "needs_local_navigation_surface_grounding actions = (case active_of actions of
       [a] \<Rightarrow> action_is a ''key''
              \<and> (bare_commit a
                 \<or> card (set (key_tokens a)) = 2 \<and> keys_meet a alt_keys \<and> keys_meet a [''S'', ''KEYS''])
     | _ \<Rightarrow> False)"

definition needs_local_file_overwrite_surface_grounding :: "pydict list \<Rightarrow> bool" where
  "needs_local_file_overwrite_surface_grounding actions =
     (needs_local_navigation_surface_grounding actions
      \<or> (case active_of actions of
           [a] \<Rightarrow> is_click a \<and> keep low_alpha (folded_arg a ''observed_target_text'') \<in> {u ''yes'', u ''replace''}
         | _ \<Rightarrow> False))"

definition dangerous_surface_patterns :: "rx list" where
  "dangerous_surface_patterns = [communication_re, delete_re, financial_re, permissions_re, install_re,
     credential_re, consent_re, external_upload_re, power_re, disable_security_re]"

definition dangerous_surface :: "pystr \<Rightarrow> bool" where
  "dangerous_surface text \<longleftrightarrow> list_ex (\<lambda>r. rx_search r text) dangerous_surface_patterns"

definition unquote :: "pystr \<Rightarrow> pystr" where
  "unquote s = py_replace [8217] [39] (py_casefold s)"

definition is_confirmed_local_file_overwrite_surface :: "pydict list \<Rightarrow> pystr \<Rightarrow> bool" where
  "is_confirmed_local_file_overwrite_surface actions observed =
     (needs_local_file_overwrite_surface_grounding actions
      \<and> (let text = unquote observed;
             normalized = py_strip (blank_out (\<lambda>c. low_alnum c \<or> c = 46) text);
             compact = keep low_alnum text
         in \<not> dangerous_surface text \<and> has ''confirm save as'' normalized \<and> has ''already'' compact
            \<and> list_ex (\<lambda>m. has m compact) [''exists'', ''easts'', ''casts'']
            \<and> has ''doyouwanttoreplace'' compact
            \<and> has_word (u ''yes'') normalized \<and> has_word (u ''no'') normalized))"

definition is_communication_compose_surface :: "pystr \<Rightarrow> bool" where
  "is_communication_compose_surface text =
     (list_ex (\<lambda>m. has m text) [''new message'', ''replying to'', ''message compose'', ''new email'']
      \<and> has ''send'' text)"

definition save_as_pattern :: rx where
  "save_as_pattern = rx_cat [wb, rx_alt [rx_cat [lit ''s'', opt (Chr low_alpha), lit ''ve''], lit ''ave''],
     spaces, lit ''as'', wb]"

definition save_as_surface_markers :: "pystr \<Rightarrow> string list" where
  "save_as_surface_markers text =
     (let compact = keep low_alnum text in
      map fst (filter (\<lambda>(m, c). has m text \<or> has c compact)
        [(''file name'', ''filename''), (''save as type'', ''saveastype''), (''new folder'', ''newfolder''),
         (''encoding'', ''encoding''), (''this pc'', ''thispc''), (''date modified'', ''datemodified''),
         (''name'', ''name''), (''size'', ''size'')])
      @ (if rx_search save_as_pattern text \<or> has ''saveas'' compact then [''save as''] else []))"

definition is_confirmed_file_explorer_surface :: "pystr \<Rightarrow> pystr \<Rightarrow> pystr \<Rightarrow> bool \<Rightarrow> bool" where
  "is_confirmed_file_explorer_surface observed draft top_band_text same_frame =
     (let text = squeeze (py_casefold observed) in
      if \<not> is_safe_local_navigation_target draft then False
      else if draft \<noteq> u ''This PC''
      then (let top_band = squeeze (py_casefold top_band_text) in
            if is_communication_compose_surface text then False
            else let markers = save_as_surface_markers (text @ [10] @ top_band) in
              (py_in (py_casefold draft) top_band \<or> same_frame)
              \<and> ''save as'' \<in> set markers \<and> 2 \<le> length markers)
      else has ''this pc'' text
        \<and> (let n = length (filter (\<lambda>m. has m text) [''home'', ''gallery'', ''onedrive'', ''downloads'',
                     ''documents'', ''desktop'', ''pictures'', ''this pc'', ''search home''])
           in has ''file explorer'' text \<and> 2 \<le> n \<or> has ''quick access'' text \<and> 3 \<le> n))"

definition is_confirmed_save_as_filename_surface :: "pystr \<Rightarrow> pystr \<Rightarrow> bool \<Rightarrow> bool" where
  "is_confirmed_save_as_filename_surface observed draft same_frame =
     (same_frame \<and> is_safe_local_filename_draft draft
      \<and> (let text = squeeze (py_casefold observed); markers = save_as_surface_markers text in
         \<not> is_communication_compose_surface text \<and> ''save as'' \<in> set markers \<and> 2 \<le> length markers))"

definition is_confirmed_open_filename_surface :: "pystr \<Rightarrow> pystr \<Rightarrow> bool \<Rightarrow> bool" where
  "is_confirmed_open_filename_surface observed draft same_frame =
     (same_frame \<and> is_safe_local_filename_draft draft
      \<and> (let text = squeeze (py_casefold observed);
             listed = filter (\<lambda>m. m \<in> set (save_as_surface_markers text))
                        [''new folder'', ''this pc'', ''date modified'', ''name'', ''size'']
         in \<not> is_communication_compose_surface text \<and> has_word (u ''open'') text
            \<and> ''new folder'' \<in> set listed \<and> 3 \<le> length listed))"

definition is_confirmed_windows_run_surface :: "pystr \<Rightarrow> pystr \<Rightarrow> pystr \<Rightarrow> bool \<Rightarrow> bool" where
  "is_confirmed_windows_run_surface observed draft dialog_text same_frame =
     (is_safe_windows_run_text draft
      \<and> (let text = squeeze (py_casefold (observed @ [10] @ dialog_text));
             normalized = py_strip (blank_out (\<lambda>c. low_alnum c \<or> c = 58 \<or> c = 45) text);
             controls = filter (\<lambda>m. has_word (u m) normalized) [''open'', ''ok'', ''cancel'', ''browse''];
             instructions = filter (\<lambda>m. has_word (u m) normalized)
               [''program'', ''folder'', ''document'', ''internet'', ''resource'', ''windows'']
         in \<not> is_communication_compose_surface normalized
            \<and> (has_word (py_casefold draft) normalized \<or> same_frame)
            \<and> has_word (u ''run'') normalized \<and> has ''type the name of'' normalized
            \<and> 4 \<le> length instructions \<and> 3 \<le> length controls))"

subsection \<open>Fuzzy match of labels\<close>

text \<open>
  \<open>_edit_distance\<close>: the matrix row by row; a row needs the two before it, for transpositions.
  \<open>osa_cells\<close> fills one row from its left neighbour: \<open>p\<close> is the row above and \<open>pp\<close> the one above that
  (both from the current column on), \<open>rp\<close> the previous character of the right text.
\<close>

fun osa_cells :: "int \<Rightarrow> int option \<Rightarrow> int option \<Rightarrow> pystr \<Rightarrow> nat \<Rightarrow> nat list \<Rightarrow> nat list \<Rightarrow> nat list" where
  "osa_cells c lp rp (d # right) cell (p0 # p1 # p) pp =
     (let m = min (min (p1 + 1) (cell + 1)) (p0 + (if c \<noteq> d then 1 else 0));
          v = (if lp = Some d \<and> rp = Some c \<and> pp \<noteq> [] then min m (hd pp + 1) else m)
      in v # osa_cells c lp (Some d) right v (p1 # p) (if rp = None then pp else drop 1 pp))"
| "osa_cells c lp rp _ cell _ pp = []"

fun osa_rows :: "int option \<Rightarrow> nat \<Rightarrow> pystr \<Rightarrow> pystr \<Rightarrow> nat list \<Rightarrow> nat list \<Rightarrow> nat list" where
  "osa_rows lp n [] right p pp = p"
| "osa_rows lp n (c # left) right p pp =
     osa_rows (Some c) (Suc n) left right (Suc n # osa_cells c lp None right (Suc n) p pp) p"

definition osa_distance :: "pystr \<Rightarrow> pystr \<Rightarrow> nat" where
  "osa_distance left right =
     (if left = right then 0 else if left = [] then length right else if right = [] then length left
      else last (osa_rows None 0 left right [0..<Suc (length right)] []))"

definition cap_i_as_l :: "pystr \<Rightarrow> pystr" where
  "cap_i_as_l raw = py_casefold (map (\<lambda>c. if c = 73 then 108 else c) raw)"

text \<open>The set of readings, as a list; the program iterates over it in no fixed order.\<close>

definition ocr_token_variants :: "pystr \<Rightarrow> pystr list" where
  "ocr_token_variants raw =
     (let base = py_replace [49] [108] (py_replace [48] [111] (py_casefold raw)); il = cap_i_as_l raw
      in remdups ([base, py_replace (u ''rn'') (u ''m'') base, il]
           @ (if py_startswith il (u ''ln'') then [105 # tl il] else [])))"

definition token_distance :: "pystr \<Rightarrow> pystr \<Rightarrow> nat" where
  "token_distance raw expected =
     (if py_replace (u ''cl'') (u ''d'') (py_casefold raw) = expected then 0
      else Min (set (map (\<lambda>v. osa_distance v expected) (ocr_token_variants raw))))"

definition semantic_text :: "pydict \<Rightarrow> pystr" where
  "semantic_text a = py_strip (py_join [32] (map (\<lambda>k. py_str (get_or a (u k) (PStr [])))
     [''observed_target_text'', ''target_text'', ''intent'', ''label'']))"

definition needs_safe_windows_error_dismissal_surface_grounding :: "pydict list \<Rightarrow> bool" where
  "needs_safe_windows_error_dismissal_surface_grounding actions = (case active_of actions of
       [a] \<Rightarrow>
         (if action_is a ''key'' then bare_commit a
          else is_click a
            \<and> (case alnum_tokens (semantic_text a) of
                 [t] \<Rightarrow> length t \<le> 3 \<and> token_distance t (u ''ok'') \<le> 1
               | _ \<Rightarrow> False))
     | _ \<Rightarrow> False)"

definition explorer_error_pattern :: rx where
  "explorer_error_pattern = rx_cat [wb, Chr (\<lambda>c. c = 118 \<or> c = 119), times_mn 1 2 (lit ''i''),
     lit ''ndows can'', rx_alt [lit ''not'', lit '' t''], lit '' find'', wb]"

definition drive_path_pattern :: rx where
  "drive_path_pattern = rx_cat [wb, Chr low_alpha, chr_eq 58, chr_eq 92]"

definition is_confirmed_safe_windows_error_dismissal :: "pydict list \<Rightarrow> pystr \<Rightarrow> bool" where
  "is_confirmed_safe_windows_error_dismissal actions observed =
     (needs_safe_windows_error_dismissal_surface_grounding actions
      \<and> (let text = unquote observed;
             normalized = py_strip (blank_out low_alnum text);
             compact = keep low_alnum text;
             ok_click = is_click (hd (active_of actions));
             explorer_error = (has ''file explorer'' normalized \<and> rx_search explorer_error_pattern normalized
                               \<and> has ''checkthespellingandtryagain'' compact);
             notepad_missing = (has ''notepad'' normalized \<and> has_word (u ''cannot find the'') normalized
                \<and> (has_word (u ''file'') normalized \<or> rx_search drive_path_pattern text)
                \<and> (ok_click \<or> has_word (u ''ok'') normalized))
         in \<not> dangerous_surface text \<and> (explorer_error \<or> notepad_missing)))"

definition text_segments :: "pystr \<Rightarrow> pystr list" where
  "text_segments s = rx_split (Chr (\<lambda>c. c \<in> {183, 124, 58, 10})) s"

definition fuzzy_window :: "pystr list \<Rightarrow> pystr list \<Rightarrow> bool" where
  "fuzzy_window expected tokens =
     (let width = length expected in
      \<not> (width = 1 \<and> length tokens \<noteq> 1)
      \<and> list_ex (\<lambda>start. sum_list (map2 token_distance (take width (drop start tokens)) expected) \<le> 1)
          [0..<length tokens + 1 - width])"

definition fuzzy_phrase_category :: "pystr \<Rightarrow> (string \<times> string) option" where
  "fuzzy_phrase_category text =
     (let segments = map alnum_tokens (text_segments text)
      in map_option snd (List.find (\<lambda>(phrase, _). list_ex (fuzzy_window (py_split (u phrase))) segments)
           fuzzy_commit_phrases))"

definition fuzzy_term_match :: "pystr \<Rightarrow> commit_term \<Rightarrow> bool" where
  "fuzzy_term_match token t =
     (let expected = u (fst t);
          maximum = (if 5 \<le> min (length token) (length expected) then 2 else 1)
      in \<bar>int (length token) - int (length expected)\<bar> \<le> int maximum \<and> osa_distance token expected \<le> maximum)"

definition fuzzy_category_from_semantics :: "pystr \<Rightarrow> (string \<times> string) option" where
  "fuzzy_category_from_semantics text =
     (let readings = concat (map ocr_token_variants (alnum_tokens text));
          hits = concat (map (\<lambda>r. filter (fuzzy_term_match r) fuzzy_commit_terms) readings)
      in case hits of [] \<Rightarrow> None | h # _ \<Rightarrow> Some (snd h))"

definition exact_categories :: "(rx \<times> string \<times> string) list" where
  "exact_categories =
     [(disable_security_re, ''disable_security'', ''high''), (financial_re, ''financial_or_purchase'', ''high''),
      (permissions_re, ''account_or_permission_change'', ''high''), (delete_re, ''delete'', ''high''),
      (install_re, ''software_installation'', ''medium''), (credential_re, ''credential_entry'', ''high''),
      (consent_re, ''legal_or_consent'', ''high''), (external_upload_re, ''file_external_upload'', ''high''),
      (power_re, ''power_or_firmware'', ''high''), (local_edit_re, ''local_file_edit'', ''medium'')]"

definition late_categories :: "(rx \<times> string \<times> string) list" where
  "late_categories =
     [(system_setting_re, ''system_setting_change'', ''medium''),
      (communication_re, ''communication_send'', ''medium''), (ambiguous_commit_re, ''unknown'', ''medium'')]"

definition first_category :: "(rx \<times> string \<times> string) list \<Rightarrow> pystr \<Rightarrow> (string \<times> string) option" where
  "first_category table text = map_option snd (List.find (\<lambda>(r, _). rx_search r text) table)"

definition category_from_semantics :: "pystr \<Rightarrow> (string \<times> string) option" where
  "category_from_semantics text = (case first_category exact_categories text of
       Some c \<Rightarrow> Some c
     | None \<Rightarrow> (case fuzzy_phrase_category text of
         Some c \<Rightarrow> Some c
       | None \<Rightarrow> (case first_category late_categories text of
           Some c \<Rightarrow> Some c | None \<Rightarrow> fuzzy_category_from_semantics text)))"

end
