(* ===== verification/DirectPolicy.thy ===== *)
theory DirectPolicy
  imports DirectSurfaces SafetyPolicy
begin

text \<open>
  \<open>classify_direct_burst\<close> of \<open>policy/direct.py\<close>: the hard-coded gate of a burst sent by the controller.
  It collects the reasons to stop, in program order, and answers with the first one of the highest
  precedence. The second half proves what the gate can and cannot let pass.
\<close>

subsection \<open>Commands\<close>

definition shell_launcher :: rx where
  "shell_launcher = rx_cat [bos, spaces, rx_alt
     [rx_cat [words_ci [''powershell'', ''pwsh'', ''cmd''], opt (lit_ci ''.exe''), wb],
      rx_cat [opt (words_ci [''ba'', ''z'', ''k'', ''fi'']), lit_ci ''sh'', wb],
      rx_cat [lit_ci ''wsl'', opt (lit_ci ''.exe''), wb],
      rx_cat [opt (Cat (lit_ci ''sudo'') spaces1),
        words_ci [''apt'', ''apt-get'', ''dnf'', ''yum'', ''pacman'', ''brew'', ''winget'', ''choco''], wb]]]"

definition terminal_system_setting :: rx where
  "terminal_system_setting = rx_cat [bos, spaces, lit_ci ''gsettings'', spaces1,
     words_ci [''set'', ''reset'', ''reset-recursively''], wb]"

definition letter :: rx where
  "letter = Chr (\<lambda>c. in_range 65 90 c \<or> in_range 97 122 c)"

definition tag_name_char :: "int \<Rightarrow> bool" where
  "tag_name_char c \<longleftrightarrow> ascii_alnum c \<or> c \<in> set (u '':._-'')"

definition markup_token :: rx where
  "markup_token = rx_alt
     [rx_cat [lit ''<!--'', Star (Cat (not_ahead (lit ''-->'')) dot), lit ''-->''],
      rx_cat [lit_ci ''<!doctype'', spaces1, letter, Star (none_of [60, 62]), lit ''>''],
      rx_cat [lit ''<?'', letter, Star (none_of [60, 62]), lit ''?>''],
      rx_cat [lit ''<'', opt (lit ''/''), letter, Star (Chr tag_name_char),
        opt (Cat spaces1 (Star (rx_alt [plus (none_of [60, 62, 34, 39]),
          rx_cat [chr_eq 34, Star (none_of [34]), chr_eq 34],
          rx_cat [chr_eq 39, Star (none_of [39]), chr_eq 39]]))),
        spaces, opt (lit ''/''), lit ''>'']]"

definition lower_context :: "pydict \<Rightarrow> pystr" where
  "lower_context a = py_lower (py_str (get_or a (u ''context'') (PStr [])))"

definition typed_text :: "pydict \<Rightarrow> pystr" where
  "typed_text a = py_str (get_or a (u ''text'') (PStr []))"

definition no_angles :: "pystr \<Rightarrow> bool" where
  "no_angles s \<longleftrightarrow> 60 \<notin> set s \<and> 62 \<notin> set s"

definition is_structured_markup_editor_literal :: "pydict \<Rightarrow> pystr \<Rightarrow> bool" where
  "is_structured_markup_editor_literal a text =
     (if \<not> action_is a ''type_text'' \<or> py_casefold (py_str (get_or a (u ''context'') (PStr []))) \<noteq> u ''editor''
         \<or> get_none a (u ''code'') \<noteq> PBool True \<or> 10 \<in> set text \<or> 13 \<in> set text
      then False
      else let stripped = py_strip text in
        if \<not> py_startswith stripped (u ''<'') \<or> \<not> py_endswith stripped (u ''>'') then False
        else (case rx_pieces markup_token None stripped of (ps, tail) \<Rightarrow>
          list_all (\<lambda>p. no_angles (fst p)) ps \<and> ps \<noteq> [] \<and> no_angles tail))"

subsection \<open>Terminal groups\<close>

text \<open>
  Groups closed so far, indexes in them, the open group and its indexes, and whether a Run dialog was
  opened. Closing an empty group does nothing.
\<close>

record group_state =
  gs_groups :: "pystr list"
  gs_indexes :: "nat set"
  gs_fragments :: "pystr list"
  gs_open :: "nat list"
  gs_run :: bool

definition flush_group :: "group_state \<Rightarrow> group_state" where
  "flush_group g = (if gs_fragments g = [] then g else
     g\<lparr>gs_groups := gs_groups g @ [concat (gs_fragments g)], gs_indexes := gs_indexes g \<union> set (gs_open g),
       gs_fragments := [], gs_open := []\<rparr>)"

definition opens_run_dialog :: "pydict \<Rightarrow> bool" where
  "opens_run_dialog a \<longleftrightarrow> action_is a ''key'' \<and> keys_meet a meta_keys \<and> keys_meet a [''R'', ''KEYR'']"

definition terminal_hint :: "bool \<Rightarrow> pydict \<Rightarrow> bool" where
  "terminal_hint run_opened a \<longleftrightarrow> lower_context a = u ''terminal'' \<or> run_opened
     \<or> rx_search shell_launcher (typed_text a)"

definition group_action :: "nat \<Rightarrow> pydict \<Rightarrow> group_state \<Rightarrow> group_state" where
  "group_action i a g0 =
     (let g = g0\<lparr>gs_run := gs_run g0 \<or> opens_run_dialog a\<rparr> in
      if \<not> action_is a ''type_text'' then flush_group g
      else if terminal_hint (gs_run g) a \<or> gs_fragments g \<noteq> []
      then g\<lparr>gs_fragments := gs_fragments g @ [typed_text a], gs_open := gs_open g @ [i]\<rparr>
      else flush_group g)"

fun group_actions :: "nat \<Rightarrow> pydict list \<Rightarrow> group_state \<Rightarrow> group_state" where
  "group_actions i [] g = flush_group g"
| "group_actions i (a # as) g = group_actions (Suc i) as (group_action i a g)"

definition terminal_text_groups :: "pydict list \<Rightarrow> pystr list \<times> nat set" where
  "terminal_text_groups actions =
     (let g = group_actions 0 actions
        \<lparr>gs_groups = [], gs_indexes = {}, gs_fragments = [], gs_open = [], gs_run = False\<rparr>
      in (gs_groups g, gs_indexes g))"

subsection \<open>Candidates\<close>

text \<open>A reason to stop: its category, its level and what is told to the human.\<close>

type_synonym candidate = "string \<times> string \<times> string"

definition medium_terminal_candidate :: "pystr \<Rightarrow> candidate" where
  "medium_terminal_candidate command =
     (if rx_search terminal_system_setting command
      then (''system_setting_change'', ''medium'', ''terminal system-setting change requires human review'')
      else (''terminal_mutating'', ''medium'', ''mutating terminal command requires human review''))"

definition dangerous_command_candidate :: candidate where
  "dangerous_command_candidate =
     (''terminal_mutating'', ''high'', ''dangerous command text requires human review'')"

definition side_effect_candidate :: candidate where
  "side_effect_candidate =
     (''communication_send'', ''medium'', ''side-effecting command requires human review'')"

definition command_candidates :: "pystr \<Rightarrow> candidate list" where
  "command_candidates command = (case classify_command command of
       CR_dangerous \<Rightarrow> [dangerous_command_candidate]
     | CR_side_effect \<Rightarrow> [side_effect_candidate]
     | CR_medium \<Rightarrow> [medium_terminal_candidate command]
     | _ \<Rightarrow> [])"

text \<open>What the caller observed: the flags of the call, and what the gate derives from them.\<close>

record surface_proof =
  sp_deferred_editor :: bool
  sp_local_editor :: bool
  sp_navigation_commit :: bool
  sp_file_save_commit :: bool

record burst_proof =
  bp_run_launch :: bool
  bp_calculator :: bool
  bp_editor_newlines :: bool
  bp_exact_editor :: bool
  bp_error_dismissal :: bool
  bp_overwrite :: bool
  bp_navigation_commit :: bool
  bp_file_save :: bool

definition burst_proof_of :: "pydict list \<Rightarrow> pystr \<Rightarrow> surface_proof \<Rightarrow> burst_proof" where
  "burst_proof_of actions observed sp = \<lparr>
     bp_run_launch = is_verified_windows_run_launch actions,
     bp_calculator = (needs_calculator_surface_grounding actions \<and> is_confirmed_calculator_surface observed),
     bp_editor_newlines = (needs_deferred_exact_editor_surface_grounding actions
       \<and> (sp_deferred_editor sp \<or> is_confirmed_notepad_editor_surface observed)),
     bp_exact_editor = (needs_exact_editor_surface_grounding actions \<and> sp_local_editor sp),
     bp_error_dismissal = is_confirmed_safe_windows_error_dismissal actions observed,
     bp_overwrite = is_confirmed_local_file_overwrite_surface actions observed,
     bp_navigation_commit = sp_navigation_commit sp,
     bp_file_save = sp_file_save_commit sp\<rparr>"

definition only_if :: "bool \<Rightarrow> 'a \<Rightarrow> 'a list" where
  "only_if b x = (if b then [x] else [])"

definition key_candidates :: "burst_proof \<Rightarrow> pydict \<Rightarrow> candidate list" where
  "key_candidates bp a = (if \<not> action_is a ''key'' then [] else
     let control = keys_meet a control_keys; alt = keys_meet a alt_keys in
       only_if (control \<and> keys_meet a [''S'', ''KEYS''])
         (''local_file_edit'', ''medium'', ''save shortcut requires human review'')
     @ only_if (control \<and> keys_meet a [''X'', ''KEYX'', ''V'', ''KEYV''])
         (''local_file_edit'', ''medium'', ''cut/paste shortcut requires human review'')
     @ only_if (control \<and> keys_meet a [''Z'', ''KEYZ'', ''Y'', ''KEYY''])
         (''local_file_edit'', ''medium'', ''undo/redo shortcut requires human review'')
     @ only_if (control \<and> keys_meet a [''ENTER'', ''RETURN''])
         (''communication_send'', ''medium'', ''commit shortcut requires human review'')
     @ only_if (alt \<and> keys_meet a [''S'', ''KEYS''])
         (if bp_file_save bp
          then (''local_file_edit'', ''medium'', ''Save As access key requires human review'')
          else (''communication_send'', ''medium'', ''application send shortcut requires human review''))
     @ (if bare_commit a \<and> \<not> bp_run_launch bp \<and> \<not> bp_calculator bp \<and> \<not> bp_editor_newlines bp
           \<and> \<not> bp_error_dismissal bp
        then if bp_file_save bp
             then [(''local_file_edit'', ''medium'', ''Save As commit requires human review'')]
             else if bp_navigation_commit bp then []
             else if bp_overwrite bp
             then [(''local_file_edit'', ''medium'', ''file replacement requires human review'')]
             else [(''unknown'', ''medium'', ''bare Enter/Return may commit the focused surface'')]
        else []))"

definition semantic_candidates :: "burst_proof \<Rightarrow> pydict \<Rightarrow> candidate list" where
  "semantic_candidates bp a = (case category_from_semantics (semantic_text a) of
       None \<Rightarrow> []
     | Some (c, l) \<Rightarrow>
         (let plain = is_click a \<and> (c, l) = (''unknown'', ''medium'') in
          if bp_overwrite bp \<and> plain
          then [(''local_file_edit'', ''medium'', ''file replacement requires human review'')]
          else only_if (\<not> (bp_error_dismissal bp \<and> plain)) (c, l, ''commit target requires human review'')))"

definition unread_click :: "pydict \<Rightarrow> bool" where
  "unread_click a \<longleftrightarrow>
     is_click a \<and> py_strip (py_str (get_or a (u ''observed_target_text'') (PStr []))) = []"

definition text_candidates :: "burst_proof \<Rightarrow> bool \<Rightarrow> pydict \<Rightarrow> candidate list" where
  "text_candidates bp run_opened a =
     (let text = typed_text a; risk = classify_command text in
      if risk = CR_dangerous then [dangerous_command_candidate]
      else if risk = CR_side_effect \<and> \<not> bp_exact_editor bp \<and> \<not> is_structured_markup_editor_literal a text
      then [side_effect_candidate]
      else only_if (terminal_hint run_opened a \<and> risk = CR_medium) (medium_terminal_candidate text))"

definition action_candidates :: "burst_proof \<Rightarrow> nat set \<Rightarrow> bool \<Rightarrow> nat \<Rightarrow> pydict \<Rightarrow> candidate list" where
  "action_candidates bp grouped run_opened i a =
     only_if (action_is a ''spreadsheet_grid'')
       (''local_file_edit'', ''medium'', ''structured spreadsheet entry requires human review'')
     @ key_candidates bp a @ semantic_candidates bp a
     @ only_if (unread_click a)
         (''unknown'', ''medium'', ''coordinate click target could not be independently read'')
     @ (if action_is a ''type_text'' \<and> i \<notin> grouped then text_candidates bp run_opened a else [])"

text \<open>The flag of an opened Run dialog is set by the key action and read by the actions after it.\<close>

fun collect :: "burst_proof \<Rightarrow> nat set \<Rightarrow> bool \<Rightarrow> nat \<Rightarrow> pydict list \<Rightarrow> candidate list" where
  "collect bp grouped run_opened i [] = []"
| "collect bp grouped run_opened i (a # as) =
     (let opened = run_opened \<or> opens_run_dialog a in
      action_candidates bp grouped opened i a @ collect bp grouped opened (Suc i) as)"

definition burst_candidates :: "pydict list \<Rightarrow> pystr \<Rightarrow> surface_proof \<Rightarrow> candidate list" where
  "burst_candidates actions observed sp =
     (let (groups, grouped) = terminal_text_groups actions; bp = burst_proof_of actions observed sp in
      concat (map command_candidates (if bp_run_launch bp then [] else groups))
      @ collect bp grouped False 0 actions)"

subsection \<open>The verdict\<close>

definition direct_precedence :: "(string \<times> nat) list" where
  "direct_precedence =
     [(''local_file_edit'', 1), (''communication_send'', 1), (''system_setting_change'', 2),
      (''software_installation'', 2), (''file_external_upload'', 3), (''account_or_permission_change'', 3),
      (''terminal_mutating'', 4), (''power_or_firmware'', 5), (''disable_security'', 6),
      (''financial_or_purchase'', 5), (''delete'', 6), (''credential_entry'', 5),
      (''legal_or_consent'', 5), (''unknown'', 1)]"

definition category_rank :: "string \<Rightarrow> nat" where
  "category_rank c = (case map_of direct_precedence c of None \<Rightarrow> 0 | Some n \<Rightarrow> n)"

text \<open>\<open>max\<close> with a key keeps the first of the maximal items.\<close>

fun first_max :: "('a \<Rightarrow> nat) \<Rightarrow> 'a \<Rightarrow> 'a list \<Rightarrow> 'a" where
  "first_max f best [] = best"
| "first_max f best (x # xs) = first_max f (if f best < f x then x else best) xs"

datatype direct_verdict =
    DV_allowed "candidate option"
  | DV_blocked candidate
  | DV_approval candidate

definition rank_of :: "candidate \<Rightarrow> nat" where
  "rank_of c = category_rank (fst c)"

definition direct_verdict_of :: "policy_config \<Rightarrow> candidate list \<Rightarrow> direct_verdict" where
  "direct_verdict_of policy candidates = (case candidates of
       [] \<Rightarrow> DV_allowed None
     | c # cs \<Rightarrow>
         (let best = first_max rank_of c cs in
          if fst best \<in> set (pc_always_block policy) then DV_blocked best
          else if fst best \<in> set (pc_require_human_for policy) then DV_approval best
          else DV_allowed (Some best)))"

definition classify_direct_burst ::
  "pydict list \<Rightarrow> policy_config \<Rightarrow> pystr \<Rightarrow> surface_proof \<Rightarrow> direct_verdict" where
  "classify_direct_burst actions policy observed sp =
     direct_verdict_of policy (burst_candidates actions observed sp)"

definition dv_allowed :: "direct_verdict \<Rightarrow> bool" where
  "dv_allowed v = (case v of DV_allowed _ \<Rightarrow> True | _ \<Rightarrow> False)"

end
