(* ===== verification/DirectGate.thy ===== *)
theory DirectGate
  imports DirectPolicy "HOL-Library.Sublist"
begin

text \<open>
  What the gate of direct bursts promises: which bursts pass under the default policy, that no text
  typed at a terminal escapes classification, that dangerous text and unread clicks never pass, and two
  ways in which the gate is weaker than it reads.
\<close>

subsection \<open>The choice of the verdict\<close>

lemma first_max_in: "first_max f b xs \<in> set (b # xs)"
proof (induction f b xs rule: first_max.induct)
  case (2 f best x xs)
  then show ?case by (cases "f best < f x") auto
qed simp

lemma first_max_ge: "x \<in> set (b # xs) \<Longrightarrow> f x \<le> f (first_max f b xs)"
proof (induction f b xs arbitrary: x rule: first_max.induct)
  case (2 f best y ys)
  let ?b = "if f best < f y then y else best"
  have "f ?b \<le> f (first_max f ?b ys)" using "2.IH" by simp
  then have "f best \<le> f (first_max f best (y # ys))" "f y \<le> f (first_max f best (y # ys))"
    by (auto split: if_splits)
  moreover have "z \<in> set ys \<Longrightarrow> f z \<le> f (first_max f best (y # ys))" for z
    using "2.IH" [of z] by simp
  ultimately show ?case using "2.prems" by auto
qed simp

definition listed :: "policy_config \<Rightarrow> string \<Rightarrow> bool" where
  "listed policy c \<longleftrightarrow> c \<in> set (pc_always_block policy) \<or> c \<in> set (pc_require_human_for policy)"

lemma verdict_allowed_listed:
  assumes "\<forall>c \<in> set cs. listed policy (fst c)"
  shows "dv_allowed (direct_verdict_of policy cs) \<longleftrightarrow> cs = []"
proof (cases cs)
  case Nil
  then show ?thesis by (simp add: direct_verdict_of_def dv_allowed_def)
next
  case (Cons c rest)
  then have "listed policy (fst (first_max rank_of c rest))"
    using assms first_max_in [of rank_of c rest] by blast
  with Cons show ?thesis by (auto simp: direct_verdict_of_def dv_allowed_def listed_def Let_def)
qed

lemma verdict_best:
  assumes "cs \<noteq> []"
  shows "\<exists>b \<in> set cs. (\<forall>c \<in> set cs. rank_of c \<le> rank_of b)
           \<and> direct_verdict_of policy cs =
              (if fst b \<in> set (pc_always_block policy) then DV_blocked b
               else if fst b \<in> set (pc_require_human_for policy) then DV_approval b else DV_allowed (Some b))"
proof -
  from assms obtain c rest where cs: "cs = c # rest" by (cases cs) auto
  show ?thesis
    unfolding cs using first_max_in [of rank_of c rest] first_max_ge [of _ c rest rank_of]
    by (intro bexI [of _ "first_max rank_of c rest"]) (auto simp: direct_verdict_of_def Let_def)
qed

subsection \<open>Every category of the gate is listed\<close>

definition gate_categories :: "string list" where
  "gate_categories = map fst direct_precedence"

lemma default_lists:
  "c \<in> set (pc_always_block default_policy_config) \<longleftrightarrow> c = ''disable_security''"
  "c \<in> set (pc_require_human_for default_policy_config) \<longleftrightarrow> c \<noteq> ''disable_security''"
  if "c \<in> set gate_categories"
proof -
  have "list_all (\<lambda>c. (c \<in> set (pc_always_block default_policy_config)) = (c = ''disable_security'')
      \<and> (c \<in> set (pc_require_human_for default_policy_config)) = (c \<noteq> ''disable_security'')) gate_categories"
    by code_simp
  with that show "c \<in> set (pc_always_block default_policy_config) \<longleftrightarrow> c = ''disable_security''"
    "c \<in> set (pc_require_human_for default_policy_config) \<longleftrightarrow> c \<noteq> ''disable_security''"
    by (simp_all only: list_all_iff)
qed

lemma gate_categories_listed: "c \<in> set gate_categories \<Longrightarrow> listed default_policy_config c"
proof -
  have "list_all (listed default_policy_config) gate_categories" by code_simp
  then show "c \<in> set gate_categories \<Longrightarrow> listed default_policy_config c" by (simp add: list_all_iff)
qed

lemma find_snd_in:
  assumes "map_option snd (List.find P xs) = Some c" and "list_all (Q \<circ> snd) xs"
  shows "Q c"
proof -
  obtain x where "List.find P xs = Some x" "c = snd x" using assms(1) by auto
  then have "x \<in> set xs" by (auto simp: find_Some_iff)
  with assms(2) \<open>c = snd x\<close> show ?thesis by (auto simp: list_all_iff)
qed

abbreviation gated :: "string \<times> string \<Rightarrow> bool" where
  "gated c \<equiv> fst c \<in> set gate_categories"

lemma tables_gated:
  "list_all (gated \<circ> snd) exact_categories" "list_all (gated \<circ> snd) late_categories"
  "list_all (gated \<circ> snd) fuzzy_commit_phrases" "list_all (gated \<circ> snd) fuzzy_commit_terms"
  by code_simp+

lemma concat_filters_sub: "set (concat (map (\<lambda>r. filter (f r) xs) rs)) \<subseteq> set xs"
  by auto

lemma fuzzy_terms_gated:
  assumes "fuzzy_category_from_semantics text = Some c"
  shows "gated c"
proof -
  let ?hits = "concat (map (\<lambda>r. filter (fuzzy_term_match r) fuzzy_commit_terms)
      (concat (map ocr_token_variants (alnum_tokens text))))"
  have "set ?hits \<subseteq> set fuzzy_commit_terms" by (rule concat_filters_sub)
  moreover obtain h rest where "?hits = h # rest" "c = snd h"
    using assms by (cases ?hits) (simp_all add: fuzzy_category_from_semantics_def Let_def)
  ultimately have "h \<in> set fuzzy_commit_terms" by simp
  with tables_gated(4) \<open>c = snd h\<close> show ?thesis by (auto simp: list_all_iff)
qed

lemma category_gated:
  assumes "category_from_semantics text = Some c"
  shows "gated c"
proof -
  consider "first_category exact_categories text = Some c" | "fuzzy_phrase_category text = Some c"
    | "first_category late_categories text = Some c" | "fuzzy_category_from_semantics text = Some c"
    using assms by (auto simp: category_from_semantics_def split: option.splits)
  then show ?thesis
  proof cases
    case 1
    then show ?thesis unfolding first_category_def by (rule find_snd_in [where Q = gated]) (rule tables_gated)
  next
    case 2
    then show ?thesis unfolding fuzzy_phrase_category_def Let_def by (rule find_snd_in [where Q = gated]) (rule tables_gated)
  next
    case 3
    then show ?thesis unfolding first_category_def by (rule find_snd_in [where Q = gated]) (rule tables_gated)
  next
    case 4
    from fuzzy_terms_gated [OF this] show ?thesis .
  qed
qed

lemma set_only_if [simp]: "set (only_if b x) = (if b then {x} else {})"
  by (cases b) (simp_all add: only_if_def)

lemma list_all_only_if: "list_all P (only_if b x) \<longleftrightarrow> (b \<longrightarrow> P x)"
  by (simp add: list_all_iff)

lemma literal_gated [simp]:
  "''local_file_edit'' \<in> set gate_categories" "''communication_send'' \<in> set gate_categories"
  "''unknown'' \<in> set gate_categories" "''terminal_mutating'' \<in> set gate_categories"
  "''system_setting_change'' \<in> set gate_categories"
  by code_simp+

lemma fixed_gated [simp]:
  "fst dangerous_command_candidate \<in> set gate_categories" "fst side_effect_candidate \<in> set gate_categories"
  "fst (medium_terminal_candidate t) \<in> set gate_categories"
  by (simp_all add: dangerous_command_candidate_def side_effect_candidate_def medium_terminal_candidate_def)

lemma key_candidates_gated: "c \<in> set (key_candidates bp a) \<Longrightarrow> fst c \<in> set gate_categories"
proof -
  have "list_all (\<lambda>c. fst c \<in> set gate_categories) (key_candidates bp a)"
    by (simp add: key_candidates_def Let_def list_all_only_if if_distrib [where f = "list_all _"]
        if_distrib [where f = fst])
  then show "c \<in> set (key_candidates bp a) \<Longrightarrow> fst c \<in> set gate_categories" by (simp add: list_all_iff)
qed

lemma semantic_candidates_gated:
  assumes "c \<in> set (semantic_candidates bp a)"
  shows "fst c \<in> set gate_categories"
proof (cases "category_from_semantics (semantic_text a)")
  case None
  with assms show ?thesis by (simp add: semantic_candidates_def)
next
  case (Some kl)
  with assms have "fst c = ''local_file_edit'' \<or> fst c = fst kl"
    by (cases kl) (auto simp: semantic_candidates_def Let_def split: if_splits)
  with category_gated [OF Some] show ?thesis by auto
qed

lemma text_candidates_gated: "c \<in> set (text_candidates bp r a) \<Longrightarrow> fst c \<in> set gate_categories"
  by (auto simp: text_candidates_def Let_def split: if_splits)

lemma command_candidates_gated: "c \<in> set (command_candidates t) \<Longrightarrow> fst c \<in> set gate_categories"
  by (auto simp: command_candidates_def split: command_risk.splits)

lemma action_candidates_gated: "c \<in> set (action_candidates bp g r i a) \<Longrightarrow> fst c \<in> set gate_categories"
  by (auto simp: action_candidates_def split: if_splits
      dest: key_candidates_gated semantic_candidates_gated text_candidates_gated)

lemma collect_gated: "c \<in> set (collect bp g r i as) \<Longrightarrow> fst c \<in> set gate_categories"
  by (induction bp g r i as rule: collect.induct) (auto simp: Let_def dest: action_candidates_gated)

lemma burst_candidates_gated: "c \<in> set (burst_candidates as ob sp) \<Longrightarrow> fst c \<in> set gate_categories"
  by (auto simp: burst_candidates_def Let_def split: prod.splits if_splits
      dest: collect_gated command_candidates_gated)

lemma default_allowed_iff:
  "dv_allowed (classify_direct_burst as default_policy_config ob sp) \<longleftrightarrow> burst_candidates as ob sp = []"
  unfolding classify_direct_burst_def
  by (rule verdict_allowed_listed) (auto dest: burst_candidates_gated gate_categories_listed)

subsection \<open>Text typed at a terminal\<close>

text \<open>A fragment is on its way into a group: it is part of a closed one or it is waiting in the open one.\<close>

definition in_group :: "pystr list \<Rightarrow> pystr \<Rightarrow> bool" where
  "in_group groups t \<longleftrightarrow> (\<exists>g \<in> set groups. sublist t g)"

lemma sublist_concat: "t \<in> set ts \<Longrightarrow> sublist t (concat ts)"
  by (induction ts) (auto simp: sublist_append)

lemma in_group_mono: "in_group gs t \<Longrightarrow> set gs \<subseteq> set gs' \<Longrightarrow> in_group gs' t"
  by (auto simp: in_group_def)

lemma flush_closes:
  "t \<in> set (gs_fragments g) \<Longrightarrow> in_group (gs_groups (flush_group g)) t"
  "j \<in> set (gs_open g) \<Longrightarrow> gs_fragments g \<noteq> [] \<Longrightarrow> j \<in> gs_indexes (flush_group g)"
  "set (gs_groups g) \<subseteq> set (gs_groups (flush_group g))" "gs_indexes g \<subseteq> gs_indexes (flush_group g)"
  "gs_run (flush_group g) = gs_run g" "gs_fragments (flush_group g) = []"
  by (cases "gs_fragments g"; auto simp: flush_group_def in_group_def sublist_append sublist_concat)+

text \<open>\<open>carried i t g\<close>: action \<open>i\<close> with the text \<open>t\<close> is in a group of \<open>g\<close>, closed or open.\<close>

definition carried :: "nat \<Rightarrow> pystr \<Rightarrow> group_state \<Rightarrow> bool" where
  "carried i t g \<longleftrightarrow> (i \<in> gs_indexes g \<and> in_group (gs_groups g) t)
     \<or> (i \<in> set (gs_open g) \<and> t \<in> set (gs_fragments g))"

lemma carried_flush: "carried i t g \<Longrightarrow> i \<in> gs_indexes (flush_group g) \<and> in_group (gs_groups (flush_group g)) t"
  using flush_closes(1) [of t g] flush_closes(2) [of i g] flush_closes(4) [of g]
    in_group_mono [OF _ flush_closes(3), of g t]
  by (cases "gs_fragments g") (auto simp: carried_def)

lemma carried_action: "carried i t g \<Longrightarrow> carried i t (group_action k a g)"
  using carried_flush [of i t "g\<lparr>gs_run := r\<rparr>" for r]
  by (auto simp: group_action_def carried_def Let_def)

lemma carried_actions:
  "carried i t g \<Longrightarrow> i \<in> gs_indexes (group_actions k as g) \<and> in_group (gs_groups (group_actions k as g)) t"
  by (induction k as g rule: group_actions.induct) (simp_all add: carried_flush carried_action)

lemma hinted_carried:
  assumes "action_is a ''type_text''" and "terminal_hint (gs_run g \<or> opens_run_dialog a) a"
  shows "carried k (typed_text a) (group_action k a g)"
  using assms by (simp add: group_action_def carried_def Let_def)

lemma group_action_run: "gs_run (group_action k a g) = (gs_run g \<or> opens_run_dialog a)"
  by (simp add: group_action_def Let_def flush_closes)

lemma group_actions_hinted:
  assumes "j < length as" and "action_is (as ! j) ''type_text''"
    and "terminal_hint (gs_run g \<or> list_ex opens_run_dialog (take j as)) (as ! j)"
  shows "k + j \<in> gs_indexes (group_actions k as g)
         \<and> in_group (gs_groups (group_actions k as g)) (typed_text (as ! j))"
  using assms
proof (induction as arbitrary: j k g)
  case (Cons a as)
  show ?case
  proof (cases j)
    case 0
    with Cons.prems have "carried k (typed_text a) (group_action k a g)"
      by (intro hinted_carried) (auto simp: terminal_hint_def)
    with 0 carried_actions show ?thesis by simp
  next
    case (Suc j')
    with Cons.prems Cons.IH [of j' "group_action k a g" "Suc k"] show ?thesis
      by (simp add: group_action_run disj_assoc)
  qed
qed simp

subsection \<open>What the default policy lets pass\<close>

text \<open>
  C21. Under the default policy a burst passes exactly when the gate finds no reason to stop; otherwise
  the verdict is about a reason of the highest precedence, blocked when that reason disables security
  and held for approval in every other case.
\<close>

theorem direct_gate_decides:
  "(dv_allowed (classify_direct_burst as default_policy_config ob sp) \<longleftrightarrow> burst_candidates as ob sp = [])
   \<and> (burst_candidates as ob sp \<noteq> [] \<longrightarrow>
        (\<exists>b \<in> set (burst_candidates as ob sp).
           (\<forall>c \<in> set (burst_candidates as ob sp). rank_of c \<le> rank_of b)
           \<and> classify_direct_burst as default_policy_config ob sp =
               (if fst b = ''disable_security'' then DV_blocked b else DV_approval b)))"
proof (intro conjI impI)
  let ?cs = "burst_candidates as ob sp"
  show "dv_allowed (classify_direct_burst as default_policy_config ob sp) \<longleftrightarrow> ?cs = []"
    by (rule default_allowed_iff)
  assume "?cs \<noteq> []"
  then obtain b where b: "b \<in> set ?cs" "\<forall>c \<in> set ?cs. rank_of c \<le> rank_of b"
    "classify_direct_burst as default_policy_config ob sp =
       (if fst b \<in> set (pc_always_block default_policy_config) then DV_blocked b
        else if fst b \<in> set (pc_require_human_for default_policy_config) then DV_approval b
        else DV_allowed (Some b))"
    using verdict_best [of ?cs default_policy_config] by (auto simp: classify_direct_burst_def)
  have "fst b \<in> set gate_categories" using b(1) by (rule burst_candidates_gated)
  with b(3) default_lists show "\<exists>b \<in> set ?cs. (\<forall>c \<in> set ?cs. rank_of c \<le> rank_of b)
      \<and> classify_direct_burst as default_policy_config ob sp =
          (if fst b = ''disable_security'' then DV_blocked b else DV_approval b)"
    using b(1, 2) by (intro bexI [OF _ b(1)]) auto
qed

definition no_proof :: surface_proof where
  "no_proof = \<lparr>sp_deferred_editor = False, sp_local_editor = False, sp_navigation_commit = False,
     sp_file_save_commit = False\<rparr>"

definition key_action :: "string list \<Rightarrow> pydict" where
  "key_action ks = [(u ''type'', PStr (u ''key'')), (u ''keys'', PList (map (\<lambda>k. PStr (u k)) ks))]"

definition click_on :: "string \<Rightarrow> pydict" where
  "click_on t = [(u ''type'', PStr (u ''click'')), (u ''observed_target_text'', PStr (u t))]"

lemma lone_key_candidates:
  assumes "action_is a ''key''" and "category_from_semantics (semantic_text a) = None"
  shows "burst_candidates [a] ob sp = key_candidates (burst_proof_of [a] ob sp) a"
proof -
  have other: "\<not> action_is a ''type_text''" "\<not> action_is a ''spreadsheet_grid''" "\<not> is_click a"
    using assms(1) by (auto simp: action_is_def is_click_def u_def)
  then have "terminal_text_groups [a] = ([], {})"
    by (simp add: terminal_text_groups_def group_action_def flush_group_def Let_def)
  with assms(2) other show ?thesis
    by (simp add: burst_candidates_def action_candidates_def semantic_candidates_def unread_click_def only_if_def)
qed

lemma ctrl_enter_facts:
  "keys_meet (key_action [''Ctrl'', ''Enter'']) control_keys"
  "keys_meet (key_action [''Ctrl'', ''Enter'']) [''ENTER'', ''RETURN'']"
  "category_from_semantics (semantic_text (key_action [''Ctrl'', ''Enter''])) = None"
  "action_is (key_action [''Ctrl'', ''Enter'']) ''key''"
  by code_simp+

lemma ctrl_enter_candidates: "burst_candidates [key_action [''Ctrl'', ''Enter'']] ob sp \<noteq> []"
  using ctrl_enter_facts by (simp add: lone_key_candidates key_candidates_def only_if_def Let_def)

theorem direct_gate_decides_witness:
  "\<not> dv_allowed (classify_direct_burst [key_action [''Ctrl'', ''Enter'']] default_policy_config [] no_proof)"
proof -
  from ctrl_enter_candidates direct_gate_decides [of "[key_action [''Ctrl'', ''Enter'']]" "[]" no_proof] show ?thesis by simp
qed

text \<open>
  C22. Every text typed at a terminal, that is in a terminal context, after a Run shortcut or behind a
  shell launcher, is part of one of the commands the gate puts together, and when the default policy
  lets the burst pass, that whole command is classified safe, unless the burst is a verified
  Run launch.
\<close>

theorem terminal_text_is_gated:
  assumes "j < length as" and "action_is (as ! j) ''type_text''"
    and "terminal_hint (list_ex opens_run_dialog (take j as)) (as ! j)"
    and "dv_allowed (classify_direct_burst as default_policy_config ob sp)"
    and "\<not> is_verified_windows_run_launch as"
  shows "\<exists>g \<in> set (fst (terminal_text_groups as)). sublist (typed_text (as ! j)) g
           \<and> classify_command g = CR_safe"
proof -
  obtain g where g: "g \<in> set (fst (terminal_text_groups as))" "sublist (typed_text (as ! j)) g"
    using group_actions_hinted [OF assms(1, 2), of
        "\<lparr>gs_groups = [], gs_indexes = {}, gs_fragments = [], gs_open = [], gs_run = False\<rparr>" 0] assms(3)
    by (auto simp: in_group_def terminal_text_groups_def Let_def)
  have "burst_candidates as ob sp = []" using assms(4) by (simp only: default_allowed_iff)
  with assms(5) g(1) have "command_candidates g = []"
    by (auto simp: burst_candidates_def burst_proof_of_def Let_def split: prod.splits)
  then have "classify_command g = CR_safe"
    by (simp add: command_candidates_def split: command_risk.splits)
  with g show ?thesis by blast
qed

definition terminal_text :: "string \<Rightarrow> pydict" where
  "terminal_text t = text_action t @ [(u ''context'', PStr (u ''Terminal''))]"

theorem terminal_text_is_gated_witness:
  "\<exists>g \<in> set (fst (terminal_text_groups [terminal_text ''ls'', text_action '' -a''])).
      sublist (typed_text (terminal_text ''ls'')) g \<and> classify_command g = CR_safe"
proof -
  let ?as = "[terminal_text ''ls'', text_action '' -a'']"
  have "dv_allowed (classify_direct_burst ?as default_policy_config [] no_proof)" by code_simp
  moreover have "terminal_hint (list_ex opens_run_dialog (take 0 ?as)) (?as ! 0)" by code_simp
  moreover have "action_is (?as ! 0) ''type_text''" by code_simp
  moreover have "\<not> is_verified_windows_run_launch ?as" by code_simp
  ultimately show ?thesis using terminal_text_is_gated [of 0 ?as "[]" no_proof] by simp
qed

lemma collect_mem:
  "j < length as \<Longrightarrow> c \<in> set (action_candidates bp g (r \<or> list_ex opens_run_dialog (take (Suc j) as)) (k + j) (as ! j))
    \<Longrightarrow> c \<in> set (collect bp g r k as)"
proof (induction bp g r k as arbitrary: j rule: collect.induct)
  case (2 bp g r k a as)
  show ?case
  proof (cases j)
    case 0
    with 2 show ?thesis by (simp add: Let_def)
  next
    case (Suc i)
    with 2 show ?thesis by (simp add: Let_def disj_assoc)
  qed
qed simp

lemma action_candidates_burst:
  assumes "j < length as"
  shows "set (action_candidates (burst_proof_of as ob sp) (snd (terminal_text_groups as))
            (list_ex opens_run_dialog (take (Suc j) as)) j (as ! j)) \<subseteq> set (burst_candidates as ob sp)"
  using collect_mem [OF assms, of _ "burst_proof_of as ob sp" "snd (terminal_text_groups as)" False 0]
  unfolding burst_candidates_def Let_def case_prod_unfold by auto

text \<open>
  A click whose target was not read independently never passes the default policy, whatever the
  rest of the burst and whatever surface was proved; nor does a single typed text that is dangerous on
  its face.
\<close>

theorem unread_click_and_dangerous_text_stop:
  assumes "j < length as"
    and "unread_click (as ! j)
         \<or> action_is (as ! j) ''type_text'' \<and> j \<notin> snd (terminal_text_groups as)
           \<and> classify_command (typed_text (as ! j)) = CR_dangerous"
  shows "\<not> dv_allowed (classify_direct_burst as default_policy_config ob sp)"
proof -
  have "action_candidates (burst_proof_of as ob sp) (snd (terminal_text_groups as))
          (list_ex opens_run_dialog (take (Suc j) as)) j (as ! j) \<noteq> []"
    using assms(2) by (auto simp: action_candidates_def text_candidates_def only_if_def Let_def)
  with action_candidates_burst [OF assms(1), of ob sp] have "burst_candidates as ob sp \<noteq> []"
    by (metis set_empty subset_empty)
  then show ?thesis by (simp only: default_allowed_iff not_False_eq_True)
qed

theorem unread_click_and_dangerous_text_stop_witness:
  "\<not> dv_allowed (classify_direct_burst [key_action [''Tab''], click_on '' ''] default_policy_config [] no_proof)"
proof -
  have "unread_click ([key_action [''Tab''], click_on '' ''] ! 1)" by code_simp
  with unread_click_and_dangerous_text_stop [of 1 "[key_action [''Tab''], click_on '' '']"]
  show ?thesis by simp
qed

text \<open>
  A chord written as one name, as in ctrl+Enter, is not recognised by the gate and passes, although
  the key layer sends the very keys that are held for approval when they are listed one by one.
\<close>

theorem composite_chord_bypasses_gate:
  "normalize_keys [PStr (u ''ctrl+Enter'')] = normalize_keys [PStr (u ''Ctrl''), PStr (u ''Enter'')]
   \<and> is_ok (normalize_keys [PStr (u ''ctrl+Enter'')])
   \<and> dv_allowed (classify_direct_burst [key_action [''ctrl+Enter'']] default_policy_config ob sp)
   \<and> \<not> dv_allowed (classify_direct_burst [key_action [''Ctrl'', ''Enter'']] default_policy_config ob sp)"
proof (intro conjI)
  have chord: "normalize_keys [PStr (u ''ctrl+Enter'')] = Inr [u ''ControlLeft'', u ''Enter'']" by code_simp
  moreover have "normalize_keys [PStr (u ''Ctrl''), PStr (u ''Enter'')] = Inr [u ''ControlLeft'', u ''Enter'']" by code_simp
  ultimately show "normalize_keys [PStr (u ''ctrl+Enter'')] = normalize_keys [PStr (u ''Ctrl''), PStr (u ''Enter'')]" by simp
  from chord show "is_ok (normalize_keys [PStr (u ''ctrl+Enter'')])" by simp
  show "dv_allowed (classify_direct_burst [key_action [''ctrl+Enter'']] default_policy_config ob sp)"
  proof -
    have "\<not> keys_meet (key_action [''ctrl+Enter'']) control_keys" "\<not> keys_meet (key_action [''ctrl+Enter'']) alt_keys"
      "\<not> bare_commit (key_action [''ctrl+Enter''])"
      "category_from_semantics (semantic_text (key_action [''ctrl+Enter''])) = None"
      "action_is (key_action [''ctrl+Enter'']) ''key''"
      by code_simp+
    then show ?thesis by (simp add: default_allowed_iff lone_key_candidates key_candidates_def only_if_def)
  qed
  show "\<not> dv_allowed (classify_direct_burst [key_action [''Ctrl'', ''Enter'']] default_policy_config ob sp)"
    using ctrl_enter_candidates by (simp add: default_allowed_iff)
qed

text \<open>
  A burst that turns a protection off is blocked when nothing else weighs as much, but the same
  burst after a click on Delete is only held for approval, because both weigh the same and the first
  reason wins.
\<close>

theorem delete_masks_disable_security:
  "classify_direct_burst [click_on ''disable antivirus''] default_policy_config [] no_proof
     = DV_blocked (''disable_security'', ''high'', ''commit target requires human review'')
   \<and> classify_direct_burst [click_on ''delete'', click_on ''disable antivirus''] default_policy_config [] no_proof
     = DV_approval (''delete'', ''high'', ''commit target requires human review'')"
proof (intro conjI)
  show "classify_direct_burst [click_on ''disable antivirus''] default_policy_config [] no_proof
     = DV_blocked (''disable_security'', ''high'', ''commit target requires human review'')"
    by code_simp
  show "classify_direct_burst [click_on ''delete'', click_on ''disable antivirus''] default_policy_config [] no_proof
     = DV_approval (''delete'', ''high'', ''commit target requires human review'')"
    by code_simp
qed

end
