(* ===== verification/BurstSession.thy ===== *)
theory BurstSession
  imports DirectPolicy BurstRun FrameStore
begin

text \<open>
  The session side of direct control, \<open>AgentRuntime.run_burst\<close> in \<open>runtime.py\<close>. A call is cut at its
  \<open>await\<close>s into pieces that run without interruption; each piece is one function on the session, and
  what it learns from outside (a capture, the pixels around a click, the OCR of the surface, the clients
  of the machine, the clock) is an argument. A store call takes effect when it is made.
\<close>

subsection \<open>Frames\<close>

text \<open>What a capture delivers, and the frame record the rest of the call reads.\<close>

record capture =
  cp_fp :: fp
  cp_keyboard :: kb_sig
  cp_width :: int
  cp_height :: int
  cp_sha256 :: pystr

record frame_view =
  fv_id :: int
  fv_world :: int
  fv_width :: int
  fv_height :: int
  fv_image_sha256 :: pystr
  fv_screen_hash :: pystr

subsection \<open>Replies\<close>

type_synonym burst_key = pystr
type_synonym burst_digest = pystr

record approval_req =
  aq_frame :: frame_view
  aq_epoch :: int
  aq_candidate :: candidate
  aq_actions :: "pydict list"
  aq_grounded :: "pydict list"
  aq_runtime_ms :: int
  aq_auto :: bool
  aq_screenshot :: bool
  aq_key :: burst_key
  aq_digest :: burst_digest

datatype effective_status = Es_run burst_status | Es_stopped | Es_evidence_failed

record outcome_reply =
  or_status :: effective_status
  or_outcome :: burst_outcome
  or_settle :: "bool \<times> bool option"
  or_runtime_ms :: int
  or_auto :: bool
  or_local :: "bool \<times> rat option"
  or_clients :: nat
  or_frame :: "frame_view option"

datatype reply_body =
    Rb_stopped
  | Rb_bad_burst
  | Rb_key_missing
  | Rb_key_too_long
  | Rb_conflict
  | Rb_freshness_required "frame_view option"
  | Rb_stale_world frame_view "rat option"
  | Rb_control_changed
  | Rb_other_clients nat frame_view
  | Rb_blocked candidate frame_view
  | Rb_needs_approval nat approval_req
  | Rb_human pystr
  | Rb_outcome outcome_reply

text \<open>
  A reply and its markers: answered from the receipt of its key, from the retained receipt of an equal
  burst, by joining a running one, under another key than the owner's.
\<close>

record burst_reply =
  rp_body :: reply_body
  rp_epoch :: "int option"
  rp_replay :: bool
  rp_semantic :: bool
  rp_joined :: bool
  rp_alias :: bool

definition plain_reply :: "reply_body \<Rightarrow> int option \<Rightarrow> burst_reply" where
  "plain_reply b ep = \<lparr>rp_body = b, rp_epoch = ep, rp_replay = False, rp_semantic = False,
     rp_joined = False, rp_alias = False\<rparr>"

definition reply_status :: "burst_reply \<Rightarrow> string" where
  "reply_status r = (case rp_body r of
       Rb_stopped \<Rightarrow> ''stopped''
     | Rb_bad_burst \<Rightarrow> ''failed''
     | Rb_key_missing \<Rightarrow> ''failed''
     | Rb_key_too_long \<Rightarrow> ''failed''
     | Rb_conflict \<Rightarrow> ''idempotency_conflict''
     | Rb_freshness_required _ \<Rightarrow> ''freshness_required''
     | Rb_stale_world _ _ \<Rightarrow> ''stale_world''
     | Rb_control_changed \<Rightarrow> ''control_changed''
     | Rb_other_clients _ _ \<Rightarrow> ''control_changed''
     | Rb_blocked _ _ \<Rightarrow> ''blocked''
     | Rb_needs_approval _ _ \<Rightarrow> ''needs_approval''
     | Rb_human _ \<Rightarrow> ''blocked''
     | Rb_outcome o1 \<Rightarrow> (case or_status o1 of
           Es_run Bs_completed \<Rightarrow> ''completed''
         | Es_run Bs_interrupted \<Rightarrow> ''interrupted''
         | Es_run Bs_failed \<Rightarrow> ''failed''
         | Es_run Bs_unverified \<Rightarrow> ''unverified''
         | Es_stopped \<Rightarrow> ''stopped''
         | Es_evidence_failed \<Rightarrow> ''failed''))"

subsection \<open>The session\<close>

datatype entry_status = Ie_completed | Ie_approval_pending | Ie_rejected | Ie_resolved

record idem_entry =
  ie_digest :: burst_digest
  ie_status :: entry_status
  ie_reply :: burst_reply

text \<open>
  An execution claim: its digest, the key that started it, the keys that joined, and its task. The task
  runs the actions; it has polled its gate with the answers listed and may have ended with a result.
\<close>

record burst_claim =
  cl_digest :: burst_digest
  cl_owner :: burst_key
  cl_keys :: "burst_key list"
  cl_actions :: "pydict list"
  cl_epoch :: int
  cl_approved :: bool
  cl_polls :: "stop_reason option list"
  cl_trace :: burst_trace
  cl_result :: "(burst_exn, burst_outcome) result option"

datatype live_status = Ls_running | Ls_needs_approval | Ls_paused | Ls_failed | Ls_done

datatype approval_state = As_pending | As_approved | As_approved_not_executed | As_rejected | As_resolved

record nav_draft =
  nd_text :: pystr
  nd_readback_sha256 :: pystr
  nd_image_sha256 :: pystr
  nd_screen_hash :: pystr
  nd_world :: int
  nd_epoch :: int

record burst_session =
  bs_stopped :: bool
  bs_status :: live_status
  bs_stored_status :: live_status
  bs_error :: pystr
  bs_epoch :: int
  bs_observed_epoch :: int
  bs_human_input :: bool
  bs_other_block :: bool
  bs_frames :: frame_store
  bs_latest :: "frame_view option"
  bs_draft :: "nav_draft option"
  bs_idem :: "burst_key \<rightharpoonup> idem_entry"
  bs_inflight :: "burst_key \<rightharpoonup> nat"
  bs_semantic :: "burst_digest \<rightharpoonup> nat"
  bs_unsafe :: "burst_digest \<rightharpoonup> burst_reply"
  bs_claims :: "burst_claim list"
  bs_approvals :: "(approval_req \<times> approval_state) list"

text \<open>
  What does not change during a session. \<open>rc_digest\<close> is the SHA-256 of the canonical JSON of the
  actions, the time budget and the screenshot flag, with the session and the machine.
\<close>

record runtime_cfg =
  rc_digest :: "pydict list \<Rightarrow> int \<Rightarrow> bool \<Rightarrow> burst_digest"
  rc_policy :: policy_config
  rc_threshold :: rat
  rc_limits :: burst_limits
  rc_local_freshness :: bool
  rc_fake :: bool

definition session_init :: burst_session where
  "session_init = \<lparr>bs_stopped = False, bs_status = Ls_running, bs_stored_status = Ls_running, bs_error = [],
     bs_epoch = 0, bs_observed_epoch = 0, bs_human_input = False, bs_other_block = False,
     bs_frames = fs_init, bs_latest = None, bs_draft = None, bs_idem = Map.empty, bs_inflight = Map.empty,
     bs_semantic = Map.empty, bs_unsafe = Map.empty, bs_claims = [], bs_approvals = []\<rparr>"

definition take_frame :: "runtime_cfg \<Rightarrow> capture \<Rightarrow> burst_session \<Rightarrow> burst_session \<times> frame_view" where
  "take_frame cfg c se =
     (let (fs, i, w) = fs_capture_full (rc_threshold cfg) (cp_fp c) (cp_keyboard c) True (bs_frames se);
          fv = \<lparr>fv_id = i, fv_world = w, fv_width = cp_width c, fv_height = cp_height c,
                fv_image_sha256 = cp_sha256 c, fv_screen_hash = screen_hash (cp_fp c)\<rparr>
      in (se\<lparr>bs_frames := fs, bs_latest := Some fv\<rparr>, fv))"

subsection \<open>Stops and human input\<close>

definition revoke_control :: "burst_session \<Rightarrow> burst_session" where
  "revoke_control se = se\<lparr>bs_epoch := bs_epoch se + 1, bs_human_input := True\<rparr>"

definition external_cursor :: "burst_session \<Rightarrow> burst_session" where
  "external_cursor se = (if bs_stopped se then se else revoke_control se)"

definition abort_session :: "pystr \<Rightarrow> burst_session \<Rightarrow> burst_session" where
  "abort_session reason se =
     se\<lparr>bs_epoch := bs_epoch se + 1, bs_stopped := True, bs_status := Ls_failed, bs_stored_status := Ls_failed,
        bs_error := (if reason = [] then u ''aborted by human'' else reason)\<rparr>"

definition panic_session :: "burst_session \<Rightarrow> burst_session" where
  "panic_session se0 =
     (let se = se0\<lparr>bs_epoch := bs_epoch se0 + 1, bs_stopped := True\<rparr> in
      if bs_status se \<in> {Ls_running, Ls_needs_approval, Ls_paused}
      then se\<lparr>bs_status := Ls_failed, bs_stored_status := Ls_failed, bs_error := u ''panic_stop''\<rparr> else se)"

definition observe_session :: "runtime_cfg \<Rightarrow> capture \<Rightarrow> burst_session \<Rightarrow> burst_session" where
  "observe_session cfg c se =
     (let se' = fst (take_frame cfg c se) in se'\<lparr>bs_observed_epoch := bs_epoch se'\<rparr>)"

text \<open>The gate of a burst planned under \<open>planned\<close>, with \<open>n\<close> other clients at the machine.\<close>

definition burst_gate :: "int \<Rightarrow> nat \<Rightarrow> burst_session \<Rightarrow> burst_session \<times> bool" where
  "burst_gate planned n se0 =
     (let se = (if n \<noteq> 0 \<and> \<not> bs_other_block se0 then (revoke_control se0)\<lparr>bs_other_block := True\<rparr> else se0)
      in (se, \<not> bs_stopped se \<and> bs_epoch se = planned \<and> n = 0))"

subsection \<open>The call and its phases\<close>

record burst_call =
  bc_actions :: "pydict list"
  bc_world :: "int option"
  bc_epoch :: "int option"
  bc_runtime_ms :: "int option"
  bc_screenshot :: bool
  bc_key :: "pystr option"
  bc_approved :: "burst_digest option"

text \<open>What a call has computed when it first waits: \<open>cc_world\<close> and \<open>cc_epoch\<close> are what it planned on.\<close>

record call_ctx =
  cc_actions :: "pydict list"
  cc_world :: int
  cc_epoch :: int
  cc_runtime_ms :: int
  cc_auto :: bool
  cc_screenshot :: bool
  cc_key :: burst_key
  cc_digest :: burst_digest
  cc_approved :: "burst_digest option"
  cc_planned :: "frame_view option"

record claim_view =
  cv_claim :: nat
  cv_joined :: bool
  cv_alias :: bool
  cv_local :: "bool \<times> rat option"

datatype call_phase =
    Cp_start burst_call
  | Cp_capture call_ctx
  | Cp_local call_ctx frame_view
  | Cp_clicks call_ctx frame_view "bool \<times> rat option"
  | Cp_ground call_ctx frame_view "bool \<times> rat option" "pydict list" bool
  | Cp_ask call_ctx nat approval_req
  | Cp_asked call_ctx nat approval_req
  | Cp_wait call_ctx claim_view
  | Cp_settle call_ctx claim_view burst_outcome bool
  | Cp_close call_ctx claim_view burst_outcome "bool \<times> bool option" effective_status "frame_view option"
  | Cp_return burst_reply
  | Cp_raise burst_exn

subsection \<open>Up to the first wait\<close>

definition replay_prior :: "burst_key \<Rightarrow> burst_digest \<Rightarrow> burst_digest option \<Rightarrow> burst_session \<Rightarrow> burst_reply option" where
  "replay_prior k d approved se = (case bs_idem se k of
       None \<Rightarrow> None
     | Some e \<Rightarrow>
         if ie_digest e \<noteq> d then Some (plain_reply Rb_conflict (Some (bs_epoch se)))
         else if ie_status e \<noteq> Ie_approval_pending \<or> approved \<noteq> Some d
         then Some ((ie_reply e)\<lparr>rp_replay := True\<rparr>) else None)"

definition replay_unsafe :: "burst_key \<Rightarrow> burst_digest \<Rightarrow> burst_session \<Rightarrow> (burst_session \<times> burst_reply) option" where
  "replay_unsafe k d se = map_option (\<lambda>r.
       (se\<lparr>bs_idem := (bs_idem se)(k \<mapsto> \<lparr>ie_digest = d, ie_status = Ie_completed, ie_reply = r\<rparr>)\<rparr>,
        r\<lparr>rp_alias := True, rp_semantic := True\<rparr>)) (bs_unsafe se d)"

definition enter_burst :: "runtime_cfg \<Rightarrow> burst_call \<Rightarrow> burst_session \<Rightarrow> burst_session \<times> call_phase" where
  "enter_burst cfg c se =
     (let answer = (\<lambda>b. Cp_return (plain_reply b (Some (bs_epoch se)))) in
      if bs_stopped se then (se, Cp_return (plain_reply Rb_stopped None))
      else case validate_actions (rc_limits cfg) (bc_actions c) of
        Inl Burst_Error \<Rightarrow> (se\<lparr>bs_status := Ls_paused\<rparr>, answer Rb_bad_burst)
      | Inl e \<Rightarrow> (se, Cp_raise e)
      | Inr _ \<Rightarrow>
        (case (case bc_runtime_ms c of Some n \<Rightarrow> Inr n
                 | None \<Rightarrow> recommended_runtime_ms (rc_limits cfg) (bc_actions c)) of
           Inl e \<Rightarrow> (se, Cp_raise e)
         | Inr runtime \<Rightarrow>
            (let d = rc_digest cfg (bc_actions c) runtime (bc_screenshot c);
                 k = py_strip (case bc_key c of None \<Rightarrow> [] | Some k \<Rightarrow> k)
             in if k = [] then (se, answer Rb_key_missing)
                else if 160 < length k then (se, answer Rb_key_too_long)
                else case replay_prior k d (bc_approved c) se of
                  Some r \<Rightarrow> (se, Cp_return r)
                | None \<Rightarrow> (case replay_unsafe k d se of
                    Some (se', r) \<Rightarrow> (se', Cp_return r)
                  | None \<Rightarrow> (case (bc_world c, bc_epoch c) of
                      (Some w, Some ep) \<Rightarrow> (se, Cp_capture \<lparr>cc_actions = bc_actions c, cc_world = w, cc_epoch = ep,
                         cc_runtime_ms = runtime, cc_auto = (bc_runtime_ms c = None),
                         cc_screenshot = bc_screenshot c, cc_key = k, cc_digest = d, cc_approved = bc_approved c,
                         cc_planned = bs_latest se\<rparr>)
                    | _ \<Rightarrow> (se, answer (Rb_freshness_required (bs_latest se))))))))"

subsection \<open>Freshness, control and other clients\<close>

definition local_pointer_freshness_enabled :: "bool \<Rightarrow> bool \<Rightarrow> string \<Rightarrow> bool" where
  "local_pointer_freshness_enabled capability flag profile \<longleftrightarrow>
     capability \<and> flag \<and> profile = ''isolated_benchmark''"

definition pointer_kinds :: "pystr list" where
  "pointer_kinds = map u [''click'', ''double_click'', ''move'']"

text \<open>The comparison of the pixels around the pointer is the argument \<open>px\<close>.\<close>

definition localized_pointer_freshness :: "pydict list \<Rightarrow> bool \<times> rat option \<Rightarrow> bool \<times> rat option" where
  "localized_pointer_freshness actions px =
     (let kinds = map (\<lambda>a. py_str (get_or a (u ''type'') (PStr []))) actions in
      if kinds = [] \<or> \<not> set kinds \<subseteq> set (pointer_kinds @ passive_action_types)
         \<or> \<not> list_ex (\<lambda>a. str_in (action_type a) pointer_kinds) actions
      then (False, None) else px)"

text \<open>The last checks before the grounding: nobody has taken control and no other client is connected.\<close>

definition check_control ::
  "call_ctx \<Rightarrow> frame_view \<Rightarrow> bool \<times> rat option \<Rightarrow> nat \<Rightarrow> burst_session \<Rightarrow> burst_session \<times> call_phase" where
  "check_control cx fv loc n se =
     (if bs_epoch se \<noteq> cc_epoch cx
      then (se, Cp_return (plain_reply Rb_control_changed (Some (bs_epoch se))))
      else if n \<noteq> 0
      then (let se' = (if bs_other_block se then se else (revoke_control se)\<lparr>bs_other_block := True\<rparr>)
            in (se', Cp_return (plain_reply (Rb_other_clients n fv) (Some (bs_epoch se')))))
      else (se\<lparr>bs_other_block := False\<rparr>, Cp_clicks cx fv loc))"

definition after_capture ::
  "runtime_cfg \<Rightarrow> call_ctx \<Rightarrow> capture \<Rightarrow> nat \<Rightarrow> burst_session \<Rightarrow> burst_session \<times> call_phase" where
  "after_capture cfg cx c n se0 =
     (let (se, fv) = take_frame cfg c se0
      in if fv_world fv = cc_world cx then check_control cx fv (False, None) n se
         else if rc_local_freshness cfg \<and> map_option fv_world (cc_planned cx) = Some (cc_world cx)
         then (se, Cp_local cx fv)
         else (se, Cp_return (plain_reply (Rb_stale_world fv None) (Some (bs_epoch se)))))"

definition after_local ::
  "call_ctx \<Rightarrow> frame_view \<Rightarrow> bool \<times> rat option \<Rightarrow> nat \<Rightarrow> burst_session \<Rightarrow> burst_session \<times> call_phase" where
  "after_local cx fv px n se =
     (let loc = localized_pointer_freshness (cc_actions cx) px
      in if fst loc then check_control cx fv loc n se
         else (se, Cp_return (plain_reply (Rb_stale_world fv (snd loc)) (Some (bs_epoch se)))))"

subsection \<open>The grounded draft\<close>

definition has_matching_draft :: "burst_session \<Rightarrow> pydict list \<Rightarrow> frame_view \<Rightarrow> bool" where
  "has_matching_draft se actions fv = (case bs_draft se of
       None \<Rightarrow> False
     | Some nd \<Rightarrow>
         needs_local_navigation_surface_grounding actions \<and> is_safe_local_commit_draft (nd_text nd)
         \<and> nd_epoch nd = bs_epoch se \<and> nd_world nd = fv_world fv
         \<and> length (nd_readback_sha256 nd) = 64 \<and> length (nd_image_sha256 nd) = 64
         \<and> length (py_lower (fv_image_sha256 fv)) = 64 \<and> length (py_lower (fv_screen_hash fv)) = 512
         \<and> screen_hashes_match_surface (nd_screen_hash nd) (py_lower (fv_screen_hash fv)))"

definition key_chord :: "pydict \<Rightarrow> pystr set" where
  "key_chord a = (if action_is a ''key'' then set (key_tokens a) else {})"

definition exact_field_replacement :: "pydict list \<Rightarrow> bool" where
  "exact_field_replacement active = (case active of
       [a, t] \<Rightarrow> action_is t ''type_text'' \<and> key_chord a = set (map u [''CTRL'', ''A''])
     | [a, b, t] \<Rightarrow> action_is t ''type_text'' \<and> key_chord a = set (map u [''ALT'', ''N''])
                      \<and> key_chord b = set (map u [''CTRL'', ''A''])
     | _ \<Rightarrow> False)"

definition receipt_at :: "nat \<Rightarrow> (nat \<times> pydict) list \<Rightarrow> pydict" where
  "receipt_at i receipts = (case map_of receipts i of None \<Rightarrow> [] | Some r \<Rightarrow> r)"

definition exact_draft_receipt :: "pydict \<Rightarrow> pydict \<Rightarrow> frame_view option \<Rightarrow> bool" where
  "exact_draft_receipt a r final \<longleftrightarrow>
     get_none a (u ''context'') = PStr (u ''field'') \<and> get_none a (u ''secret'') \<noteq> PBool True
     \<and> is_safe_local_commit_draft (str_or_empty (get_none a (u ''text'')))
     \<and> get_none r (u ''status'') = PStr (u ''verified_exact'')
     \<and> get_none r (u ''verdict'') = PStr (u ''match'')
     \<and> get_none r (u ''focus_evidence'') = PStr (u ''read_back_verified'')
     \<and> get_none r (u ''exact_readback_sha256_match'') = PBool True
     \<and> get_none r (u ''emitted_exactly_once'') = PBool True
     \<and> get_none r (u ''observed_text'') = PStr (str_or_empty (get_none a (u ''text'')))
     \<and> length (py_lower (str_or_empty (get_none r (u ''readback_frame_sha256'')))) = 64
     \<and> (case final of None \<Rightarrow> False
         | Some fv \<Rightarrow> length (py_lower (fv_screen_hash fv)) = 512 \<and> length (py_lower (fv_image_sha256 fv)) = 64)"

definition update_draft ::
  "pydict list \<Rightarrow> (nat \<times> pydict) list \<Rightarrow> frame_view option \<Rightarrow> burst_session \<Rightarrow> burst_session" where
  "update_draft actions receipts final se =
     (let active = active_actions actions in
      if active = [] then se
      else if \<not> (length active = 1 \<and> action_is (snd (hd active)) ''type_text''
                  \<or> exact_field_replacement (map snd active))
      then se\<lparr>bs_draft := None\<rparr>
      else let (i, a) = last active; r = receipt_at i receipts in
        (case final of
           Some fv \<Rightarrow>
             if exact_draft_receipt a r final
             then se\<lparr>bs_draft := Some \<lparr>nd_text = str_or_empty (get_none a (u ''text'')),
                    nd_readback_sha256 = py_lower (str_or_empty (get_none r (u ''readback_frame_sha256''))),
                    nd_image_sha256 = py_lower (fv_image_sha256 fv), nd_screen_hash = py_lower (fv_screen_hash fv),
                    nd_world = fv_world fv, nd_epoch = bs_epoch se\<rparr>\<rparr>
             else se\<lparr>bs_draft := None\<rparr>
         | None \<Rightarrow> se\<lparr>bs_draft := None\<rparr>))"

subsection \<open>The claim\<close>

text \<open>Equal bursts share one task: a call joins the task of its key, then the task of its digest.\<close>

definition join_semantic :: "burst_key \<Rightarrow> burst_digest \<Rightarrow> burst_session \<Rightarrow> burst_session \<times> nat option" where
  "join_semantic k d se = (case bs_inflight se k of
       Some i \<Rightarrow> (se, Some i)
     | None \<Rightarrow> (case bs_semantic se d of
         None \<Rightarrow> (se, None)
       | Some i \<Rightarrow> (se\<lparr>bs_inflight := (bs_inflight se)(k \<mapsto> i),
             bs_claims := (bs_claims se)[i := (bs_claims se ! i)\<lparr>cl_keys := List.insert k (cl_keys (bs_claims se ! i))\<rparr>]\<rparr>,
           Some i)))"

definition start_claim :: "call_ctx \<Rightarrow> burst_session \<Rightarrow> burst_session \<times> nat" where
  "start_claim cx se =
     (let i = length (bs_claims se) in
      (se\<lparr>bs_claims := bs_claims se @ [\<lparr>cl_digest = cc_digest cx, cl_owner = cc_key cx, cl_keys = [cc_key cx],
             cl_actions = cc_actions cx, cl_epoch = cc_epoch cx, cl_approved = (cc_approved cx = Some (cc_digest cx)),
             cl_polls = [], cl_trace = [], cl_result = None\<rparr>],
          bs_inflight := (bs_inflight se)(cc_key cx \<mapsto> i),
          bs_semantic := (bs_semantic se)(cc_digest cx \<mapsto> i)\<rparr>, i))"

definition mark_running :: "burst_session \<Rightarrow> burst_session" where
  "mark_running se = se\<lparr>bs_status := Ls_running, bs_stored_status := Ls_running\<rparr>"

definition claim_burst :: "call_ctx \<Rightarrow> bool \<times> rat option \<Rightarrow> burst_session \<Rightarrow> burst_session \<times> call_phase" where
  "claim_burst cx loc se =
     (let k = cc_key cx; d = cc_digest cx in
      case replay_prior k d (cc_approved cx) se of
        Some r \<Rightarrow> (se, Cp_return r)
      | None \<Rightarrow> (case replay_unsafe k d se of
          Some (se', r) \<Rightarrow> (se', Cp_return r)
        | None \<Rightarrow>
           if (case bs_inflight se k of None \<Rightarrow> False | Some i \<Rightarrow> cl_digest (bs_claims se ! i) \<noteq> d)
           then (se, Cp_return (plain_reply Rb_conflict (Some (bs_epoch se))))
           else (case join_semantic k d se of
             (se1, Some i) \<Rightarrow> (mark_running se1, Cp_wait cx \<lparr>cv_claim = i, cv_joined = True,
                 cv_alias = (cl_owner (bs_claims se1 ! i) \<noteq> k), cv_local = loc\<rparr>)
           | (se1, None) \<Rightarrow> (case start_claim cx se1 of
               (se2, i) \<Rightarrow> (mark_running se2, Cp_wait cx \<lparr>cv_claim = i, cv_joined = False, cv_alias = False, cv_local = loc\<rparr>)))))"

subsection \<open>The policy gate\<close>

text \<open>What the OCR of the keyboard surface adds.\<close>

record grounding =
  gr_observed :: pystr
  gr_navigation :: bool
  gr_save :: bool
  gr_editor :: bool

text \<open>The OCR of the click targets may add the text it read, and nothing else.\<close>

definition grounded_action :: "pydict \<Rightarrow> pydict \<Rightarrow> bool" where
  "grounded_action a b \<longleftrightarrow> b = a
     \<or> is_click a \<and> is_PStr (get_none b (u ''observed_target_text''))
       \<and> b = dict_set a (u ''observed_target_text'') (get_none b (u ''observed_target_text''))"

definition grounds :: "pydict list \<Rightarrow> pydict list \<Rightarrow> bool" where
  "grounds actions grounded \<longleftrightarrow> list_all2 grounded_action actions grounded"

definition surface_of :: "grounding \<Rightarrow> bool \<Rightarrow> surface_proof" where
  "surface_of g matching = \<lparr>sp_deferred_editor = gr_editor g, sp_local_editor = gr_editor g,
     sp_navigation_commit = (matching \<and> gr_navigation g), sp_file_save_commit = (matching \<and> gr_save g)\<rparr>"

definition request_of :: "call_ctx \<Rightarrow> frame_view \<Rightarrow> pydict list \<Rightarrow> candidate \<Rightarrow> approval_req" where
  "request_of cx fv grounded c = \<lparr>aq_frame = fv, aq_epoch = cc_epoch cx, aq_candidate = c, aq_actions = cc_actions cx,
     aq_grounded = grounded, aq_runtime_ms = cc_runtime_ms cx, aq_auto = cc_auto cx,
     aq_screenshot = cc_screenshot cx, aq_key = cc_key cx, aq_digest = cc_digest cx\<rparr>"

definition after_clicks ::
  "call_ctx \<Rightarrow> frame_view \<Rightarrow> bool \<times> rat option \<Rightarrow> pydict list \<Rightarrow> burst_session \<Rightarrow> burst_session \<times> call_phase" where
  "after_clicks cx fv loc grounded se = (se, Cp_ground cx fv loc grounded (has_matching_draft se grounded fv))"

definition after_ground ::
  "runtime_cfg \<Rightarrow> call_ctx \<Rightarrow> frame_view \<Rightarrow> bool \<times> rat option \<Rightarrow> pydict list \<Rightarrow> bool \<Rightarrow> grounding
     \<Rightarrow> burst_session \<Rightarrow> burst_session \<times> call_phase" where
  "after_ground cfg cx fv loc grounded matching g se =
     (case classify_direct_burst grounded (rc_policy cfg) (gr_observed g) (surface_of g matching) of
        DV_blocked c \<Rightarrow> (se, Cp_return (plain_reply (Rb_blocked c fv) (Some (bs_epoch se))))
      | DV_approval c \<Rightarrow>
          if cc_approved cx \<noteq> Some (cc_digest cx)
          then (let rq = request_of cx fv grounded c in
                (se\<lparr>bs_approvals := bs_approvals se @ [(rq, As_pending)]\<rparr>, Cp_ask cx (length (bs_approvals se)) rq))
          else claim_burst cx loc se
      | DV_allowed _ \<Rightarrow> claim_burst cx loc se)"

definition after_ask :: "call_ctx \<Rightarrow> nat \<Rightarrow> approval_req \<Rightarrow> burst_session \<Rightarrow> burst_session \<times> call_phase" where
  "after_ask cx i rq se =
     (se\<lparr>bs_status := Ls_needs_approval, bs_stored_status := Ls_needs_approval\<rparr>, Cp_asked cx i rq)"

definition after_asked :: "call_ctx \<Rightarrow> nat \<Rightarrow> approval_req \<Rightarrow> burst_session \<Rightarrow> burst_session \<times> call_phase" where
  "after_asked cx i rq se =
     (let r = plain_reply (Rb_needs_approval i rq) (Some (bs_epoch se)) in
      (se\<lparr>bs_idem := (bs_idem se)(cc_key cx \<mapsto>
            \<lparr>ie_digest = cc_digest cx, ie_status = Ie_approval_pending, ie_reply = r\<rparr>)\<rparr>, Cp_return r))"

subsection \<open>After the task\<close>

definition base_reply :: "burst_reply \<Rightarrow> burst_reply" where
  "base_reply r = r\<lparr>rp_joined := False, rp_alias := False\<rparr>"

definition claimed_keys :: "burst_key \<Rightarrow> burst_claim \<Rightarrow> burst_key set" where
  "claimed_keys k c = (if cl_keys c = [] then {k} else set (cl_keys c))"

definition finish_claim :: "burst_key \<Rightarrow> burst_digest \<Rightarrow> nat \<Rightarrow> burst_reply \<Rightarrow> bool \<Rightarrow> burst_session \<Rightarrow> burst_session" where
  "finish_claim k d i r retain se =
     (let ks = claimed_keys k (bs_claims se ! i);
          e = \<lparr>ie_digest = d, ie_status = Ie_completed, ie_reply = base_reply r\<rparr>
      in se\<lparr>bs_idem := (\<lambda>x. if x \<in> ks then Some e else bs_idem se x),
            bs_inflight := (\<lambda>x. if x \<in> ks \<and> bs_inflight se x = Some i then None else bs_inflight se x),
            bs_semantic := (\<lambda>x. if x = d \<and> bs_semantic se x = Some i then None else bs_semantic se x),
            bs_unsafe := (if retain then (bs_unsafe se)(d \<mapsto> base_reply r) else bs_unsafe se)\<rparr>)"

text \<open>\<open>n\<close> is the number of other clients, should the gate be asked whether to let the screen settle.\<close>

definition after_task ::
  "runtime_cfg \<Rightarrow> call_ctx \<Rightarrow> claim_view \<Rightarrow> nat \<Rightarrow> (burst_exn, burst_outcome) result \<Rightarrow> burst_session \<Rightarrow> burst_session \<times> call_phase" where
  "after_task cfg cx cv n res se = (case res of
       Inl Burst_Error \<Rightarrow>
         (let se' = se\<lparr>bs_status := Ls_paused\<rparr>; r = plain_reply Rb_bad_burst (Some (bs_epoch se'))
          in (finish_claim (cc_key cx) (cc_digest cx) (cv_claim cv) r False se', Cp_return r))
     | Inl e \<Rightarrow> (se, Cp_raise e)
     | Inr out \<Rightarrow>
         if \<not> cc_screenshot cx \<or> bo_status out \<noteq> Bs_completed \<or> bo_completed out = 0
         then (se, Cp_settle cx cv out False)
         else (case needs_post_action_settle (cc_actions cx) of
             Inl e \<Rightarrow> (se, Cp_raise e)
           | Inr needs \<Rightarrow>
               if needs \<and> \<not> rc_fake cfg
               then (case burst_gate (cc_epoch cx) n se of (se', go) \<Rightarrow> (se', Cp_settle cx cv out go))
               else (se, Cp_settle cx cv out False)))"

text \<open>The final capture may fail (\<open>None\<close>); \<open>quieted\<close> is the answer of the settling wait, if there was one.\<close>

definition after_settle ::
  "runtime_cfg \<Rightarrow> call_ctx \<Rightarrow> claim_view \<Rightarrow> burst_outcome \<Rightarrow> bool \<Rightarrow> bool option \<Rightarrow> capture option
     \<Rightarrow> burst_session \<Rightarrow> burst_session \<times> call_phase" where
  "after_settle cfg cx cv out applied quieted c se0 =
     (let (se1, final) = (if cc_screenshot cx
                          then (case c of None \<Rightarrow> (se0, None)
                                 | Some c' \<Rightarrow> (case take_frame cfg c' se0 of (se', fv) \<Rightarrow> (se', Some fv)))
                          else (se0, bs_latest se0));
          failed = (cc_screenshot cx \<and> c = None);
          se2 = update_draft (cc_actions cx) (bo_action_receipts out) final se1;
          (st, eff) = (if bs_stopped se2 then (Ls_failed, Es_stopped)
                       else (Ls_paused, if failed then Es_evidence_failed else Es_run (bo_status out)))
      in (se2\<lparr>bs_status := st, bs_stored_status := st\<rparr>,
          Cp_close cx cv out (applied, if applied then quieted else None) eff final))"

definition after_close ::
  "call_ctx \<Rightarrow> claim_view \<Rightarrow> burst_outcome \<Rightarrow> bool \<times> bool option \<Rightarrow> effective_status \<Rightarrow> frame_view option
     \<Rightarrow> nat \<Rightarrow> burst_session \<Rightarrow> burst_session \<times> call_phase" where
  "after_close cx cv out settle eff final n se =
     (let r = \<lparr>rp_body = Rb_outcome \<lparr>or_status = eff, or_outcome = out, or_settle = settle,
                 or_runtime_ms = cc_runtime_ms cx, or_auto = cc_auto cx, or_local = cv_local cv,
                 or_clients = n, or_frame = final\<rparr>,
               rp_epoch = Some (bs_epoch se), rp_replay = False, rp_semantic = False,
               rp_joined = cv_joined cv, rp_alias = cv_alias cv\<rparr>
      in (finish_claim (cc_key cx) (cc_digest cx) (cv_claim cv) r
            (0 < bo_completed out \<and> eff \<noteq> Es_run Bs_completed) se, Cp_return r))"

subsection \<open>Approvals\<close>

definition approved_call :: "approval_req \<Rightarrow> burst_call" where
  "approved_call rq = \<lparr>bc_actions = aq_actions rq, bc_world = Some (fv_world (aq_frame rq)),
     bc_epoch = Some (aq_epoch rq), bc_runtime_ms = (if aq_auto rq then None else Some (aq_runtime_ms rq)),
     bc_screenshot = aq_screenshot rq, bc_key = Some (aq_key rq), bc_approved = Some (aq_digest rq)\<rparr>"

definition resolve_approval :: "nat \<Rightarrow> approval_state \<Rightarrow> burst_session \<Rightarrow> burst_session" where
  "resolve_approval i st se = (if i < length (bs_approvals se)
     then se\<lparr>bs_approvals := (bs_approvals se)[i := (fst (bs_approvals se ! i), st)]\<rparr> else se)"

definition approval_result :: "burst_reply \<Rightarrow> approval_state" where
  "approval_result r = (if reply_status r = ''completed'' then As_approved else As_approved_not_executed)"

text \<open>A refusal: \<open>rejected\<close> when the human said reject, else a take-over or another answer.\<close>

definition reject_burst :: "approval_req \<Rightarrow> bool \<Rightarrow> pystr \<Rightarrow> burst_session \<Rightarrow> burst_session \<times> burst_reply" where
  "reject_burst rq rejected reason se =
     (let r = plain_reply (Rb_human reason) (Some (bs_epoch se));
          idem = (case bs_idem se (aq_key rq) of
              None \<Rightarrow> bs_idem se
            | Some e \<Rightarrow> (bs_idem se)(aq_key rq \<mapsto>
                e\<lparr>ie_status := (if rejected then Ie_rejected else Ie_resolved), ie_reply := r\<rparr>))
      in (se\<lparr>bs_idem := idem, bs_status := Ls_paused, bs_stored_status := Ls_paused\<rparr>, r))"

end
