(* ===== verification/BurstConcurrency.thy ===== *)
theory BurstConcurrency
  imports BurstSession
begin

text \<open>
  All calls of a session at once: a step runs one piece of one call, lets a task poll its gate or end,
  or is a stop, a human input or an answer to an approval. The first result is a refinement: whatever
  the interleaving, the indexes of the session implement a ledger in which a key is spent once, an equal
  burst runs one at a time, and a braked burst never starts again.
\<close>

subsection \<open>The steps\<close>

record burst_world =
  bw_session :: burst_session
  bw_calls :: "(call_phase \<times> nat option) list"

definition world_init :: burst_world where
  "world_init = \<lparr>bw_session = session_init, bw_calls = []\<rparr>"

fun poll_of :: "burst_event \<Rightarrow> stop_reason option list" where
  "poll_of (Ev_poll p) = [p]"
| "poll_of _ = []"

definition polls_of :: "burst_trace \<Rightarrow> stop_reason option list" where
  "polls_of tr = concat (map poll_of tr)"

definition set_claim :: "nat \<Rightarrow> burst_claim \<Rightarrow> burst_session \<Rightarrow> burst_session" where
  "set_claim i c se = se\<lparr>bs_claims := (bs_claims se)[i := c]\<rparr>"

text \<open>One piece of a call: the phase it was in, the session before and after, the next phase.\<close>

inductive call_step :: "runtime_cfg \<Rightarrow> call_phase \<Rightarrow> burst_session \<Rightarrow> burst_session \<Rightarrow> call_phase \<Rightarrow> bool"
  for cfg :: runtime_cfg where
  cs_enter: "enter_burst cfg c se = (se', p) \<Longrightarrow> call_step cfg (Cp_start c) se se' p"
| cs_capture: "after_capture cfg cx cap n se = (se', p) \<Longrightarrow> call_step cfg (Cp_capture cx) se se' p"
| cs_local: "after_local cx fv px n se = (se', p) \<Longrightarrow> call_step cfg (Cp_local cx fv) se se' p"
| cs_clicks: "grounds (cc_actions cx) grounded \<Longrightarrow> after_clicks cx fv loc grounded se = (se', p) \<Longrightarrow>
    call_step cfg (Cp_clicks cx fv loc) se se' p"
| cs_ground: "after_ground cfg cx fv loc grounded m g se = (se', p) \<Longrightarrow>
    call_step cfg (Cp_ground cx fv loc grounded m) se se' p"
| cs_ask: "after_ask cx i rq se = (se', p) \<Longrightarrow> call_step cfg (Cp_ask cx i rq) se se' p"
| cs_asked: "after_asked cx i rq se = (se', p) \<Longrightarrow> call_step cfg (Cp_asked cx i rq) se se' p"
| cs_task: "cv_claim cv < length (bs_claims se) \<Longrightarrow> cl_result (bs_claims se ! cv_claim cv) = Some res \<Longrightarrow>
    after_task cfg cx cv n res se = (se', p) \<Longrightarrow> call_step cfg (Cp_wait cx cv) se se' p"
| cs_settle: "after_settle cfg cx cv out applied quieted cap se = (se', p) \<Longrightarrow>
    call_step cfg (Cp_settle cx cv out applied) se se' p"
| cs_close: "after_close cx cv out settle eff final n se = (se', p) \<Longrightarrow>
    call_step cfg (Cp_close cx cv out settle eff final) se se' p"

text \<open>
  A poll of the gate by a running task: \<open>late\<close> says whether its deadline has passed. A task ends with
  the result of \<open>run_burst\<close> on its actions, for an environment whose gate gave the recorded answers.
\<close>

definition poll_answer :: "bool \<Rightarrow> bool \<Rightarrow> stop_reason option" where
  "poll_answer go late = (if \<not> go then Some Control_changed else if late then Some Deadline else None)"

inductive burst_step :: "runtime_cfg \<Rightarrow> burst_world \<Rightarrow> burst_world \<Rightarrow> bool" for cfg :: runtime_cfg where
  b_call: "bc_approved c = None \<Longrightarrow>
    burst_step cfg w (w\<lparr>bw_calls := bw_calls w @ [(Cp_start c, None)]\<rparr>)"
| b_piece: "i < length (bw_calls w) \<Longrightarrow> bw_calls w ! i = (p, origin) \<Longrightarrow>
    call_step cfg p (bw_session w) se' p' \<Longrightarrow>
    burst_step cfg w (w\<lparr>bw_session := se', bw_calls := (bw_calls w)[i := (p', origin)]\<rparr>)"
| b_poll: "i < length (bs_claims (bw_session w)) \<Longrightarrow> bs_claims (bw_session w) ! i = c \<Longrightarrow> cl_result c = None \<Longrightarrow>
    burst_gate (cl_epoch c) n (bw_session w) = (se', go) \<Longrightarrow>
    burst_step cfg w (w\<lparr>bw_session := set_claim i (c\<lparr>cl_polls := cl_polls c @ [poll_answer go late]\<rparr>) se'\<rparr>)"
| b_done: "i < length (bs_claims (bw_session w)) \<Longrightarrow> bs_claims (bw_session w) ! i = c \<Longrightarrow> cl_result c = None \<Longrightarrow>
    run_burst E (rc_limits cfg) (cl_actions c) = (r, tr) \<Longrightarrow> polls_of tr = cl_polls c \<Longrightarrow>
    burst_step cfg w (w\<lparr>bw_session := set_claim i (c\<lparr>cl_trace := tr, cl_result := Some r\<rparr>) (bw_session w)\<rparr>)"
| b_approve: "i < length (bs_approvals (bw_session w)) \<Longrightarrow> bs_approvals (bw_session w) ! i = (rq, As_pending) \<Longrightarrow>
    burst_step cfg w (w\<lparr>bw_calls := bw_calls w @ [(Cp_start (approved_call rq), Some i)]\<rparr>)"
| b_resolve: "(Cp_return r, Some i) \<in> set (bw_calls w) \<Longrightarrow>
    burst_step cfg w (w\<lparr>bw_session := resolve_approval i (approval_result r) (bw_session w)\<rparr>)"
| b_reject: "i < length (bs_approvals (bw_session w)) \<Longrightarrow> bs_approvals (bw_session w) ! i = (rq, As_pending) \<Longrightarrow>
    reject_burst rq rejected reason
      (resolve_approval i (if rejected then As_rejected else As_resolved) (bw_session w)) = (se', r) \<Longrightarrow>
    burst_step cfg w (w\<lparr>bw_session := se'\<rparr>)"
| b_abort: "burst_step cfg w (w\<lparr>bw_session := abort_session reason (bw_session w)\<rparr>)"
| b_panic: "burst_step cfg w (w\<lparr>bw_session := panic_session (bw_session w)\<rparr>)"
| b_cursor: "burst_step cfg w (w\<lparr>bw_session := external_cursor (bw_session w)\<rparr>)"
| b_observe: "burst_step cfg w (w\<lparr>bw_session := observe_session cfg cap (bw_session w)\<rparr>)"

inductive_cases burst_stepE [consumes 1, case_names call piece poll finish approve resolve reject abort panic cursor observe]:
  "burst_step cfg w w'"

inductive_cases call_stepE [consumes 1, case_names enter capture ground ask asked task settle close]:
  "call_step cfg p se se' p'"

definition burst_reach :: "runtime_cfg \<Rightarrow> burst_world \<Rightarrow> bool" where
  "burst_reach cfg w \<longleftrightarrow> (burst_step cfg)\<^sup>*\<^sup>* world_init w"

lemma burst_reach_init: "burst_reach cfg world_init"
  by (simp add: burst_reach_def)

lemma burst_reach_step: "burst_reach cfg w \<Longrightarrow> burst_step cfg w w' \<Longrightarrow> burst_reach cfg w'"
  by (simp add: burst_reach_def)

subsection \<open>The ledger\<close>

text \<open>
  The contract: digests that run, digests that are braked because a run of theirs ended badly after
  input was sent, and keys that are spent.
\<close>

record ledger =
  lg_running :: "burst_digest set"
  lg_braked :: "burst_digest set"
  lg_spent :: "burst_key set"

definition ledger_init :: ledger where
  "ledger_init = \<lparr>lg_running = {}, lg_braked = {}, lg_spent = {}\<rparr>"

text \<open>Starting a burst under a key; the flag says that a human approved it.\<close>

definition ledger_start :: "burst_key \<Rightarrow> burst_digest \<Rightarrow> bool \<Rightarrow> ledger \<Rightarrow> ledger \<Rightarrow> bool" where
  "ledger_start k d approved a b \<longleftrightarrow>
     d \<notin> lg_running a \<and> d \<notin> lg_braked a \<and> (k \<notin> lg_spent a \<or> approved)
     \<and> b = a\<lparr>lg_running := insert d (lg_running a), lg_spent := insert k (lg_spent a)\<rparr>"

text \<open>Every other change: keys are spent, runs end, digests are braked, and nothing is taken back.\<close>

definition ledger_settle :: "ledger \<Rightarrow> ledger \<Rightarrow> bool" where
  "ledger_settle a b \<longleftrightarrow>
     lg_running b \<subseteq> lg_running a \<and> lg_braked a \<subseteq> lg_braked b \<and> lg_spent a \<subseteq> lg_spent b"

definition ledger_of :: "burst_session \<Rightarrow> ledger" where
  "ledger_of se = \<lparr>lg_running = dom (bs_semantic se), lg_braked = dom (bs_unsafe se),
     lg_spent = dom (bs_idem se) \<union> dom (bs_inflight se)\<rparr>"

text \<open>What a step starts: the claims it adds, as key, digest and approval.\<close>

definition claim_tags :: "burst_session \<Rightarrow> (burst_key \<times> burst_digest \<times> bool) list" where
  "claim_tags se = map (\<lambda>c. (cl_owner c, cl_digest c, cl_approved c)) (bs_claims se)"

subsection \<open>What the pieces leave alone\<close>

text \<open>The indexes and the claims are as before.\<close>

definition keeps :: "burst_session \<Rightarrow> burst_session \<Rightarrow> bool" where
  "keeps se se' \<longleftrightarrow> bs_idem se' = bs_idem se \<and> bs_inflight se' = bs_inflight se
     \<and> bs_semantic se' = bs_semantic se \<and> bs_unsafe se' = bs_unsafe se \<and> bs_claims se' = bs_claims se"

lemma keeps_refl [simp]: "keeps se se"
  by (simp add: keeps_def)

lemma keeps_trans: "keeps a b \<Longrightarrow> keeps b c \<Longrightarrow> keeps a c"
  by (simp add: keeps_def)

lemma keeps_fields [simp]:
  "keeps se (se\<lparr>bs_stopped := a\<rparr>) = True" "keeps se (se\<lparr>bs_status := b\<rparr>)"
  "keeps se (se\<lparr>bs_stored_status := b\<rparr>)" "keeps se (se\<lparr>bs_status := b, bs_stored_status := b'\<rparr>)"
  "keeps se (se\<lparr>bs_other_block := a\<rparr>)" "keeps se (se\<lparr>bs_draft := d\<rparr>)" "keeps se (se\<lparr>bs_approvals := aps\<rparr>)"
  by (simp_all add: keeps_def)

lemma take_frame_keeps: "take_frame cfg c se = (se', fv) \<Longrightarrow>
    keeps se se' \<and> bs_epoch se' = bs_epoch se \<and> bs_stopped se' = bs_stopped se \<and> bs_other_block se' = bs_other_block se"
  by (auto simp: take_frame_def keeps_def Let_def split: prod.splits)

lemma revoke_keeps [simp]: "keeps se (revoke_control se)" "keeps se ((revoke_control se)\<lparr>bs_other_block := b\<rparr>)"
  by (simp_all add: revoke_control_def keeps_def)

lemma stops_keep [simp]: "keeps se (abort_session r se)" "keeps se (panic_session se)" "keeps se (external_cursor se)"
  by (simp_all add: abort_session_def panic_session_def external_cursor_def keeps_def Let_def revoke_control_def)

lemma observe_keeps [simp]: "keeps se (observe_session cfg c se)"
proof -
  obtain se1 fv where "take_frame cfg c se = (se1, fv)" by fastforce
  with take_frame_keeps show ?thesis by (fastforce simp: observe_session_def Let_def keeps_def)
qed

lemma gate_keeps: "burst_gate p n se = (se', go) \<Longrightarrow> keeps se se'"
  by (auto simp: burst_gate_def Let_def split: if_splits)

lemma draft_keeps [simp]: "keeps se (update_draft as rs final se)"
  by (auto simp: update_draft_def keeps_def Let_def split: option.splits prod.splits)

lemma control_keeps: "check_control cx fv loc n se = (se', p) \<Longrightarrow> keeps se se'"
  by (auto simp: check_control_def Let_def split: if_splits)

lemma local_keeps: "after_local cx fv px n se = (se', p) \<Longrightarrow> keeps se se'"
  by (auto simp: after_local_def Let_def intro: control_keeps split: if_splits)

lemma clicks_keeps: "after_clicks cx fv loc gr se = (se', p) \<Longrightarrow> keeps se se'"
  by (auto simp: after_clicks_def)

lemma capture_keeps: "after_capture cfg cx cap n se = (se', p) \<Longrightarrow> keeps se se'"
proof -
  assume a: "after_capture cfg cx cap n se = (se', p)"
  obtain se1 fv where t: "take_frame cfg cap se = (se1, fv)" by fastforce
  from a t have "keeps se1 se'"
    by (auto simp: after_capture_def Let_def intro: control_keeps split: if_splits)
  with take_frame_keeps [OF t] show ?thesis by (blast intro: keeps_trans)
qed

lemma settle_keeps: "after_settle cfg cx cv out ap st cap se = (se', p) \<Longrightarrow> keeps se se'"
proof -
  assume a: "after_settle cfg cx cv out ap st cap se = (se', p)"
  obtain se1 fv where t: "(if cc_screenshot cx
      then (case cap of None \<Rightarrow> (se, None) | Some c' \<Rightarrow> (case take_frame cfg c' se of (se', fv) \<Rightarrow> (se', Some fv)))
      else (se, bs_latest se)) = (se1, fv)" by fastforce
  then have "keeps se se1"
    by (auto split: if_splits option.splits prod.splits dest: take_frame_keeps)
  moreover have "keeps se1 se'"
    using a t draft_keeps [of se1 "cc_actions cx" "bo_action_receipts out" fv]
    by (auto simp: after_settle_def Let_def keeps_def split: prod.splits if_splits)
  ultimately show ?thesis by (blast intro: keeps_trans)
qed

lemma ask_keeps: "after_ask cx i rq se = (se', p) \<Longrightarrow> keeps se se'"
  by (auto simp: after_ask_def)

subsection \<open>Every step is a step of the ledger\<close>

definition refines :: "burst_session \<Rightarrow> burst_session \<Rightarrow> bool" where
  "refines se se' \<longleftrightarrow>
     (claim_tags se' = claim_tags se \<and> ledger_settle (ledger_of se) (ledger_of se'))
     \<or> (\<exists>k d ap. claim_tags se' = claim_tags se @ [(k, d, ap)] \<and> ledger_start k d ap (ledger_of se) (ledger_of se'))"

lemma keeps_refines: "keeps se se' \<Longrightarrow> refines se se'"
  by (simp add: refines_def keeps_def claim_tags_def ledger_settle_def ledger_of_def)

lemma keeps_before: "keeps se se1 \<Longrightarrow> refines se1 se' \<Longrightarrow> refines se se'"
  by (simp add: refines_def keeps_def claim_tags_def ledger_of_def)

lemma keeps_after: "refines se se1 \<Longrightarrow> keeps se1 se' \<Longrightarrow> refines se se'"
  by (simp add: refines_def keeps_def claim_tags_def ledger_of_def)

lemma spend_refines: "refines se (se\<lparr>bs_idem := (bs_idem se)(k \<mapsto> e)\<rparr>)"
  by (auto simp: refines_def claim_tags_def ledger_settle_def ledger_of_def)

lemma replay_unsafe_refines: "replay_unsafe k d se = Some (se', r) \<Longrightarrow> refines se se'"
  by (auto simp: replay_unsafe_def intro: spend_refines)

lemma enter_refines: "enter_burst cfg c se = (se', p) \<Longrightarrow> refines se se'"
  by (auto simp: enter_burst_def Let_def intro: keeps_refines replay_unsafe_refines
      split: if_splits sum.splits burst_exn.splits option.splits prod.splits)

lemma map_update_same: "f y = f (xs ! i) \<Longrightarrow> map f (xs[i := y]) = map f xs"
proof (cases "i < length xs")
  case True
  assume "f y = f (xs ! i)"
  with True have "f y = map f xs ! i" by simp
  then show ?thesis unfolding map_update by simp
next
  case False
  then show ?thesis by (simp add: list_update_beyond)
qed

lemma tags_update:
  "cl_owner c' = cl_owner (bs_claims se ! i) \<Longrightarrow> cl_digest c' = cl_digest (bs_claims se ! i) \<Longrightarrow>
   cl_approved c' = cl_approved (bs_claims se ! i) \<Longrightarrow> bs_claims se' = (bs_claims se)[i := c'] \<Longrightarrow>
   claim_tags se' = claim_tags se"
  unfolding claim_tags_def by (simp only:) (rule map_update_same, simp)

lemma join_refines:
  assumes "join_semantic k d se = (se1, Some i)"
  shows "refines se se1"
proof (cases "bs_inflight se k")
  case None
  let ?c = "(bs_claims se ! i)\<lparr>cl_keys := List.insert k (cl_keys (bs_claims se ! i))\<rparr>"
  from None assms have se1: "se1 = se\<lparr>bs_inflight := (bs_inflight se)(k \<mapsto> i), bs_claims := (bs_claims se)[i := ?c]\<rparr>"
    by (auto simp: join_semantic_def split: option.splits)
  have "claim_tags se1 = claim_tags se" by (rule tags_update [of ?c]) (simp_all add: se1)
  moreover have "ledger_settle (ledger_of se) (ledger_of se1)"
    by (auto simp: se1 ledger_settle_def ledger_of_def split: if_splits)
  ultimately show ?thesis by (simp add: refines_def)
next
  case (Some j)
  with assms show ?thesis by (simp add: join_semantic_def keeps_refines)
qed

lemma start_refines:
  assumes "replay_prior k d ap se = None" "bs_unsafe se d = None" "bs_inflight se k = None" "bs_semantic se d = None"
    and "k = cc_key cx" "d = cc_digest cx" "ap = cc_approved cx"
  shows "refines se (fst (start_claim cx se))"
proof -
  have "bs_idem se k \<noteq> None \<longrightarrow> cc_approved cx = Some (cc_digest cx)"
    using assms(1, 5, 6, 7) by (auto simp: replay_prior_def split: option.splits if_splits)
  with assms have "ledger_start (cc_key cx) (cc_digest cx) (cc_approved cx = Some (cc_digest cx))
      (ledger_of se) (ledger_of (fst (start_claim cx se)))"
    by (auto simp: ledger_start_def ledger_of_def start_claim_def Let_def)
  then show ?thesis by (auto simp: refines_def claim_tags_def start_claim_def Let_def)
qed

lemma mark_running_keeps [simp]: "keeps se (mark_running se)"
  by (simp add: mark_running_def)

lemma claim_refines:
  assumes "claim_burst cx loc se = (se', p)"
  shows "refines se se'"
proof (cases "replay_prior (cc_key cx) (cc_digest cx) (cc_approved cx) se")
  case (Some r)
  with assms show ?thesis by (auto simp: claim_burst_def Let_def intro: keeps_refines)
next
  case None
  note no_prior = None
  show ?thesis
  proof (cases "replay_unsafe (cc_key cx) (cc_digest cx) se")
    case (Some x)
    with assms no_prior replay_unsafe_refines show ?thesis by (auto simp: claim_burst_def Let_def split: prod.splits)
  next
    case None
    note no_brake = None
    then have u: "bs_unsafe se (cc_digest cx) = None" by (simp add: replay_unsafe_def)
    obtain se1 j where j: "join_semantic (cc_key cx) (cc_digest cx) se = (se1, j)" by fastforce
    show ?thesis
    proof (cases j)
      case (Some i)
      from assms no_prior no_brake j Some have "se' = se \<or> se' = mark_running se1"
        by (auto simp: claim_burst_def Let_def split: if_splits)
      with join_refines [OF j [unfolded Some]] keeps_after show ?thesis by (metis keeps_refl keeps_refines mark_running_keeps)
    next
      case None
      with j have n: "bs_inflight se (cc_key cx) = None" "bs_semantic se (cc_digest cx) = None" "se1 = se"
        by (auto simp: join_semantic_def split: option.splits)
      with assms no_prior no_brake j None have "se' = mark_running (fst (start_claim cx se))"
        by (auto simp: claim_burst_def Let_def split: prod.splits)
      with start_refines [OF no_prior u n(1,2) refl refl refl] keeps_after show ?thesis by (metis mark_running_keeps)
    qed
  qed
qed

lemma ground_refines: "after_ground cfg cx fv loc gr m g se = (se', p) \<Longrightarrow> refines se se'"
  by (auto simp: after_ground_def Let_def intro: keeps_refines claim_refines split: direct_verdict.splits if_splits)

lemma asked_refines: "after_asked cx i rq se = (se', p) \<Longrightarrow> refines se se'"
  by (auto simp: after_asked_def Let_def intro: spend_refines)

lemma finish_refines: "refines se (finish_claim k d i r retain se)"
  by (auto simp: refines_def finish_claim_def claim_tags_def ledger_settle_def ledger_of_def Let_def split: if_splits)

lemma task_refines:
  assumes "after_task cfg cx cv n res se = (se', p)"
  shows "refines se se'"
proof -
  have "refines se (finish_claim k d i r b (se\<lparr>bs_status := Ls_paused\<rparr>))" for k d i r b
    by (rule keeps_before [OF _ finish_refines]) simp
  with assms show ?thesis
    by (auto simp: after_task_def Let_def intro: keeps_refines dest: gate_keeps
        split: sum.splits burst_exn.splits if_splits prod.splits)
qed

lemma close_refines: "after_close cx cv out st eff final n se = (se', p) \<Longrightarrow> refines se se'"
  by (auto simp: after_close_def Let_def intro: finish_refines)

lemma piece_refines: "call_step cfg p se se' p' \<Longrightarrow> refines se se'"
  by (induction rule: call_step.cases)
     (auto intro: enter_refines ground_refines asked_refines task_refines close_refines
        keeps_refines [OF capture_keeps] keeps_refines [OF local_keeps] keeps_refines [OF clicks_keeps]
        keeps_refines [OF ask_keeps] keeps_refines [OF settle_keeps])

lemma reject_refines: "reject_burst rq rejected reason se = (se', r) \<Longrightarrow> refines se se'"
  by (auto simp: reject_burst_def refines_def claim_tags_def ledger_settle_def ledger_of_def Let_def
      split: option.splits if_splits)

lemma resolve_keeps [simp]: "keeps se (resolve_approval i st se)"
  by (simp add: resolve_approval_def)

lemma set_claim_refines:
  assumes "cl_owner c' = cl_owner (bs_claims se ! i)" "cl_digest c' = cl_digest (bs_claims se ! i)"
    "cl_approved c' = cl_approved (bs_claims se ! i)"
  shows "refines se (set_claim i c' se)"
proof -
  have "claim_tags (set_claim i c' se) = claim_tags se"
    by (rule tags_update [of c']) (simp_all add: assms set_claim_def)
  moreover have "ledger_of (set_claim i c' se) = ledger_of se" by (simp add: ledger_of_def set_claim_def)
  ultimately show ?thesis by (simp add: refines_def ledger_settle_def)
qed

lemma step_refines:
  assumes "burst_step cfg w w'"
  shows "refines (bw_session w) (bw_session w')"
  using assms
proof (cases rule: burst_stepE)
  case (poll i n se' go late)
  let ?c = "bs_claims (bw_session w) ! i"
  have "refines se' (set_claim i (?c\<lparr>cl_polls := cl_polls ?c @ [poll_answer go late]\<rparr>) se')"
    using gate_keeps [OF poll(4)] by (intro set_claim_refines) (simp_all add: keeps_def)
  with poll gate_keeps [OF poll(4)] show ?thesis by (auto intro: keeps_before)
next
  case (finish i E r tr)
  then show ?thesis by (auto intro: set_claim_refines)
next
  case (reject i rq rejected reason se' r)
  then show ?thesis using reject_refines keeps_before [OF resolve_keeps] by fastforce
qed (auto intro: keeps_refines piece_refines)

text \<open>
  C4. The session refines the ledger: it starts from the empty ledger, and whatever the calls, tasks and
  humans do, each step either starts exactly one burst under the ledger's rules (an equal burst is not
  running, not braked, and its key is new or a human approved it), or starts none, in which case keys
  stay spent, brakes stay on and no burst is running that was not.
\<close>

theorem burst_session_refines_ledger:
  assumes "burst_step cfg w w'"
  shows "ledger_of session_init = ledger_init
    \<and> ((claim_tags (bw_session w') = claim_tags (bw_session w)
          \<and> ledger_settle (ledger_of (bw_session w)) (ledger_of (bw_session w')))
       \<or> (\<exists>k d approved. claim_tags (bw_session w') = claim_tags (bw_session w) @ [(k, d, approved)]
            \<and> ledger_start k d approved (ledger_of (bw_session w)) (ledger_of (bw_session w'))))"
  using step_refines [OF assms] unfolding refines_def
  by (simp add: ledger_of_def session_init_def ledger_init_def)

subsection \<open>At most once\<close>

text \<open>A history of the ledger: the starts so far, in order.\<close>

definition unapproved_keys :: "(burst_key \<times> burst_digest \<times> bool) list \<Rightarrow> burst_key list" where
  "unapproved_keys tags = map fst (filter (\<lambda>t. \<not> snd (snd t)) tags)"

definition once :: "burst_session \<Rightarrow> bool" where
  "once se \<longleftrightarrow> (\<forall>k d ap. (k, d, ap) \<in> set (claim_tags se) \<longrightarrow> k \<in> lg_spent (ledger_of se)) \<and> distinct (unapproved_keys (claim_tags se))"

lemma once_step:
  assumes r: "refines se se'" and o: "once se"
  shows "once se'"
  using r unfolding refines_def
proof (elim disjE exE conjE)
  assume "claim_tags se' = claim_tags se" "ledger_settle (ledger_of se) (ledger_of se')"
  with o show ?thesis unfolding once_def ledger_settle_def by (simp only:) blast
next
  fix k d ap
  assume t: "claim_tags se' = claim_tags se @ [(k, d, ap)]"
    and l: "ledger_start k d ap (ledger_of se) (ledger_of se')"
  from l have s: "lg_spent (ledger_of se') = insert k (lg_spent (ledger_of se))" by (simp add: ledger_start_def)
  have "k \<notin> set (unapproved_keys (claim_tags se))" if "\<not> ap"
    using l o that by (fastforce simp: ledger_start_def once_def unapproved_keys_def)
  with o show ?thesis unfolding once_def t s by (auto simp: unapproved_keys_def)
qed

lemma once_reach: "burst_reach cfg w \<Longrightarrow> once (bw_session w)"
  unfolding burst_reach_def
proof (induction rule: rtranclp_induct)
  case base
  show ?case by (simp add: once_def world_init_def session_init_def claim_tags_def unapproved_keys_def)
next
  case (step y z)
  then show ?case by (blast intro: once_step step_refines)
qed

lemma braked_step:
  assumes "refines se se'" "d \<in> lg_braked (ledger_of se)"
  shows "d \<in> lg_braked (ledger_of se')
    \<and> filter (\<lambda>t. fst (snd t) = d) (claim_tags se') = filter (\<lambda>t. fst (snd t) = d) (claim_tags se)"
  using assms by (auto simp: refines_def ledger_settle_def ledger_start_def)

lemma braked_forever:
  assumes "(burst_step cfg)\<^sup>*\<^sup>* w w'" "d \<in> lg_braked (ledger_of (bw_session w))"
  shows "d \<in> lg_braked (ledger_of (bw_session w'))
    \<and> filter (\<lambda>t. fst (snd t) = d) (claim_tags (bw_session w')) = filter (\<lambda>t. fst (snd t) = d) (claim_tags (bw_session w))"
  using assms
proof (induction rule: rtranclp_induct)
  case (step y z)
  from braked_step [OF step_refines [OF step(2)]] step show ?case by metis
qed simp

end
