(* ===== verification/BurstBrake.thy ===== *)
theory BurstBrake
  imports BurstConcurrency
begin

text \<open>
  Running tasks and the brake. A task that has not ended is the one its digest points at, so equal bursts
  never run side by side. Control only moves forward: the stop latch stays, the epoch grows, and a client
  that appears moves the epoch, so a gate that has refused refuses for good and a task that was refused
  sends nothing more.
\<close>

subsection \<open>What the pieces do to tasks\<close>

definition task_part :: "burst_claim \<Rightarrow>
    burst_digest \<times> pydict list \<times> int \<times> stop_reason option list \<times> burst_trace \<times> (burst_exn, burst_outcome) result option" where
  "task_part c = (cl_digest c, cl_actions c, cl_epoch c, cl_polls c, cl_trace c, cl_result c)"

definition tasks :: "burst_session \<Rightarrow>
    (burst_digest \<times> pydict list \<times> int \<times> stop_reason option list \<times> burst_trace \<times> (burst_exn, burst_outcome) result option) list" where
  "tasks se = map task_part (bs_claims se)"

text \<open>A piece leaves the tasks alone, or starts one, or finishes the claim it waited for.\<close>

definition same_tasks :: "burst_session \<Rightarrow> burst_session \<Rightarrow> bool" where
  "same_tasks se se' \<longleftrightarrow> tasks se' = tasks se \<and> bs_semantic se' = bs_semantic se"

definition starts_task :: "call_ctx \<Rightarrow> burst_session \<Rightarrow> burst_session \<Rightarrow> bool" where
  "starts_task cx se se' \<longleftrightarrow>
     tasks se' = tasks se @ [(cc_digest cx, cc_actions cx, cc_epoch cx, [], [], None)]
     \<and> bs_semantic se (cc_digest cx) = None
     \<and> bs_semantic se' = (bs_semantic se)(cc_digest cx \<mapsto> length (bs_claims se))"

definition finishes_task :: "nat \<Rightarrow> burst_session \<Rightarrow> burst_session \<Rightarrow> bool" where
  "finishes_task i se se' \<longleftrightarrow> tasks se' = tasks se
     \<and> (\<forall>d. bs_semantic se' d = bs_semantic se d \<or> bs_semantic se d = Some i \<and> bs_semantic se' d = None)"

lemma keeps_same_tasks: "keeps se se' \<Longrightarrow> same_tasks se se'"
  by (simp add: keeps_def same_tasks_def tasks_def)

lemma same_tasks_idem: "same_tasks se (se\<lparr>bs_idem := m\<rparr>)"
  by (simp add: same_tasks_def tasks_def)

lemma enter_tasks: "enter_burst cfg c se = (se', p) \<Longrightarrow> same_tasks se se'"
  by (auto simp: enter_burst_def Let_def replay_unsafe_def intro: keeps_same_tasks same_tasks_idem
      split: if_splits sum.splits burst_exn.splits option.splits prod.splits)

lemma join_tasks: "join_semantic k d se = (se1, Some i) \<Longrightarrow> same_tasks se se1"
proof -
  assume a: "join_semantic k d se = (se1, Some i)"
  have "map task_part ((bs_claims se)[j := (bs_claims se ! j)\<lparr>cl_keys := ks\<rparr>]) = map task_part (bs_claims se)" for j ks
    by (rule map_update_same) (simp add: task_part_def)
  with a show ?thesis
    by (auto simp: join_semantic_def same_tasks_def tasks_def split: option.splits)
qed

lemma mark_tasks: "tasks (mark_running se) = tasks se" "bs_semantic (mark_running se) = bs_semantic se"
  by (simp_all add: mark_running_def tasks_def)

lemma claim_tasks:
  assumes "claim_burst cx loc se = (se', p)"
  shows "same_tasks se se' \<or> starts_task cx se se'"
proof -
  obtain se1 j where j: "join_semantic (cc_key cx) (cc_digest cx) se = (se1, j)" by fastforce
  consider (alone) "se' = se" | (idem) m where "se' = se\<lparr>bs_idem := m\<rparr>"
    | (joined) i where "j = Some i" "se' = mark_running se1"
    | (started) "j = None" "se' = mark_running (fst (start_claim cx se1))"
    using assms j by (auto simp: claim_burst_def Let_def replay_unsafe_def split: option.splits if_splits prod.splits)
  then show ?thesis
  proof cases
    case (joined i)
    with join_tasks [of "cc_key cx" "cc_digest cx" se se1 i] j show ?thesis by (simp add: same_tasks_def mark_tasks)
  next
    case started
    with j have "se1 = se" "bs_semantic se (cc_digest cx) = None"
      by (auto simp: join_semantic_def split: option.splits)
    with started show ?thesis
      by (simp add: starts_task_def mark_tasks) (simp add: start_claim_def tasks_def task_part_def Let_def)
  qed (simp_all add: same_tasks_def tasks_def)
qed

lemma ground_tasks:
  "after_ground cfg cx fv loc gr m g se = (se', p) \<Longrightarrow> same_tasks se se' \<or> starts_task cx se se'"
  by (auto simp: after_ground_def Let_def intro: keeps_same_tasks dest: claim_tasks split: direct_verdict.splits if_splits)

lemma finish_tasks: "finishes_task i se (finish_claim k d i r retain se)"
  by (simp add: finishes_task_def finish_claim_def tasks_def Let_def)

lemma task_tasks:
  "after_task cfg cx cv n res se = (se', p) \<Longrightarrow> same_tasks se se' \<or> finishes_task (cv_claim cv) se se'"
  by (auto simp: after_task_def Let_def finishes_task_def finish_claim_def tasks_def
      intro: keeps_same_tasks dest: gate_keeps split: sum.splits burst_exn.splits if_splits prod.splits)

lemma close_tasks: "after_close cx cv out st eff final n se = (se', p) \<Longrightarrow> finishes_task (cv_claim cv) se se'"
  by (auto simp: after_close_def Let_def intro: finish_tasks)

lemma asked_tasks: "after_asked cx i rq se = (se', p) \<Longrightarrow> same_tasks se se'"
  by (auto simp: after_asked_def Let_def intro: same_tasks_idem)

text \<open>A phase past the task knows the claim has ended.\<close>

definition ended :: "burst_session \<Rightarrow> nat \<Rightarrow> bool" where
  "ended se i \<longleftrightarrow> i < length (bs_claims se) \<and> cl_result (bs_claims se ! i) \<noteq> None"

fun waits_ended :: "burst_session \<Rightarrow> call_phase \<Rightarrow> bool" where
  "waits_ended se (Cp_settle cx cv out ap) = ended se (cv_claim cv)"
| "waits_ended se (Cp_close cx cv out st eff final) = ended se (cv_claim cv)"
| "waits_ended se _ = True"

lemma piece_tasks:
  assumes "call_step cfg p se se' p'" "waits_ended se p"
  shows "same_tasks se se' \<or> (\<exists>cx fv loc gr m. p = Cp_ground cx fv loc gr m \<and> starts_task cx se se')
     \<or> (\<exists>i. ended se i \<and> finishes_task i se se')"
  using assms
proof (induction rule: call_step.cases)
  case (cs_ground cx fv loc gr m g se se' p)
  then show ?case using ground_tasks [of cfg cx fv loc gr m g se se' p] by blast
next
  case (cs_task cv se res cx n se' p)
  then show ?case using task_tasks [of cfg cx cv n res se se' p] by (auto simp: ended_def)
next
  case (cs_close cx cv out st eff final n se se' p)
  then show ?case using close_tasks [of cx cv out st eff final n se se' p] by auto
qed (auto intro: enter_tasks asked_tasks keeps_same_tasks dest: capture_keeps local_keeps clicks_keeps ask_keeps settle_keeps)

lemma piece_waits:
  assumes "call_step cfg p se se' p'" "waits_ended se p"
  shows "waits_ended se p'"
  using assms
proof (induction rule: call_step.cases)
  case (cs_task cv se res cx n se' p)
  then show ?case
    by (auto simp: after_task_def ended_def Let_def split: sum.splits burst_exn.splits if_splits prod.splits)
next
  case (cs_settle cx cv out applied quieted cap se se' p)
  then show ?case by (auto simp: after_settle_def Let_def split: prod.splits)
qed (auto simp: enter_burst_def after_capture_def after_local_def check_control_def after_clicks_def after_ground_def claim_burst_def after_ask_def after_asked_def
       after_close_def Let_def split: if_splits sum.splits burst_exn.splits option.splits prod.splits direct_verdict.splits)

subsection \<open>One task per digest\<close>

definition task_res where "task_res t = snd (snd (snd (snd (snd t))))"

lemma task_part_sel:
  "fst (task_part c) = cl_digest c" "task_res (task_part c) = cl_result c"
  by (simp_all add: task_part_def task_res_def)

lemma ended_tasks: "ended se i \<longleftrightarrow> i < length (tasks se) \<and> task_res (tasks se ! i) \<noteq> None"
  by (auto simp: ended_def tasks_def task_part_sel)

definition solo :: "burst_session \<Rightarrow> bool" where
  "solo se \<longleftrightarrow> (\<forall>i < length (tasks se). task_res (tasks se ! i) = None \<longrightarrow>
     bs_semantic se (fst (tasks se ! i)) = Some i)"

lemma solo_same: "same_tasks se se' \<Longrightarrow> solo se \<Longrightarrow> solo se'"
  by (simp add: solo_def same_tasks_def)

lemma solo_start: "starts_task cx se se' \<Longrightarrow> solo se \<Longrightarrow> solo se'"
  unfolding starts_task_def solo_def by (auto simp: nth_append tasks_def)

lemma solo_finish: "finishes_task i se se' \<Longrightarrow> ended se i \<Longrightarrow> solo se \<Longrightarrow> solo se'"
  unfolding finishes_task_def solo_def ended_tasks by (metis option.inject)

lemma ended_mono:
  "same_tasks se se' \<or> starts_task cx se se' \<or> finishes_task j se se' \<Longrightarrow> ended se i \<Longrightarrow> ended se' i"
  by (auto simp: ended_tasks same_tasks_def starts_task_def finishes_task_def nth_append)

lemma tasks_set_claim:
  "tasks (set_claim i c se) = (tasks se)[i := task_part c]" "bs_semantic (set_claim i c se) = bs_semantic se"
  by (simp_all add: tasks_def set_claim_def map_update)

lemma solo_set_claim:
  assumes "solo se" "i < length (tasks se)" "cl_digest c = fst (tasks se ! i)" "task_res (tasks se ! i) = None"
  shows "solo (set_claim i c se)"
  using assms by (auto simp: solo_def tasks_set_claim nth_list_update task_part_sel)

lemma ended_set_claim:
  "ended se j \<Longrightarrow> j = i \<longrightarrow> cl_result c \<noteq> None \<Longrightarrow> ended (set_claim i c se) j"
  by (cases "j = i") (auto simp: ended_tasks tasks_set_claim task_part_sel)

definition orderly :: "burst_world \<Rightarrow> bool" where
  "orderly w \<longleftrightarrow> solo (bw_session w) \<and> (\<forall>p og. (p, og) \<in> set (bw_calls w) \<longrightarrow> waits_ended (bw_session w) p)"

lemma waits_mono: "waits_ended se p \<Longrightarrow> (\<And>i. ended se i \<Longrightarrow> ended se' i) \<Longrightarrow> waits_ended se' p"
  by (cases p) auto

lemma orderly_session:
  assumes "orderly w" "solo se'" "\<And>i. ended (bw_session w) i \<Longrightarrow> ended se' i"
  shows "orderly (w\<lparr>bw_session := se'\<rparr>)"
  using assms waits_mono [of "bw_session w" _ se'] by (auto simp: orderly_def)

lemma orderly_keeps: "orderly w \<Longrightarrow> keeps (bw_session w) se' \<Longrightarrow> orderly (w\<lparr>bw_session := se'\<rparr>)"
  by (rule orderly_session) (auto simp: orderly_def dest: keeps_same_tasks intro: solo_same ended_mono)

lemma set_update_cases: "x \<in> set (xs[i := y]) \<Longrightarrow> x = y \<or> x \<in> set xs"
  by (meson insertE set_update_subset_insert subsetD)

lemma orderly_step:
  assumes "burst_step cfg w w'" and o: "orderly w"
  shows "orderly w'"
  using assms(1)
proof (cases rule: burst_stepE)
  case (piece i p og se' p')
  let ?se = "bw_session w"
  have "(p, og) \<in> set (bw_calls w)" using piece(2, 3) by (metis nth_mem)
  with o have wp: "waits_ended ?se p" unfolding orderly_def by blast
  from piece_tasks [OF piece(4) wp] o
  have so: "solo se'" and en: "\<And>j. ended ?se j \<Longrightarrow> ended se' j"
    by (auto simp: orderly_def intro: solo_same solo_start solo_finish ended_mono)
  have "waits_ended se' q" if "(q, o') \<in> set ((bw_calls w)[i := (p', og)])" for q o'
    using set_update_cases [OF that] piece_waits [OF piece(4) wp] o waits_mono [OF _ en]
    by (auto simp: orderly_def)
  with so piece(1) show ?thesis by (auto simp: orderly_def)
next
  case (poll i n se' go late)
  note k = gate_keeps [OF poll(4)]
  then have t: "tasks se' = tasks (bw_session w)" by (simp add: keeps_def tasks_def)
  let ?c = "bs_claims (bw_session w) ! i"
  have i: "i < length (tasks se')" "tasks se' ! i = task_part ?c"
    unfolding t using poll by (auto simp: tasks_def)
  have so: "solo se'" using solo_same [OF keeps_same_tasks [OF k]] o by (simp add: orderly_def)
  let ?d = "?c\<lparr>cl_polls := cl_polls ?c @ [poll_answer go late]\<rparr>"
  have "solo (set_claim i ?d se')"
    using so i poll(3) by (intro solo_set_claim) (simp_all add: task_part_sel)
  moreover have "ended (set_claim i ?d se') j" if "ended (bw_session w) j" for j
  proof (rule ended_set_claim)
    show "ended se' j" using that by (simp add: ended_tasks t)
    show "j = i \<longrightarrow> cl_result ?d \<noteq> None" using that poll(3) by (auto simp: ended_def)
  qed
  ultimately show ?thesis unfolding poll(1) by (rule orderly_session [OF o])
next
  case (finish i E r tr)
  let ?c = "(bs_claims (bw_session w) ! i)\<lparr>cl_trace := tr, cl_result := Some r\<rparr>"
  have i: "i < length (tasks (bw_session w))" "tasks (bw_session w) ! i = task_part (bs_claims (bw_session w) ! i)"
    using finish by (auto simp: tasks_def)
  have "solo (set_claim i ?c (bw_session w))"
    using finish(3) o i by (intro solo_set_claim) (simp_all add: task_part_sel orderly_def)
  moreover have "ended (set_claim i ?c (bw_session w)) j" if "ended (bw_session w) j" for j
    using that by (rule ended_set_claim) simp
  ultimately show ?thesis unfolding finish(1) by (rule orderly_session [OF o])
next
  case (reject i rq rejected reason se' r)
  have st: "same_tasks (bw_session w) se'"
    using reject(4) by (auto simp: reject_burst_def same_tasks_def tasks_def resolve_approval_def Let_def)
  show ?thesis unfolding reject(1)
    using o st by (intro orderly_session) (auto simp: orderly_def intro: solo_same ended_mono)
qed (use o in \<open>auto intro: orderly_keeps\<close>, use o in \<open>auto simp: orderly_def\<close>)

lemma orderly_reach: "burst_reach cfg w \<Longrightarrow> orderly w"
  unfolding burst_reach_def
proof (induction rule: rtranclp_induct)
  case base
  show ?case by (simp add: orderly_def solo_def world_init_def session_init_def tasks_def)
qed (rule orderly_step)

subsection \<open>Control moves forward\<close>

definition advances :: "burst_session \<Rightarrow> burst_session \<Rightarrow> bool" where
  "advances se se' \<longleftrightarrow> bs_epoch se \<le> bs_epoch se' \<and> (bs_stopped se \<longrightarrow> bs_stopped se')
     \<and> (bs_other_block se' \<and> \<not> bs_other_block se \<longrightarrow> bs_epoch se < bs_epoch se')"

lemma advances_trans: "advances a b \<Longrightarrow> advances b c \<Longrightarrow> advances a c"
  by (auto simp: advances_def)

lemma advances_same:
  "bs_epoch se' = bs_epoch se \<Longrightarrow> bs_stopped se' = bs_stopped se \<Longrightarrow> bs_other_block se' = bs_other_block se \<Longrightarrow> advances se se'"
  by (simp add: advances_def)

lemma take_frame_advances: "take_frame cfg c se = (se', fv) \<Longrightarrow> advances se se'"
  by (rule advances_same) (auto dest: take_frame_keeps)

lemma gate_advances: "burst_gate p n se = (se', go) \<Longrightarrow> advances se se'"
  by (auto simp: burst_gate_def advances_def revoke_control_def Let_def split: if_splits)

lemma draft_advances: "advances se (update_draft as rs final se)"
  by (auto simp: update_draft_def advances_def Let_def split: option.splits prod.splits)

lemma claim_advances: "claim_burst cx loc se = (se', p) \<Longrightarrow> advances se se'"
  by (rule advances_same)
     (auto simp: claim_burst_def replay_unsafe_def join_semantic_def start_claim_def mark_running_def Let_def
       split: option.splits if_splits prod.splits)

lemma finish_advances: "advances se (finish_claim k d i r b se)"
  by (simp add: finish_claim_def advances_def Let_def)

lemma control_advances: "check_control cx fv loc n se = (se', p) \<Longrightarrow> advances se se'"
  by (auto simp: check_control_def advances_def revoke_control_def Let_def split: if_splits)

lemma local_advances: "after_local cx fv px n se = (se', p) \<Longrightarrow> advances se se'"
  by (auto simp: after_local_def Let_def intro: advances_same control_advances split: if_splits)

lemma capture_advances: "after_capture cfg cx cap n se = (se', p) \<Longrightarrow> advances se se'"
proof -
  assume a: "after_capture cfg cx cap n se = (se', p)"
  obtain se1 fv where t: "take_frame cfg cap se = (se1, fv)" by fastforce
  from a t have "advances se1 se'"
    by (auto simp: after_capture_def Let_def intro: advances_same control_advances split: if_splits)
  with take_frame_advances [OF t] show ?thesis by (rule advances_trans)
qed

lemma settle_advances: "after_settle cfg cx cv out ap st cap se = (se', p) \<Longrightarrow> advances se se'"
proof -
  assume a: "after_settle cfg cx cv out ap st cap se = (se', p)"
  obtain se1 fv where t: "(if cc_screenshot cx
      then (case cap of None \<Rightarrow> (se, None) | Some c' \<Rightarrow> (case take_frame cfg c' se of (se', fv) \<Rightarrow> (se', Some fv)))
      else (se, bs_latest se)) = (se1, fv)" by fastforce
  then have "advances se se1"
    by (auto simp: advances_same split: if_splits option.splits prod.splits dest: take_frame_advances)
  moreover have "advances se1 se'"
    using a t draft_advances [of se1 "cc_actions cx" "bo_action_receipts out" fv]
    by (auto simp: after_settle_def Let_def advances_def split: prod.splits if_splits)
  ultimately show ?thesis by (rule advances_trans)
qed

lemma task_advances: "after_task cfg cx cv n res se = (se', p) \<Longrightarrow> advances se se'"
  by (auto simp: after_task_def Let_def finish_claim_def intro: advances_same dest: gate_advances
      split: sum.splits burst_exn.splits if_splits prod.splits)

lemma enter_advances: "enter_burst cfg c se = (se', p) \<Longrightarrow> advances se se'"
  by (rule advances_same)
     (auto simp: enter_burst_def replay_unsafe_def Let_def
       split: if_splits sum.splits burst_exn.splits option.splits prod.splits)

lemma ground_advances: "after_ground cfg cx fv loc gr m g se = (se', p) \<Longrightarrow> advances se se'"
  by (auto simp: after_ground_def Let_def intro: advances_same claim_advances split: direct_verdict.splits if_splits)

lemma piece_advances: "call_step cfg p se se' p' \<Longrightarrow> advances se se'"
  by (erule call_step.cases)
     (auto intro: enter_advances capture_advances local_advances ground_advances task_advances settle_advances
       advances_same finish_advances simp: after_clicks_def after_ask_def after_asked_def after_close_def Let_def)

lemma stops_advance:
  "advances se (abort_session r se)" "advances se (panic_session se)" "advances se (external_cursor se)"
  "advances se (resolve_approval i st se)" "advances se (set_claim i c se)"
  by (simp_all add: abort_session_def panic_session_def external_cursor_def revoke_control_def resolve_approval_def
      set_claim_def advances_def Let_def)

lemma observe_advances: "advances se (observe_session cfg c se)"
proof -
  obtain se1 fv where t: "take_frame cfg c se = (se1, fv)" by fastforce
  from take_frame_keeps [OF t] t show ?thesis by (simp add: observe_session_def advances_def Let_def)
qed

lemma reject_advances: "reject_burst rq rejected reason se = (se', r) \<Longrightarrow> advances se se'"
  by (rule advances_same) (auto simp: reject_burst_def Let_def)

lemma step_advances: "burst_step cfg w w' \<Longrightarrow> advances (bw_session w) (bw_session w')"
  by (erule burst_stepE)
     (auto intro: piece_advances stops_advance observe_advances advances_trans [OF gate_advances stops_advance(5)]
        advances_trans [OF stops_advance(4) reject_advances] advances_same)

subsection \<open>A gate that stays shut\<close>

text \<open>
  A burst that got past its checks under the epoch \<open>p\<close> has \<open>clear p\<close>: as long as its epoch is current
  no client is blocking. The gate is \<open>shut\<close> for it when the session is stopped or its epoch is over.
\<close>

definition clear :: "int \<Rightarrow> burst_session \<Rightarrow> bool" where
  "clear p se \<longleftrightarrow> p \<le> bs_epoch se \<and> (bs_epoch se = p \<longrightarrow> \<not> bs_other_block se)"

definition shut :: "int \<Rightarrow> burst_session \<Rightarrow> bool" where
  "shut p se \<longleftrightarrow> bs_stopped se \<or> p < bs_epoch se"

lemma clear_advances: "advances se se' \<Longrightarrow> clear p se \<Longrightarrow> clear p se'"
  by (auto simp: clear_def advances_def)

lemma shut_advances: "advances se se' \<Longrightarrow> shut p se \<Longrightarrow> shut p se'"
  by (auto simp: shut_def advances_def)

lemma shut_gate: "shut p se \<Longrightarrow> burst_gate p n se = (se', go) \<Longrightarrow> \<not> go"
  by (auto simp: shut_def burst_gate_def revoke_control_def Let_def split: if_splits)

lemma refused_shut: "clear p se \<Longrightarrow> burst_gate p n se = (se', False) \<Longrightarrow> shut p se'"
  by (auto simp: clear_def shut_def burst_gate_def revoke_control_def Let_def split: if_splits)

lemma control_clear: "check_control cx fv loc n se = (se', Cp_clicks cx' fv' loc') \<Longrightarrow> cx' = cx \<and> clear (cc_epoch cx) se'"
  by (auto simp: check_control_def clear_def Let_def split: if_splits)

lemma control_phase: "check_control cx fv loc n se = (se', p) \<Longrightarrow> (\<exists>r. p = Cp_return r) \<or> p = Cp_clicks cx fv loc"
  by (auto simp: check_control_def Let_def split: if_splits)

subsection \<open>What a task has seen\<close>

definition firm :: "stop_reason option list \<Rightarrow> bool" where
  "firm ps \<longleftrightarrow> list_all (\<lambda>p. p = Some Control_changed) (dropWhile (\<lambda>p. p \<noteq> Some Control_changed) ps)"

lemma firm_snoc: "firm ps \<Longrightarrow> (Some Control_changed \<in> set ps \<longrightarrow> x = Some Control_changed) \<Longrightarrow> firm (ps @ [x])"
  unfolding firm_def by (induction ps) auto

fun task_ok :: "runtime_cfg \<Rightarrow> burst_session \<Rightarrow>
    burst_digest \<times> pydict list \<times> int \<times> stop_reason option list \<times> burst_trace \<times> (burst_exn, burst_outcome) result option \<Rightarrow> bool" where
  "task_ok cfg se (d, acts, ep, ps, tr, res) \<longleftrightarrow>
     clear ep se \<and> firm ps \<and> (Some Control_changed \<in> set ps \<longrightarrow> shut ep se)
     \<and> (\<forall>r. res = Some r \<longrightarrow> (\<exists>E. run_burst E (rc_limits cfg) acts = (r, tr) \<and> polls_of tr = ps))"

lemma task_ok_advances: "advances se se' \<Longrightarrow> task_ok cfg se t \<Longrightarrow> task_ok cfg se' t"
  by (cases t) (auto dest: clear_advances shut_advances)

fun ground_ok :: "burst_session \<Rightarrow> call_phase \<Rightarrow> bool" where
  "ground_ok se (Cp_clicks cx fv loc) = clear (cc_epoch cx) se"
| "ground_ok se (Cp_ground cx fv loc gr m) = clear (cc_epoch cx) se"
| "ground_ok se _ = True"

lemma ground_ok_advances: "advances se se' \<Longrightarrow> ground_ok se p \<Longrightarrow> ground_ok se' p"
  by (cases p) (auto dest: clear_advances)

lemma control_ground_ok: "check_control cx fv loc n se = (se', p) \<Longrightarrow> ground_ok se' p"
proof -
  assume c: "check_control cx fv loc n se = (se', p)"
  then show "ground_ok se' p" using control_phase [OF c] control_clear by (elim disjE exE) simp_all
qed

lemma piece_ground_ok:
  assumes "call_step cfg p se se' p'" "ground_ok se p"
  shows "ground_ok se' p'"
  using assms
proof (induction rule: call_step.cases)
  case (cs_capture cx cap n se se' p)
  then show ?case by (auto simp: after_capture_def Let_def intro: control_ground_ok split: prod.splits if_splits)
next
  case (cs_local cx fv px n se se' p)
  then show ?case by (auto simp: after_local_def Let_def intro: control_ground_ok split: if_splits)
qed (auto simp: after_clicks_def enter_burst_def after_ground_def claim_burst_def after_ask_def after_asked_def after_task_def
       after_settle_def after_close_def Let_def split: if_splits sum.splits burst_exn.splits option.splits prod.splits
       direct_verdict.splits)

definition steady :: "runtime_cfg \<Rightarrow> burst_world \<Rightarrow> bool" where
  "steady cfg w \<longleftrightarrow> (\<forall>t \<in> set (tasks (bw_session w)). task_ok cfg (bw_session w) t)
     \<and> (\<forall>p og. (p, og) \<in> set (bw_calls w) \<longrightarrow> ground_ok (bw_session w) p)"

lemma steady_session:
  assumes "steady cfg w" "advances (bw_session w) se'" "\<forall>t \<in> set (tasks se'). t \<in> set (tasks (bw_session w)) \<or> task_ok cfg se' t"
  shows "steady cfg (w\<lparr>bw_session := se'\<rparr>)"
  unfolding steady_def
proof (intro conjI ballI allI impI)
  fix t assume "t \<in> set (tasks (bw_session (w\<lparr>bw_session := se'\<rparr>)))"
  then have "t \<in> set (tasks se')" by simp
  then have "task_ok cfg se' t"
    using assms(1, 3) task_ok_advances [OF assms(2)] unfolding steady_def by blast
  then show "task_ok cfg (bw_session (w\<lparr>bw_session := se'\<rparr>)) t" by simp
next
  fix p og assume "(p, og) \<in> set (bw_calls (w\<lparr>bw_session := se'\<rparr>))"
  then show "ground_ok (bw_session (w\<lparr>bw_session := se'\<rparr>)) p"
    using assms(1) ground_ok_advances [OF assms(2)] by (auto simp: steady_def)
qed

lemma steady_keeps:
  "steady cfg w \<Longrightarrow> advances (bw_session w) se' \<Longrightarrow> keeps (bw_session w) se' \<Longrightarrow> steady cfg (w\<lparr>bw_session := se'\<rparr>)"
  by (rule steady_session) (auto simp: keeps_def tasks_def)

lemma steady_step:
  assumes "burst_step cfg w w'" and o: "orderly w" and s: "steady cfg w"
  shows "steady cfg w'"
  using assms(1)
proof (cases rule: burst_stepE)
  case (piece i p og se' p')
  let ?se = "bw_session w"
  have m: "(p, og) \<in> set (bw_calls w)" using piece(2, 3) by (metis nth_mem)
  with o s have wp: "waits_ended ?se p" and gp: "ground_ok ?se p" unfolding orderly_def steady_def by blast+
  note ad = piece_advances [OF piece(4)]
  have old: "task_ok cfg se' t" if "t \<in> set (tasks ?se)" for t
    using s that task_ok_advances [OF ad] by (simp add: steady_def)
  have tk: "task_ok cfg se' t" if "t \<in> set (tasks se')" for t
    using piece_tasks [OF piece(4) wp]
  proof (elim disjE exE conjE)
    fix cx fv loc gr m assume "p = Cp_ground cx fv loc gr m" "starts_task cx ?se se'"
    moreover from this have "task_ok cfg se' (cc_digest cx, cc_actions cx, cc_epoch cx, [], [], None)"
      using gp clear_advances [OF ad] by (simp add: task_ok.simps firm_def)
    moreover have "t \<in> set (tasks ?se) \<or> t = (cc_digest cx, cc_actions cx, cc_epoch cx, [], [], None)"
      using that calculation(2) by (simp only: starts_task_def set_append) (simp add: disj_commute)
    ultimately show ?thesis using old by (elim disjE) (simp_all only:)
  qed (use that old in \<open>simp_all add: same_tasks_def finishes_task_def\<close>)
  have "ground_ok se' q" if "(q, o') \<in> set ((bw_calls w)[i := (p', og)])" for q o'
    using set_update_cases [OF that] piece_ground_ok [OF piece(4) gp] ground_ok_advances [OF ad] s
    by (auto simp: steady_def)
  with tk piece(1) show ?thesis by (auto simp: steady_def)
next
  case (poll i n se' go late)
  let ?c = "bs_claims (bw_session w) ! i"
  let ?d = "?c\<lparr>cl_polls := cl_polls ?c @ [poll_answer go late]\<rparr>"
  note k = gate_keeps [OF poll(4)]
  then have t: "tasks se' = tasks (bw_session w)" by (simp add: keeps_def tasks_def)
  have "task_part ?c \<in> set (tasks (bw_session w))" using poll(2) by (simp add: tasks_def)
  with s have c: "task_ok cfg (bw_session w) (task_part ?c)" by (simp add: steady_def)
  have "task_ok cfg (set_claim i ?d se') (task_part ?d)"
  proof -
    have cl: "clear (cl_epoch ?c) (bw_session w)" "firm (cl_polls ?c)"
      "Some Control_changed \<in> set (cl_polls ?c) \<longrightarrow> shut (cl_epoch ?c) (bw_session w)"
      using c by (simp_all add: task_part_def task_ok.simps)
    have sc: "clear e (set_claim i ?d se') = clear e se'" "shut e (set_claim i ?d se') = shut e se'" for e
      by (simp_all add: clear_def shut_def set_claim_def)
    have "firm (cl_polls ?c @ [poll_answer go late])"
      using cl shut_gate [OF _ poll(4)] by (intro firm_snoc) (auto simp: poll_answer_def)
    moreover have "shut (cl_epoch ?c) se'" if "Some Control_changed \<in> set (cl_polls ?c @ [poll_answer go late])"
      using that cl shut_advances [OF gate_advances [OF poll(4)]] refused_shut [OF cl(1)] poll(4)
      by (auto simp: poll_answer_def split: if_splits)
    ultimately show ?thesis
      using clear_advances [OF gate_advances [OF poll(4)] cl(1)] poll(3)
      by (simp add: task_part_def task_ok.simps sc)
  qed
  then have "\<forall>t \<in> set (tasks (set_claim i ?d se')). t \<in> set (tasks (bw_session w)) \<or> task_ok cfg (set_claim i ?d se') t"
    using set_update_cases by (fastforce simp: tasks_set_claim t)
  then show ?thesis unfolding poll(1)
    by (intro steady_session [OF s] advances_trans [OF gate_advances [OF poll(4)] stops_advance(5)])
next
  case (finish i E r tr)
  let ?c = "bs_claims (bw_session w) ! i"
  let ?d = "?c\<lparr>cl_trace := tr, cl_result := Some r\<rparr>"
  have "task_part ?c \<in> set (tasks (bw_session w))" using finish(2) by (simp add: tasks_def)
  with s have "task_ok cfg (bw_session w) (task_part ?c)" by (simp add: steady_def)
  then have "task_ok cfg (set_claim i ?d (bw_session w)) (task_part ?d)"
    using finish by (auto simp: task_part_def task_ok.simps clear_def shut_def set_claim_def)
  then have "\<forall>t \<in> set (tasks (set_claim i ?d (bw_session w))).
      t \<in> set (tasks (bw_session w)) \<or> task_ok cfg (set_claim i ?d (bw_session w)) t"
    using set_update_cases by (fastforce simp: tasks_set_claim)
  then show ?thesis unfolding finish(1) by (intro steady_session [OF s] stops_advance)
next
  case (reject i rq rejected reason se' r)
  have "tasks se' = tasks (bw_session w)"
    using reject(4) by (auto simp: reject_burst_def tasks_def resolve_approval_def Let_def)
  then show ?thesis unfolding reject(1)
    by (intro steady_session [OF s] advances_trans [OF stops_advance(4) reject_advances [OF reject(4)]]) simp
qed (use s in \<open>auto intro: steady_keeps stops_advance observe_advances\<close>, use s in \<open>auto simp: steady_def\<close>)

lemma steady_reach:
  assumes "burst_reach cfg w"
  shows "steady cfg w"
proof -
  have "orderly w \<and> steady cfg w"
    using assms unfolding burst_reach_def
  proof (induction rule: rtranclp_induct)
    case base
    show ?case by (simp add: orderly_def solo_def steady_def world_init_def session_init_def tasks_def)
  next
    case (step y z)
    then show ?case by (blast intro: orderly_step steady_step)
  qed
  then show ?thesis ..
qed

end
