(* ===== verification/BurstSafety.thy ===== *)
theory BurstSafety
  imports BurstBrake
begin

text \<open>
  What direct control promises under every interleaving of its calls.
\<close>

subsection \<open>A driver\<close>

text \<open>What a piece learns from outside, and the moves of a run; \<open>drive\<close> is a computable run.\<close>

record outside =
  os_capture :: "capture option"
  os_pixels :: "bool \<times> rat option"
  os_clients :: nat
  os_clicks :: "pydict list"
  os_grounding :: grounding
  os_stable :: "bool option"

datatype burst_move =
    Mv_call burst_call
  | Mv_piece nat outside
  | Mv_poll nat nat bool
  | Mv_done nat burst_env
  | Mv_approve nat
  | Mv_reject nat bool pystr
  | Mv_panic
  | Mv_observe capture
  | Mv_resolve nat

fun drive_piece :: "runtime_cfg \<Rightarrow> outside \<Rightarrow> call_phase \<Rightarrow> burst_session \<Rightarrow> (burst_session \<times> call_phase) option" where
  "drive_piece cfg ou (Cp_start c) se = Some (enter_burst cfg c se)"
| "drive_piece cfg ou (Cp_capture cx) se = (case os_capture ou of None \<Rightarrow> None
     | Some cap \<Rightarrow> Some (after_capture cfg cx cap (os_clients ou) se))"
| "drive_piece cfg ou (Cp_local cx fv) se = Some (after_local cx fv (os_pixels ou) (os_clients ou) se)"
| "drive_piece cfg ou (Cp_clicks cx fv loc) se =
     (if grounds (cc_actions cx) (os_clicks ou) then Some (after_clicks cx fv loc (os_clicks ou) se) else None)"
| "drive_piece cfg ou (Cp_ground cx fv loc gr m) se = Some (after_ground cfg cx fv loc gr m (os_grounding ou) se)"
| "drive_piece cfg ou (Cp_ask cx i rq) se = Some (after_ask cx i rq se)"
| "drive_piece cfg ou (Cp_asked cx i rq) se = Some (after_asked cx i rq se)"
| "drive_piece cfg ou (Cp_wait cx cv) se =
     (if cv_claim cv < length (bs_claims se)
      then map_option (\<lambda>res. after_task cfg cx cv (os_clients ou) res se) (cl_result (bs_claims se ! cv_claim cv))
      else None)"
| "drive_piece cfg ou (Cp_settle cx cv out ap) se = Some (after_settle cfg cx cv out ap (os_stable ou) (os_capture ou) se)"
| "drive_piece cfg ou (Cp_close cx cv out st eff final) se = Some (after_close cx cv out st eff final (os_clients ou) se)"
| "drive_piece cfg ou _ se = None"

lemma drive_piece_step:
  "drive_piece cfg ou p se = Some (se', p') \<Longrightarrow> call_step cfg p se se' p'"
  by (induction cfg ou p se rule: drive_piece.induct)
     (auto intro: call_step.intros split: option.splits if_splits)

fun drive_move :: "runtime_cfg \<Rightarrow> burst_move \<Rightarrow> burst_world \<Rightarrow> burst_world option" where
  "drive_move cfg (Mv_call c) w =
     (if bc_approved c = None then Some (w\<lparr>bw_calls := bw_calls w @ [(Cp_start c, None)]\<rparr>) else None)"
| "drive_move cfg (Mv_piece i ou) w =
     (if i < length (bw_calls w)
      then (case bw_calls w ! i of (p, og) \<Rightarrow>
        map_option (\<lambda>(se, p'). w\<lparr>bw_session := se, bw_calls := (bw_calls w)[i := (p', og)]\<rparr>)
          (drive_piece cfg ou p (bw_session w)))
      else None)"
| "drive_move cfg (Mv_poll i n late) w =
     (let c = bs_claims (bw_session w) ! i in
      if i < length (bs_claims (bw_session w)) \<and> cl_result c = None
      then (case burst_gate (cl_epoch c) n (bw_session w) of (se, go) \<Rightarrow>
        Some (w\<lparr>bw_session := set_claim i (c\<lparr>cl_polls := cl_polls c @ [poll_answer go late]\<rparr>) se\<rparr>))
      else None)"
| "drive_move cfg (Mv_done i E) w =
     (let c = bs_claims (bw_session w) ! i in
      if i < length (bs_claims (bw_session w)) \<and> cl_result c = None
      then (case run_burst E (rc_limits cfg) (cl_actions c) of (r, tr) \<Rightarrow>
        if polls_of tr = cl_polls c
        then Some (w\<lparr>bw_session := set_claim i (c\<lparr>cl_trace := tr, cl_result := Some r\<rparr>) (bw_session w)\<rparr>)
        else None)
      else None)"
| "drive_move cfg (Mv_approve i) w =
     (if i < length (bs_approvals (bw_session w))
      then (case bs_approvals (bw_session w) ! i of
          (rq, As_pending) \<Rightarrow> Some (w\<lparr>bw_calls := bw_calls w @ [(Cp_start (approved_call rq), Some i)]\<rparr>)
        | _ \<Rightarrow> None)
      else None)"
| "drive_move cfg (Mv_reject i rejected reason) w =
     (if i < length (bs_approvals (bw_session w))
      then (case bs_approvals (bw_session w) ! i of
          (rq, As_pending) \<Rightarrow> Some (w\<lparr>bw_session := fst (reject_burst rq rejected reason
             (resolve_approval i (if rejected then As_rejected else As_resolved) (bw_session w)))\<rparr>)
        | _ \<Rightarrow> None)
      else None)"
| "drive_move cfg Mv_panic w = Some (w\<lparr>bw_session := panic_session (bw_session w)\<rparr>)"
| "drive_move cfg (Mv_observe cap) w = Some (w\<lparr>bw_session := observe_session cfg cap (bw_session w)\<rparr>)"
| "drive_move cfg (Mv_resolve j) w =
     (if j < length (bw_calls w)
      then (case bw_calls w ! j of
          (Cp_return r, Some i) \<Rightarrow> Some (w\<lparr>bw_session := resolve_approval i (approval_result r) (bw_session w)\<rparr>)
        | _ \<Rightarrow> None)
      else None)"

lemma drive_move_step: "drive_move cfg m w = Some w' \<Longrightarrow> burst_step cfg w w'"
proof (induction cfg m w rule: drive_move.induct)
  case (2 cfg i ou w)
  then show ?case
    by (auto split: if_splits prod.splits intro!: b_piece dest: drive_piece_step)
next
  case (3 cfg i n late w)
  then show ?case by (auto simp: Let_def split: if_splits prod.splits intro!: b_poll)
next
  case (4 cfg i E w)
  then show ?case by (auto simp: Let_def split: if_splits prod.splits intro!: b_done)
next
  case (6 cfg i rejected reason w)
  let ?se = "resolve_approval i (if rejected then As_rejected else As_resolved) (bw_session w)"
  obtain rq where i: "i < length (bs_approvals (bw_session w))" "bs_approvals (bw_session w) ! i = (rq, As_pending)"
    and w': "w' = w\<lparr>bw_session := fst (reject_burst rq rejected reason ?se)\<rparr>"
    using 6 by (auto split: if_splits prod.splits approval_state.splits)
  obtain se' r where "reject_burst rq rejected reason ?se = (se', r)" by fastforce
  from b_reject [OF i this] this w' show ?case by simp
next
  case (5 cfg i w)
  then obtain rq where i: "i < length (bs_approvals (bw_session w))" "bs_approvals (bw_session w) ! i = (rq, As_pending)"
    and w': "w' = w\<lparr>bw_calls := bw_calls w @ [(Cp_start (approved_call rq), Some i)]\<rparr>"
    by (auto split: if_splits prod.splits approval_state.splits)
  from b_approve [OF i] w' show ?case by simp
next
  case (9 cfg j w)
  then obtain r i where j: "j < length (bw_calls w)" "bw_calls w ! j = (Cp_return r, Some i)"
    and w': "w' = w\<lparr>bw_session := resolve_approval i (approval_result r) (bw_session w)\<rparr>"
    by (auto split: if_splits prod.splits call_phase.splits option.splits)
  then have "(Cp_return r, Some i) \<in> set (bw_calls w)" by (metis nth_mem)
  from b_resolve [OF this] w' show ?case by simp
qed (auto intro: b_call b_panic b_observe split: if_splits)

fun drive :: "runtime_cfg \<Rightarrow> burst_move list \<Rightarrow> burst_world \<Rightarrow> burst_world option" where
  "drive cfg [] w = Some w"
| "drive cfg (m # ms) w = (case drive_move cfg m w of None \<Rightarrow> None | Some w' \<Rightarrow> drive cfg ms w')"

lemma drive_steps: "drive cfg ms w = Some w' \<Longrightarrow> (burst_step cfg)\<^sup>*\<^sup>* w w'"
  by (induction cfg ms w rule: drive.induct)
     (auto split: option.splits dest!: drive_move_step intro: converse_rtranclp_into_rtranclp)

lemma drive_reach: "drive cfg ms world_init = Some w \<Longrightarrow> burst_reach cfg w"
  by (simp add: burst_reach_def drive_steps)

subsection \<open>At most once\<close>

lemma running_tasks:
  assumes "burst_reach cfg w" "i < length (bs_claims (bw_session w))" "cl_result (bs_claims (bw_session w) ! i) = None"
  shows "bs_semantic (bw_session w) (cl_digest (bs_claims (bw_session w) ! i)) = Some i"
proof -
  have "solo (bw_session w)" using orderly_reach [OF assms(1)] by (simp add: orderly_def)
  with assms(2, 3) show ?thesis by (simp add: solo_def tasks_def task_part_sel)
qed

text \<open>
  C3. A burst runs at most once, whatever the retries. A key starts at most one burst without a human's
  approval; two tasks that run at the same time have different digests; and once a digest is retained as
  unsafe, no later state has a further start of it, approved or not.
\<close>

theorem bursts_run_at_most_once:
  assumes "burst_reach cfg w"
  shows "distinct (map cl_owner (filter (\<lambda>c. \<not> cl_approved c) (bs_claims (bw_session w))))
    \<and> (\<forall>i < length (bs_claims (bw_session w)). \<forall>j < length (bs_claims (bw_session w)).
         cl_result (bs_claims (bw_session w) ! i) = None \<and> cl_result (bs_claims (bw_session w) ! j) = None
         \<and> cl_digest (bs_claims (bw_session w) ! i) = cl_digest (bs_claims (bw_session w) ! j) \<longrightarrow> i = j)
    \<and> (\<forall>d w'. bs_unsafe (bw_session w) d \<noteq> None \<and> (burst_step cfg)\<^sup>*\<^sup>* w w' \<longrightarrow>
         length (filter (\<lambda>c. cl_digest c = d) (bs_claims (bw_session w')))
           = length (filter (\<lambda>c. cl_digest c = d) (bs_claims (bw_session w))))"
proof (intro conjI allI impI)
  have "distinct (unapproved_keys (claim_tags (bw_session w)))"
    using once_reach [OF assms] by (simp add: once_def)
  then show "distinct (map cl_owner (filter (\<lambda>c. \<not> cl_approved c) (bs_claims (bw_session w))))"
    by (simp add: unapproved_keys_def claim_tags_def filter_map comp_def)
next
  fix i j
  assume "i < length (bs_claims (bw_session w))" "j < length (bs_claims (bw_session w))"
    and "cl_result (bs_claims (bw_session w) ! i) = None \<and> cl_result (bs_claims (bw_session w) ! j) = None
         \<and> cl_digest (bs_claims (bw_session w) ! i) = cl_digest (bs_claims (bw_session w) ! j)"
  then have "bs_semantic (bw_session w) (cl_digest (bs_claims (bw_session w) ! i)) = Some i"
    "bs_semantic (bw_session w) (cl_digest (bs_claims (bw_session w) ! i)) = Some j"
    using running_tasks [OF assms] by metis+
  then show "i = j" by (simp only: option.inject)
next
  fix d w'
  assume "bs_unsafe (bw_session w) d \<noteq> None \<and> (burst_step cfg)\<^sup>*\<^sup>* w w'"
  then have "filter (\<lambda>t. fst (snd t) = d) (claim_tags (bw_session w')) = filter (\<lambda>t. fst (snd t) = d) (claim_tags (bw_session w))"
    using braked_forever [of cfg w w' d] by (simp add: ledger_of_def dom_def)
  then have "length (filter (\<lambda>t. fst (snd t) = d) (claim_tags (bw_session w')))
      = length (filter (\<lambda>t. fst (snd t) = d) (claim_tags (bw_session w)))" by simp
  then show "length (filter (\<lambda>c. cl_digest c = d) (bs_claims (bw_session w')))
      = length (filter (\<lambda>c. cl_digest c = d) (bs_claims (bw_session w)))"
    by (simp add: claim_tags_def filter_map comp_def)
qed

subsection \<open>The brake\<close>

lemma claim_steady:
  assumes "burst_reach cfg w" "i < length (bs_claims (bw_session w))" "c = bs_claims (bw_session w) ! i"
  shows "task_ok cfg (bw_session w) (cl_digest c, cl_actions c, cl_epoch c, cl_polls c, cl_trace c, cl_result c)"
proof -
  have "task_part c \<in> set (tasks (bw_session w))" using assms(2, 3) by (simp add: tasks_def)
  with steady_reach [OF assms(1)] show ?thesis unfolding steady_def task_part_def by blast
qed

lemma firm_nth:
  assumes "firm ps" "j < k" "k < length ps" "ps ! j = Some Control_changed"
  shows "ps ! k = Some Control_changed"
proof -
  let ?P = "\<lambda>p. p \<noteq> Some Control_changed"
  let ?n = "length (takeWhile ?P ps)"
  have "?n \<le> j"
  proof (rule ccontr)
    assume "\<not> ?n \<le> j"
    then have "j < ?n" by simp
    then have "takeWhile ?P ps ! j \<in> set (takeWhile ?P ps)" "takeWhile ?P ps ! j = ps ! j"
      by (rule nth_mem, rule takeWhile_nth)
    with assms(4) show False by (metis (mono_tags, lifting) set_takeWhileD)
  qed
  then have "dropWhile ?P ps ! (k - ?n) = ps ! k" "k - ?n < length (dropWhile ?P ps)"
    using assms(2, 3) by (simp_all add: dropWhile_eq_drop)
  with assms(1) show ?thesis unfolding firm_def list_all_length by metis
qed

text \<open>
  A refusal is final: when the gate of a running burst has once refused, because of a stop, a human
  at the machine or another client, every later poll of the same burst is refused too, also when the
  client has left again.
\<close>

theorem gate_refusal_is_final:
  assumes "burst_reach cfg w" "c \<in> set (bs_claims (bw_session w))"
    and "j < k" "k < length (cl_polls c)" "cl_polls c ! j = Some Control_changed"
  shows "cl_polls c ! k = Some Control_changed"
proof -
  from assms(2) obtain i where "i < length (bs_claims (bw_session w))" "c = bs_claims (bw_session w) ! i"
    by (metis in_set_conv_nth)
  from claim_steady [OF assms(1) this] have "firm (cl_polls c)" by (simp add: task_ok.simps)
  from firm_nth [OF this assms(3-5)] show ?thesis .
qed

lemma polls_append: "polls_of (a @ b) = polls_of a @ polls_of b"
  by (simp add: polls_of_def)

lemma polls_split:
  "polls_of tr = ps @ q # qs \<Longrightarrow> \<exists>pre post. tr = pre @ Ev_poll q # post \<and> polls_of pre = ps"
proof (induction tr arbitrary: ps)
  case Nil
  then show ?case by (simp add: polls_of_def)
next
  case (Cons e tr)
  show ?case
  proof (cases e)
    case (Ev_poll x)
    show ?thesis
    proof (cases ps)
      case Nil
      with Cons.prems Ev_poll show ?thesis
        by (intro exI [of _ "[]"] exI [of _ tr]) (simp add: polls_of_def)
    next
      case (Cons p ps')
      with Cons.prems Ev_poll have "polls_of tr = ps' @ q # qs" "x = p" by (simp_all add: polls_of_def)
      from Cons.IH [OF this(1)] obtain pre post where "tr = pre @ Ev_poll q # post" "polls_of pre = ps'" by blast
      with Cons Ev_poll \<open>x = p\<close> show ?thesis
        by (intro exI [of _ "e # pre"] exI [of _ post]) (simp add: polls_of_def)
    qed
  next
    case (Ev_call c)
    with Cons.prems have "polls_of tr = ps @ q # qs" by (simp add: polls_of_def)
    from Cons.IH [OF this] obtain pre post where "tr = pre @ Ev_poll q # post" "polls_of pre = ps" by blast
    with Ev_call show ?thesis by (intro exI [of _ "e # pre"] exI [of _ post]) (simp add: polls_of_def)
  next
    case (Ev_typed t ok)
    with Cons.prems have "polls_of tr = ps @ q # qs" by (simp add: polls_of_def)
    from Cons.IH [OF this] obtain pre post where "tr = pre @ Ev_poll q # post" "polls_of pre = ps" by blast
    with Ev_typed show ?thesis by (intro exI [of _ "e # pre"] exI [of _ post]) (simp add: polls_of_def)
  qed
qed

text \<open>What a step adds to a task that is there.\<close>

definition later_task :: "bool \<Rightarrow> burst_claim \<Rightarrow> burst_claim \<Rightarrow> bool" where
  "later_task shut_now c c' \<longleftrightarrow> cl_epoch c' = cl_epoch c
     \<and> (\<exists>qs. cl_polls c' = cl_polls c @ qs \<and> (shut_now \<longrightarrow> list_all (\<lambda>q. q = Some Control_changed) qs))"

lemma later_refl: "task_part c' = task_part c \<Longrightarrow> later_task b c c'"
  by (simp add: later_task_def task_part_def)

lemma later_trans: "later_task b c c' \<Longrightarrow> later_task b c' c'' \<Longrightarrow> later_task b c c''"
  by (fastforce simp: later_task_def)

lemma tasks_later:
  assumes "tasks se' = tasks se \<or> tasks se' = tasks se @ [t]" "i < length (bs_claims se)"
  shows "i < length (bs_claims se') \<and> later_task b (bs_claims se ! i) (bs_claims se' ! i)"
proof -
  have l: "length (bs_claims s) = length (tasks s)" for s by (simp add: tasks_def)
  have i: "i < length (bs_claims se')" using assms unfolding l by auto
  have "tasks se' ! i = tasks se ! i" using assms unfolding l by (auto simp: nth_append)
  with i assms(2) have "task_part (bs_claims se' ! i) = task_part (bs_claims se ! i)" by (simp add: tasks_def)
  with i later_refl show ?thesis by blast
qed

lemma step_later:
  assumes st: "burst_step cfg w w'" and r: "burst_reach cfg w" and i: "i < length (bs_claims (bw_session w))"
    and sh: "b \<longrightarrow> shut (cl_epoch (bs_claims (bw_session w) ! i)) (bw_session w)"
  shows "i < length (bs_claims (bw_session w')) \<and> later_task b (bs_claims (bw_session w) ! i) (bs_claims (bw_session w') ! i)"
  using st
proof (cases rule: burst_stepE)
  case (piece k p og se' p')
  have "(p, og) \<in> set (bw_calls w)" using piece(2, 3) by (metis nth_mem)
  with orderly_reach [OF r] have "waits_ended (bw_session w) p" unfolding orderly_def by blast
  from piece_tasks [OF piece(4) this] obtain t where "tasks se' = tasks (bw_session w) \<or> tasks se' = tasks (bw_session w) @ [t]"
    unfolding same_tasks_def starts_task_def finishes_task_def by metis
  from tasks_later [OF this i] piece(1) show ?thesis by simp
next
  case (poll k n se' go late)
  note kp = gate_keeps [OF poll(4)]
  show ?thesis
  proof (cases "k = i")
    case True
    have "shut (cl_epoch (bs_claims (bw_session w) ! i)) (bw_session w) \<Longrightarrow> \<not> go"
      using shut_gate [OF _ poll(4)] True by blast
    with sh True poll(1) i kp show ?thesis
      by (auto simp: later_task_def set_claim_def keeps_def poll_answer_def)
  next
    case False
    with poll(1) i kp show ?thesis by (simp add: set_claim_def keeps_def later_refl)
  qed
next
  case (finish k E rr tr)
  with i show ?thesis
    by (cases "k = i") (simp_all add: set_claim_def later_refl later_task_def)
next
  case (reject k rq rejected reason se' rr)
  then have "tasks se' = tasks (bw_session w)"
    by (auto simp: reject_burst_def tasks_def resolve_approval_def Let_def)
  from tasks_later [OF disjI1, OF this i] reject(1) show ?thesis by simp
next
  case observe
  with i observe_keeps show ?thesis by (simp add: keeps_def later_refl)
qed (use i in \<open>simp_all add: later_refl abort_session_def panic_session_def external_cursor_def revoke_control_def
       resolve_approval_def Let_def\<close>)

lemma steps_later:
  assumes "(burst_step cfg)\<^sup>*\<^sup>* w w'" and r: "burst_reach cfg w" and i: "i < length (bs_claims (bw_session w))"
    and sh: "shut (cl_epoch (bs_claims (bw_session w) ! i)) (bw_session w)"
  shows "burst_reach cfg w' \<and> i < length (bs_claims (bw_session w'))
    \<and> later_task True (bs_claims (bw_session w) ! i) (bs_claims (bw_session w') ! i)
    \<and> shut (cl_epoch (bs_claims (bw_session w') ! i)) (bw_session w')"
  using assms(1)
proof (induction rule: rtranclp_induct)
  case base
  with r i sh show ?case by (simp add: later_refl)
next
  case (step y z)
  then have y: "burst_reach cfg y" "i < length (bs_claims (bw_session y))"
    "shut (cl_epoch (bs_claims (bw_session y) ! i)) (bw_session y)" by simp_all
  from step_later [OF step(2) y(1,2), of True] y(3)
  have z: "i < length (bs_claims (bw_session z))" "later_task True (bs_claims (bw_session y) ! i) (bs_claims (bw_session z) ! i)"
    by simp_all
  from z(2) have "cl_epoch (bs_claims (bw_session z) ! i) = cl_epoch (bs_claims (bw_session y) ! i)"
    by (simp add: later_task_def)
  with shut_advances [OF step_advances [OF step(2)] y(3)]
  have "shut (cl_epoch (bs_claims (bw_session z) ! i)) (bw_session z)" by simp
  with step z later_trans burst_reach_step [OF y(1) step(2)] show ?case by blast
qed

text \<open>
  C5. A stop ends the burst that is running. When a session is stopped, or its control epoch has moved
  past the one a burst was planned under, then whatever happens next, the run of that burst consists of
  what its task had done up to its next poll of the gate, and after that poll sends nothing: only polls,
  waits, screenshots and the release of held keys.
\<close>

theorem stop_ends_running_burst:
  assumes "burst_reach cfg w" "i < length (bs_claims (bw_session w))" "c = bs_claims (bw_session w) ! i"
    and "bs_stopped (bw_session w) \<or> cl_epoch c < bs_epoch (bw_session w)"
    and "(burst_step cfg)\<^sup>*\<^sup>* w w'" "c' = bs_claims (bw_session w') ! i" "cl_result c' \<noteq> None"
  shows "\<exists>pre post. cl_trace c' = pre @ post \<and> length (polls_of pre) \<le> Suc (length (cl_polls c))
    \<and> (\<forall>e \<in> set post. case e of Ev_poll _ \<Rightarrow> True | Ev_typed _ _ \<Rightarrow> False | Ev_call k \<Rightarrow> quiet_call k)"
proof -
  have "shut (cl_epoch (bs_claims (bw_session w) ! i)) (bw_session w)"
    using assms(3, 4) by (auto simp: shut_def)
  from steps_later [OF assms(5, 1, 2) this] assms(3, 6)
  have r': "burst_reach cfg w'" "i < length (bs_claims (bw_session w'))" and "later_task True c c'" by simp_all
  then obtain qs where qs: "cl_polls c' = cl_polls c @ qs" "list_all (\<lambda>q. q = Some Control_changed) qs"
    by (auto simp: later_task_def)
  obtain r where res: "cl_result c' = Some r" using assms(7) by blast
  from claim_steady [OF r' assms(6)] res obtain E where
    run: "run_burst E (rc_limits cfg) (cl_actions c') = (r, cl_trace c')" and ps: "polls_of (cl_trace c') = cl_polls c @ qs"
    by (auto simp: task_ok.simps qs(1))
  show ?thesis
  proof (cases qs)
    case Nil
    with ps show ?thesis by (intro exI [of _ "cl_trace c'"] exI [of _ "[]"]) simp
  next
    case (Cons q rest)
    from polls_split [OF ps [unfolded Cons]] obtain pre post where
      tr: "cl_trace c' = pre @ Ev_poll q # post" "polls_of pre = cl_polls c" by blast
    have "sealed (cl_trace c')" using run_sealed [of E "rc_limits cfg" "cl_actions c'"] run by simp
    moreover have "halting (Ev_poll q)" using qs(2) Cons by (simp add: halting_def)
    ultimately have "list_all quiet post" using sealed_after [of "cl_trace c'" pre "Ev_poll q" post] tr(1) by simp
    then have "\<forall>e \<in> set post. case e of Ev_poll _ \<Rightarrow> True | Ev_typed _ _ \<Rightarrow> False | Ev_call k \<Rightarrow> quiet_call k"
      by (auto simp: list_all_iff quiet_def)
    moreover have "length (polls_of (pre @ [Ev_poll q])) \<le> Suc (length (cl_polls c))"
      by (simp add: polls_append tr(2)) (simp add: polls_of_def)
    ultimately show ?thesis using tr(1) by (intro exI [of _ "pre @ [Ev_poll q]"] exI [of _ post]) simp
  qed
qed

subsection \<open>What comes before a start\<close>


end
