(* ===== verification/BurstScenes.thy ===== *)
theory BurstScenes
  imports BurstSafety
begin

text \<open>
  Concrete runs of direct control: one for each property of a session, and four orders of events in which
  the code promises less than it means to.
\<close>

subsection \<open>The setting\<close>

definition demo_digest :: "pydict list \<Rightarrow> int \<Rightarrow> bool \<Rightarrow> pystr" where
  "demo_digest as ms shot = concat (map (\<lambda>a. py_repr (PDict a)) as) @ int_str ms"

definition demo_cfg :: runtime_cfg where
  "demo_cfg = \<lparr>rc_digest = demo_digest, rc_policy = default_policy_config, rc_threshold = fp_meaningful,
     rc_limits = default_limits, rc_local_freshness = False, rc_fake = False\<rparr>"

definition demo_capture :: capture where
  "demo_capture = \<lparr>cp_fp = [9, 9], cp_keyboard = (Kb_us, None), cp_width = 640, cp_height = 480, cp_sha256 = []\<rparr>"

definition click_at :: pydict where
  "click_at = [(u ''type'', PStr (u ''click'')), (u ''x'', PInt 10), (u ''y'', PInt 10)]"

definition click_read :: pydict where
  "click_read = click_at @ [(u ''observed_target_text'', PStr (u ''Up''))]"

definition demo_key :: pystr where "demo_key = u ''k''"

definition other_key :: pystr where "other_key = u ''other''"

definition demo_call :: "pystr \<Rightarrow> pydict list \<Rightarrow> burst_call" where
  "demo_call k as = \<lparr>bc_actions = as, bc_world = Some 1, bc_epoch = Some 0, bc_runtime_ms = Some 5000,
     bc_screenshot = True, bc_key = Some k, bc_approved = None\<rparr>"

definition demo_outside :: "pydict list \<Rightarrow> outside" where
  "demo_outside grounded = \<lparr>os_capture = Some demo_capture, os_pixels = (False, None), os_clients = 0,
     os_clicks = grounded,
     os_grounding = \<lparr>gr_observed = [], gr_navigation = False, gr_save = False, gr_editor = False\<rparr>,
     os_stable = Some True\<rparr>"

definition bare_surface :: surface_proof where
  "bare_surface = \<lparr>sp_deferred_editor = False, sp_local_editor = False, sp_navigation_commit = False, sp_file_save_commit = False\<rparr>"

text \<open>All pieces of the call \<open>i\<close> from its start to its claim, and from the end of the task to its reply.\<close>

definition four_pieces :: "nat \<Rightarrow> outside \<Rightarrow> burst_move list" where
  "four_pieces i ou = [Mv_piece i ou, Mv_piece i ou, Mv_piece i ou, Mv_piece i ou]"

definition to_reply :: "nat \<Rightarrow> outside \<Rightarrow> burst_move list" where
  "to_reply i ou = [Mv_piece i ou, Mv_piece i ou, Mv_piece i ou]"

definition run_task :: "nat \<Rightarrow> burst_env \<Rightarrow> burst_move list" where
  "run_task j E = [Mv_poll j 0 False, Mv_done j E]"

definition clicked :: burst_outcome where
  "clicked = projr (fst (run_burst quiet_env default_limits [click_at]))"

definition click_trace :: burst_trace where
  "click_trace = snd (run_burst quiet_env default_limits [click_at])"

text \<open>What the parts of the program answer in this setting.\<close>

lemma demo_strip: "py_strip demo_key = demo_key" "demo_key \<noteq> []" "length demo_key = 1"
  "py_strip other_key = other_key" "other_key \<noteq> []" "length other_key = 5" "demo_key \<noteq> other_key" "other_key \<noteq> demo_key"
  by code_simp+

lemma demo_valid: "validate_actions default_limits [click_at] = Inr ()"
  by code_simp

lemma demo_allowed: "classify_direct_burst [click_read] default_policy_config [] bare_surface = DV_allowed None"
  by code_simp

definition held_candidate :: candidate where
  "held_candidate = (case classify_direct_burst [click_at] default_policy_config [] bare_surface of
     DV_approval c \<Rightarrow> c | _ \<Rightarrow> undefined)"

lemma demo_held: "classify_direct_burst [click_at] default_policy_config [] bare_surface = DV_approval held_candidate"
proof -
  have "(case classify_direct_burst [click_at] default_policy_config [] bare_surface of DV_approval _ \<Rightarrow> True | _ \<Rightarrow> False)"
    by code_simp
  then show ?thesis unfolding held_candidate_def
    by (cases "classify_direct_burst [click_at] default_policy_config [] bare_surface") simp_all
qed

lemma demo_settles: "needs_post_action_settle [click_at] = Inr True"
  by code_simp

text \<open>One evaluation of a run, and what is read off it.\<close>

definition run_shows :: "burst_env \<Rightarrow> pydict list \<Rightarrow> (burst_outcome \<Rightarrow> bool) \<Rightarrow> burst_trace \<Rightarrow> bool" where
  "run_shows E actions P tr \<longleftrightarrow> (case run_burst E default_limits actions of (Inr o1, tr') \<Rightarrow> tr' = tr \<and> P o1 | _ \<Rightarrow> False)"

lemma run_shows_run:
  assumes "run_shows E actions P tr"
  shows "run_burst E default_limits actions
      = (Inr (projr (fst (run_burst E default_limits actions))), snd (run_burst E default_limits actions))
    \<and> snd (run_burst E default_limits actions) = tr \<and> P (projr (fst (run_burst E default_limits actions)))"
  using assms by (auto simp: run_shows_def split: prod.splits sum.splits)

lemma click_shows: "run_shows quiet_env [click_at]
    (\<lambda>o1. bo_status o1 = Bs_completed \<and> bo_completed o1 = 1 \<and> bo_action_receipts o1 = [])
    [Ev_poll None, Ev_call (Bk_click 10 10 (PStr (u ''left'')))]"
  by code_simp

lemma demo_run: "run_burst quiet_env default_limits [click_at] = (Inr clicked, click_trace)"
  "bo_status clicked = Bs_completed" "bo_completed clicked = 1" "bo_action_receipts clicked = []"
  using run_shows_run [OF click_shows] unfolding clicked_def click_trace_def by (blast, simp_all)

lemma click_trace_is: "click_trace = [Ev_poll None, Ev_call (Bk_click 10 10 (PStr (u ''left'')))]"
  using run_shows_run [OF click_shows] by (simp add: click_trace_def)

lemma demo_polls: "polls_of click_trace = [None]"
  by (simp add: click_trace_is polls_of_def)

lemma demo_grounds: "grounded_action click_at click_at" "grounded_action click_at click_read"
  by code_simp+

lemma demo_active: "active_actions [click_at] = [(0, click_at)]" "action_is click_at ''type_text'' = False"
  "exact_field_replacement [click_at] = False" "needs_local_navigation_surface_grounding [click_at] = False"
  by code_simp+

lemma demo_no_draft: "surface_of g False = bare_surface" if "\<not> gr_editor g"
  using that by (simp add: surface_of_def bare_surface_def)

text \<open>The screen stays as it is: the world version is 1 from the first capture on.\<close>

definition demo_frames :: "nat \<Rightarrow> frame_store" where
  "demo_frames n = ((\<lambda>fs. fst (fs_capture_full fp_meaningful [9, 9] (Kb_us, None) True fs)) ^^ n) fs_init"

lemma same_screen: "fp_meaningful_change (Some [9, 9]) (Some [9, 9]) fp_meaningful fp_cell_delta fp_cell_meaningful_fraction = False"
  by (simp add: fp_meaningful_change_def fp_meaningful_def fp_cell_delta_def fp_cell_meaningful_fraction_def cell_diffs_def Let_def)

lemma demo_frames_step:
  "fs_capture_full fp_meaningful [9, 9] (Kb_us, None) True (demo_frames n) = (demo_frames (Suc n), (int n + 1, 1))"
proof -
  have inv: "fs_seq (demo_frames n) = int n \<and> fs_world (demo_frames n) = 1
      \<and> fs_last_fp (demo_frames n) \<in> {None, Some [9, 9]} \<and> fs_last_keyboard (demo_frames n) \<in> {None, Some (Kb_us, None)}"
    by (induction n) (auto simp: demo_frames_def fs_init_def fs_capture_full_def same_screen Let_def)
  then have "snd (fs_capture_full fp_meaningful [9, 9] (Kb_us, None) True (demo_frames n)) = (int n + 1, 1)"
    by (auto simp: fs_capture_full_def same_screen Let_def)
  moreover have "fst (fs_capture_full fp_meaningful [9, 9] (Kb_us, None) True (demo_frames n)) = demo_frames (Suc n)"
    by (simp add: demo_frames_def)
  ultimately show ?thesis by (metis prod.collapse)
qed

definition demo_view :: "nat \<Rightarrow> frame_view" where
  "demo_view n = \<lparr>fv_id = int n, fv_world = 1, fv_width = 640, fv_height = 480, fv_image_sha256 = [],
     fv_screen_hash = screen_hash [9, 9]\<rparr>"

lemma demo_take:
  "bs_frames se = demo_frames n \<Longrightarrow> take_frame demo_cfg demo_capture se
     = (se\<lparr>bs_frames := demo_frames (Suc n), bs_latest := Some (demo_view (Suc n))\<rparr>, demo_view (Suc n))"
  by (simp add: take_frame_def demo_cfg_def demo_capture_def demo_frames_step demo_view_def Let_def add.commute)

lemma demo_init_frames: "bs_frames session_init = demo_frames 0"
  by (simp add: session_init_def demo_frames_def)

lemma demo_view_sel: "fv_world (demo_view n) = 1"
  by (simp add: demo_view_def)

lemma demo_cfg_sel: "rc_digest demo_cfg = demo_digest" "rc_policy demo_cfg = default_policy_config"
  "rc_limits demo_cfg = default_limits" "rc_local_freshness demo_cfg = False" "rc_fake demo_cfg = False"
  by (simp_all add: demo_cfg_def)

lemmas demo_facts = demo_strip demo_valid demo_allowed demo_held demo_settles demo_run demo_polls demo_grounds demo_active demo_no_draft
  demo_take demo_view_sel demo_cfg_sel

lemma finish_claim_own:
  "cl_keys (bs_claims se ! i) = [k] \<Longrightarrow> finish_claim k d i r retain se =
     se\<lparr>bs_idem := (bs_idem se)(k \<mapsto> \<lparr>ie_digest = d, ie_status = Ie_completed, ie_reply = base_reply r\<rparr>),
        bs_inflight := (if bs_inflight se k = Some i then (bs_inflight se)(k := None) else bs_inflight se),
        bs_semantic := (if bs_semantic se d = Some i then (bs_semantic se)(d := None) else bs_semantic se),
        bs_unsafe := (if retain then (bs_unsafe se)(d \<mapsto> base_reply r) else bs_unsafe se)\<rparr>"
  by (simp add: finish_claim_def claimed_keys_def Let_def) (auto simp: fun_eq_iff)

lemmas demo_pieces = enter_burst_def after_capture_def after_local_def check_control_def after_clicks_def after_ground_def after_ask_def after_asked_def claim_burst_def
  after_task_def after_settle_def after_close_def finish_claim_own base_reply_def replay_prior_def
  replay_unsafe_def join_semantic_def start_claim_def mark_running_def burst_gate_def revoke_control_def set_claim_def
  panic_session_def observe_session_def resolve_approval_def reject_burst_def request_of_def approved_call_def
  poll_answer_def has_matching_draft_def plain_reply_def approval_result_def update_draft_def

lemmas demo_defs = demo_call_def demo_outside_def four_pieces_def to_reply_def run_task_def world_init_def grounds_def Let_def

text \<open>The session after one look at the screen, and the first call on it up to its claim.\<close>

definition looked :: burst_session where
  "looked = session_init\<lparr>bs_frames := demo_frames 1, bs_latest := Some (demo_view 1)\<rparr>"

lemma drive_append: "drive cfg (xs @ ys) w = (case drive cfg xs w of None \<Rightarrow> None | Some w' \<Rightarrow> drive cfg ys w')"
  by (induction cfg xs w rule: drive.induct) (auto split: option.splits)

lemma drive_look: "drive demo_cfg [Mv_observe demo_capture] world_init = Some \<lparr>bw_session = looked, bw_calls = []\<rparr>"
  using demo_take [OF demo_init_frames] by (simp add: world_init_def observe_session_def looked_def Let_def) (simp add: session_init_def)

lemmas demo_drive = demo_defs demo_facts demo_pieces looked_def session_init_def

subsection \<open>Runs that show the properties at work\<close>

text \<open>
  The call of every run below: a click, read from the screen by OCR, up to its claim. In the first run
  another client shows up while the burst runs, and leaves again.
\<close>

definition first_call :: "burst_move list" where
  "first_call = Mv_observe demo_capture # Mv_call (demo_call demo_key [click_at]) # four_pieces 0 (demo_outside [click_read])"

lemma drive_first:
  "drive demo_cfg (first_call @ ms) world_init
     = drive demo_cfg (Mv_call (demo_call demo_key [click_at]) # four_pieces 0 (demo_outside [click_read]) @ ms)
         \<lparr>bw_session = looked, bw_calls = []\<rparr>"
  using drive_look by (simp add: first_call_def)

definition guest_moves :: "burst_move list" where
  "guest_moves = first_call @ [Mv_poll 0 1 False, Mv_poll 0 0 False]"

lemma guest_run:
  "\<exists>w c. drive demo_cfg guest_moves world_init = Some w \<and> bs_claims (bw_session w) = [c]
     \<and> cl_polls c = [Some Control_changed, Some Control_changed]"
  unfolding guest_moves_def drive_first by (simp add: demo_drive)

lemma gate_refusal_is_final_witness:
  "\<exists>w c. drive demo_cfg guest_moves world_init = Some w \<and> c \<in> set (bs_claims (bw_session w))
     \<and> cl_polls c ! 0 = Some Control_changed \<and> cl_polls c ! 1 = Some Control_changed"
proof -
  obtain w c where w: "drive demo_cfg guest_moves world_init = Some w" "bs_claims (bw_session w) = [c]"
    and c: "cl_polls c = [Some Control_changed, Some Control_changed]"
    using guest_run by blast
  from gate_refusal_is_final [OF drive_reach [OF w(1)], of c 0 1] w(2) c
  have "cl_polls c ! 1 = Some Control_changed" by simp
  with w c show ?thesis by (intro exI [of _ w] exI [of _ c]) simp
qed

text \<open>A panic stop while the burst runs, and the end of its task.\<close>

definition stopped_env :: burst_env where
  "stopped_env = quiet_env\<lparr>bv_stop := (\<lambda>_. Some Control_changed)\<rparr>"

definition stopped_trace :: burst_trace where
  "stopped_trace = snd (run_burst stopped_env default_limits [click_at])"

definition stopped_result :: "(burst_exn, burst_outcome) result" where
  "stopped_result = fst (run_burst stopped_env default_limits [click_at])"

lemma stopped_run: "run_burst stopped_env default_limits [click_at] = (stopped_result, stopped_trace)"
  by (simp add: stopped_result_def stopped_trace_def)

lemma stopped_polls: "polls_of stopped_trace = [Some Control_changed]"
  by code_simp

lemma stopped_scene:
  "\<exists>w w' c c'. drive demo_cfg (first_call @ [Mv_panic]) world_init = Some w \<and> bs_claims (bw_session w) = [c]
     \<and> cl_polls c = [] \<and> bs_stopped (bw_session w)
     \<and> drive demo_cfg [Mv_poll 0 0 False, Mv_done 0 stopped_env] w = Some w'
     \<and> bs_claims (bw_session w') = [c'] \<and> cl_result c' \<noteq> None \<and> cl_trace c' = stopped_trace"
  unfolding drive_first by (simp add: demo_drive stopped_run stopped_polls)

theorem stop_ends_running_burst_witness:
  "\<exists>w w' c'. drive demo_cfg (first_call @ [Mv_panic]) world_init = Some w
     \<and> drive demo_cfg [Mv_poll 0 0 False, Mv_done 0 stopped_env] w = Some w'
     \<and> bs_claims (bw_session w') ! 0 = c' \<and> cl_trace c' = stopped_trace
     \<and> (\<exists>pre post. cl_trace c' = pre @ post \<and> length (polls_of pre) \<le> 1
          \<and> (\<forall>e \<in> set post. case e of Ev_poll _ \<Rightarrow> True | Ev_typed _ _ \<Rightarrow> False | Ev_call k \<Rightarrow> quiet_call k))"
proof -
  obtain w w' c c' where w: "drive demo_cfg (first_call @ [Mv_panic]) world_init = Some w"
      "bs_claims (bw_session w) = [c]" "cl_polls c = []" "bs_stopped (bw_session w)"
    and w': "drive demo_cfg [Mv_poll 0 0 False, Mv_done 0 stopped_env] w = Some w'"
      "bs_claims (bw_session w') = [c']" "cl_result c' \<noteq> None" "cl_trace c' = stopped_trace"
    using stopped_scene by blast
  have "bs_claims (bw_session w') ! 0 = c'" using w'(2) by simp
  moreover have "\<exists>pre post. cl_trace c' = pre @ post \<and> length (polls_of pre) \<le> Suc (length (cl_polls c))
      \<and> (\<forall>e \<in> set post. case e of Ev_poll _ \<Rightarrow> True | Ev_typed _ _ \<Rightarrow> False | Ev_call k \<Rightarrow> quiet_call k)"
    by (rule stop_ends_running_burst [OF drive_reach [OF w(1)], of 0 c w' c'])
      (use w(2, 4) w'(2, 3) drive_steps [OF w'(1)] in simp_all)
  ultimately show ?thesis using w(1) w(3) w'(1, 4) by (intro exI [of _ w] exI [of _ w'] exI [of _ c']) simp
qed

text \<open>The fourth piece of the call, as one step, is a start of the ledger.\<close>

lemma start_scene:
  "\<exists>w w'. drive demo_cfg (Mv_call (demo_call demo_key [click_at]) # take 3 (four_pieces 0 (demo_outside [click_read])))
       \<lparr>bw_session = looked, bw_calls = []\<rparr> = Some w
     \<and> drive_move demo_cfg (Mv_piece 0 (demo_outside [click_read])) w = Some w'
     \<and> claim_tags (bw_session w) = [] \<and> claim_tags (bw_session w') = [(demo_key, demo_digest [click_at] 5000 True, False)]"
  by (simp add: demo_drive claim_tags_def)

theorem burst_session_refines_ledger_witness:
  "\<exists>w w'. burst_step demo_cfg w w'
     \<and> ledger_start demo_key (demo_digest [click_at] 5000 True) False (ledger_of (bw_session w)) (ledger_of (bw_session w'))"
proof -
  obtain w w' where st: "burst_step demo_cfg w w'" and tags: "claim_tags (bw_session w) = []"
      "claim_tags (bw_session w') = [(demo_key, demo_digest [click_at] 5000 True, False)]"
    using start_scene drive_move_step by blast
  from burst_session_refines_ledger [OF st] tags
  obtain ap where "\<not> ap"
    "ledger_start demo_key (demo_digest [click_at] 5000 True) ap (ledger_of (bw_session w)) (ledger_of (bw_session w'))"
    by auto
  then have "ledger_start demo_key (demo_digest [click_at] 5000 True) False (ledger_of (bw_session w)) (ledger_of (bw_session w'))"
    by (cases ap) simp_all
  with st show ?thesis by blast
qed

lemma check_scene:
  "\<exists>se1 cx se2 fv se3 p. enter_burst demo_cfg (demo_call demo_key [click_at]) looked = (se1, Cp_capture cx)
     \<and> after_capture demo_cfg cx demo_capture 0 se1 = (se2, Cp_clicks cx fv (False, None))
     \<and> after_ground demo_cfg cx fv (False, None) [click_read] False (os_grounding (demo_outside [])) se2 = (se3, p)
     \<and> length (bs_claims se3) \<noteq> length (bs_claims se2)"
  by (simp add: demo_drive)


subsection \<open>Orders of events that break a promise\<close>

text \<open>The moves of two calls with one key, of which the second is held for an approval.\<close>

definition race_moves :: "burst_move list" where
  "race_moves =
     [Mv_call (demo_call demo_key [click_at]), Mv_call (demo_call demo_key [click_at])]
     @ [Mv_piece 1 (demo_outside [click_at]), Mv_piece 1 (demo_outside [click_at])] @ four_pieces 0 (demo_outside [click_read])
     @ [Mv_piece 1 (demo_outside [click_at]), Mv_piece 1 (demo_outside [click_at])] @ run_task 0 quiet_env @ to_reply 0 (demo_outside [click_read])
     @ [Mv_piece 1 (demo_outside [click_at]), Mv_piece 1 (demo_outside [click_at]), Mv_approve 0]
     @ four_pieces 2 (demo_outside [click_at]) @ run_task 1 quiet_env"

lemma race_scene:
  "\<exists>w c c'. drive demo_cfg race_moves \<lparr>bw_session = looked, bw_calls = []\<rparr> = Some w \<and> bs_claims (bw_session w) = [c, c']
     \<and> cl_owner c = demo_key \<and> cl_owner c' = demo_key \<and> cl_digest c = cl_digest c'
     \<and> cl_trace c = click_trace \<and> cl_trace c' = click_trace \<and> \<not> cl_approved c \<and> cl_approved c'"
  by (simp add: race_moves_def demo_drive)

lemma look_first:
  "drive demo_cfg (Mv_observe demo_capture # ms) world_init = drive demo_cfg ms \<lparr>bw_session = looked, bw_calls = []\<rparr>"
  using drive_look by simp


theorem bursts_run_at_most_once_witness:
  "\<exists>w. burst_reach demo_cfg w \<and> length (bs_claims (bw_session w)) = 2
     \<and> distinct (map cl_owner (filter (\<lambda>c. \<not> cl_approved c) (bs_claims (bw_session w))))"
proof -
  obtain w c c' where w: "drive demo_cfg race_moves \<lparr>bw_session = looked, bw_calls = []\<rparr> = Some w"
    and "bs_claims (bw_session w) = [c, c']"
    using race_scene by blast
  moreover have "burst_reach demo_cfg w" using drive_reach [of demo_cfg "Mv_observe demo_capture # race_moves" w] w
    unfolding look_first by simp
  ultimately show ?thesis using bursts_run_at_most_once [of demo_cfg w] by (intro exI [of _ w]) simp
qed

text \<open>
  A stop while a request is held: the human's rejection puts the stopped session back to paused, live and in
  the store.
\<close>

definition reject_moves :: "burst_move list" where
  "reject_moves = Mv_call (demo_call demo_key [click_at])
     # four_pieces 0 (demo_outside [click_at]) @ [Mv_piece 0 (demo_outside []), Mv_piece 0 (demo_outside []), Mv_panic, Mv_reject 0 True []]"

theorem reject_lifts_failed_status:
  "\<exists>w. drive demo_cfg (Mv_observe demo_capture # reject_moves) world_init = Some w
     \<and> bs_stopped (bw_session w) \<and> bs_status (bw_session w) = Ls_paused \<and> bs_stored_status (bw_session w) = Ls_paused"
  unfolding look_first by (simp add: reject_moves_def demo_drive)

text \<open>
  Text that arrives wrong, as the first action of its burst: no action is completed, so the digest is not
  retained, and the same burst under another key types the text again.
\<close>

definition mistyped_env :: burst_env where
  "mistyped_env = quiet_env\<lparr>bv_typer := (\<lambda>_. Some (example_result\<lparr>wt_status := Failed_symbol_mismatch,
     wt_verdict := Vd_mismatch\<rparr>))\<rparr>"

definition hello :: pydict where
  "hello = text_action ''a'' @ [(u ''context'', PStr (u ''field''))]"

definition hello_trace :: burst_trace where
  "hello_trace = snd (run_burst mistyped_env default_limits [hello])"

definition hello_outcome :: burst_outcome where
  "hello_outcome = projr (fst (run_burst mistyped_env default_limits [hello]))"

lemma hello_shows: "run_shows mistyped_env [hello]
    (\<lambda>o1. bo_status o1 = Bs_failed \<and> bo_completed o1 = 0
        \<and> get_none (receipt_at 0 (bo_action_receipts o1)) (u ''status'') \<noteq> PStr (u ''verified_exact''))
    [Ev_poll None, Ev_typed (typer_args hello) False]"
  by code_simp

lemma hello_run: "run_burst mistyped_env default_limits [hello] = (Inr hello_outcome, hello_trace)"
  "bo_status hello_outcome = Bs_failed" "bo_completed hello_outcome = 0"
  using run_shows_run [OF hello_shows] unfolding hello_outcome_def hello_trace_def by (blast, simp_all)

lemma hello_trace_is: "hello_trace = [Ev_poll None, Ev_typed (typer_args hello) False]"
  using run_shows_run [OF hello_shows] by (simp add: hello_trace_def)

lemma hello_polls: "polls_of hello_trace = [None]"
  by (simp add: hello_trace_is polls_of_def)

lemma hello_no_draft: "exact_draft_receipt hello (receipt_at 0 (bo_action_receipts hello_outcome)) final = False"
  using run_shows_run [OF hello_shows] unfolding hello_outcome_def exact_draft_receipt_def by blast

lemma hello_facts: "validate_actions default_limits [hello] = Inr ()"
  "classify_direct_burst [hello] default_policy_config [] bare_surface = DV_allowed None"
  "grounded_action hello hello" "needs_local_navigation_surface_grounding [hello] = False"
  "active_actions [hello] = [(0, hello)]" "action_is hello ''type_text'' = True"
  by code_simp+

definition hello_moves :: "burst_move list" where
  "hello_moves = Mv_call (demo_call demo_key [hello]) # four_pieces 0 (demo_outside [hello])
     @ run_task 0 mistyped_env @ to_reply 0 (demo_outside [hello])
     @ Mv_call (demo_call other_key [hello]) # four_pieces 1 (demo_outside [hello]) @ run_task 1 mistyped_env"

theorem first_action_not_braked:
  "\<exists>w c c'. drive demo_cfg (Mv_observe demo_capture # hello_moves) world_init = Some w \<and> bs_claims (bw_session w) = [c, c']
     \<and> cl_digest c = cl_digest c' \<and> \<not> cl_approved c'
     \<and> cl_trace c = [Ev_poll None, Ev_typed (typer_args hello) False] \<and> cl_trace c' = cl_trace c"
  unfolding look_first hello_trace_is [symmetric]
  by (simp add: hello_moves_def demo_drive hello_run hello_polls hello_facts hello_no_draft)

end
