(* ===== verification/ScreenWait.thy ===== *)
theory ScreenWait
  imports FrameStore
begin

text \<open>
  The two waits of a burst, \<open>wait_for_screen_change\<close> and \<open>wait_for_stable_screen\<close> in
  \<open>executor/burst.py\<close>. The loops have no counter: each stops on its gate, its condition or its deadline, and
  is a partial function of what it polls. That it returns rests on the clock, which moves on by at least the
  time slept.
\<close>

subsection \<open>What a wait polls\<close>

text \<open>
  For each round: the answer of the gate (true without one), the clock when the round starts, the fingerprint
  of the screenshot (\<open>None\<close> when the capture failed), and the clock when the round ends.
\<close>

record wait_env =
  we_go :: "nat \<Rightarrow> bool"
  we_now :: "nat \<Rightarrow> rat"
  we_grid :: "nat \<Rightarrow> fp option"
  we_end :: "nat \<Rightarrow> rat"

definition grid_delta :: "fp \<Rightarrow> fp \<Rightarrow> rat" where
  "grid_delta g b = of_int (sum_list (cell_diffs g b)) / of_nat (max 1 (length g)) / 255"

subsection \<open>Waiting for a change\<close>

partial_function (option) change_loop :: "wait_env \<Rightarrow> rat \<Rightarrow> nat \<Rightarrow> fp option \<Rightarrow> (bool \<times> nat) option" where
  "change_loop E deadline i base =
     (if \<not> we_go E i then Some (False, i)
      else case (we_grid E i, base) of
        (Some g, Some b) \<Rightarrow>
          if fp_meaningful < grid_delta g b then Some (True, i)
          else if deadline \<le> we_end E i then Some (False, i) else change_loop E deadline (Suc i) base
      | (Some g, None) \<Rightarrow>
          if deadline \<le> we_end E i then Some (False, i) else change_loop E deadline (Suc i) (Some g)
      | (None, _) \<Rightarrow>
          if deadline \<le> we_end E i then Some (False, i) else change_loop E deadline (Suc i) base)"

definition wait_for_screen_change :: "wait_env \<Rightarrow> rat \<Rightarrow> int \<Rightarrow> fp option \<Rightarrow> (bool \<times> nat) option" where
  "wait_for_screen_change E start timeout_ms base_grid =
     change_loop E (start + of_int (max 0 timeout_ms)) 0 base_grid"

subsection \<open>Waiting for a stable screen\<close>

definition stable_next :: "fp option \<Rightarrow> fp option \<Rightarrow> rat \<Rightarrow> rat option \<Rightarrow> rat option" where
  "stable_next g prev now since = (case (g, prev) of
       (Some a, Some b) \<Rightarrow>
         if grid_delta a b \<le> fp_meaningful then (case since of None \<Rightarrow> Some now | Some t \<Rightarrow> Some t) else None
     | _ \<Rightarrow> since)"

definition stable_done :: "fp option \<Rightarrow> fp option \<Rightarrow> rat \<Rightarrow> rat option \<Rightarrow> int \<Rightarrow> bool" where
  "stable_done g prev now since stable_ms = (case (g, prev, since) of
       (Some a, Some b, Some t) \<Rightarrow> grid_delta a b \<le> fp_meaningful \<and> of_int stable_ms \<le> now - t
     | _ \<Rightarrow> False)"

partial_function (option) stable_loop ::
  "wait_env \<Rightarrow> rat \<Rightarrow> int \<Rightarrow> nat \<Rightarrow> fp option \<Rightarrow> rat option \<Rightarrow> (bool \<times> nat) option" where
  "stable_loop E deadline stable_ms i prev since =
     (if \<not> we_go E i then Some (False, i)
      else if stable_done (we_grid E i) prev (we_now E i) since stable_ms then Some (True, i)
      else if deadline \<le> we_now E i then Some (False, i)
      else stable_loop E deadline stable_ms (Suc i)
             (if we_grid E i \<noteq> None then we_grid E i else prev)
             (stable_next (we_grid E i) prev (we_now E i) since))"

definition wait_for_stable_screen :: "wait_env \<Rightarrow> rat \<Rightarrow> int \<Rightarrow> int \<Rightarrow> (bool \<times> nat) option" where
  "wait_for_stable_screen E start stable_ms timeout_ms =
     stable_loop E (start + of_int (max 0 timeout_ms)) stable_ms 0 None None"

subsection \<open>Both waits return\<close>

lemma change_loop_ends:
  "deadline \<le> we_end E n \<Longrightarrow> i \<le> n \<Longrightarrow> \<exists>b k. change_loop E deadline i base = Some (b, k) \<and> i \<le> k \<and> k \<le> n"
proof (induction "n - i" arbitrary: i base)
  case 0
  then have "i = n" by simp
  with 0 show ?case by (subst change_loop.simps) (auto split: option.splits)
next
  case (Suc m)
  then have i: "m = n - Suc i" "Suc i \<le> n" by simp_all
  have next_round: "\<exists>b k. change_loop E deadline (Suc i) base' = Some (b, k) \<and> i \<le> k \<and> k \<le> n" for base'
    using Suc.hyps(1) [OF i(1) Suc.prems(1) i(2), of base'] Suc_leD by blast
  show ?case
    using next_round Suc.prems(2) by (subst change_loop.simps) (auto split: option.splits)
qed

lemma stable_loop_ends:
  "deadline \<le> we_now E n \<Longrightarrow> i \<le> n \<Longrightarrow>
   \<exists>b k. stable_loop E deadline stable_ms i prev since = Some (b, k) \<and> i \<le> k \<and> k \<le> n"
proof (induction "n - i" arbitrary: i prev since)
  case 0
  then have "i = n" by simp
  with 0 show ?case by (subst stable_loop.simps) auto
next
  case (Suc m)
  then have i: "m = n - Suc i" "Suc i \<le> n" by simp_all
  have next_round: "\<exists>b k. stable_loop E deadline stable_ms (Suc i) l s = Some (b, k) \<and> i \<le> k \<and> k \<le> n" for l s
    using Suc.hyps(1) [OF i(1) Suc.prems(1) i(2), of l s] Suc_leD by blast
  show ?case using next_round Suc.prems(2) by (subst stable_loop.simps) auto
qed

lemma clock_moves:
  fixes f :: "nat \<Rightarrow> rat"
  assumes "\<And>i. f i + poll \<le> f (Suc i)"
  shows "f 0 + of_nat n * poll \<le> f n"
proof (induction n)
  case (Suc n)
  with assms [of n] show ?case by (simp add: algebra_simps)
qed simp

lemma rounds_suffice:
  assumes "\<And>i. f i + poll \<le> f (Suc i)" "start \<le> f 0" "0 < (poll :: rat)"
  shows "start + of_int (max 0 t) \<le> f (nat \<lceil>of_int (max 0 t) / poll\<rceil>)"
proof -
  let ?n = "nat \<lceil>of_int (max 0 t) / poll\<rceil>"
  have "of_int (max 0 t) / poll \<le> of_nat ?n" by (simp add: of_nat_ceiling)
  then have "of_int (max 0 t) \<le> of_nat ?n * poll" using pos_divide_le_eq [OF assms(3)] by blast
  with clock_moves [of f poll ?n, OF assms(1)] assms(2) show ?thesis by linarith
qed

text \<open>
  C35. Both waits return, whatever the screen and the captures do, as long as the clock moves on by the time
  slept between two rounds: they take at most one screenshot per poll interval of their time budget, and one
  more.
\<close>

theorem screen_waits_end:
  assumes "0 < poll" "start \<le> we_end E 0" "\<And>i. we_end E i + poll \<le> we_end E (Suc i)"
    and "0 < poll'" "start' \<le> we_now E 0" "\<And>i. we_now E i + poll' \<le> we_now E (Suc i)"
  shows "(\<exists>b k. wait_for_screen_change E start timeout_ms base = Some (b, k)
      \<and> k \<le> nat \<lceil>of_int (max 0 timeout_ms) / poll\<rceil>)
    \<and> (\<exists>b k. wait_for_stable_screen E start' stable_ms timeout_ms = Some (b, k)
      \<and> k \<le> nat \<lceil>of_int (max 0 timeout_ms) / poll'\<rceil>)"
proof (rule conjI)
  from change_loop_ends [OF rounds_suffice [of "we_end E" poll start timeout_ms, OF assms(3, 2, 1)], of 0 base]
  show "\<exists>b k. wait_for_screen_change E start timeout_ms base = Some (b, k)
      \<and> k \<le> nat \<lceil>of_int (max 0 timeout_ms) / poll\<rceil>"
    unfolding wait_for_screen_change_def by blast
  from stable_loop_ends [OF rounds_suffice [of "we_now E" poll' start' timeout_ms, OF assms(6, 5, 4)], of 0 stable_ms None None]
  show "\<exists>b k. wait_for_stable_screen E start' stable_ms timeout_ms = Some (b, k)
      \<and> k \<le> nat \<lceil>of_int (max 0 timeout_ms) / poll'\<rceil>"
    unfolding wait_for_stable_screen_def by blast
qed

subsection \<open>What an answer says\<close>

text \<open>The last good capture before the round \<open>i\<close>.\<close>

fun prev_grid :: "wait_env \<Rightarrow> nat \<Rightarrow> fp option" where
  "prev_grid E 0 = None"
| "prev_grid E (Suc i) = (if we_grid E i \<noteq> None then we_grid E i else prev_grid E i)"

definition still :: "wait_env \<Rightarrow> nat \<Rightarrow> bool" where
  "still E i = (case (we_grid E i, prev_grid E i) of
     (Some g, Some b) \<Rightarrow> grid_delta g b \<le> fp_meaningful | _ \<Rightarrow> True)"

definition quiet_since :: "wait_env \<Rightarrow> nat \<Rightarrow> rat option \<Rightarrow> bool" where
  "quiet_since E i since = (case since of None \<Rightarrow> True
     | Some t \<Rightarrow> \<exists>j < i. t = we_now E j \<and> (\<forall>m. j \<le> m \<and> m < i \<longrightarrow> still E m))"

lemma quiet_since_next:
  assumes "quiet_since E i since"
  shows "quiet_since E (Suc i) (stable_next (we_grid E i) (prev_grid E i) (we_now E i) since)"
proof (cases "we_grid E i")
  case None
  with assms show ?thesis
    by (auto simp: quiet_since_def stable_next_def still_def less_Suc_eq split: option.splits)
next
  case (Some g)
  show ?thesis
  proof (cases "prev_grid E i")
    case None
    with Some assms show ?thesis
      by (auto simp: quiet_since_def stable_next_def still_def less_Suc_eq split: option.splits)
  next
    case b: (Some b)
    then have "still E i \<longleftrightarrow> grid_delta g b \<le> fp_meaningful" using Some by (simp add: still_def)
    with Some b assms show ?thesis
      by (auto simp: quiet_since_def stable_next_def less_Suc_eq split: option.splits intro: exI [of _ i])
  qed
qed

lemma stable_loop_answer:
  assumes "stable_loop E deadline stable_ms i p since = Some r"
  shows "p = prev_grid E i \<longrightarrow> quiet_since E i since \<longrightarrow> fst r \<longrightarrow>
    (\<exists>j < snd r. of_int stable_ms \<le> we_now E (snd r) - we_now E j \<and> (\<forall>m. j \<le> m \<and> m \<le> snd r \<longrightarrow> still E m))
    \<and> we_go E (snd r)"
proof (rule stable_loop.raw_induct [where P = "\<lambda>E deadline stable_ms i p since r. p = prev_grid E i \<longrightarrow> quiet_since E i since \<longrightarrow> fst r \<longrightarrow>
    (\<exists>j < snd r. of_int stable_ms \<le> we_now E (snd r) - we_now E j \<and> (\<forall>m. j \<le> m \<and> m \<le> snd r \<longrightarrow> still E m))
    \<and> we_go E (snd r)", OF _ assms])
  fix f E deadline stable_ms i p since and r :: "bool \<times> nat"
  assume ih: "\<And>E deadline stable_ms i p since r. f E deadline stable_ms i p since = Some r \<Longrightarrow>
      p = prev_grid E i \<longrightarrow> quiet_since E i since \<longrightarrow> fst r \<longrightarrow>
      (\<exists>j < snd r. of_int stable_ms \<le> we_now E (snd r) - we_now E j \<and> (\<forall>m. j \<le> m \<and> m \<le> snd r \<longrightarrow> still E m))
      \<and> we_go E (snd r)"
    and r: "(if \<not> we_go E i then Some (False, i)
      else if stable_done (we_grid E i) p (we_now E i) since stable_ms then Some (True, i)
      else if deadline \<le> we_now E i then Some (False, i)
      else f E deadline stable_ms (Suc i) (if we_grid E i \<noteq> None then we_grid E i else p)
             (stable_next (we_grid E i) p (we_now E i) since)) = Some r"
  show "p = prev_grid E i \<longrightarrow> quiet_since E i since \<longrightarrow> fst r \<longrightarrow>
      (\<exists>j < snd r. of_int stable_ms \<le> we_now E (snd r) - we_now E j \<and> (\<forall>m. j \<le> m \<and> m \<le> snd r \<longrightarrow> still E m))
      \<and> we_go E (snd r)"
  proof (intro impI)
    assume p: "p = prev_grid E i" and q: "quiet_since E i since" and f: "fst r"
    consider (now) "we_go E i" "stable_done (we_grid E i) p (we_now E i) since stable_ms" "r = (True, i)"
      | (later) "f E deadline stable_ms (Suc i) (prev_grid E (Suc i)) (stable_next (we_grid E i) p (we_now E i) since) = Some r"
    proof (cases "stable_done (we_grid E i) p (we_now E i) since stable_ms")
      case True
      from r f have go: "we_go E i" by (cases "we_go E i") auto
      with r True have "r = (True, i)" by simp
      with go True now show thesis by blast
    next
      case False
      from r f have go: "we_go E i" by (cases "we_go E i") auto
      with r f False have "\<not> deadline \<le> we_now E i" by (cases "deadline \<le> we_now E i") auto
      with r go False have "f E deadline stable_ms (Suc i) (prev_grid E (Suc i)) (stable_next (we_grid E i) p (we_now E i) since) = Some r"
        unfolding p by (simp only: if_False if_True not_True_eq_False prev_grid.simps(2))
      with later show thesis by blast
    qed
    then show "(\<exists>j < snd r. of_int stable_ms \<le> we_now E (snd r) - we_now E j \<and> (\<forall>m. j \<le> m \<and> m \<le> snd r \<longrightarrow> still E m))
        \<and> we_go E (snd r)"
    proof cases
      case now
      then obtain g b t where g: "we_grid E i = Some g" "prev_grid E i = Some b" "since = Some t"
        "grid_delta g b \<le> fp_meaningful" "of_int stable_ms \<le> we_now E i - t"
        using p by (auto simp: stable_done_def split: option.splits)
      then obtain j where j: "j < i" "t = we_now E j" "\<forall>m. j \<le> m \<and> m < i \<longrightarrow> still E m"
        using q by (auto simp: quiet_since_def)
      have "still E i" using g by (simp add: still_def)
      with j have "\<forall>m. j \<le> m \<and> m \<le> i \<longrightarrow> still E m" using le_neq_implies_less by blast
      with j g now show ?thesis by auto
    next
      case later
      from ih [OF later] quiet_since_next [OF q] f p show ?thesis by blast
    qed
  qed
qed

lemma change_loop_answer:
  assumes "change_loop E deadline i base = Some r"
  shows "fst r \<longrightarrow> (\<exists>g b. we_grid E (snd r) = Some g \<and> fp_meaningful < grid_delta g b \<and> i \<le> snd r \<and> we_go E (snd r)
    \<and> (base = Some b \<or> base = None \<and> (\<exists>j. i \<le> j \<and> j < snd r \<and> we_grid E j = Some b \<and> (\<forall>m. i \<le> m \<and> m < j \<longrightarrow> we_grid E m = None))))"
proof (rule change_loop.raw_induct [where P = "\<lambda>E deadline i base r. fst r \<longrightarrow> (\<exists>g b. we_grid E (snd r) = Some g
    \<and> fp_meaningful < grid_delta g b \<and> i \<le> snd r \<and> we_go E (snd r)
    \<and> (base = Some b \<or> base = None \<and> (\<exists>j. i \<le> j \<and> j < snd r \<and> we_grid E j = Some b \<and> (\<forall>m. i \<le> m \<and> m < j \<longrightarrow> we_grid E m = None))))", OF _ assms])
  fix f E deadline i base and r :: "bool \<times> nat"
  let ?Q = "\<lambda>E i base r. \<exists>g b. we_grid E (snd r) = Some g \<and> fp_meaningful < grid_delta g b \<and> i \<le> snd r \<and> we_go E (snd r)
    \<and> (base = Some b \<or> base = None \<and> (\<exists>j. i \<le> j \<and> j < snd r \<and> we_grid E j = Some b \<and> (\<forall>m. i \<le> m \<and> m < j \<longrightarrow> we_grid E m = None)))"
  assume ih: "\<And>E deadline i base r. f E deadline i base = Some r \<Longrightarrow> fst r \<longrightarrow> ?Q E i base r"
    and r: "(if \<not> we_go E i then Some (False, i)
      else case (we_grid E i, base) of
        (Some g, Some b) \<Rightarrow> if fp_meaningful < grid_delta g b then Some (True, i)
          else if deadline \<le> we_end E i then Some (False, i) else f E deadline (Suc i) base
      | (Some g, None) \<Rightarrow> if deadline \<le> we_end E i then Some (False, i) else f E deadline (Suc i) (Some g)
      | (None, _) \<Rightarrow> if deadline \<le> we_end E i then Some (False, i) else f E deadline (Suc i) base) = Some r"
  show "fst r \<longrightarrow> ?Q E i base r"
  proof
    assume t: "fst r"
    consider (now) g b where "we_grid E i = Some g" "base = Some b" "fp_meaningful < grid_delta g b" "r = (True, i)" "we_go E i"
      | (same) "f E deadline (Suc i) base = Some r" "base \<noteq> None \<or> we_grid E i = None"
      | (first) g where "we_grid E i = Some g" "base = None" "f E deadline (Suc i) (Some g) = Some r"
    proof (cases "we_grid E i")
      case None
      with r t have "f E deadline (Suc i) base = Some r"
        by (cases "we_go E i"; cases "deadline \<le> we_end E i") auto
      with None same show thesis by blast
    next
      case g: (Some g)
      from r t have go: "we_go E i" by (cases "we_go E i") auto
      show thesis
      proof (cases base)
        case None
        with r t g go have "f E deadline (Suc i) (Some g) = Some r" by (cases "deadline \<le> we_end E i") auto
        with g None first show thesis by blast
      next
        case (Some b)
        show thesis
        proof (cases "fp_meaningful < grid_delta g b")
          case True
          with r g go Some have "r = (True, i)" by simp
          with now g Some True go show thesis by blast
        next
          case False
          with r t g go Some have "f E deadline (Suc i) base = Some r" by (cases "deadline \<le> we_end E i") auto
          with Some same show thesis by blast
        qed
      qed
    qed
    then show "?Q E i base r"
    proof cases
      case now
      then show ?thesis by auto
    next
      case same
      from ih [OF same(1)] t obtain g b where
        g: "we_grid E (snd r) = Some g" "fp_meaningful < grid_delta g b" "Suc i \<le> snd r" "we_go E (snd r)"
        and b: "base = Some b \<or> base = None \<and> (\<exists>j. Suc i \<le> j \<and> j < snd r \<and> we_grid E j = Some b
            \<and> (\<forall>m. Suc i \<le> m \<and> m < j \<longrightarrow> we_grid E m = None))" by blast
      have "\<exists>j. i \<le> j \<and> j < snd r \<and> we_grid E j = Some b \<and> (\<forall>m. i \<le> m \<and> m < j \<longrightarrow> we_grid E m = None)"
        if n: "base = None"
      proof -
        from n b obtain j where j: "Suc i \<le> j" "j < snd r" "we_grid E j = Some b"
          "\<forall>m. Suc i \<le> m \<and> m < j \<longrightarrow> we_grid E m = None" by blast
        moreover have "we_grid E m = None" if "i \<le> m" "m < j" for m
          using same(2) n j(4) that by (cases "m = i") auto
        ultimately show ?thesis using Suc_leD by blast
      qed
      moreover have "base = Some b \<or> base = None" using b by blast
      ultimately show ?thesis using g(1, 2, 4) Suc_leD [OF g(3)] by (metis (no_types, lifting))
    next
      case first
      from ih [OF first(3)] t obtain g' where
        "we_grid E (snd r) = Some g'" "fp_meaningful < grid_delta g' g" "Suc i \<le> snd r" "we_go E (snd r)" by blast
      with first show ?thesis by (intro exI [of _ g'] exI [of _ g]) auto
    qed
  qed
qed

text \<open>
  What a wait reports is what it saw. A reported change is a capture that differs meaningfully from the
  baseline it was given, or from the first good capture; a reported calm is a stretch of at least the asked
  time in which no capture differed meaningfully from the one before it. Neither is reported while the gate
  says stop.
\<close>

theorem screen_wait_answers:
  "(wait_for_screen_change E start timeout_ms base = Some (True, k) \<longrightarrow>
      (\<exists>g b. we_grid E k = Some g \<and> fp_meaningful < grid_delta g b \<and> we_go E k
        \<and> (base = Some b \<or> base = None \<and> (\<exists>j < k. we_grid E j = Some b \<and> (\<forall>m < j. we_grid E m = None)))))
   \<and> (wait_for_stable_screen E start stable_ms timeout_ms = Some (True, k) \<longrightarrow>
      we_go E k \<and> (\<exists>j < k. of_int stable_ms \<le> we_now E k - we_now E j
        \<and> (\<forall>m. j \<le> m \<and> m \<le> k \<longrightarrow> (\<forall>g b. we_grid E m = Some g \<and> prev_grid E m = Some b \<longrightarrow> grid_delta g b \<le> fp_meaningful))))"
proof (intro conjI impI)
  assume "wait_for_screen_change E start timeout_ms base = Some (True, k)"
  from change_loop_answer [OF this [unfolded wait_for_screen_change_def]]
  show "\<exists>g b. we_grid E k = Some g \<and> fp_meaningful < grid_delta g b \<and> we_go E k
        \<and> (base = Some b \<or> base = None \<and> (\<exists>j < k. we_grid E j = Some b \<and> (\<forall>m < j. we_grid E m = None)))"
    by auto
next
  assume "wait_for_stable_screen E start stable_ms timeout_ms = Some (True, k)"
  from stable_loop_answer [OF this [unfolded wait_for_stable_screen_def]]
  have a: "(\<exists>j < k. of_int stable_ms \<le> we_now E k - we_now E j \<and> (\<forall>m. j \<le> m \<and> m \<le> k \<longrightarrow> still E m)) \<and> we_go E k"
    by (simp add: quiet_since_def)
  then show "we_go E k" by blast
  have "still E m \<Longrightarrow> we_grid E m = Some g \<Longrightarrow> prev_grid E m = Some b \<Longrightarrow> grid_delta g b \<le> fp_meaningful" for m g b
    by (simp add: still_def)
  with a show "\<exists>j < k. of_int stable_ms \<le> we_now E k - we_now E j
        \<and> (\<forall>m. j \<le> m \<and> m \<le> k \<longrightarrow> (\<forall>g b. we_grid E m = Some g \<and> prev_grid E m = Some b \<longrightarrow> grid_delta g b \<le> fp_meaningful))"
    by blast
qed

text \<open>A screen that changes in the third round, and one that is calm from the start; 100 ms per round.\<close>

definition flip_env :: wait_env where
  "flip_env = \<lparr>we_go = (\<lambda>_. True), we_now = (\<lambda>i. 100 * of_nat i),
     we_grid = (\<lambda>i. Some (if i < 2 then [0, 0] else [90, 0])), we_end = (\<lambda>i. 100 * of_nat i + 10)\<rparr>"

definition calm_env :: wait_env where
  "calm_env = flip_env\<lparr>we_grid := (\<lambda>i. if i = 1 then None else Some [7, 7])\<rparr>"

lemma flip_sees: "wait_for_screen_change flip_env 0 1000 None = Some (True, 2)"
  by (simp add: wait_for_screen_change_def change_loop.simps flip_env_def grid_delta_def cell_diffs_def fp_meaningful_def numeral_2_eq_2)

lemma calm_sees: "wait_for_stable_screen calm_env 0 200 1000 = Some (True, 4)"
  by (simp add: wait_for_stable_screen_def stable_loop.simps calm_env_def flip_env_def grid_delta_def cell_diffs_def
      fp_meaningful_def stable_done_def stable_next_def eval_nat_numeral)

theorem screen_wait_answers_witness:
  "(\<exists>g b. we_grid flip_env 2 = Some g \<and> fp_meaningful < grid_delta g b)
   \<and> (\<exists>j < 4. 200 \<le> we_now calm_env 4 - we_now calm_env j)"
  using screen_wait_answers [of flip_env 0 1000 None 2 0] flip_sees
    screen_wait_answers [of calm_env 0 1000 None 4 200] calm_sees by auto

theorem screen_waits_end_witness:
  "\<exists>b k. wait_for_screen_change flip_env 0 1000 None = Some (b, k) \<and> k \<le> 10"
proof -
  have "(\<exists>b k. wait_for_screen_change flip_env 0 1000 None = Some (b, k) \<and> k \<le> nat \<lceil>of_int (max 0 1000) / (100 :: rat)\<rceil>)
    \<and> (\<exists>b k. wait_for_stable_screen flip_env 0 200 1000 = Some (b, k) \<and> k \<le> nat \<lceil>of_int (max 0 1000) / (100 :: rat)\<rceil>)"
    by (rule screen_waits_end) (simp_all add: flip_env_def)
  then show ?thesis by simp
qed

end
