(* ===== verification/HarnessRun.thy ===== *)
theory HarnessRun
  imports BurstShape
begin

text \<open>
  A run of the operator harness and its event rail, \<open>RunSnapshot\<close> in \<open>harness/agent_models.py\<close>. Times are
  numbers; of the fields of a run those are kept that the run store, the direct-call coordinator and the
  event rail read or write.
\<close>

subsection \<open>Statuses, events, observations\<close>

datatype run_status =
    Rs_planning | Rs_running | Rs_paused | Rs_needs_approval | Rs_completed
  | Rs_blocked | Rs_rejected | Rs_aborted | Rs_failed

definition terminal_run_statuses :: "run_status list" where
  "terminal_run_statuses = [Rs_completed, Rs_blocked, Rs_rejected, Rs_aborted, Rs_failed]"

record harness_event =
  he_seq :: int
  he_at :: int
  he_kind :: pystr
  he_data :: pydict

datatype activity_kind = Ak_model | Ak_tool

record current_activity =
  ac_kind :: activity_kind
  ac_started :: int
  ac_phase :: "string option"
  ac_role :: "pystr option"
  ac_provider :: "pystr option"
  ac_model :: "pystr option"
  ac_attempt :: "int option"
  ac_tool :: "pystr option"
  ac_call :: "pystr option"
  ac_arguments :: pydict

record observation =
  ob_session :: pystr
  ob_status :: pystr
  ob_machine :: pydict
  ob_frame :: pyval
  ob_world :: pyval
  ob_epoch :: pyval
  ob_image :: "pystr option"
  ob_error :: "pystr option"
  ob_raw :: pydict

datatype run_origin = Managed | Direct_mcp

record verification_image =
  vi_revision :: int
  vi_action :: int
  vi_frame :: pyval
  vi_path :: pystr

record run_snapshot =
  ru_id :: pystr
  ru_status :: run_status
  ru_origin :: run_origin
  ru_caller :: pydict
  ru_updated :: int
  ru_session :: "pystr option"
  ru_observation :: "observation option"
  ru_approval :: "pydict option"
  ru_image_path :: "pystr option"
  ru_image_revision :: int
  ru_images :: "verification_image list"
  ru_next_action :: int
  ru_error :: "pystr option"
  ru_activity :: "current_activity option"
  ru_cursor :: int
  ru_events :: "harness_event list"

subsection \<open>Recording an event\<close>

definition next_sequence :: "run_snapshot \<Rightarrow> int" where
  "next_sequence r = max (ru_cursor r) (if ru_events r = [] then 0 else he_seq (last (ru_events r))) + 1"

text \<open>\<open>str(data.get(k) or "") or None\<close>, and \<open>_optional_int\<close>.\<close>

definition opt_str :: "pyval \<Rightarrow> pystr option" where
  "opt_str v = (let s = str_or_empty v in if s = [] then None else Some s)"

fun optional_int_of :: "pyval \<Rightarrow> int option" where
  "optional_int_of PNone = None"
| "optional_int_of (PBool b) = None"
| "optional_int_of v = (case py_int_of v of Inl _ \<Rightarrow> None | Inr n \<Rightarrow> Some n)"

definition dict_or_empty :: "pyval \<Rightarrow> pydict" where
  "dict_or_empty v = (case v of PDict d \<Rightarrow> d | _ \<Rightarrow> [])"

definition phase_by_kind :: "(string \<times> string) list" where
  "phase_by_kind =
     [(''model.provider_request_sent'', ''request_sent''), (''model.provider_output_received'', ''output_received''),
      (''model.provider_validating'', ''validating''), (''model.provider_schema_repair'', ''schema_repair''),
      (''model.provider_failover'', ''failover'')]"

definition model_activity_closed :: "string list" where
  "model_activity_closed = [''model.provider_completed'', ''model.provider_failed'', ''model.provider_skipped'',
     ''model.provider_budget_blocked'', ''model.failed'']"

definition tool_activity_closed :: "string list" where
  "tool_activity_closed = [''action.completed'', ''action.failed'', ''action.refused_stale'',
     ''action.refused_by_operator'', ''action.stale_world_refreshed'', ''action.stale_world_retry_checkpointed'',
     ''action.transport_uncertain'', ''action.completed_unverified'', ''action.recoverable_failure'',
     ''approval.required'', ''target.identity_changed'', ''tool.completed'', ''tool.failed'', ''tool.refused'',
     ''tool.approval_required'']"

definition run_activity_closed :: "string list" where
  "run_activity_closed = [''run.process_interrupted'', ''run.paused'', ''run.steered'', ''run.autonomy_stopped'',
     ''run.completed'', ''run.blocked'', ''run.rejected'', ''run.aborted'', ''run.failed'']"

definition field_matches :: "pyval option \<Rightarrow> pyval \<Rightarrow> bool" where
  "field_matches expected observed = (expected = None \<or> observed = PNone \<or> expected = Some observed)"

definition activity_matches :: "current_activity \<Rightarrow> pydict \<Rightarrow> bool" where
  "activity_matches a d \<longleftrightarrow>
     field_matches (map_option PStr (ac_role a)) (get_none d (u ''role''))
     \<and> field_matches (map_option PStr (ac_provider a)) (get_none d (u ''provider''))
     \<and> field_matches (map_option PInt (ac_attempt a)) (get_none d (u ''attempt''))
     \<and> field_matches (map_option PStr (ac_call a)) (get_none d (u ''call_id''))"

definition empty_activity :: "activity_kind \<Rightarrow> int \<Rightarrow> current_activity" where
  "empty_activity k t = \<lparr>ac_kind = k, ac_started = t, ac_phase = None, ac_role = None, ac_provider = None,
     ac_model = None, ac_attempt = None, ac_tool = None, ac_call = None, ac_arguments = []\<rparr>"

text \<open>\<open>a or (b if cond else None)\<close> on optional strings.\<close>

definition str_else :: "pystr option \<Rightarrow> pystr option \<Rightarrow> pystr option" where
  "str_else a b = (case a of None \<Rightarrow> b | Some s \<Rightarrow> Some s)"

definition provider_phase :: "string \<Rightarrow> string \<Rightarrow> int \<Rightarrow> pydict \<Rightarrow> current_activity option \<Rightarrow> current_activity" where
  "provider_phase phase kind t d prior =
     (let old = (case prior of Some a \<Rightarrow> if ac_kind a = Ak_model then Some a else None | None \<Rightarrow> None)
      in (empty_activity Ak_model (case old of None \<Rightarrow> t | Some a \<Rightarrow> ac_started a))\<lparr>
           ac_phase := Some phase,
           ac_role := str_else (opt_str (get_none d (u ''role''))) (Option.bind old ac_role),
           ac_provider := str_else (opt_str (if py_truthy (get_none d (u ''provider'')) then get_none d (u ''provider'')
                                             else get_none d (u ''to_provider''))) (Option.bind old ac_provider),
           ac_model := str_else (opt_str (get_none d (u ''model'')))
                         (if kind = ''model.provider_failover'' then None else Option.bind old ac_model),
           ac_attempt := (case optional_int_of (get_none d (u ''attempt'')) of Some n \<Rightarrow> Some n | None \<Rightarrow> Option.bind old ac_attempt)\<rparr>)"

definition tool_activity :: "string \<Rightarrow> int \<Rightarrow> pydict \<Rightarrow> current_activity" where
  "tool_activity dflt t d = (empty_activity Ak_tool t)\<lparr>
     ac_tool := Some (case opt_str (get_none d (u ''tool'')) of None \<Rightarrow> u dflt | Some s \<Rightarrow> s),
     ac_call := opt_str (get_none d (u ''call_id'')),
     ac_arguments := dict_or_empty (get_none d (u ''arguments''))\<rparr>"

definition closes :: "activity_kind \<Rightarrow> pydict \<Rightarrow> current_activity option \<Rightarrow> current_activity option" where
  "closes k d act = (case act of None \<Rightarrow> None
     | Some a \<Rightarrow> if ac_kind a = k \<and> activity_matches a d then None else Some a)"

definition next_activity :: "string \<Rightarrow> int \<Rightarrow> pydict \<Rightarrow> current_activity option \<Rightarrow> current_activity option" where
  "next_activity kind t d act =
     (if kind = ''model.started''
      then Some ((empty_activity Ak_model t)\<lparr>ac_phase := Some ''queued'', ac_role := opt_str (get_none d (u ''role''))\<rparr>)
      else if kind = ''model.provider_started''
      then Some ((empty_activity Ak_model t)\<lparr>ac_phase := Some ''provider_selected'', ac_role := opt_str (get_none d (u ''role'')),
             ac_provider := opt_str (get_none d (u ''provider'')), ac_model := opt_str (get_none d (u ''model'')),
             ac_attempt := optional_int_of (get_none d (u ''attempt''))\<rparr>)
      else case map_of phase_by_kind kind of
        Some phase \<Rightarrow> Some (provider_phase phase kind t d act)
      | None \<Rightarrow>
          if kind = ''action.attempted''
          then Some ((tool_activity ''MCP tool'' t d)\<lparr>ac_attempt := optional_int_of (get_none d (u ''attempt''))\<rparr>)
          else if kind = ''tool.started'' then Some (tool_activity ''Tool'' t d)
          else if kind \<in> set model_activity_closed then closes Ak_model d act
          else if kind \<in> set tool_activity_closed then closes Ak_tool d act
          else if kind \<in> set run_activity_closed then None
          else act)"

definition record_event :: "string \<Rightarrow> pydict \<Rightarrow> int \<Rightarrow> run_snapshot \<Rightarrow> run_snapshot" where
  "record_event kind d t r =
     (let n = next_sequence r in
      r\<lparr>ru_events := ru_events r @ [\<lparr>he_seq = n, he_at = t, he_kind = u kind, he_data = d\<rparr>],
        ru_cursor := n, ru_activity := next_activity kind t d (ru_activity r), ru_updated := t\<rparr>)"

subsection \<open>The event window\<close>

text \<open>What a loaded run must satisfy: its events are one contiguous window that ends at the cursor.\<close>

definition contiguous :: "harness_event list \<Rightarrow> bool" where
  "contiguous evs \<longleftrightarrow> list_all (\<lambda>(a, b). he_seq b = he_seq a + 1) (zip evs (tl evs))"

lemma contiguous_iff: "contiguous evs \<longleftrightarrow> (\<forall>i. Suc i < length evs \<longrightarrow> he_seq (evs ! Suc i) = he_seq (evs ! i) + 1)"
  by (auto simp: contiguous_def list_all_length nth_tl less_diff_conv)

definition event_window :: "run_snapshot \<Rightarrow> bool" where
  "event_window r \<longleftrightarrow> contiguous (ru_events r) \<and> (ru_events r \<noteq> [] \<longrightarrow> ru_cursor r = he_seq (last (ru_events r)))"

lemma contiguous_snoc: "contiguous (evs @ [e]) \<longleftrightarrow> contiguous evs \<and> (evs \<noteq> [] \<longrightarrow> he_seq e = he_seq (last evs) + 1)"
proof (cases "evs = []")
  case True
  then show ?thesis by (simp add: contiguous_iff)
next
  case False
  then have l: "length evs = Suc (length evs - 1)" "last evs = evs ! (length evs - 1)" by (simp_all add: last_conv_nth)
  show ?thesis (is "?l \<longleftrightarrow> ?r")
  proof
    assume c: ?l
    have "he_seq (evs ! Suc i) = he_seq (evs ! i) + 1" if "Suc i < length evs" for i
      using c [unfolded contiguous_iff, rule_format, of i] that by (simp add: nth_append)
    moreover have "he_seq e = he_seq (last evs) + 1"
      using c [unfolded contiguous_iff, rule_format, of "length evs - 1"] l by (simp add: nth_append)
    ultimately show ?r by (simp add: contiguous_iff)
  next
    assume r: ?r
    show ?l unfolding contiguous_iff
    proof (intro allI impI)
      fix i assume i: "Suc i < length (evs @ [e])"
      show "he_seq ((evs @ [e]) ! Suc i) = he_seq ((evs @ [e]) ! i) + 1"
      proof (cases "Suc i < length evs")
        case True
        with r show ?thesis by (simp add: contiguous_iff nth_append)
      next
        case False
        with i l(1) have "i = length evs - 1" by simp
        with r False l \<open>evs \<noteq> []\<close> show ?thesis by (simp add: nth_append)
      qed
    qed
  qed
qed

lemma record_event_window: "event_window r \<Longrightarrow> event_window (record_event kind d t r)"
  by (auto simp: event_window_def record_event_def contiguous_snoc next_sequence_def Let_def)

lemma record_event_keeps:
  "ru_status (record_event k d t r) = ru_status r" "ru_id (record_event k d t r) = ru_id r"
  "ru_error (record_event k d t r) = ru_error r" "ru_session (record_event k d t r) = ru_session r"
  "ru_approval (record_event k d t r) = ru_approval r" "ru_observation (record_event k d t r) = ru_observation r"
  "ru_origin (record_event k d t r) = ru_origin r" "ru_caller (record_event k d t r) = ru_caller r"
  by (simp_all add: record_event_def Let_def)

end
