(* ===== verification/RunStore.thy ===== *)
theory RunStore
  imports HarnessRun
begin

text \<open>
  The durable run store, \<open>harness/agent_store.py\<close>: a state per run and an append-only rail of its events,
  once in memory and once as SQLite rows. A JSON text is the value it encodes; a save that raises leaves the
  store as it was.
\<close>

datatype store_error = History_conflict | Run_not_found | Invalid_window | Bad_limit

subsection \<open>The events a save appends\<close>

definition event_index :: "int \<Rightarrow> harness_event list \<Rightarrow> int" where
  "event_index n evs = (if evs = [] then - 1 else n - he_seq (hd evs))"

definition replaces_durable :: "int \<Rightarrow> harness_event option \<Rightarrow> harness_event list \<Rightarrow> bool" where
  "replaces_durable n durable evs = (case durable of
       None \<Rightarrow> True
     | Some e \<Rightarrow> he_seq e \<noteq> n
         \<or> (let k = event_index n evs in 0 \<le> k \<and> k < int (length evs) \<and> e \<noteq> evs ! nat k))"

definition fresh_events :: "int \<Rightarrow> harness_event list \<Rightarrow> harness_event list" where
  "fresh_events n evs = (if evs = [] then [] else drop (nat (max 0 (n + 1 - he_seq (hd evs)))) evs)"

definition new_event_rows ::
  "nat \<Rightarrow> harness_event option \<Rightarrow> harness_event list \<Rightarrow> int option \<Rightarrow> (store_error, harness_event list) result" where
  "new_event_rows count durable evs cursor =
     (let n = int count; new = fresh_events n evs in
      if evs \<noteq> [] \<and> cursor \<noteq> None \<and> cursor \<noteq> Some (he_seq (last evs)) then Inl History_conflict
      else if count \<noteq> 0 \<and> replaces_durable n durable evs then Inl History_conflict
      else if map he_seq new \<noteq> map (\<lambda>i. n + 1 + int i) [0..<length new] then Inl History_conflict
      else if (case cursor of Some c \<Rightarrow> c | None \<Rightarrow> if evs \<noteq> [] then he_seq (last evs) else n) \<noteq> n + int (length new)
      then Inl History_conflict
      else Inr new)"

text \<open>A log is numbered from 1 without gaps.\<close>

definition numbered :: "harness_event list \<Rightarrow> bool" where
  "numbered rail \<longleftrightarrow> map he_seq rail = map (\<lambda>i. int i + 1) [0..<length rail]"

lemma numbered_nth: "numbered rail \<Longrightarrow> i < length rail \<Longrightarrow> he_seq (rail ! i) = int i + 1"
  unfolding numbered_def by (metis (no_types, lifting) add.left_neutral diff_zero length_upt nth_map nth_upt)

lemma numbered_iff: "numbered rail \<longleftrightarrow> (\<forall>i < length rail. he_seq (rail ! i) = int i + 1)"
  unfolding numbered_def list_eq_iff_nth_eq by simp

lemma numbered_append:
  "numbered rail \<Longrightarrow> map he_seq new = map (\<lambda>i. int (length rail) + 1 + int i) [0..<length new] \<Longrightarrow> numbered (rail @ new)"
  unfolding numbered_iff
proof (intro allI impI)
  fix i
  assume rail: "\<forall>i < length rail. he_seq (rail ! i) = int i + 1"
    and new: "map he_seq new = map (\<lambda>i. int (length rail) + 1 + int i) [0..<length new]" and i: "i < length (rail @ new)"
  have "he_seq (new ! j) = int (length rail) + 1 + int j" if "j < length new" for j
    using arg_cong [OF new, of "\<lambda>xs. xs ! j"] that by simp
  with rail i show "he_seq ((rail @ new) ! i) = int i + 1" by (simp add: nth_append)
qed

lemma numbered_sorted: "numbered rail \<Longrightarrow> sort_key he_seq rail = rail"
  by (rule sort_key_id_if_sorted) (simp add: sorted_iff_nth_mono numbered_iff)

lemma numbered_contiguous: "numbered rail \<Longrightarrow> contiguous (drop k rail)"
  by (simp add: contiguous_iff numbered_iff add.commute)

lemma new_rows_cases:
  assumes "new_event_rows count durable evs (Some c) = Inr new"
  shows "new = fresh_events (int count) evs" "c = int count + int (length new)"
    "map he_seq new = map (\<lambda>i. int count + 1 + int i) [0..<length new]"
    "evs \<noteq> [] \<longrightarrow> he_seq (last evs) = c" "count \<noteq> 0 \<longrightarrow> \<not> replaces_durable (int count) durable evs"
  using assms by (auto simp: new_event_rows_def Let_def split: if_splits)

lemma fresh_suffix: "fresh_events n evs \<noteq> [] \<Longrightarrow> last (fresh_events n evs) = last evs"
  by (auto simp: fresh_events_def split: if_splits)

subsection \<open>The store in memory\<close>

record stored_run =
  sr_state :: run_snapshot
  sr_log :: "harness_event list"
  sr_cursor :: int

type_synonym mem_store = "(pystr \<times> stored_run) list"

text \<open>The cursor in the summary of a run.\<close>

definition summary_cursor :: "run_snapshot \<Rightarrow> int" where
  "summary_cursor r = max (ru_cursor r) (if ru_events r = [] then 0 else he_seq (last (ru_events r)))"

definition mem_log :: "mem_store \<Rightarrow> pystr \<Rightarrow> harness_event list" where
  "mem_log st i = (case map_of st i of None \<Rightarrow> [] | Some s \<Rightarrow> sr_log s)"

definition last_event :: "harness_event list \<Rightarrow> harness_event option" where
  "last_event rail = (if rail = [] then None else Some (last rail))"

definition mem_save :: "run_snapshot \<Rightarrow> mem_store \<Rightarrow> (store_error, mem_store) result" where
  "mem_save r st = (let rail = mem_log st (ru_id r) in
     bind_result (new_event_rows (length rail) (last_event rail) (ru_events r) (Some (ru_cursor r)))
       (\<lambda>new. Inr (dict_set st (ru_id r)
          \<lparr>sr_state = r\<lparr>ru_events := []\<rparr>, sr_log = rail @ new, sr_cursor = summary_cursor r\<rparr>)))"

definition snapshot_from_parts ::
  "run_snapshot \<Rightarrow> harness_event list \<Rightarrow> int \<Rightarrow> (store_error, run_snapshot) result" where
  "snapshot_from_parts state evs cursor =
     (let loaded = (if evs \<noteq> [] then he_seq (last evs) else ru_cursor state);
          c = max (max loaded cursor) (ru_cursor state)
      in if \<not> contiguous evs then Inl Invalid_window
         else Inr (state\<lparr>ru_events := evs, ru_cursor := (if evs = [] then c else max c (he_seq (last evs)))\<rparr>))"

definition mem_get :: "pystr \<Rightarrow> mem_store \<Rightarrow> (store_error, run_snapshot) result" where
  "mem_get i st = (case map_of st i of
       None \<Rightarrow> Inl Run_not_found
     | Some s \<Rightarrow> snapshot_from_parts (sr_state s) (sr_log s) (int (length (sr_log s))))"

definition tail_of :: "nat \<Rightarrow> 'a list \<Rightarrow> 'a list" where
  "tail_of k xs = drop (length xs - k) xs"

definition control_event_tail_limit :: nat where "control_event_tail_limit = 1000"

definition mem_get_control :: "nat \<Rightarrow> pystr \<Rightarrow> mem_store \<Rightarrow> (store_error, run_snapshot) result" where
  "mem_get_control limit i st =
     (if limit < 1 then Inl Bad_limit
      else case map_of st i of
        None \<Rightarrow> Inl Run_not_found
      | Some s \<Rightarrow> snapshot_from_parts (sr_state s) (tail_of limit (sr_log s)) (int (length (sr_log s))))"

definition mem_get_state :: "pystr \<Rightarrow> mem_store \<Rightarrow> (store_error, run_snapshot) result" where
  "mem_get_state i st = (case map_of st i of
       None \<Rightarrow> Inl Run_not_found
     | Some s \<Rightarrow> snapshot_from_parts (sr_state s) [] (sr_cursor s))"

record event_page =
  pg_events :: "harness_event list"
  pg_cursor :: int
  pg_more :: bool

definition page_of :: "nat \<Rightarrow> harness_event list \<Rightarrow> int \<Rightarrow> event_page" where
  "page_of limit selected cursor = \<lparr>pg_events = take limit selected, pg_cursor = cursor, pg_more = limit < length selected\<rparr>"

definition mem_events_after :: "pystr \<Rightarrow> nat \<Rightarrow> nat \<Rightarrow> mem_store \<Rightarrow> (store_error, event_page) result" where
  "mem_events_after i after limit st = (case map_of st i of
       None \<Rightarrow> Inl Run_not_found
     | Some s \<Rightarrow> Inr (page_of limit (take (limit + 1) (drop after (sr_log s))) (int (length (sr_log s)))))"

definition mem_events_matching :: "pystr \<Rightarrow> pystr list \<Rightarrow> nat \<Rightarrow> mem_store \<Rightarrow> (store_error, event_page) result" where
  "mem_events_matching i kinds limit st =
     (if kinds = [] \<or> limit < 1 then Inl Bad_limit
      else case map_of st i of
        None \<Rightarrow> Inl Run_not_found
      | Some s \<Rightarrow> Inr (page_of limit (take (limit + 1) (filter (\<lambda>e. he_kind e \<in> set kinds) (sr_log s)))
                        (int (length (sr_log s)))))"

text \<open>Most recently updated first; \<open>sorted\<close> with \<open>reverse\<close> keeps the order of equal keys.\<close>

definition mem_summaries :: "nat \<Rightarrow> mem_store \<Rightarrow> run_snapshot list" where
  "mem_summaries limit st = take limit (rev (sort_key ru_updated (rev (map (sr_state \<circ> snd) st))))"

subsection \<open>The store as SQLite rows\<close>

record sql_store =
  sq_runs :: "(pystr \<times> run_snapshot \<times> int) list"
  sq_rows :: "(pystr \<times> harness_event) list"

definition rows_of :: "sql_store \<Rightarrow> pystr \<Rightarrow> harness_event list" where
  "rows_of db i = map snd (filter (\<lambda>p. fst p = i) (sq_rows db))"

text \<open>\<open>ORDER BY sequence\<close>, and \<open>COALESCE(MAX(sequence), 0)\<close>.\<close>

definition sql_log :: "sql_store \<Rightarrow> pystr \<Rightarrow> harness_event list" where
  "sql_log db i = sort_key he_seq (rows_of db i)"

definition max_sequence :: "harness_event list \<Rightarrow> int" where
  "max_sequence rows = (case map he_seq rows of [] \<Rightarrow> 0 | x # xs \<Rightarrow> foldl max x xs)"

definition sql_save :: "run_snapshot \<Rightarrow> sql_store \<Rightarrow> (store_error, sql_store) result" where
  "sql_save r db =
     (let rows = rows_of db (ru_id r); count = length rows; cursor = max_sequence rows in
      if int count \<noteq> cursor then Inl History_conflict
      else bind_result (new_event_rows count
              (if count = 0 then None else List.find (\<lambda>e. he_seq e = cursor) rows) (ru_events r) (Some (ru_cursor r)))
        (\<lambda>new. Inr (db\<lparr>sq_runs := dict_set (sq_runs db) (ru_id r) (r\<lparr>ru_events := []\<rparr>, summary_cursor r),
              sq_rows := sq_rows db @ map (Pair (ru_id r)) new\<rparr>)))"

definition sql_get :: "pystr \<Rightarrow> sql_store \<Rightarrow> (store_error, run_snapshot) result" where
  "sql_get i db = (case map_of (sq_runs db) i of
       None \<Rightarrow> Inl Run_not_found
     | Some (state, cursor) \<Rightarrow> snapshot_from_parts state (sql_log db i) (int (length (sql_log db i))))"

definition sql_get_control :: "nat \<Rightarrow> pystr \<Rightarrow> sql_store \<Rightarrow> (store_error, run_snapshot) result" where
  "sql_get_control limit i db =
     (if limit < 1 then Inl Bad_limit
      else case map_of (sq_runs db) i of
        None \<Rightarrow> Inl Run_not_found
      | Some (state, cursor) \<Rightarrow>
          snapshot_from_parts state (filter (\<lambda>e. max 0 (cursor - int limit) < he_seq e) (sql_log db i)) cursor)"

definition sql_get_state :: "pystr \<Rightarrow> sql_store \<Rightarrow> (store_error, run_snapshot) result" where
  "sql_get_state i db = (case map_of (sq_runs db) i of
       None \<Rightarrow> Inl Run_not_found
     | Some (state, cursor) \<Rightarrow> snapshot_from_parts state [] cursor)"

definition sql_events_after :: "pystr \<Rightarrow> nat \<Rightarrow> nat \<Rightarrow> sql_store \<Rightarrow> (store_error, event_page) result" where
  "sql_events_after i after limit db = (case map_of (sq_runs db) i of
       None \<Rightarrow> Inl Run_not_found
     | Some (state, cursor) \<Rightarrow>
         Inr (page_of limit (take (limit + 1) (filter (\<lambda>e. int after < he_seq e) (sql_log db i))) cursor))"

subsection \<open>What every store promises\<close>

text \<open>
  A store keeps a numbered log per run. A save that succeeds appends, and only to the log of its run, and
  leaves that log ending where the saved run ends.
\<close>

locale run_store =
  fixes save :: "run_snapshot \<Rightarrow> 's \<Rightarrow> (store_error, 's) result"
    and rail_of :: "'s \<Rightarrow> pystr \<Rightarrow> harness_event list"
    and ok :: "'s \<Rightarrow> bool"
  assumes save_ok: "ok s \<Longrightarrow> save r s = Inr s' \<Longrightarrow> ok s'"
    and save_other: "ok s \<Longrightarrow> save r s = Inr s' \<Longrightarrow> i \<noteq> ru_id r \<Longrightarrow> rail_of s' i = rail_of s i"
    and save_appends: "ok s \<Longrightarrow> save r s = Inr s' \<Longrightarrow>
      \<exists>new. rail_of s' (ru_id r) = rail_of s (ru_id r) @ new \<and> new = fresh_events (int (length (rail_of s (ru_id r)))) (ru_events r)"
    and save_cursor: "ok s \<Longrightarrow> save r s = Inr s' \<Longrightarrow> int (length (rail_of s' (ru_id r))) = ru_cursor r"
    and save_ends: "ok s \<Longrightarrow> save r s = Inr s' \<Longrightarrow> event_window r \<Longrightarrow> ru_events r \<noteq> [] \<Longrightarrow>
      1 \<le> he_seq (hd (ru_events r)) \<Longrightarrow> rail_of s' (ru_id r) \<noteq> [] \<and> last (rail_of s' (ru_id r)) = last (ru_events r)"
    and rail_numbered: "ok s \<Longrightarrow> numbered (rail_of s i)"
begin

text \<open>A client saves, and goes on with the old store when a save is refused.\<close>

definition attempt :: "run_snapshot \<Rightarrow> 's \<Rightarrow> 's" where
  "attempt r s = (case save r s of Inl e \<Rightarrow> s | Inr s' \<Rightarrow> s')"

lemma attempt_ok: "ok s \<Longrightarrow> ok (attempt r s)"
  using save_ok by (auto simp: attempt_def split: sum.splits)

lemma attempt_grows: "ok s \<Longrightarrow> \<exists>new. rail_of (attempt r s) i = rail_of s i @ new"
proof (cases "save r s")
  case (Inr s')
  assume "ok s"
  with Inr save_appends save_other show ?thesis by (cases "i = ru_id r") (auto simp: attempt_def)
qed (simp add: attempt_def)

lemma history_grows: "ok s \<Longrightarrow> \<exists>new. rail_of (fold attempt rs s) i = rail_of s i @ new \<and> ok (fold attempt rs s)"
proof (induction rs arbitrary: s)
  case (Cons r rs)
  from attempt_grows [OF Cons.prems, of r i] obtain a where "rail_of (attempt r s) i = rail_of s i @ a" by blast
  with Cons.IH [OF attempt_ok [OF Cons.prems, of r]] show ?case by auto
qed simp

text \<open>Two runs that saved the same position agree on its event: nobody's history was replaced.\<close>

lemma agreed_history:
  assumes "ok s" "save r s = Inr s'" "event_window r" "ru_events r \<noteq> []" "1 \<le> he_seq (hd (ru_events r))"
    and "save r2 (fold attempt rs s') = Inr s2"
    and "event_window r2" "ru_events r2 \<noteq> []" "1 \<le> he_seq (hd (ru_events r2))" "ru_cursor r2 = ru_cursor r" "ru_id r2 = ru_id r"
  shows "last (ru_events r2) = last (ru_events r)"
proof -
  let ?i = "ru_id r" and ?t = "fold attempt rs s'"
  have ok': "ok s'" using save_ok [OF assms(1, 2)] .
  from history_grows [OF ok'] obtain new where t: "rail_of ?t ?i = rail_of s' ?i @ new" "ok ?t" by blast
  from save_appends [OF t(2) assms(6)] assms(11) obtain new2 where s2: "rail_of s2 ?i = rail_of ?t ?i @ new2" by auto
  have "int (length (rail_of s2 ?i)) = ru_cursor r" "int (length (rail_of s' ?i)) = ru_cursor r"
    using save_cursor [OF t(2) assms(6)] save_cursor [OF assms(1, 2)] assms(10, 11) by simp_all
  then have "length (rail_of s2 ?i) = length (rail_of s' ?i)" by simp
  with t s2 have "rail_of s2 ?i = rail_of s' ?i" by simp
  moreover have "last (rail_of s2 ?i) = last (ru_events r2)"
    using save_ends [OF t(2) assms(6-9)] assms(11) by simp
  moreover have "last (rail_of s' ?i) = last (ru_events r)" using save_ends [OF assms(1-5)] by simp
  ultimately show ?thesis by simp
qed

end

subsection \<open>Both stores keep the promise\<close>

lemma rows_end:
  assumes "new_event_rows (length rail) (last_event rail) (ru_events r) (Some (ru_cursor r)) = Inr new"
    and "numbered rail" "event_window r" "ru_events r \<noteq> []" "1 \<le> he_seq (hd (ru_events r))"
  shows "rail @ new \<noteq> [] \<and> last (rail @ new) = last (ru_events r)"
proof (cases "new = []")
  case False
  then show ?thesis using fresh_suffix new_rows_cases(1) [OF assms(1)] by simp
next
  case True
  let ?evs = "ru_events r" and ?n = "int (length rail)"
  note c = new_rows_cases [OF assms(1)]
  have n: "ru_cursor r = ?n" "he_seq (last ?evs) = ?n" using c(2, 4) True assms(4) by simp_all
  have win: "he_seq (last ?evs) = he_seq (hd ?evs) + int (length ?evs) - 1"
  proof -
    have "he_seq (?evs ! k) = he_seq (hd ?evs) + int k" if "k < length ?evs" for k
      using that
    proof (induction k)
      case (Suc k)
      with assms(3) show ?case by (simp add: event_window_def contiguous_iff)
    qed (simp add: hd_conv_nth)
    from this [of "length ?evs - 1"] assms(4) have "he_seq (last ?evs) = he_seq (hd ?evs) + int (length ?evs - 1)"
      by (simp add: last_conv_nth)
    moreover have "int (length ?evs - 1) = int (length ?evs) - 1" using assms(4) by (cases ?evs) simp_all
    ultimately show ?thesis by simp
  qed
  have "0 < length ?evs" using assms(4) by simp
  show ?thesis
  proof (cases "rail = []")
    case True
    with n(2) win assms(5) \<open>0 < length ?evs\<close> show ?thesis by simp
  next
    case False
    then have "\<not> replaces_durable ?n (Some (last rail)) ?evs" using c(5) by (simp add: last_event_def)
    moreover have "event_index ?n ?evs = int (length ?evs) - 1"
      using n(2) win assms(4) by (simp add: event_index_def)
    ultimately have "last rail = ?evs ! nat (int (length ?evs) - 1)"
      using \<open>0 < length ?evs\<close> by (simp add: replaces_durable_def Let_def)
    with False True assms(4) show ?thesis by (simp add: last_conv_nth nat_diff_distrib')
  qed
qed

lemma mem_log_set: "mem_log (dict_set st i s) j = (if j = i then sr_log s else mem_log st j)"
  by (simp add: mem_log_def)

definition mem_ok :: "mem_store \<Rightarrow> bool" where
  "mem_ok st \<longleftrightarrow> (\<forall>i. numbered (mem_log st i))"

lemma mem_save_Inr:
  assumes "mem_save r st = Inr st'"
  obtains new where "new_event_rows (length (mem_log st (ru_id r))) (last_event (mem_log st (ru_id r))) (ru_events r) (Some (ru_cursor r)) = Inr new"
    "st' = dict_set st (ru_id r) \<lparr>sr_state = r\<lparr>ru_events := []\<rparr>, sr_log = mem_log st (ru_id r) @ new, sr_cursor = summary_cursor r\<rparr>"
  using assms by (auto simp: mem_save_def Let_def bind_result_Inr_iff)

interpretation mem: run_store mem_save mem_log mem_ok
proof
  fix s s' :: mem_store and r
  assume ok: "mem_ok s" and sv: "mem_save r s = Inr s'"
  let ?rail = "mem_log s (ru_id r)"
  from sv obtain new where new: "new_event_rows (length ?rail) (last_event ?rail) (ru_events r) (Some (ru_cursor r)) = Inr new"
    and s': "s' = dict_set s (ru_id r) \<lparr>sr_state = r\<lparr>ru_events := []\<rparr>, sr_log = ?rail @ new, sr_cursor = summary_cursor r\<rparr>"
    by (rule mem_save_Inr)
  note c = new_rows_cases [OF new]
  have num: "numbered ?rail" using ok by (simp add: mem_ok_def)
  have l: "mem_log s' (ru_id r) = ?rail @ new" by (simp add: s' mem_log_set)
  show "mem_ok s'"
    using ok numbered_append [OF num c(3)] by (simp add: mem_ok_def s' mem_log_set)
  show "\<exists>new. mem_log s' (ru_id r) = ?rail @ new \<and> new = fresh_events (int (length ?rail)) (ru_events r)"
    using l c(1) by simp
  show "int (length (mem_log s' (ru_id r))) = ru_cursor r" using l c(2) by simp
  show "i \<noteq> ru_id r \<Longrightarrow> mem_log s' i = mem_log s i" for i by (simp add: s' mem_log_set)
  show "event_window r \<Longrightarrow> ru_events r \<noteq> [] \<Longrightarrow> 1 \<le> he_seq (hd (ru_events r)) \<Longrightarrow>
      mem_log s' (ru_id r) \<noteq> [] \<and> last (mem_log s' (ru_id r)) = last (ru_events r)"
    using rows_end [OF new num] l by simp
qed (simp add: mem_ok_def)

definition sql_ok :: "sql_store \<Rightarrow> bool" where
  "sql_ok db \<longleftrightarrow> (\<forall>i. numbered (rows_of db i))"

lemma sql_ok_log: "sql_ok db \<Longrightarrow> sql_log db i = rows_of db i"
  by (simp add: sql_log_def sql_ok_def numbered_sorted)

lemma max_numbered: "numbered rows \<Longrightarrow> max_sequence rows = int (length rows)"
proof -
  assume n: "numbered rows"
  have *: "foldl max x (map (\<lambda>i. int i + 1) [k..<m]) = (if k < m then int m else x)" if "x \<le> int k" for x :: int and k m
    using that
  proof (induction m)
    case (Suc m)
    then show ?case by (cases "k < m") (auto simp: less_Suc_eq)
  qed simp
  show ?thesis
  proof (cases rows)
    case Nil
    then show ?thesis by (simp add: max_sequence_def)
  next
    case (Cons e es)
    have "map he_seq rows = map (\<lambda>i. int i + 1) [0..<length rows]" using n by (simp add: numbered_def)
    also have "\<dots> = 1 # map (\<lambda>i. int i + 1) [1..<length rows]" using Cons by (simp add: upt_conv_Cons del: upt_Suc)
    finally show ?thesis using *[of 1 1 "length rows"] Cons by (simp add: max_sequence_def)
  qed
qed

lemma find_last: "numbered rows \<Longrightarrow> rows \<noteq> [] \<Longrightarrow> List.find (\<lambda>e. he_seq e = int (length rows)) rows = Some (last rows)"
proof -
  assume n: "numbered rows" and ne: "rows \<noteq> []"
  then obtain m where m: "length rows = Suc m" by (cases "length rows") auto
  have "List.find (\<lambda>e. he_seq e = int (length rows)) rows = Some (rows ! m)"
    unfolding find_Some_iff using n m by (intro exI [of _ m]) (auto simp: numbered_iff)
  with ne m show ?thesis by (simp add: last_conv_nth)
qed

lemma sql_last: "numbered rows \<Longrightarrow>
  (if length rows = 0 then None else List.find (\<lambda>e. he_seq e = max_sequence rows) rows) = last_event rows"
  using find_last max_numbered by (simp add: last_event_def)

lemma rows_append: "rows_of (db\<lparr>sq_runs := x, sq_rows := sq_rows db @ map (Pair i) new\<rparr>) j
    = (if j = i then rows_of db i @ new else rows_of db j)"
  by (auto simp: rows_of_def filter_map comp_def)

lemma sql_save_rows:
  assumes "numbered (rows_of db (ru_id r))"
  shows "sql_save r db = bind_result
      (new_event_rows (length (rows_of db (ru_id r))) (last_event (rows_of db (ru_id r))) (ru_events r) (Some (ru_cursor r)))
      (\<lambda>new. Inr (db\<lparr>sq_runs := dict_set (sq_runs db) (ru_id r) (r\<lparr>ru_events := []\<rparr>, summary_cursor r),
            sq_rows := sq_rows db @ map (Pair (ru_id r)) new\<rparr>))"
  using sql_last [OF assms] max_numbered [OF assms] by (simp add: sql_save_def Let_def)

interpretation sql: run_store sql_save sql_log sql_ok
proof
  fix s s' :: sql_store and r
  assume ok: "sql_ok s" and sv: "sql_save r s = Inr s'"
  let ?rail = "rows_of s (ru_id r)"
  have num: "numbered ?rail" using ok by (simp add: sql_ok_def)
  from sv obtain new where new: "new_event_rows (length ?rail) (last_event ?rail) (ru_events r) (Some (ru_cursor r)) = Inr new"
    and s': "s' = s\<lparr>sq_runs := dict_set (sq_runs s) (ru_id r) (r\<lparr>ru_events := []\<rparr>, summary_cursor r),
            sq_rows := sq_rows s @ map (Pair (ru_id r)) new\<rparr>"
    unfolding sql_save_rows [OF num] by (auto simp: bind_result_Inr_iff)
  note c = new_rows_cases [OF new]
  have l: "rows_of s' j = (if j = ru_id r then ?rail @ new else rows_of s j)" for j
    unfolding s' rows_append by simp
  show ok': "sql_ok s'" using ok numbered_append [OF num c(3)] by (simp add: sql_ok_def l)
  note lg = sql_ok_log [OF ok] sql_ok_log [OF ok'] l
  show "\<exists>new. sql_log s' (ru_id r) = sql_log s (ru_id r) @ new \<and> new = fresh_events (int (length (sql_log s (ru_id r)))) (ru_events r)"
    using c(1) by (simp add: lg)
  show "int (length (sql_log s' (ru_id r))) = ru_cursor r" using c(2) by (simp add: lg)
  show "i \<noteq> ru_id r \<Longrightarrow> sql_log s' i = sql_log s i" for i by (simp add: lg)
  show "event_window r \<Longrightarrow> ru_events r \<noteq> [] \<Longrightarrow> 1 \<le> he_seq (hd (ru_events r)) \<Longrightarrow>
      sql_log s' (ru_id r) \<noteq> [] \<and> last (sql_log s' (ru_id r)) = last (ru_events r)"
    using rows_end [OF new num] by (simp add: lg)
next
  show "sql_ok s \<Longrightarrow> numbered (sql_log s i)" for s i by (simp add: sql_ok_log sql_ok_def)
qed

subsection \<open>The rows implement the store in memory\<close>

definition same_store :: "sql_store \<Rightarrow> mem_store \<Rightarrow> bool" where
  "same_store db st \<longleftrightarrow> mem_ok st \<and> (\<forall>i. rows_of db i = mem_log st i)
     \<and> (\<forall>i. map_of (sq_runs db) i = map_option (\<lambda>s. (sr_state s, sr_cursor s)) (map_of st i))
     \<and> (\<forall>i s. map_of st i = Some s \<longrightarrow> sr_cursor s = int (length (sr_log s)))"

definition sql_empty :: sql_store where
  "sql_empty = \<lparr>sq_runs = [], sq_rows = []\<rparr>"

lemma same_store_init: "same_store sql_empty []"
  by (simp add: same_store_def sql_empty_def mem_ok_def mem_log_def numbered_def rows_of_def)

lemma same_store_ok: "same_store db st \<Longrightarrow> sql_ok db \<and> mem_ok st"
  by (simp add: same_store_def sql_ok_def mem_ok_def)

lemma saved_cursor:
  assumes "new_event_rows (length rail) d (ru_events r) (Some (ru_cursor r)) = Inr new"
  shows "summary_cursor r = int (length (rail @ new))"
  using new_rows_cases [OF assms] by (auto simp: summary_cursor_def)

lemma same_store_save:
  assumes "same_store db st"
  shows "(\<exists>e. sql_save r db = Inl e \<and> mem_save r st = Inl e)
    \<or> (\<exists>db' st'. sql_save r db = Inr db' \<and> mem_save r st = Inr st' \<and> same_store db' st')"
proof (cases "new_event_rows (length (mem_log st (ru_id r))) (last_event (mem_log st (ru_id r))) (ru_events r) (Some (ru_cursor r))")
  case (Inl e)
  have num: "numbered (rows_of db (ru_id r))" and eq: "rows_of db (ru_id r) = mem_log st (ru_id r)"
    using assms same_store_ok [OF assms] by (simp_all add: same_store_def sql_ok_def)
  from Inl show ?thesis unfolding sql_save_rows [OF num] by (simp add: eq mem_save_def Let_def)
next
  case (Inr new)
  have num: "numbered (rows_of db (ru_id r))" and eq: "\<And>i. rows_of db i = mem_log st i"
    using assms same_store_ok [OF assms] by (simp_all add: same_store_def sql_ok_def)
  let ?db = "db\<lparr>sq_runs := dict_set (sq_runs db) (ru_id r) (r\<lparr>ru_events := []\<rparr>, summary_cursor r),
            sq_rows := sq_rows db @ map (Pair (ru_id r)) new\<rparr>"
  let ?st = "dict_set st (ru_id r) \<lparr>sr_state = r\<lparr>ru_events := []\<rparr>, sr_log = mem_log st (ru_id r) @ new, sr_cursor = summary_cursor r\<rparr>"
  have saves: "sql_save r db = Inr ?db" "mem_save r st = Inr ?st"
    using Inr unfolding sql_save_rows [OF num] by (simp_all add: eq mem_save_def Let_def)
  have rows: "rows_of ?db j = mem_log ?st j" for j
    unfolding rows_append by (simp add: eq mem_log_set)
  have "mem_ok ?st" using mem.save_ok [OF _ saves(2)] assms by (simp add: same_store_def)
  moreover have "map_of (sq_runs ?db) i = map_option (\<lambda>s. (sr_state s, sr_cursor s)) (map_of ?st i)" for i
    using assms by (simp add: same_store_def)
  moreover have "sr_cursor s = int (length (sr_log s))" if "map_of ?st i = Some s" for i s
    using that assms saved_cursor [OF Inr] by (auto simp: same_store_def split: if_splits)
  ultimately have "same_store ?db ?st" unfolding same_store_def using rows by blast
  with saves show ?thesis by blast
qed

lemma rows_after:
  assumes "numbered rail"
  shows "filter (\<lambda>e. int n < he_seq e) rail = drop n rail"
proof -
  have pos: "he_seq e \<le> int n" if "e \<in> set (take n rail)" for e
  proof -
    from that obtain i where "i < n" "i < length rail" "e = rail ! i" by (auto simp: in_set_conv_nth)
    with assms show ?thesis by (simp add: numbered_iff)
  qed
  have neg: "int n < he_seq e" if "e \<in> set (drop n rail)" for e
  proof -
    from that obtain i where "i < length rail - n" "e = rail ! (n + i)" by (auto simp: in_set_conv_nth)
    with assms show ?thesis by (simp add: numbered_iff)
  qed
  have "filter (\<lambda>e. int n < he_seq e) (take n rail @ drop n rail) = drop n rail"
    unfolding filter_append using pos neg by (simp add: filter_empty_conv not_less)
  then show ?thesis by simp
qed

lemma control_rows:
  assumes "numbered rail"
  shows "filter (\<lambda>e. max 0 (int (length rail) - int k) < he_seq e) rail = tail_of k rail"
proof -
  have "max 0 (int (length rail) - int k) = int (length rail - k)" by (simp add: max_def of_nat_diff)
  then show ?thesis by (simp only: rows_after [OF assms] tail_of_def)
qed


text \<open>
  C17. History is append-only, in both stores. Whatever saves are tried, the log of a run is numbered from 1
  without a gap, no event of it ever changes, and a save that succeeds ends where the saved run ends: two
  successful saves at the same cursor end in the same event, so of two writers that appended different events
  at one position only one is stored.
\<close>

theorem run_history_append_only:
  fixes rs more :: "run_snapshot list"
  defines "st \<equiv> fold mem.attempt rs []" and "db \<equiv> fold sql.attempt rs sql_empty"
  shows "numbered (mem_log st i) \<and> (\<exists>new. mem_log (fold mem.attempt more st) i = mem_log st i @ new)
    \<and> numbered (sql_log db i) \<and> (\<exists>new. sql_log (fold sql.attempt more db) i = sql_log db i @ new)
    \<and> (mem_save r st = Inr sa \<and> mem_save q (fold mem.attempt more sa) = Inr sb
        \<and> event_window r \<and> event_window q \<and> ru_events r \<noteq> [] \<and> ru_events q \<noteq> []
        \<and> 1 \<le> he_seq (hd (ru_events r)) \<and> 1 \<le> he_seq (hd (ru_events q))
        \<and> ru_id q = ru_id r \<and> ru_cursor q = ru_cursor r
        \<longrightarrow> last (ru_events q) = last (ru_events r))"
proof -
  have "mem_ok []" "sql_ok sql_empty" using same_store_ok [OF same_store_init] by simp_all
  then have ok: "mem_ok st" "sql_ok db" using mem.history_grows sql.history_grows unfolding st_def db_def by blast+
  then show ?thesis
    using mem.history_grows [OF ok(1), of more i] sql.history_grows [OF ok(2), of more i]
      mem.rail_numbered [OF ok(1)] sql.rail_numbered [OF ok(2)] mem.agreed_history [OF ok(1)] by blast
qed

text \<open>
  What is saved is read back: after a successful save, loading the run answers the saved run with the
  whole history of its events, and loading its tail answers it with the last events, in order.
\<close>

theorem saved_run_reads_back:
  fixes rs :: "run_snapshot list"
  defines "st \<equiv> fold mem.attempt rs []"
  assumes "mem_save r st = Inr st'"
  shows "mem_get (ru_id r) st' = Inr (r\<lparr>ru_events := mem_log st' (ru_id r)\<rparr>)
    \<and> (1 \<le> k \<longrightarrow> mem_get_control k (ru_id r) st' = Inr (r\<lparr>ru_events := tail_of k (mem_log st' (ru_id r))\<rparr>))"
proof -
  let ?rail = "mem_log st' (ru_id r)"
  have "mem_ok []" using same_store_ok [OF same_store_init] by simp
  then have ok: "mem_ok st" using mem.history_grows unfolding st_def by blast
  have num: "numbered ?rail" using mem.rail_numbered [OF mem.save_ok [OF ok assms(2)]] .
  have c: "int (length ?rail) = ru_cursor r" using mem.save_cursor [OF ok assms(2)] .
  from assms(2) obtain s where s: "map_of st' (ru_id r) = Some s" "sr_state s = r\<lparr>ru_events := []\<rparr>" "sr_log s = ?rail"
    by (rule mem_save_Inr) (simp add: mem_log_def)
  have seq: "he_seq (last (drop j ?rail)) = ru_cursor r" if "drop j ?rail \<noteq> []" for j
  proof -
    have "last (drop j ?rail) = ?rail ! (length ?rail - 1)" using that by (simp add: last_conv_nth last_drop)
    moreover have "length ?rail - 1 < length ?rail" using that by (cases ?rail) simp_all
    ultimately show ?thesis using num c by (simp add: numbered_iff of_nat_diff)
  qed
  have parts: "snapshot_from_parts (sr_state s) (drop j ?rail) (int (length ?rail)) = Inr (r\<lparr>ru_events := drop j ?rail\<rparr>)" for j
    using seq [of j] c numbered_contiguous [OF num, of j] by (auto simp: snapshot_from_parts_def Let_def s(2))
  from parts [of 0] parts [of "length ?rail - k"] s show ?thesis
    by (simp add: mem_get_def mem_get_control_def tail_of_def)
qed

subsection \<open>Concrete runs\<close>

definition demo_run :: run_snapshot where
  "demo_run = \<lparr>ru_id = u ''r1'', ru_status = Rs_running, ru_origin = Direct_mcp, ru_caller = [], ru_updated = 0,
     ru_session = None, ru_observation = None, ru_approval = None, ru_image_path = None, ru_image_revision = 0,
     ru_images = [], ru_next_action = 0, ru_error = None, ru_activity = None, ru_cursor = 0, ru_events = []\<rparr>"

definition demo_created :: run_snapshot where
  "demo_created = record_event ''run.created'' [] 1 demo_run"

definition demo_store :: mem_store where
  "demo_store = projr (mem_save demo_created [])"

lemma demo_saves: "mem_save demo_created [] = Inr demo_store" "mem_save demo_created demo_store = Inr demo_store"
  by code_simp+

lemma demo_created_events: "ru_events demo_created = [\<lparr>he_seq = 1, he_at = 1, he_kind = u ''run.created'', he_data = []\<rparr>]"
  by (simp add: demo_created_def record_event_def demo_run_def next_sequence_def Let_def)

theorem saved_run_reads_back_witness:
  "mem_get (ru_id demo_created) demo_store = Inr (demo_created\<lparr>ru_events := mem_log demo_store (ru_id demo_created)\<rparr>)
   \<and> mem_log demo_store (ru_id demo_created) \<noteq> []"
proof -
  have "mem_log demo_store (ru_id demo_created) \<noteq> []" by code_simp
  with saved_run_reads_back [where rs = "[]" and r = demo_created and st' = demo_store and k = 1] demo_saves(1) show ?thesis by simp
qed

theorem run_history_append_only_witness:
  "last (ru_events demo_created) = last (ru_events demo_created)
   \<and> numbered (mem_log (fold mem.attempt [demo_created] []) (u ''r1''))"
proof -
  have w: "event_window demo_created" "ru_events demo_created \<noteq> []" "1 \<le> he_seq (hd (ru_events demo_created))"
    using record_event_window [of demo_run "''run.created''" "[]" 1] demo_created_events
    by (simp_all add: demo_created_def demo_run_def event_window_def contiguous_iff)
  show ?thesis
    using run_history_append_only [where rs = "[]" and more = "[]" and r = demo_created and q = demo_created
        and sa = demo_store and sb = demo_store and i = "u ''r1''"] demo_saves w
      run_history_append_only [where rs = "[demo_created]" and more = "[]" and i = "u ''r1''"]
    by simp
qed

end
