(* ===== verification/InputReceipts.thy ===== *)
theory InputReceipts
  imports HarnessRun PikvmText
begin

text \<open>
  What of an input's delivery evidence may leave the harness: \<open>redact_secrets\<close> of
  \<open>harness/redaction.py\<close> and \<open>public_input_receipts\<close> of \<open>harness/input_receipts.py\<close>.
\<close>

subsection \<open>Redaction\<close>

definition redacted_value :: pyval where "redacted_value = PStr (replicate 8 8226)"

definition always_secret_keys :: "pystr list" where
  "always_secret_keys = map u [''access_token'', ''api_key'', ''authorization'', ''password'', ''passcode'', ''secret_value'']"

definition secret_payload_keys :: "pystr list" where
  "secret_payload_keys = map u [''content'', ''text'', ''value'']"

definition marked_secret :: "pydict \<Rightarrow> bool" where
  "marked_secret d \<longleftrightarrow> get_none d (u ''secret'') = PBool True"

definition hidden_key :: "bool \<Rightarrow> pystr \<Rightarrow> bool" where
  "hidden_key secret k \<longleftrightarrow>
     py_casefold k \<in> set always_secret_keys \<or> secret \<and> py_casefold k \<in> set secret_payload_keys"

fun redact_secrets :: "pyval \<Rightarrow> pyval" where
  "redact_secrets (PList xs) = PList (map redact_secrets xs)"
| "redact_secrets (PDict d) =
     (let s = marked_secret d;
          r = map (\<lambda>p. (fst p, if hidden_key s (fst p) then redacted_value else redact_secrets (snd p))) d
      in PDict (if s then dict_set r (u ''redacted'') (PBool True) else r))"
| "redact_secrets v = v"

text \<open>Nothing secret is left: hidden keys hold the placeholder, everywhere in the value.\<close>

fun secret_free :: "pyval \<Rightarrow> bool" where
  "secret_free (PList xs) = list_all secret_free xs"
| "secret_free (PDict d) =
     list_all (\<lambda>p. (hidden_key (marked_secret d) (fst p) \<longrightarrow> snd p = redacted_value) \<and> secret_free (snd p)) d"
| "secret_free v = True"

lemma map_of_keyed: "map_of (map (\<lambda>p. (fst p, f p)) d) k = map_option (\<lambda>v. f (k, v)) (map_of d k)"
  by (induction d) auto

lemma plain_keys:
  "list_all (\<lambda>k. \<not> list_ex (\<lambda>h. h = py_casefold (u k)) (always_secret_keys @ secret_payload_keys))
     [''secret'', ''redacted'']"
  by code_simp

lemma secret_not_hidden: "\<not> hidden_key s (u ''secret'')" "\<not> hidden_key s (u ''redacted'')"
  using plain_keys by (auto simp: hidden_key_def list_ex_iff)

lemma redact_is_true: "redact_secrets v = PBool True \<longleftrightarrow> v = PBool True"
  by (cases v) (simp_all add: Let_def)

lemma marked_redacted:
  "marked_secret (map (\<lambda>p. (fst p, if hidden_key s (fst p) then redacted_value else redact_secrets (snd p))) d) = marked_secret d"
  using redact_is_true by (auto simp: marked_secret_def get_none_def get_or_def map_of_keyed secret_not_hidden split: option.splits)

lemma marked_dict_set: "marked_secret (dict_set d (u ''redacted'') v) = marked_secret d"
  by (simp add: marked_secret_def get_none_def get_or_def)

lemma set_dict_set: "p \<in> set (dict_set d k v) \<Longrightarrow> p = (k, v) \<or> p \<in> set d"
  by (induction d k v rule: dict_set.induct) (auto split: if_splits)

lemma redacted_free: "secret_free redacted_value"
  by (simp add: redacted_value_def)

lemma redact_secret_free: "secret_free (redact_secrets v)"
proof (induction v rule: redact_secrets.induct)
  case (2 d)
  let ?r = "map (\<lambda>p. (fst p, if hidden_key (marked_secret d) (fst p) then redacted_value else redact_secrets (snd p))) d"
  have free: "secret_free (redact_secrets (snd p))" if "p \<in> set d" "\<not> hidden_key (marked_secret d) (fst p)" for p
    using "2.IH" [OF refl that(1, 2)] .
  have entry: "(hidden_key (marked_secret d) (fst q) \<longrightarrow> snd q = redacted_value) \<and> secret_free (snd q)" if "q \<in> set ?r" for q
    using that free redacted_free by auto
  show ?case
  proof (cases "marked_secret d")
    case True
    have "(hidden_key True (fst q) \<longrightarrow> snd q = redacted_value) \<and> secret_free (snd q)"
      if "q \<in> set (dict_set ?r (u ''redacted'') (PBool True))" for q
      using set_dict_set [OF that] entry [of q] secret_not_hidden True by auto
    with True show ?thesis
      by (simp add: Let_def list_all_iff marked_dict_set marked_redacted del: set_map)
  next
    case False
    with entry show ?thesis by (simp add: Let_def list_all_iff marked_redacted)
  qed
qed (auto simp: list_all_iff)

subsection \<open>What a receipt may carry\<close>

definition receipt_statuses :: "pystr list" where
  "receipt_statuses = map u [''verified_exact'', ''verified_safe_normalized'', ''verified_with_warnings'',
     ''unverified_ambiguous'', ''unverified_whitespace'', ''unverified_wrong_region'', ''unverified_truncated'',
     ''failed_symbol_mismatch'', ''failed_case_mismatch'', ''failed_keyboard_layout'', ''failed_focus_lost'',
     ''failed_stale_frame'', ''blocked_by_policy'', ''needs_human'', ''delivered_unverified'']"

definition allowed_strings :: "(string \<times> pystr list) list" where
  "allowed_strings =
     [(''status'', receipt_statuses),
      (''verdict'', map u [''match'', ''contains'', ''mismatch'', ''unverified'']),
      (''focus_evidence'', map u [''atomic_windows_run_gesture'', ''focus_lost'', ''read_back_deferred'', ''read_back_verified'',
         ''read_back_unverified'', ''read_back_mismatch'', ''read_back_not_retained'', ''read_back_unavailable'']),
      (''proof_state'', map u [''exact_ocr_readback'', ''exact_visual_readback'', ''exact_readback'', ''normalized_readback'',
         ''partial_readback'', ''mismatched_readback'', ''ambiguous_readback'', ''issued_only'', ''not_retained''])]"

definition integer_limits :: "(string \<times> int) list" where
  "integer_limits =
     [(''requested_cells'', 64), (''issued_cells'', 64), (''requested_characters'', 480), (''delivery_characters'', 480),
      (''issued_characters'', 480), (''observed_characters'', 960), (''correction_count'', 20), (''delivery_retries'', 20),
      (''emitted_characters'', 1920), (''edit_distance'', 960)]"

definition legacy_integers :: "(string \<times> string) list" where
  "legacy_integers = [(''requested_characters'', ''intended_characters''), (''issued_characters'', ''typed_characters'')]"

definition hash_fields :: "(string \<times> string) list" where
  "hash_fields =
     [(''requested_sha256'', ''intended_sha256''), (''delivery_sha256'', ''''),
      (''issued_prefix_sha256'', ''acknowledged_prefix_sha256''), (''emitted_sha256'', ''''),
      (''readback_sha256'', ''observed_sha256''), (''readback_frame_sha256'', '''')]"

definition is_hex :: "int \<Rightarrow> bool" where
  "is_hex c \<longleftrightarrow> 48 \<le> c \<and> c \<le> 57 \<or> 97 \<le> c \<and> c \<le> 102"

definition is_hex64 :: "pystr \<Rightarrow> bool" where
  "is_hex64 s \<longleftrightarrow> length s = 64 \<and> list_all is_hex s"

definition copy_string :: "pydict \<Rightarrow> string \<times> pystr list \<Rightarrow> pydict \<Rightarrow> pydict" where
  "copy_string c f r = (case get_none c (u (fst f)) of
       PStr s \<Rightarrow> if s \<in> set (snd f) then dict_set r (u (fst f)) (PStr s) else r
     | _ \<Rightarrow> r)"

text \<open>\<open>candidate.get(key)\<close>, with a fallback to the legacy name.\<close>

definition get_legacy :: "pydict \<Rightarrow> string \<Rightarrow> string option \<Rightarrow> pyval" where
  "get_legacy c k old =
     (if get_none c (u k) = PNone then (case old of None \<Rightarrow> PNone | Some k' \<Rightarrow> get_none c (u k')) else get_none c (u k))"

definition copy_integer :: "pydict \<Rightarrow> string \<times> int \<Rightarrow> pydict \<Rightarrow> pydict" where
  "copy_integer c f r = (case get_legacy c (fst f) (map_of legacy_integers (fst f)) of
       PInt n \<Rightarrow> if 0 \<le> n \<and> n \<le> snd f then dict_set r (u (fst f)) (PInt n) else r
     | _ \<Rightarrow> r)"

definition copy_bool :: "pydict \<Rightarrow> string \<Rightarrow> string option \<Rightarrow> pydict \<Rightarrow> pydict" where
  "copy_bool c k old r = (case get_legacy c k old of PBool b \<Rightarrow> dict_set r (u k) (PBool b) | _ \<Rightarrow> r)"

definition copy_hash :: "pydict \<Rightarrow> string \<times> string \<Rightarrow> pydict \<Rightarrow> pydict" where
  "copy_hash c f r = (case get_legacy c (fst f) (if snd f = [] then None else Some (snd f)) of
       PStr s \<Rightarrow> if is_hex64 s then dict_set r (u (fst f)) (PStr s) else r
     | _ \<Rightarrow> r)"

definition copy_fields :: "pydict \<Rightarrow> pydict \<Rightarrow> pydict" where
  "copy_fields c r0 =
     (let r1 = fold (copy_string c) allowed_strings r0;
          r2 = fold (copy_integer c) integer_limits r1;
          r3 = copy_bool c ''delivery_transformed'' None (copy_bool c ''used_fast_path'' None r2);
          r4 = fold (copy_hash c) hash_fields r3;
          r5 = copy_bool c ''exact_readback_sha256_match'' (Some ''exact_sha256_match'') r4
      in copy_bool c ''emitted_exactly_once'' None r5)"

subsection \<open>What a receipt proves\<close>

definition exact_proof :: "pydict \<Rightarrow> bool" where
  "exact_proof r \<longleftrightarrow>
     get_none r (u ''status'') = PStr (u ''verified_exact'') \<and> get_none r (u ''verdict'') = PStr (u ''match'')
     \<and> get_none r (u ''focus_evidence'') = PStr (u ''read_back_verified'')
     \<and> get_none r (u ''exact_readback_sha256_match'') = PBool True
     \<and> get_none r (u ''issued_characters'')
         = get_or r (u ''delivery_characters'') (get_none r (u ''requested_characters''))
     \<and> get_or r (u ''delivery_sha256'') (get_none r (u ''requested_sha256'')) = get_none r (u ''issued_prefix_sha256'')
     \<and> get_or r (u ''delivery_sha256'') (get_none r (u ''requested_sha256'')) = get_none r (u ''readback_sha256'')"

definition proof_state :: "pydict \<Rightarrow> pystr \<Rightarrow> pystr \<Rightarrow> string" where
  "proof_state r observed intended =
     (if exact_proof r
      then if is_hex64 (str_or_empty (get_none r (u ''readback_frame_sha256''))) then ''exact_visual_readback''
           else ''exact_ocr_readback''
      else if get_none r (u ''status'') = PStr (u ''verified_safe_normalized'')
              \<and> str_in (get_none r (u ''verdict'')) (map u [''match'', ''contains''])
      then ''normalized_readback''
      else if observed \<noteq> []
      then if get_none r (u ''status'') = PStr (u ''unverified_truncated'')
              \<or> intended \<noteq> [] \<and> length observed < length intended \<and> py_startswith intended observed
           then ''partial_readback''
           else if get_none r (u ''verdict'') = PStr (u ''mismatch'')
                   \<or> py_startswith (str_or_empty (get_none r (u ''status''))) (u ''failed_'')
           then ''mismatched_readback'' else ''ambiguous_readback''
      else ''issued_only'')"

definition redaction_pops :: "string list" where
  "redaction_pops = [''requested_sha256'', ''delivery_sha256'', ''issued_prefix_sha256'', ''emitted_sha256'',
     ''readback_sha256'', ''readback_frame_sha256'', ''exact_readback_sha256_match'', ''emitted_exactly_once'']"

definition redacted_receipt :: "pydict \<Rightarrow> pydict" where
  "redacted_receipt r = dict_update (fold (\<lambda>k r. dict_pop r (u k)) redaction_pops r)
     [(u ''status'', PStr (u ''delivered_unverified'')), (u ''verdict'', PStr (u ''unverified'')),
      (u ''focus_evidence'', PStr (u ''read_back_not_retained'')), (u ''proof_state'', PStr (u ''not_retained''))]"

definition text_receipt :: "pydict \<Rightarrow> pydict \<Rightarrow> pydict \<Rightarrow> pydict" where
  "text_receipt a c r =
     (let observed = get_none c (u ''observed_text'');
          r1 = (case observed of
                  PStr s \<Rightarrow> if length s \<le> 960
                    then dict_set (dict_set r (u ''observed_text'') (PStr s)) (u ''observed_characters'') (PInt (int (length s)))
                    else r
                | _ \<Rightarrow> r);
          r2 = (case get_none c (u ''summary'') of
                  PStr s \<Rightarrow> if 0 < length s \<and> length s \<le> 320 then dict_set r1 (u ''summary'') (PStr s) else r1
                | _ \<Rightarrow> r1)
      in dict_set r2 (u ''proof_state'')
           (PStr (u (proof_state r2 (the_PStr observed) (flatten_line_breaks (str_or_empty (get_none a (u ''text''))))))))"

subsection \<open>The receipts of a result\<close>

definition receipt_types :: "pystr list" where
  "receipt_types = map u [''type_text'', ''spreadsheet_grid'']"

definition public_receipt :: "nat \<Rightarrow> pydict \<Rightarrow> pydict \<Rightarrow> pydict" where
  "public_receipt i a c =
     (let text = (action_type a = PStr (u ''type_text''));
          red = (text \<and> get_none a (u ''secret'') = PBool True \<or> get_none c (u ''observed_text_redacted'') = PBool True);
          r = dict_set (copy_fields c [(u ''index'', PInt (int i)), (u ''type'', action_type a)])
                (u ''observed_text_redacted'') (PBool red)
      in if red then redacted_receipt r
         else if text then text_receipt a c r
         else dict_set r (u ''proof_state'') (PStr (u ''issued_only'')))"

fun receipt_loop :: "pydict list \<Rightarrow> pyval list \<Rightarrow> nat list \<Rightarrow> (nat \<times> pydict) list" where
  "receipt_loop actions [] seen = []"
| "receipt_loop actions (PDict c # cs) seen = (case get_none c (u ''index'') of
       PInt n \<Rightarrow>
         if n < 0 \<or> int (length actions) \<le> n \<or> nat n \<in> set seen
            \<or> \<not> str_in (action_type (actions ! nat n)) receipt_types
         then receipt_loop actions cs seen
         else (nat n, public_receipt (nat n) (actions ! nat n) c) # receipt_loop actions cs (nat n # seen)
     | _ \<Rightarrow> receipt_loop actions cs seen)"
| "receipt_loop actions (_ # cs) seen = receipt_loop actions cs seen"

definition indexed_receipts :: "pydict \<Rightarrow> pydict list \<Rightarrow> (nat \<times> pydict) list" where
  "indexed_receipts raw actions = (case get_none raw (u ''action_receipts'') of
       PList cs \<Rightarrow> receipt_loop actions (take 20 cs) []
     | _ \<Rightarrow> [])"

definition public_input_receipts :: "pydict \<Rightarrow> pydict list \<Rightarrow> pydict list" where
  "public_input_receipts raw actions = map snd (indexed_receipts raw actions)"

subsection \<open>Redaction leaves no secret and is stable\<close>

lemma dict_set_same: "map_of d k = Some v \<Longrightarrow> dict_set d k v = d"
  by (induction d k v rule: dict_set.induct) (auto split: if_splits)

lemma map_keyed_same: "(\<And>p. p \<in> set d \<Longrightarrow> f p = snd p) \<Longrightarrow> map (\<lambda>p. (fst p, f p)) d = d"
  by (induction d) auto

lemma redact_redacted: "redact_secrets redacted_value = redacted_value"
  by (simp add: redacted_value_def)

lemma redact_idempotent: "redact_secrets (redact_secrets v) = redact_secrets v"
proof (induction v rule: redact_secrets.induct)
  case (2 d)
  let ?m = "marked_secret d"
  let ?f = "\<lambda>p. if hidden_key ?m (fst p) then redacted_value else redact_secrets (snd p)"
  let ?r = "map (\<lambda>p. (fst p, ?f p)) d"
  have again: "redact_secrets (redact_secrets (snd p)) = redact_secrets (snd p)" if "p \<in> set d" "\<not> hidden_key ?m (fst p)" for p
    using "2.IH" [OF refl that] .
  have entry: "?f q = snd q" if "q \<in> set ?r" for q
    using that again redact_redacted by auto
  show ?case
  proof (cases ?m)
    case True
    let ?R = "dict_set ?r (u ''redacted'') (PBool True)"
    have "?f q = snd q" if "q \<in> set ?R" for q
      using set_dict_set [OF that]
    proof
      assume "q = (u ''redacted'', PBool True)"
      then show ?thesis by (simp add: secret_not_hidden)
    next
      assume "q \<in> set ?r"
      then show ?thesis by (rule entry)
    qed
    then have "map (\<lambda>p. (fst p, ?f p)) ?R = ?R" by (rule map_keyed_same)
    moreover have "dict_set ?R (u ''redacted'') (PBool True) = ?R" by (rule dict_set_same) simp
    moreover have "marked_secret ?R" using True by (simp only: marked_dict_set marked_redacted)
    ultimately show ?thesis using True by (simp add: Let_def)
  next
    case False
    have "map (\<lambda>p. (fst p, ?f p)) ?r = ?r" using entry by (rule map_keyed_same)
    with False show ?thesis by (simp add: Let_def marked_redacted [of False d, simplified False])
  qed
qed (auto simp: map_idI)

text \<open>
  C29. Redaction leaves nothing secret behind, at any depth: in the redacted value every credential key and,
  in a dictionary marked secret, every payload key holds the placeholder. Redacting again changes nothing.
\<close>

theorem redaction_hides_secrets:
  "secret_free (redact_secrets v) \<and> redact_secrets (redact_secrets v) = redact_secrets v"
  using redact_secret_free redact_idempotent by blast

subsection \<open>What reaches the public receipt\<close>

lemma copy_string_other: "k \<noteq> u (fst f) \<Longrightarrow> map_of (copy_string c f r) k = map_of r k"
  by (auto simp: copy_string_def split: pyval.splits)

lemma copy_integer_other: "k \<noteq> u (fst f) \<Longrightarrow> map_of (copy_integer c f r) k = map_of r k"
  by (auto simp: copy_integer_def split: pyval.splits)

lemma copy_hash_other: "k \<noteq> u (fst f) \<Longrightarrow> map_of (copy_hash c f r) k = map_of r k"
  by (auto simp: copy_hash_def split: pyval.splits)

lemma copy_bool_other: "k \<noteq> u n \<Longrightarrow> map_of (copy_bool c n old r) k = map_of r k"
  by (auto simp: copy_bool_def split: pyval.splits)

lemma fold_other:
  assumes "\<And>f r. k \<noteq> u (fst f) \<Longrightarrow> map_of (g f r) k = map_of r k"
  shows "k \<notin> (\<lambda>f. u (fst f)) ` set fs \<Longrightarrow> map_of (fold g fs r) k = map_of r k"
  using assms by (induction fs arbitrary: r) auto

definition copied_keys :: "string list" where
  "copied_keys = map fst allowed_strings @ map fst integer_limits @ map fst hash_fields
     @ [''used_fast_path'', ''delivery_transformed'', ''exact_readback_sha256_match'', ''emitted_exactly_once'']"

lemma copy_fields_other:
  assumes "k \<notin> u ` set copied_keys"
  shows "map_of (copy_fields c r) k = map_of r k"
proof -
  have k: "k \<notin> (\<lambda>f. u (fst f)) ` set allowed_strings" "k \<notin> (\<lambda>f. u (fst f)) ` set integer_limits"
    "k \<notin> (\<lambda>f. u (fst f)) ` set hash_fields"
    and b: "k \<noteq> u ''used_fast_path''" "k \<noteq> u ''delivery_transformed''" "k \<noteq> u ''exact_readback_sha256_match''"
      "k \<noteq> u ''emitted_exactly_once''"
    using assms by (auto simp: copied_keys_def)
  show ?thesis
    unfolding copy_fields_def Let_def
    using k b by (simp add: copy_bool_other fold_other [where g = "copy_string c", OF copy_string_other]
        fold_other [where g = "copy_integer c", OF copy_integer_other] fold_other [where g = "copy_hash c", OF copy_hash_other])
qed

lemma base_keys: "list_all (\<lambda>k. k \<notin> set copied_keys) [''index'', ''type'', ''observed_text'', ''summary'', ''observed_text_redacted'']"
  by code_simp

lemma copy_fields_base: "k \<in> set [''index'', ''type'', ''observed_text'', ''summary'', ''observed_text_redacted''] \<Longrightarrow>
    map_of (copy_fields c r) (u k) = map_of r (u k)"
  using base_keys by (intro copy_fields_other) (auto simp: list_all_iff)

lemma fold_pop: "map_of (fold (\<lambda>k r. dict_pop r (u k)) ks r) x = (if x \<in> u ` set ks then None else map_of r x)"
  by (induction ks arbitrary: r) auto

lemma redacted_lookup:
  "map_of (redacted_receipt r) k =
    (if k = u ''proof_state'' then Some (PStr (u ''not_retained''))
     else if k = u ''focus_evidence'' then Some (PStr (u ''read_back_not_retained''))
     else if k = u ''verdict'' then Some (PStr (u ''unverified''))
     else if k = u ''status'' then Some (PStr (u ''delivered_unverified''))
     else if k \<in> u ` set redaction_pops then None else map_of r k)"
  by (simp add: redacted_receipt_def dict_update_def fold_pop)

definition secret_text_action :: "pydict \<Rightarrow> bool" where
  "secret_text_action a \<longleftrightarrow> action_type a = PStr (u ''type_text'') \<and> get_none a (u ''secret'') = PBool True"

definition evidence_keys :: "string list" where
  "evidence_keys = [''observed_text'', ''summary''] @ redaction_pops"

lemma evidence_not_overwritten:
  "list_all (\<lambda>k. k \<notin> set [''proof_state'', ''focus_evidence'', ''verdict'', ''status'']) evidence_keys"
  by code_simp

lemma redacted_evidence:
  assumes "map_of r (u ''observed_text'') = None" "map_of r (u ''summary'') = None"
  shows "list_all (\<lambda>k. map_of (redacted_receipt r) (u k) = None) evidence_keys"
  unfolding list_all_iff
proof
  fix k assume k: "k \<in> set evidence_keys"
  then have "k \<notin> set [''proof_state'', ''focus_evidence'', ''verdict'', ''status'']"
    using evidence_not_overwritten [unfolded list_all_iff] by blast
  moreover have "k \<in> set redaction_pops \<or> map_of r (u k) = None" using k assms by (auto simp: evidence_keys_def)
  ultimately show "map_of (redacted_receipt r) (u k) = None" by (auto simp: redacted_lookup)
qed

lemma public_receipt_redacted:
  assumes "secret_text_action a \<or> get_none c (u ''observed_text_redacted'') = PBool True"
  shows "list_all (\<lambda>k. map_of (public_receipt i a c) (u k) = None) evidence_keys
    \<and> get_none (public_receipt i a c) (u ''status'') = PStr (u ''delivered_unverified'')
    \<and> get_none (public_receipt i a c) (u ''proof_state'') = PStr (u ''not_retained'')"
proof -
  let ?r = "dict_set (copy_fields c [(u ''index'', PInt (int i)), (u ''type'', action_type a)]) (u ''observed_text_redacted'') (PBool True)"
  have "public_receipt i a c = redacted_receipt ?r"
    using assms by (auto simp: public_receipt_def Let_def secret_text_action_def)
  moreover have "map_of ?r (u ''observed_text'') = None" "map_of ?r (u ''summary'') = None"
    by (simp_all add: copy_fields_base)
  ultimately show ?thesis using redacted_evidence [of ?r] by (simp add: redacted_lookup get_none_def get_or_def)
qed

lemma public_receipt_open:
  assumes "\<not> secret_text_action a" "get_none c (u ''observed_text_redacted'') \<noteq> PBool True"
  shows "public_receipt i a c =
    (let r = dict_set (copy_fields c [(u ''index'', PInt (int i)), (u ''type'', action_type a)]) (u ''observed_text_redacted'') (PBool False)
     in if action_type a = PStr (u ''type_text'') then text_receipt a c r else dict_set r (u ''proof_state'') (PStr (u ''issued_only'')))"
  using assms by (auto simp: public_receipt_def Let_def secret_text_action_def)

lemma receipt_loop_ok:
  "(i, r) \<in> set (receipt_loop actions cs seen) \<Longrightarrow>
     i < length actions \<and> i \<notin> set seen \<and> str_in (action_type (actions ! i)) receipt_types
     \<and> (\<exists>c. PDict c \<in> set cs \<and> get_none c (u ''index'') = PInt (int i) \<and> r = public_receipt i (actions ! i) c)"
proof (induction actions cs seen rule: receipt_loop.induct)
  case (2 actions c cs seen)
  show ?case
  proof (cases "get_none c (u ''index'')")
    case (PInt n)
    show ?thesis
    proof (cases "n < 0 \<or> int (length actions) \<le> n \<or> nat n \<in> set seen \<or> \<not> str_in (action_type (actions ! nat n)) receipt_types")
      case True
      with 2 PInt show ?thesis by auto
    next
      case False
      with 2 PInt show ?thesis by (auto simp: nat_less_iff)
    qed
  qed (use 2 in auto)
qed auto

lemma receipt_loop_distinct: "distinct (map fst (receipt_loop actions cs seen)) \<and> length (receipt_loop actions cs seen) \<le> length cs"
proof (induction actions cs seen rule: receipt_loop.induct)
  case (2 actions c cs seen)
  show ?case
  proof (cases "get_none c (u ''index'')")
    case (PInt n)
    have "nat n \<notin> fst ` set (receipt_loop actions cs (nat n # seen))" using receipt_loop_ok by force
    with 2 PInt show ?thesis by auto
  qed (use 2 in auto)
qed auto

lemma indexed_receiptE:
  assumes "(i, r) \<in> set (indexed_receipts raw actions)"
  obtains c where "i < length actions" "str_in (action_type (actions ! i)) receipt_types" "r = public_receipt i (actions ! i) c"
    "get_none c (u ''index'') = PInt (int i)"
  using assms by (auto simp: indexed_receipts_def split: pyval.splits dest!: receipt_loop_ok)

text \<open>
  C30. What crosses the public boundary is bounded and belongs to an attempted input: at most twenty receipts,
  for different actions of the sequence that type text or fill a grid. A secret text carries no read-back, no
  digest and no summary, and claims nothing but an unverified delivery, whatever the tool reported.
\<close>

theorem public_receipts_bounded_and_redacted:
  "length (public_input_receipts raw actions) \<le> 20 \<and> distinct (map fst (indexed_receipts raw actions))
   \<and> (\<forall>(i, r) \<in> set (indexed_receipts raw actions).
        i < length actions \<and> str_in (action_type (actions ! i)) receipt_types
        \<and> (secret_text_action (actions ! i) \<longrightarrow>
             list_all (\<lambda>k. map_of r (u k) = None) evidence_keys
             \<and> get_none r (u ''status'') = PStr (u ''delivered_unverified'')
             \<and> get_none r (u ''proof_state'') = PStr (u ''not_retained'')))"
proof -
  have "length (indexed_receipts raw actions) \<le> 20 \<and> distinct (map fst (indexed_receipts raw actions))"
  proof (cases "get_none raw (u ''action_receipts'')")
    case (PList cs)
    have "length (take 20 cs) \<le> 20" by simp
    with receipt_loop_distinct [of actions "take 20 cs" "[]"] PList show ?thesis by (simp add: indexed_receipts_def)
  qed (simp_all add: indexed_receipts_def)
  moreover have "i < length actions \<and> str_in (action_type (actions ! i)) receipt_types
        \<and> (secret_text_action (actions ! i) \<longrightarrow> list_all (\<lambda>k. map_of r (u k) = None) evidence_keys
             \<and> get_none r (u ''status'') = PStr (u ''delivered_unverified'')
             \<and> get_none r (u ''proof_state'') = PStr (u ''not_retained''))"
    if "(i, r) \<in> set (indexed_receipts raw actions)" for i r
    using that
  proof (rule indexed_receiptE)
    fix c assume "i < length actions" "str_in (action_type (actions ! i)) receipt_types" "r = public_receipt i (actions ! i) c"
    then show ?thesis using public_receipt_redacted [of "actions ! i" c i] by simp
  qed
  ultimately show ?thesis by (auto simp: public_input_receipts_def)
qed

subsection \<open>An exact state is earned\<close>

definition exact_states :: "string list" where
  "exact_states = [''exact_visual_readback'', ''exact_ocr_readback'']"

lemma exact_proof_of_state: "proof_state r seen want \<in> set exact_states \<Longrightarrow> exact_proof r"
  by (auto simp: proof_state_def exact_states_def split: if_splits)

lemma exact_proof_dict_set: "exact_proof (dict_set r (u ''proof_state'') v) = exact_proof r"
  by (simp add: exact_proof_def get_none_def get_or_def)

lemma text_receipt_exact:
  assumes "get_none (text_receipt a c r) (u ''proof_state'') = PStr (u p)" "p \<in> set exact_states"
  shows "exact_proof (text_receipt a c r)"
proof -
  obtain r2 seen want where t: "text_receipt a c r = dict_set r2 (u ''proof_state'') (PStr (u (proof_state r2 seen want)))"
    by (simp add: text_receipt_def Let_def)
  with assms have "proof_state r2 seen want = p" by (simp add: get_none_def get_or_def)
  with assms(2) exact_proof_of_state t show ?thesis by (metis exact_proof_dict_set)
qed

lemma exact_state_earned:
  assumes "(i, r) \<in> set (indexed_receipts raw actions)"
    and "get_none r (u ''proof_state'') = PStr (u p)" "p \<in> set exact_states"
  shows "action_type (actions ! i) = PStr (u ''type_text'') \<and> \<not> secret_text_action (actions ! i) \<and> exact_proof r"
  using assms(1)
proof (rule indexed_receiptE)
  fix c assume r: "r = public_receipt i (actions ! i) c"
  have p: "p \<noteq> ''not_retained''" "p \<noteq> ''issued_only''" using assms(3) by (auto simp: exact_states_def)
  have open_text: "\<not> secret_text_action (actions ! i)" "get_none c (u ''observed_text_redacted'') \<noteq> PBool True"
    using public_receipt_redacted [of "actions ! i" c i] r assms(2) p by auto
  show ?thesis
  proof (cases "action_type (actions ! i) = PStr (u ''type_text'')")
    case True
    with open_text public_receipt_open [OF open_text, of i] r assms text_receipt_exact show ?thesis
      by (auto simp: Let_def)
  next
    case False
    with public_receipt_open [OF open_text, of i] r assms(2) p show ?thesis
      by (simp add: Let_def get_none_def get_or_def)
  qed
qed

text \<open>
  A receipt that names an exact read-back earned it: it belongs to an open text of the sequence, the tool
  reported an exact match that was read back in focus, the characters issued are the ones to deliver, and the
  digests of the delivery, of the issued prefix and of the read-back agree. The state the tool itself claims
  is never passed on.
\<close>

theorem exact_state_is_earned:
  assumes "(i, r) \<in> set (indexed_receipts raw actions)"
    and "get_none r (u ''proof_state'') = PStr (u p)" "p \<in> set exact_states"
  shows "action_type (actions ! i) = PStr (u ''type_text'') \<and> \<not> secret_text_action (actions ! i) \<and> exact_proof r"
  by (rule exact_state_earned [OF assms])

subsection \<open>Concrete receipts\<close>

definition demo_claim :: pydict where
  "demo_claim = [(u ''index'', PInt 0), (u ''status'', PStr (u ''verified_exact'')), (u ''verdict'', PStr (u ''match'')),
     (u ''focus_evidence'', PStr (u ''read_back_verified'')), (u ''exact_readback_sha256_match'', PBool True)]"

definition demo_digests :: "pystr \<Rightarrow> pydict" where
  "demo_digests h = [(u ''requested_characters'', PInt 2), (u ''issued_characters'', PInt 2), (u ''requested_sha256'', PStr h),
     (u ''issued_prefix_sha256'', PStr h), (u ''readback_sha256'', PStr h), (u ''observed_text'', PStr (u ''ok''))]"

definition demo_hash :: pystr where "demo_hash = replicate 64 97"

definition demo_text :: pydict where
  "demo_text = [(u ''type'', PStr (u ''type_text'')), (u ''text'', PStr (u ''ok''))]"

definition demo_raw :: "pydict \<Rightarrow> pydict" where
  "demo_raw c = [(u ''action_receipts'', PList [PDict c])]"

lemma demo_receipts:
  "map (\<lambda>p. (fst p, get_none (snd p) (u ''proof_state''))) (indexed_receipts (demo_raw (demo_claim @ demo_digests demo_hash)) [demo_text])
     = [(0, PStr (u ''exact_ocr_readback''))]"
  by code_simp

theorem exact_state_is_earned_witness:
  "exact_proof (snd (hd (indexed_receipts (demo_raw (demo_claim @ demo_digests demo_hash)) [demo_text])))"
proof -
  let ?xs = "indexed_receipts (demo_raw (demo_claim @ demo_digests demo_hash)) [demo_text]"
  obtain r where r: "?xs = [(0, r)]" "get_none r (u ''proof_state'') = PStr (u ''exact_ocr_readback'')"
    using demo_receipts by (cases ?xs) auto
  with exact_state_is_earned [of 0 r "demo_raw (demo_claim @ demo_digests demo_hash)" "[demo_text]" "''exact_ocr_readback''"]
  show ?thesis by (simp add: exact_states_def)
qed

definition demo_secret :: pydict where
  "demo_secret = demo_text @ [(u ''secret'', PBool True)]"

lemma demo_secret_facts:
  "map fst (indexed_receipts (demo_raw (demo_claim @ demo_digests demo_hash)) [demo_secret]) = [0]"
  "secret_text_action demo_secret"
  by code_simp+

theorem public_receipts_bounded_and_redacted_witness:
  "map_of (snd (hd (indexed_receipts (demo_raw (demo_claim @ demo_digests demo_hash)) [demo_secret]))) (u ''observed_text'') = None"
proof -
  let ?raw = "demo_raw (demo_claim @ demo_digests demo_hash)"
  obtain r where r: "indexed_receipts ?raw [demo_secret] = [(0, r)]"
    using demo_secret_facts(1) by (cases "indexed_receipts ?raw [demo_secret]") auto
  with public_receipts_bounded_and_redacted [of ?raw "[demo_secret]"] demo_secret_facts(2)
  have "list_all (\<lambda>k. map_of r (u k) = None) evidence_keys" by simp
  then have "map_of r (u ''observed_text'') = None" by (simp add: evidence_keys_def)
  with r show ?thesis by simp
qed

text \<open>
  A claim that reports no count and no digest at all passes the same comparisons, of a missing value with a
  missing value, and is named an exact read-back.
\<close>

theorem missing_evidence_is_exact:
  "map (\<lambda>r. (map_of r (u ''readback_sha256''), map_of r (u ''issued_characters''), get_none r (u ''proof_state'')))
     (public_input_receipts (demo_raw demo_claim) [demo_text])
   = [(None, None, PStr (u ''exact_ocr_readback''))]"
  by code_simp

end
