(* ===== verification/DirectCalls.thy ===== *)
theory DirectCalls
  imports RunStore InputReceipts
begin

text \<open>
  The records and the operator authority over direct tool calls, \<open>harness/direct_calls.py\<close>. Every operation
  runs under one lock, so it is one function on the coordinator's state: the run store and the two maps it
  keeps in memory. The computer answers through a parameter, where \<open>None\<close> is a call that raises; the events of
  one operation carry one clock reading. An exception leaves what was stored before it.
\<close>

subsection \<open>State and messages\<close>

datatype direct_error = De_store store_error | De_value string | De_unknown_call | De_computer | De_invalid_result

record direct_state =
  dc_store :: mem_store
  dc_calls :: "(pystr \<times> pystr) list"
  dc_sessions :: "(pystr \<times> pystr) list"

record direct_begin =
  bc_call :: pystr
  bc_tool :: pystr
  bc_arguments :: pydict
  bc_caller :: pydict

record direct_finish =
  fc_call :: pystr
  fc_run :: pystr
  fc_completed :: bool
  fc_latency :: "int option"
  fc_result :: pydict
  fc_error :: pystr

record direct_decision =
  dd_allowed :: bool
  dd_run :: pystr
  dd_reason :: pystr

type_synonym 'a direct_answer = "(direct_error, 'a) result \<times> direct_state"

definition answer_bind :: "'a direct_answer \<Rightarrow> ('a \<Rightarrow> direct_state \<Rightarrow> 'b direct_answer) \<Rightarrow> 'b direct_answer" where
  "answer_bind m f = (case m of (Inl e, s) \<Rightarrow> (Inl e, s) | (Inr x, s) \<Rightarrow> f x s)"

lemma answer_bind_simps [simp]: "answer_bind (Inl e, s) f = (Inl e, s)" "answer_bind (Inr x, s) f = f x s"
  by (simp_all add: answer_bind_def)

lemma answer_bind_Inr: "answer_bind m f = (Inr y, s') \<longleftrightarrow> (\<exists>x s. m = (Inr x, s) \<and> f x s = (Inr y, s'))"
  by (auto simp: answer_bind_def split: prod.splits sum.splits)

definition save_run :: "run_snapshot \<Rightarrow> direct_state \<Rightarrow> run_snapshot direct_answer" where
  "save_run r s = (case mem_save r (dc_store s) of
       Inl e \<Rightarrow> (Inl (De_store e), s)
     | Inr st \<Rightarrow> (Inr r, s\<lparr>dc_store := st\<rparr>))"

subsection \<open>The tools and what they may do\<close>

definition observation_tools :: "pystr list" where
  "observation_tools = map u [''pikvm_screenshot'', ''pikvm_parse_screen'', ''pikvm_ocr_region'', ''pikvm_find_text'',
     ''pikvm_export_memory_update'', ''pikvm_abort'', ''pikvm_panic_stop'']"

definition model_approval_tools :: "pystr list" where
  "model_approval_tools = map u [''pikvm_resolve_approval'', ''pikvm_autonomous_approve'']"

definition no_effect_tools :: "pystr list" where
  "no_effect_tools = map u [''pikvm_open'', ''pikvm_screenshot'', ''pikvm_parse_screen'', ''pikvm_ocr_region'',
     ''pikvm_find_text'', ''pikvm_export_memory_update'']"

definition passive_actions :: "pystr list" where
  "passive_actions = map u [''wait'', ''wait_for_change'', ''wait_for_stable_screen'']"

definition failure_statuses :: "pystr list" where
  "failure_statuses = map u [''error'', ''failed'', ''interrupted'', ''stopped'']"

definition stale_statuses :: "pystr list" where
  "stale_statuses = map u [''control_changed'', ''stale_world'']"

definition policy_refused_statuses :: "pystr list" where
  "policy_refused_statuses = map u [''blocked'', ''rejected'']"

definition refusal_reason :: "run_snapshot \<Rightarrow> pystr \<Rightarrow> pystr" where
  "refusal_reason r tool =
     (if ru_status r \<in> {Rs_aborted, Rs_blocked, Rs_rejected, Rs_completed, Rs_failed} \<and> tool \<notin> set observation_tools
      then (case ru_error r of
              Some e \<Rightarrow> if e \<noteq> [] then e else u ''direct MCP session was stopped by the operator''
            | None \<Rightarrow> u ''direct MCP session was stopped by the operator'')
      else if tool \<in> set model_approval_tools then u ''approval decisions must come from the operator console''
      else if ru_status r = Rs_paused \<and> tool \<notin> set observation_tools then u ''operator paused direct MCP actions''
      else if ru_status r = Rs_needs_approval \<and> tool \<notin> set observation_tools
      then u ''direct MCP action is waiting for operator approval''
      else [])"

definition run_status_of :: "pystr \<Rightarrow> pystr \<Rightarrow> run_status" where
  "run_status_of status tool =
     (if status = u ''completed''
      then if tool \<in> set (map u [''pikvm_autonomous_start'', ''pikvm_autonomous_continue'']) then Rs_completed else Rs_running
      else if status = u ''needs_approval'' then Rs_needs_approval
      else if status = u ''aborted'' then Rs_aborted
      else if status = u ''failed'' then Rs_paused
      else if status = u ''blocked'' then Rs_blocked
      else if status = u ''rejected'' then Rs_rejected
      else Rs_running)"

subsection \<open>Finding runs and calls\<close>

definition attempt_event :: "run_snapshot \<Rightarrow> pystr \<Rightarrow> harness_event option" where
  "attempt_event r c =
     List.find (\<lambda>e. he_kind e = u ''action.attempted'' \<and> get_none (he_data e) (u ''call_id'') = PStr c) (rev (ru_events r))"

definition attempt_for_call :: "run_snapshot \<Rightarrow> pystr \<Rightarrow> pydict" where
  "attempt_for_call r c = (case attempt_event r c of None \<Rightarrow> [] | Some e \<Rightarrow> he_data e)"

definition tool_for_call :: "run_snapshot \<Rightarrow> pystr \<Rightarrow> pystr" where
  "tool_for_call r c = (case attempt_event r c of None \<Rightarrow> [] | Some e \<Rightarrow> str_or_empty (get_none (he_data e) (u ''tool'')))"

text \<open>The first of the listed runs that satisfies a test, loading each.\<close>

fun find_run ::
  "(pystr \<Rightarrow> (store_error, run_snapshot) result) \<Rightarrow> (run_snapshot \<Rightarrow> bool) \<Rightarrow> pystr list \<Rightarrow> (store_error, run_snapshot option) result" where
  "find_run load p [] = Inr None"
| "find_run load p (i # is) = bind_result (load i) (\<lambda>r. if p r then Inr (Some r) else find_run load p is)"

definition listed_runs :: "direct_state \<Rightarrow> pystr list" where
  "listed_runs s = map ru_id (mem_summaries 500 (dc_store s))"

definition load_control :: "pystr \<Rightarrow> direct_state \<Rightarrow> (store_error, run_snapshot) result" where
  "load_control i s = mem_get_control control_event_tail_limit i (dc_store s)"

definition direct_run :: "pystr \<Rightarrow> direct_state \<Rightarrow> run_snapshot direct_answer" where
  "direct_run i s = (case load_control i s of
       Inl e \<Rightarrow> (Inl (De_store e), s)
     | Inr r \<Rightarrow> if ru_origin r \<noteq> Direct_mcp then (Inl (De_value ''run is not a direct MCP session''), s) else (Inr r, s))"

definition new_direct_run :: "pystr \<Rightarrow> int \<Rightarrow> direct_begin \<Rightarrow> pystr \<Rightarrow> run_snapshot" where
  "new_direct_run fresh t c session =
     record_event ''run.created'' [(u ''origin'', PStr (u ''direct_mcp'')), (u ''caller'', PDict (bc_caller c))] t
       \<lparr>ru_id = u ''direct-'' @ fresh, ru_status = Rs_running, ru_origin = Direct_mcp, ru_caller = bc_caller c, ru_updated = t,
        ru_session = (if session = [] then None else Some session), ru_observation = None, ru_approval = None,
        ru_image_path = None, ru_image_revision = 0, ru_images = [], ru_next_action = 0, ru_error = None,
        ru_activity = None, ru_cursor = 0, ru_events = []\<rparr>"

definition run_for_begin :: "pystr \<Rightarrow> int \<Rightarrow> direct_begin \<Rightarrow> pystr \<Rightarrow> direct_state \<Rightarrow> run_snapshot direct_answer" where
  "run_for_begin fresh t c session s =
     (case (if session = [] then None else map_of (dc_sessions s) session) of
        Some (x # xs) \<Rightarrow>
          (case load_control (x # xs) s of
             Inl e \<Rightarrow> (Inl (De_store e), s)
           | Inr r \<Rightarrow> (Inr (r\<lparr>ru_caller := bc_caller c\<rparr>), s))
      | _ \<Rightarrow>
          if session = [] then (Inr (new_direct_run fresh t c session), s)
          else (case find_run (\<lambda>i. mem_get_state i (dc_store s))
                       (\<lambda>r. ru_origin r = Direct_mcp \<and> ru_session r = Some session) (listed_runs s) of
                  Inl e \<Rightarrow> (Inl (De_store e), s)
                | Inr (Some r) \<Rightarrow>
                    (Inr (r\<lparr>ru_caller := bc_caller c\<rparr>), s\<lparr>dc_sessions := dict_set (dc_sessions s) session (ru_id r)\<rparr>)
                | Inr None \<Rightarrow> (Inr (new_direct_run fresh t c session), s)))"

definition run_for_finish :: "direct_finish \<Rightarrow> direct_state \<Rightarrow> run_snapshot direct_answer" where
  "run_for_finish c s =
     (let i = (if fc_run c \<noteq> [] then fc_run c else case map_of (dc_calls s) (fc_call c) of None \<Rightarrow> [] | Some i \<Rightarrow> i)
      in if i \<noteq> []
         then answer_bind (direct_run i s) (\<lambda>r s.
                if tool_for_call r (fc_call c) \<noteq> []
                then (Inr r, s\<lparr>dc_calls := dict_set (dc_calls s) (fc_call c) (ru_id r)\<rparr>)
                else (Inl De_unknown_call, s))
         else (case find_run (\<lambda>i. load_control i s)
                      (\<lambda>r. ru_origin r = Direct_mcp \<and> tool_for_call r (fc_call c) \<noteq> []) (listed_runs s) of
                 Inl e \<Rightarrow> (Inl (De_store e), s)
               | Inr (Some r) \<Rightarrow> (Inr r, s\<lparr>dc_calls := dict_set (dc_calls s) (fc_call c) (ru_id r)\<rparr>)
               | Inr None \<Rightarrow> (Inl De_unknown_call, s)))"

subsection \<open>The screen a pointer action was based on\<close>

definition is_py_int :: "pyval \<Rightarrow> bool" where
  "is_py_int v = (case v of PInt _ \<Rightarrow> True | PBool _ \<Rightarrow> True | _ \<Rightarrow> False)"

definition int_point :: "pydict \<Rightarrow> (pyval \<times> pyval) option" where
  "int_point d =
     (let x = get_none d (u ''x''); y = get_none d (u ''y'') in if is_py_int x \<and> is_py_int y then Some (x, y) else None)"

fun first_click :: "pyval list \<Rightarrow> (pyval \<times> pyval) option" where
  "first_click [] = None"
| "first_click (PDict a # as) =
     (if str_in (get_none a (u ''type'')) (map u [''click'', ''double_click''])
      then case int_point a of Some p \<Rightarrow> Some p | None \<Rightarrow> first_click as
      else first_click as)"
| "first_click (_ # as) = first_click as"

definition click_coordinates :: "direct_begin \<Rightarrow> (pyval \<times> pyval) option" where
  "click_coordinates c =
     (if bc_tool c = u ''pikvm_click'' then int_point (bc_arguments c)
      else if bc_tool c \<noteq> u ''pikvm_run_burst'' then None
      else case get_none (bc_arguments c) (u ''actions'') of PList as \<Rightarrow> first_click as | _ \<Rightarrow> None)"

definition machine_of :: "run_snapshot \<Rightarrow> pydict" where
  "machine_of r = (case ru_observation r of None \<Rightarrow> [] | Some ob \<Rightarrow> ob_machine ob)"

definition fingerprint :: "pydict \<Rightarrow> pystr" where
  "fingerprint m = str_or_empty (get_none m (u ''fingerprint''))"

text \<open>\<open>identity_changed old new\<close>: both machines name themselves, differently.\<close>

definition identity_changed :: "pydict \<Rightarrow> pydict \<Rightarrow> bool" where
  "identity_changed old new \<longleftrightarrow> fingerprint old \<noteq> [] \<and> fingerprint new \<noteq> [] \<and> fingerprint old \<noteq> fingerprint new"

definition identity_data :: "pydict \<Rightarrow> pydict \<Rightarrow> pydict" where
  "identity_data old new =
     [(u ''previous_fingerprint'', PStr (fingerprint old)), (u ''current_fingerprint'', PStr (fingerprint new)),
      (u ''previous_alias'', get_none old (u ''alias'')), (u ''current_alias'', get_none new (u ''alias'')),
      (u ''source'', PStr (u ''harness''))]"

definition evidence_unavailable :: "direct_begin \<Rightarrow> string \<Rightarrow> int \<Rightarrow> run_snapshot \<Rightarrow> run_snapshot" where
  "evidence_unavailable c reason t = record_event ''action.pre_action_evidence_unavailable''
     [(u ''call_id'', PStr (bc_call c)), (u ''tool'', PStr (bc_tool c)), (u ''reason'', PStr (u reason)),
      (u ''source'', PStr (u ''harness''))] t"

definition retain_evidence :: "direct_begin \<Rightarrow> observation \<Rightarrow> pystr \<Rightarrow> int \<Rightarrow> run_snapshot \<Rightarrow> run_snapshot" where
  "retain_evidence c ob path t r =
     (let index = ru_next_action r; revision = ru_image_revision r + 1
      in record_event ''action.pre_action_evidence_captured''
           [(u ''call_id'', PStr (bc_call c)), (u ''tool'', PStr (bc_tool c)), (u ''revision'', PInt revision),
            (u ''action_index'', PInt index), (u ''evidence_kind'', PStr (u ''pre_action'')),
            (u ''before_frame_id'', ob_frame ob), (u ''source'', PStr (u ''harness''))] t
           (r\<lparr>ru_next_action := index + 1, ru_image_path := Some path, ru_image_revision := revision,
              ru_images := tail_of 63 (ru_images r)
                @ [\<lparr>vi_revision = revision, vi_action = index, vi_frame = ob_frame ob, vi_path = path\<rparr>]\<rparr>))"

definition identity_error :: pystr where
  "identity_error = u ''target identity changed before direct MCP input''"

text \<open>The refusal, the index of the retained frame, and the run.\<close>

definition capture_pre_action ::
  "observation option \<Rightarrow> (pystr \<Rightarrow> bool) \<Rightarrow> direct_begin \<Rightarrow> pystr \<Rightarrow> int \<Rightarrow> run_snapshot \<Rightarrow> pystr \<times> int option \<times> run_snapshot" where
  "capture_pre_action screen is_file c session t r =
     (if session = [] \<or> click_coordinates c = None then ([], None, r)
      else case screen of
        None \<Rightarrow> ([], None, evidence_unavailable c ''screen capture unavailable'' t r)
      | Some ob \<Rightarrow>
          (let r1 = r\<lparr>ru_observation := Some ob\<rparr>
           in if identity_changed (machine_of r) (ob_machine ob)
              then (identity_error, None,
                record_event ''target.identity_changed'' ((u ''call_id'', PStr (bc_call c)) # identity_data (machine_of r) (ob_machine ob)) t
                  (r1\<lparr>ru_status := Rs_blocked, ru_error := Some identity_error, ru_approval := None\<rparr>))
              else case ob_image ob of
                Some (x # xs) \<Rightarrow>
                  if is_file (x # xs) then ([], Some (ru_next_action r1), retain_evidence c ob (x # xs) t r1)
                  else ([], None, evidence_unavailable c ''screen artifact unavailable'' t r1)
              | _ \<Rightarrow> ([], None, evidence_unavailable c ''screen artifact unavailable'' t r1)))"

subsection \<open>Beginning a call\<close>

definition attempt_data :: "direct_begin \<Rightarrow> int option \<Rightarrow> pydict" where
  "attempt_data c index =
     [(u ''call_id'', PStr (bc_call c)), (u ''tool'', PStr (bc_tool c)), (u ''arguments'', redact_secrets (PDict (bc_arguments c)))]
     @ (case index of None \<Rightarrow> [] | Some n \<Rightarrow> [(u ''index'', PInt n)])
     @ [(u ''source'', PStr (u ''direct_mcp'')), (u ''caller'', PDict (bc_caller c))]"

definition refusal_data :: "direct_begin \<Rightarrow> pystr \<Rightarrow> pydict" where
  "refusal_data c reason =
     [(u ''call_id'', PStr (bc_call c)), (u ''tool'', PStr (bc_tool c)), (u ''reason'', PStr reason),
      (u ''effect_state'', PStr (u ''not_applicable'')), (u ''source'', PStr (u ''direct_mcp'')),
      (u ''caller'', PDict (bc_caller c))]"

definition begin_session :: "direct_begin \<Rightarrow> pystr" where
  "begin_session c = str_or_empty (get_none (bc_arguments c) (u ''session_id''))"

definition begin_on_run ::
  "observation option \<Rightarrow> (pystr \<Rightarrow> bool) \<Rightarrow> int \<Rightarrow> direct_begin \<Rightarrow> run_snapshot \<Rightarrow> direct_state \<Rightarrow> direct_decision direct_answer" where
  "begin_on_run screen is_file t c r s =
     (let session = begin_session c; reason = refusal_reason r (bc_tool c)
      in if reason \<noteq> []
         then answer_bind (save_run (record_event ''action.refused_by_operator'' (refusal_data c reason) t r) s)
                (\<lambda>r s. (Inr \<lparr>dd_allowed = False, dd_run = ru_id r, dd_reason = reason\<rparr>, s))
         else case capture_pre_action screen is_file c session t r of (refusal, index, r1) \<Rightarrow>
           if refusal \<noteq> []
           then answer_bind (save_run r1 s) (\<lambda>r s. (Inr \<lparr>dd_allowed = False, dd_run = ru_id r, dd_reason = refusal\<rparr>, s))
           else answer_bind (save_run (record_event ''action.attempted'' (attempt_data c index) t r1) s)
                  (\<lambda>r s. (Inr \<lparr>dd_allowed = True, dd_run = ru_id r, dd_reason = []\<rparr>,
                          s\<lparr>dc_calls := dict_set (dc_calls s) (bc_call c) (ru_id r),
                            dc_sessions := (if session = [] then dc_sessions s else dict_set (dc_sessions s) session (ru_id r))\<rparr>)))"

definition begin_call ::
  "observation option \<Rightarrow> (pystr \<Rightarrow> bool) \<Rightarrow> pystr \<Rightarrow> int \<Rightarrow> direct_begin \<Rightarrow> direct_state \<Rightarrow> direct_decision direct_answer" where
  "begin_call screen is_file fresh t c s =
     answer_bind (run_for_begin fresh t c (begin_session c) s) (begin_on_run screen is_file t c)"

subsection \<open>What a finished call proves\<close>

definition actions_for_call :: "pystr \<Rightarrow> pydict \<Rightarrow> pydict list" where
  "actions_for_call tool args =
     (if tool = u ''pikvm_run_burst''
      then (case get_none args (u ''actions'') of
              PList as \<Rightarrow> concat (map (\<lambda>a. case a of PDict d \<Rightarrow> [d] | _ \<Rightarrow> []) as)
            | _ \<Rightarrow> [])
      else if tool = u ''pikvm_type_text''
      then [[(u ''type'', PStr (u ''type_text'')), (u ''secret'', PBool (get_none args (u ''secret'') = PBool True))]]
      else if tool = u ''pikvm_click'' then [[(u ''type'', PStr (u ''click''))]]
      else if tool = u ''pikvm_key'' then [[(u ''type'', PStr (u ''key''))]]
      else if tool = u ''pikvm_scroll'' then [[(u ''type'', PStr (u ''scroll''))]]
      else [])"

definition active_inputs :: "pydict list \<Rightarrow> (nat \<times> pystr) list" where
  "active_inputs actions = filter (\<lambda>p. snd p \<notin> set passive_actions)
     (zip [0..<length actions] (map (\<lambda>a. str_or_empty (get_none a (u ''type''))) actions))"

definition public_receipt_at :: "pydict list \<Rightarrow> nat \<Rightarrow> pydict" where
  "public_receipt_at receipts i = (case List.find (\<lambda>r. get_none r (u ''index'') = PInt (int i)) (rev receipts) of
       None \<Rightarrow> [] | Some r \<Rightarrow> r)"

definition delivery_hash :: "pydict \<Rightarrow> pyval" where
  "delivery_hash r = get_or r (u ''delivery_sha256'') (get_none r (u ''requested_sha256''))"

definition exact_receipt :: "pydict \<Rightarrow> bool" where
  "exact_receipt r \<longleftrightarrow>
     get_none r (u ''status'') = PStr (u ''verified_exact'') \<and> get_none r (u ''verdict'') = PStr (u ''match'')
     \<and> get_none r (u ''focus_evidence'') = PStr (u ''read_back_verified'')
     \<and> str_in (get_none r (u ''proof_state'')) (map u [''exact_ocr_readback'', ''exact_readback''])
     \<and> get_none r (u ''exact_readback_sha256_match'') = PBool True
     \<and> is_PStr (delivery_hash r) \<and> the_PStr (delivery_hash r) \<noteq> []
     \<and> delivery_hash r = get_none r (u ''readback_sha256'')
     \<and> get_none r (u ''issued_characters'') = get_or r (u ''delivery_characters'') (get_none r (u ''requested_characters''))"

definition exact_input_effect_verified :: "pydict list \<Rightarrow> pydict list \<Rightarrow> bool" where
  "exact_input_effect_verified actions receipts =
     (let active = active_inputs actions
      in active \<noteq> [] \<and> list_all (\<lambda>p. snd p = u ''type_text'') active
         \<and> list_all (\<lambda>p. exact_receipt (public_receipt_at receipts (fst p))) active)"

datatype effect_state = Es_failed | Es_not_applicable | Es_unverified | Es_verified

fun effect_name :: "effect_state \<Rightarrow> string" where
  "effect_name Es_failed = ''failed''"
| "effect_name Es_not_applicable = ''not_applicable''"
| "effect_name Es_unverified = ''unverified''"
| "effect_name Es_verified = ''verified''"

definition effect_outcome :: "pystr \<Rightarrow> pystr \<Rightarrow> pydict list \<Rightarrow> pydict list \<Rightarrow> string \<times> effect_state" where
  "effect_outcome tool status actions receipts =
     (if status \<in> set failure_statuses then (''action.failed'', Es_failed)
      else if status \<in> set stale_statuses then (''action.refused_stale'', Es_not_applicable)
      else if status \<in> set policy_refused_statuses then (''action.refused_by_policy'', Es_not_applicable)
      else if tool \<in> set no_effect_tools then (''action.completed'', Es_not_applicable)
      else if status = u ''unverified'' then (''action.completed_unverified'', Es_unverified)
      else if exact_input_effect_verified actions receipts then (''action.completed'', Es_verified)
      else (''action.completed_unverified'', Es_unverified))"

definition is_class_char :: "int \<Rightarrow> bool" where
  "is_class_char c \<longleftrightarrow> 65 \<le> c \<and> c \<le> 90 \<or> 97 \<le> c \<and> c \<le> 122 \<or> 48 \<le> c \<and> c \<le> 58 \<or> c = 95 \<or> c = 46 \<or> c = 45"

definition error_class :: "pystr \<Rightarrow> bool" where
  "error_class s \<longleftrightarrow> s \<noteq> [] \<and> length s \<le> 160 \<and> (65 \<le> hd s \<and> hd s \<le> 90 \<or> 97 \<le> hd s \<and> hd s \<le> 122)
     \<and> list_all is_class_char (tl s)"

definition safe_error :: "pystr \<Rightarrow> pystr" where
  "safe_error e = (let c = py_strip e in if error_class c then c else u ''direct MCP tool failed'')"

definition effect_actions :: "run_snapshot \<Rightarrow> pystr \<Rightarrow> pystr \<Rightarrow> pydict list" where
  "effect_actions r call tool = actions_for_call tool (dict_or_empty (get_none (attempt_for_call r call) (u ''arguments'')))"

definition optional_pint :: "int option \<Rightarrow> pyval" where
  "optional_pint v = (case v of None \<Rightarrow> PNone | Some n \<Rightarrow> PInt n)"

definition effect_data ::
  "run_snapshot \<Rightarrow> pystr \<Rightarrow> pystr \<Rightarrow> pydict \<Rightarrow> pystr \<Rightarrow> pydict \<Rightarrow> int option \<Rightarrow> pydict list \<Rightarrow> string \<times> effect_state \<Rightarrow> pydict" where
  "effect_data r call tool result status machine latency receipts outcome =
     [(u ''call_id'', PStr call), (u ''tool'', PStr tool), (u ''latency_ms'', optional_pint latency), (u ''status'', PStr status)]
     @ map (\<lambda>k. (u k, get_none result (u k))) [''frame_id'', ''world_version'', ''control_epoch'', ''image_sha256'', ''screen_hash'']
     @ [(u ''machine'', PDict machine), (u ''effect_state'', PStr (u (effect_name (snd outcome)))),
        (u ''source'', PStr (u ''direct_mcp'')),
        (u ''caller'', PDict (dict_or_empty (get_none (attempt_for_call r call) (u ''caller''))))]
     @ (if receipts = [] then [] else [(u ''input_receipts'', PList (map PDict receipts))])
     @ (if fst outcome = ''action.failed''
        then [(u ''error'', PStr (safe_error (case str_or_empty (get_none result (u ''error'')) of [] \<Rightarrow> status | x # xs \<Rightarrow> x # xs)))]
        else [])"

definition record_effect_outcome ::
  "pystr \<Rightarrow> pystr \<Rightarrow> pydict \<Rightarrow> pystr \<Rightarrow> observation \<Rightarrow> int option \<Rightarrow> int \<Rightarrow> run_snapshot \<Rightarrow> run_snapshot" where
  "record_effect_outcome call tool result status ob latency t r =
     (let actions = effect_actions r call tool;
          receipts = public_input_receipts result actions;
          outcome = effect_outcome tool status actions receipts
      in record_event (fst outcome) (effect_data r call tool result status (ob_machine ob) latency receipts outcome) t r)"

subsection \<open>Finishing a call\<close>

definition str_unless :: "pystr \<Rightarrow> string \<Rightarrow> pystr" where
  "str_unless s d = (if s = [] then u d else s)"

text \<open>\<open>accepts\<close> stands for the validation of the observation's fields, which raises on a wrong one.\<close>

definition observation_of :: "(pydict \<Rightarrow> bool) \<Rightarrow> run_snapshot \<Rightarrow> pydict \<Rightarrow> observation option" where
  "observation_of accepts r result =
     (if accepts result
      then Some \<lparr>ob_session = (case str_or_empty (get_none result (u ''session_id'')) of
                     [] \<Rightarrow> (case ru_session r of None \<Rightarrow> [] | Some s \<Rightarrow> s) | x # xs \<Rightarrow> x # xs),
                 ob_status = str_unless (str_or_empty (get_none result (u ''status''))) ''unknown'',
                 ob_machine = (case dict_or_empty (get_none result (u ''machine'')) of [] \<Rightarrow> machine_of r | m # ms \<Rightarrow> m # ms),
                 ob_frame = get_none result (u ''frame_id''), ob_world = get_none result (u ''world_version''),
                 ob_epoch = get_none result (u ''control_epoch''),
                 ob_image = opt_str (get_none result (u ''image_path'')),
                 ob_error = (case get_none result (u ''error'') of PStr s \<Rightarrow> Some s | _ \<Rightarrow> None),
                 ob_raw = result\<rparr>
      else None)"

definition setdefault :: "pydict \<Rightarrow> string \<Rightarrow> pyval \<Rightarrow> pydict" where
  "setdefault d k v = (case map_of d (u k) of None \<Rightarrow> dict_set d (u k) v | Some _ \<Rightarrow> d)"

definition pending_opened :: "run_snapshot \<Rightarrow> bool" where
  "pending_opened r = (case ru_approval r of None \<Rightarrow> False | Some d \<Rightarrow> d \<noteq> [])"

definition require_approval :: "pystr \<Rightarrow> pystr \<Rightarrow> int \<Rightarrow> run_snapshot \<Rightarrow> run_snapshot" where
  "require_approval call tool t r = (case ru_approval r of
       Some (x # xs) \<Rightarrow>
         (let p = setdefault (setdefault (x # xs) ''tool'' (PStr tool)) ''call_id'' (PStr call)
          in record_event ''approval.required''
               [(u ''call_id'', PStr call), (u ''tool'', PStr tool), (u ''approval_id'', get_none p (u ''approval_id'')),
                (u ''risk'', get_none p (u ''risk'')), (u ''reason'', get_none p (u ''reason'')), (u ''source'', PStr (u ''daemon''))] t
               (r\<lparr>ru_approval := Some p\<rparr>))
     | _ \<Rightarrow> r)"

definition check_identity :: "pydict \<Rightarrow> pydict \<Rightarrow> int \<Rightarrow> run_snapshot \<Rightarrow> run_snapshot" where
  "check_identity old new t r =
     (if identity_changed old new
      then record_event ''target.identity_changed'' (identity_data old new) t
             (r\<lparr>ru_status := Rs_blocked, ru_error := Some (u ''target identity changed during direct MCP session''), ru_approval := None\<rparr>)
      else r)"

definition finished_run :: "direct_finish \<Rightarrow> pystr \<Rightarrow> observation \<Rightarrow> int \<Rightarrow> run_snapshot \<Rightarrow> run_snapshot" where
  "finished_run c tool ob t r =
     (let result = fc_result c;
          status = str_unless (str_or_empty (get_none result (u ''status''))) ''running'';
          r1 = r\<lparr>ru_observation := Some ob, ru_status := run_status_of status tool,
                 ru_error := opt_str (get_none result (u ''error'')),
                 ru_approval := (case get_none result (u ''approval_request'') of PDict d \<Rightarrow> Some d | _ \<Rightarrow> None)\<rparr>;
          r2 = (if status \<noteq> u ''needs_approval''
                then record_effect_outcome (fc_call c) tool result status ob (fc_latency c) t r1 else r1)
      in require_approval (fc_call c) tool t (check_identity (machine_of r) (ob_machine ob) t r2))"

definition failed_run :: "direct_finish \<Rightarrow> pystr \<Rightarrow> int \<Rightarrow> run_snapshot \<Rightarrow> run_snapshot" where
  "failed_run c tool t r =
     (let e = safe_error (fc_error c)
      in record_event ''action.failed''
           [(u ''call_id'', PStr (fc_call c)), (u ''tool'', PStr tool), (u ''error'', PStr e),
            (u ''latency_ms'', optional_pint (fc_latency c)), (u ''effect_state'', PStr (u ''failed'')),
            (u ''source'', PStr (u ''direct_mcp'')), (u ''caller'', get_or (attempt_for_call r (fc_call c)) (u ''caller'') (PDict []))] t
           (r\<lparr>ru_status := Rs_paused, ru_error := Some e\<rparr>))"

definition bind_session :: "pystr \<Rightarrow> run_snapshot \<Rightarrow> direct_state \<Rightarrow> direct_state" where
  "bind_session session r s = (if session = [] then s else s\<lparr>dc_sessions := dict_set (dc_sessions s) session (ru_id r)\<rparr>)"

definition finish_session :: "direct_finish \<Rightarrow> run_snapshot \<Rightarrow> pystr" where
  "finish_session c r = (case str_or_empty (get_none (fc_result c) (u ''session_id'')) of
       [] \<Rightarrow> (case ru_session r of None \<Rightarrow> [] | Some s \<Rightarrow> s) | x # xs \<Rightarrow> x # xs)"

definition finish_on_run ::
  "(pydict \<Rightarrow> bool) \<Rightarrow> int \<Rightarrow> direct_finish \<Rightarrow> run_snapshot \<Rightarrow> direct_state \<Rightarrow> run_snapshot direct_answer" where
  "finish_on_run accepts t c r0 s =
     (let tool = tool_for_call r0 (fc_call c);
          session = finish_session c r0;
          r = (if session = [] then r0 else r0\<lparr>ru_session := Some session\<rparr>);
          s1 = bind_session session r s
      in if \<not> fc_completed c then save_run (failed_run c tool t r) s1
         else case observation_of accepts r (fc_result c) of
           None \<Rightarrow> (Inl De_invalid_result, s1)
         | Some ob \<Rightarrow> save_run (finished_run c tool ob t r) s1)"

definition finish_call :: "(pydict \<Rightarrow> bool) \<Rightarrow> int \<Rightarrow> direct_finish \<Rightarrow> direct_state \<Rightarrow> run_snapshot direct_answer" where
  "finish_call accepts t c s = answer_bind (run_for_finish c s) (finish_on_run accepts t c)"

subsection \<open>The operator\<close>

definition pending_of :: "run_snapshot \<Rightarrow> pydict" where
  "pending_of r = (case ru_approval r of None \<Rightarrow> [] | Some d \<Rightarrow> d)"

definition resolved_run ::
  "pystr \<Rightarrow> pydict \<Rightarrow> pystr \<Rightarrow> observation \<Rightarrow> int \<Rightarrow> run_snapshot \<Rightarrow> run_snapshot" where
  "resolved_run approval decision kind ob t r =
     (let p = pending_of r;
          r1 = r\<lparr>ru_observation := Some ob, ru_approval := None, ru_error := ob_error ob\<rparr>
      in if kind = u ''approve''
         then (let tool = str_or_empty (get_none p (u ''tool''))
               in record_event ''approval.approved'' [(u ''approval_id'', PStr approval), (u ''source'', PStr (u ''operator''))] t
                    (record_effect_outcome (str_or_empty (get_none p (u ''call_id''))) tool (ob_raw ob) (ob_status ob) ob None t
                       (r1\<lparr>ru_status := run_status_of (ob_status ob) tool\<rparr>)))
         else record_event ''approval.not_approved''
                [(u ''approval_id'', PStr approval), (u ''decision'', PStr kind), (u ''source'', PStr (u ''operator''))] t
                (record_event ''action.refused_by_operator''
                  [(u ''call_id'', get_none p (u ''call_id'')), (u ''tool'', get_none p (u ''tool'')),
                   (u ''reason'', (let v = get_none decision (u ''reason'') in if py_truthy v then v else PStr kind)),
                   (u ''effect_state'', PStr (u ''not_applicable'')), (u ''source'', PStr (u ''operator''))] t
                  (r1\<lparr>ru_status := (if kind = u ''reject'' then Rs_rejected else Rs_aborted)\<rparr>)))"

definition session_absent :: "run_snapshot \<Rightarrow> bool" where
  "session_absent r = (case ru_session r of None \<Rightarrow> True | Some s \<Rightarrow> s = [])"

definition resolve_answered ::
  "observation option \<Rightarrow> int \<Rightarrow> pystr \<Rightarrow> pydict \<Rightarrow> pystr \<Rightarrow> run_snapshot \<Rightarrow> direct_state \<Rightarrow> run_snapshot direct_answer" where
  "resolve_answered screen t approval decision kind r s = (case screen of
       None \<Rightarrow> (Inl De_computer, s)
     | Some ob \<Rightarrow> save_run (resolved_run approval decision kind ob t r) s)"

definition resolve_on_run ::
  "observation option \<Rightarrow> int \<Rightarrow> pystr \<Rightarrow> pydict \<Rightarrow> run_snapshot \<Rightarrow> direct_state \<Rightarrow> run_snapshot direct_answer" where
  "resolve_on_run screen t approval decision r s =
     (let kind = str_or_empty (get_none decision (u ''type''))
      in if ru_status r \<noteq> Rs_needs_approval then (Inl (De_value ''run is not waiting for approval''), s)
         else if get_none (pending_of r) (u ''approval_id'') \<noteq> PStr approval
         then (Inl (De_value ''approval_id does not match the pending approval''), s)
         else if session_absent r then (Inl (De_value ''direct run has no computer session''), s)
         else if kind \<notin> set (map u [''approve'', ''reject'', ''take_over''])
         then (Inl (De_value ''decision.type must be approve, reject, or take_over''), s)
         else answer_bind
                (save_run (record_event ''approval.resolving'' [(u ''approval_id'', PStr approval), (u ''decision'', PStr kind),
                   (u ''source'', PStr (u ''operator''))] t r) s)
                (resolve_answered screen t approval decision kind))"

definition resolve_direct_approval ::
  "observation option \<Rightarrow> int \<Rightarrow> pystr \<Rightarrow> pystr \<Rightarrow> pydict \<Rightarrow> direct_state \<Rightarrow> run_snapshot direct_answer" where
  "resolve_direct_approval screen t i approval decision s = answer_bind (direct_run i s) (resolve_on_run screen t approval decision)"

definition abort_answered :: "observation option \<Rightarrow> int \<Rightarrow> pystr \<Rightarrow> run_snapshot \<Rightarrow> direct_state \<Rightarrow> run_snapshot direct_answer" where
  "abort_answered screen t reason r s = (case screen of
       None \<Rightarrow> (Inl De_computer, s)
     | Some ob \<Rightarrow> save_run
         (record_event ''run.aborted''
           [(u ''reason'', PStr reason), (u ''source'', PStr (u ''operator'')), (u ''scope'', PStr (u ''direct_mcp_session''))] t
           (r\<lparr>ru_observation := Some ob, ru_approval := None, ru_status := Rs_aborted, ru_error := ob_error ob\<rparr>)) s)"

definition abort_on_run :: "observation option \<Rightarrow> int \<Rightarrow> pystr \<Rightarrow> run_snapshot \<Rightarrow> direct_state \<Rightarrow> run_snapshot direct_answer" where
  "abort_on_run screen t reason r s =
     (if ru_status r = Rs_aborted then (Inr r, s)
      else if session_absent r then (Inl (De_value ''direct run has no computer session''), s)
      else answer_bind
             (save_run (record_event ''run.abort_requested'' [(u ''reason'', PStr reason), (u ''source'', PStr (u ''operator''))] t r) s)
             (abort_answered screen t reason))"

definition abort_run :: "observation option \<Rightarrow> int \<Rightarrow> pystr \<Rightarrow> pystr \<Rightarrow> direct_state \<Rightarrow> run_snapshot direct_answer" where
  "abort_run screen t i reason s = answer_bind (direct_run i s) (abort_on_run screen t reason)"

definition pause_on_run :: "int \<Rightarrow> pystr \<Rightarrow> run_snapshot \<Rightarrow> direct_state \<Rightarrow> run_snapshot direct_answer" where
  "pause_on_run t reason r s =
     (if ru_status r \<in> {Rs_aborted, Rs_rejected, Rs_completed, Rs_failed} then (Inr r, s)
      else save_run
             (record_event ''run.paused''
               [(u ''reason'', PStr reason), (u ''source'', PStr (u ''operator'')), (u ''scope'', PStr (u ''direct_mcp_actions''))] t
               (r\<lparr>ru_status := Rs_paused\<rparr>)) s)"

definition pause_run :: "int \<Rightarrow> pystr \<Rightarrow> pystr \<Rightarrow> direct_state \<Rightarrow> run_snapshot direct_answer" where
  "pause_run t i reason s = answer_bind (direct_run i s) (pause_on_run t reason)"

definition resume_on_run :: "int \<Rightarrow> run_snapshot \<Rightarrow> direct_state \<Rightarrow> run_snapshot direct_answer" where
  "resume_on_run t r s =
     (if ru_status r \<noteq> Rs_paused then (Inr r, s)
      else save_run
             (record_event ''run.resumed'' [(u ''source'', PStr (u ''operator'')), (u ''scope'', PStr (u ''direct_mcp_actions''))] t
               (r\<lparr>ru_status := (if pending_opened r then Rs_needs_approval else Rs_running)\<rparr>)) s)"

definition resume_run :: "int \<Rightarrow> pystr \<Rightarrow> direct_state \<Rightarrow> run_snapshot direct_answer" where
  "resume_run t i s = answer_bind (direct_run i s) (resume_on_run t)"

end
