(* ===== verification/DirectAuthority.thy ===== *)
theory DirectAuthority
  imports DirectCalls
begin

text \<open>
  What the operations of \<open>DirectCalls\<close> keep: a store whose logs, states and cursors fit together, runs that
  extend what is stored, and the operator's stop.
\<close>

subsection \<open>Stores the coordinator writes\<close>

definition fits :: "mem_store \<Rightarrow> bool" where
  "fits st \<longleftrightarrow> (\<forall>i x. map_of st i = Some x \<longrightarrow>
     numbered (sr_log x) \<and> sr_cursor x = int (length (sr_log x)) \<and> ru_cursor (sr_state x) = int (length (sr_log x))
     \<and> ru_id (sr_state x) = i \<and> ru_events (sr_state x) = [])"

lemma fits_empty [simp]: "fits []"
  by (simp add: fits_def)

lemma fitsD:
  assumes "fits st" "map_of st i = Some x"
  shows "numbered (sr_log x)" "sr_cursor x = int (length (sr_log x))" "ru_cursor (sr_state x) = int (length (sr_log x))"
    "ru_id (sr_state x) = i" "ru_events (sr_state x) = []" "mem_log st i = sr_log x"
  using assms by (auto simp: fits_def mem_log_def)

lemma fits_numbered: "fits st \<Longrightarrow> numbered (mem_log st i)"
  by (auto simp: fits_def mem_log_def numbered_def split: option.splits)

lemma fits_save: "fits st \<Longrightarrow> mem_save r st = Inr st' \<Longrightarrow> fits st'"
proof -
  assume f: "fits st" and sv: "mem_save r st = Inr st'"
  have ok: "mem_ok st" using f fits_numbered by (simp add: mem_ok_def)
  from sv obtain new where new: "new_event_rows (length (mem_log st (ru_id r))) (last_event (mem_log st (ru_id r))) (ru_events r) (Some (ru_cursor r)) = Inr new"
    and st': "st' = dict_set st (ru_id r) \<lparr>sr_state = r\<lparr>ru_events := []\<rparr>, sr_log = mem_log st (ru_id r) @ new, sr_cursor = summary_cursor r\<rparr>"
    by (rule mem_save_Inr)
  have "numbered (mem_log st' (ru_id r))" using mem.rail_numbered [OF mem.save_ok [OF ok sv]] .
  with f saved_cursor [OF new] new_rows_cases(2) [OF new] show "fits st'"
    by (auto simp: fits_def st' mem_log_set)
qed

subsection \<open>Runs that extend their log\<close>

text \<open>The run's events are an end of its stored log followed by new ones, numbered on.\<close>

definition appends :: "mem_store \<Rightarrow> harness_event list \<Rightarrow> run_snapshot \<Rightarrow> bool" where
  "appends st new r \<longleftrightarrow> (let rail = mem_log st (ru_id r) in
     (\<exists>m \<le> length rail. ru_events r = drop m rail @ new)
     \<and> map he_seq new = map (\<lambda>i. int (length rail) + 1 + int i) [0..<length new]
     \<and> ru_cursor r = int (length rail) + int (length new))"

lemma appends_cong:
  "ru_id r' = ru_id r \<Longrightarrow> ru_events r' = ru_events r \<Longrightarrow> ru_cursor r' = ru_cursor r \<Longrightarrow> appends st new r' = appends st new r"
  by (simp add: appends_def)

lemma appends_numbered: "fits st \<Longrightarrow> appends st new r \<Longrightarrow> numbered (mem_log st (ru_id r) @ new)"
  using numbered_append [OF fits_numbered] by (simp add: appends_def Let_def)

lemma drop_ends: "drop m xs \<noteq> [] \<Longrightarrow> hd (drop m xs) = xs ! m \<and> m < length xs \<and> last (drop m xs) = xs ! (length xs - 1)"
  by (cases "m < length xs") (auto simp: hd_drop_conv_nth last_drop last_conv_nth)

lemma appendsE:
  assumes "appends st new r"
  obtains m where "m \<le> length (mem_log st (ru_id r))" "ru_events r = drop m (mem_log st (ru_id r) @ new)"
    "map he_seq new = map (\<lambda>i. int (length (mem_log st (ru_id r))) + 1 + int i) [0..<length new]"
    "ru_cursor r = int (length (mem_log st (ru_id r))) + int (length new)"
  using assms by (auto simp: appends_def Let_def)

lemma appends_last:
  assumes "fits st" "appends st new r" "ru_events r \<noteq> []"
  shows "he_seq (last (ru_events r)) = ru_cursor r"
proof -
  let ?all = "mem_log st (ru_id r) @ new"
  obtain m where m: "ru_events r = drop m ?all" using assms(2) by (rule appendsE)
  have "last (ru_events r) = ?all ! (length ?all - 1)" "?all \<noteq> []"
    using drop_ends [of m ?all] m assms(3) by auto
  moreover have "he_seq (?all ! (length ?all - 1)) = int (length ?all)"
    using numbered_nth [OF appends_numbered [OF assms(1, 2)], of "length ?all - 1"] \<open>?all \<noteq> []\<close> by (cases ?all) auto
  ultimately show ?thesis using assms(2) by (simp add: appends_def Let_def)
qed

lemma appends_record:
  assumes "fits st" "appends st new r"
  shows "appends st (new @ [\<lparr>he_seq = ru_cursor r + 1, he_at = t, he_kind = u k, he_data = d\<rparr>]) (record_event k d t r)"
proof -
  have n: "next_sequence r = ru_cursor r + 1"
    using appends_last [OF assms] assms(2) by (auto simp: next_sequence_def appends_def Let_def)
  from assms(2) show ?thesis
  proof (rule appendsE)
    fix m assume "m \<le> length (mem_log st (ru_id r))" "ru_events r = drop m (mem_log st (ru_id r) @ new)"
      "map he_seq new = map (\<lambda>i. int (length (mem_log st (ru_id r))) + 1 + int i) [0..<length new]"
      "ru_cursor r = int (length (mem_log st (ru_id r))) + int (length new)"
    with n show ?thesis by (auto simp: appends_def record_event_def Let_def intro!: exI [of _ m])
  qed
qed

lemma appends_rows:
  assumes "fits st" "appends st new r"
  shows "new_event_rows (length (mem_log st (ru_id r))) (last_event (mem_log st (ru_id r))) (ru_events r) (Some (ru_cursor r)) = Inr new"
proof -
  let ?rail = "mem_log st (ru_id r)" and ?evs = "ru_events r"
  let ?n = "int (length ?rail)"
  from assms(2) obtain m where m: "m \<le> length ?rail" "?evs = drop m ?rail @ new"
    and sq: "map he_seq new = map (\<lambda>i. ?n + 1 + int i) [0..<length new]" and c: "ru_cursor r = ?n + int (length new)"
    by (auto simp: appends_def Let_def)
  have num: "numbered ?rail" using fits_numbered [OF assms(1)] .
  have all: "numbered (?rail @ new)" using appends_numbered [OF assms] .
  have hd_seq: "he_seq (hd ?evs) = int m + 1" if "?evs \<noteq> []"
  proof -
    have e: "?evs = drop m (?rail @ new)" using m by simp
    with that drop_ends [of m "?rail @ new"] have "hd ?evs = (?rail @ new) ! m" "m < length (?rail @ new)" by simp_all
    with numbered_nth [OF all] show ?thesis by simp
  qed
  have fresh: "fresh_events ?n ?evs = new"
  proof (cases "?evs = []")
    case False
    have "nat (max 0 (?n + 1 - he_seq (hd ?evs))) = length ?rail - m"
      using hd_seq [OF False] m(1) by (simp add: max_def nat_diff_distrib')
    with False m show ?thesis by (simp add: fresh_events_def)
  qed (use m in \<open>simp add: fresh_events_def\<close>)
  have kept: "\<not> replaces_durable ?n (last_event ?rail) ?evs" if "length ?rail \<noteq> 0"
  proof -
    have last_seq: "he_seq (last ?rail) = ?n"
      using that numbered_nth [OF num, of "length ?rail - 1"] by (cases ?rail) (auto simp: last_conv_nth)
    have at: "last ?rail = ?evs ! nat (event_index ?n ?evs)" if "0 \<le> event_index ?n ?evs"
    proof -
      from that have ne: "?evs \<noteq> []" by (auto simp: event_index_def)
      with hd_seq have k: "event_index ?n ?evs = ?n - int m - 1" by (simp add: event_index_def)
      with that have "m < length ?rail" by simp
      moreover have "nat (event_index ?n ?evs) = length ?rail - 1 - m" using k that by simp
      ultimately show ?thesis using m \<open>length ?rail \<noteq> 0\<close> by (simp add: nth_append last_conv_nth)
    qed
    with last_seq that show ?thesis by (simp add: replaces_durable_def last_event_def Let_def)
  qed
  have last_c: "?evs \<noteq> [] \<Longrightarrow> he_seq (last ?evs) = ru_cursor r" using appends_last [OF assms] .
  have ends: "(?evs \<noteq> [] \<and> Some (ru_cursor r) \<noteq> None \<and> Some (ru_cursor r) \<noteq> Some (he_seq (last ?evs))) = False"
    by (cases "?evs = []") (simp_all add: last_c)
  have "(length ?rail \<noteq> 0 \<and> replaces_durable ?n (last_event ?rail) ?evs) = False"
    using kept by blast
  then show ?thesis
    unfolding new_event_rows_def Let_def fresh by (simp only: sq c ends [unfolded c] option.case if_False simp_thms)
qed

lemma appends_save:
  assumes "fits (dc_store s)" "appends (dc_store s) new r"
  obtains st where "save_run r s = (Inr r, s\<lparr>dc_store := st\<rparr>)" "fits st"
    "mem_log st (ru_id r) = mem_log (dc_store s) (ru_id r) @ new"
    "\<And>j. map_of st j = (if j = ru_id r
        then Some \<lparr>sr_state = r\<lparr>ru_events := []\<rparr>, sr_log = mem_log (dc_store s) j @ new, sr_cursor = summary_cursor r\<rparr>
        else map_of (dc_store s) j)"
    "appends st [] r"
proof -
  let ?rail = "mem_log (dc_store s) (ru_id r)"
  let ?st = "dict_set (dc_store s) (ru_id r) \<lparr>sr_state = r\<lparr>ru_events := []\<rparr>, sr_log = ?rail @ new, sr_cursor = summary_cursor r\<rparr>"
  have sv: "mem_save r (dc_store s) = Inr ?st" using appends_rows [OF assms] by (simp add: mem_save_def Let_def)
  have rail: "mem_log ?st (ru_id r) = ?rail @ new" by (simp add: mem_log_set)
  from assms(2) obtain m where "m \<le> length ?rail" "ru_events r = drop m ?rail @ new"
    by (auto simp: appends_def Let_def)
  then have "appends ?st [] r" using assms(2) rail by (auto simp: appends_def Let_def intro!: exI [of _ m])
  with that [of ?st] sv fits_save [OF assms(1) sv] rail show ?thesis by (simp add: save_run_def)
qed

subsection \<open>Loading\<close>

definition loaded :: "mem_store \<Rightarrow> run_snapshot \<Rightarrow> bool" where
  "loaded st r \<longleftrightarrow> (\<exists>x m. map_of st (ru_id r) = Some x \<and> m \<le> length (sr_log x)
     \<and> r = (sr_state x)\<lparr>ru_caller := ru_caller r, ru_events := drop m (sr_log x)\<rparr>)"

lemma loaded_appends: "fits st \<Longrightarrow> loaded st r \<Longrightarrow> appends st [] r"
proof -
  assume f: "fits st" and "loaded st r"
  then obtain x m where x: "map_of st (ru_id r) = Some x" "m \<le> length (sr_log x)"
    and r: "r = (sr_state x)\<lparr>ru_caller := ru_caller r, ru_events := drop m (sr_log x)\<rparr>"
    by (auto simp: loaded_def)
  have "ru_cursor r = int (length (sr_log x))" "ru_events r = drop m (sr_log x)"
    using fitsD(3) [OF f x(1)] by (subst r, simp)+
  with x(2) fitsD(6) [OF f x(1)] show "appends st [] r" by (auto simp: appends_def Let_def)
qed

lemma loaded_status: "loaded st r \<Longrightarrow> \<exists>x. map_of st (ru_id r) = Some x \<and> ru_status r = ru_status (sr_state x)
    \<and> ru_error r = ru_error (sr_state x)"
proof -
  assume "loaded st r"
  then obtain x m where "map_of st (ru_id r) = Some x" and r: "r = (sr_state x)\<lparr>ru_caller := ru_caller r, ru_events := drop m (sr_log x)\<rparr>"
    by (auto simp: loaded_def)
  moreover have "ru_status r = ru_status (sr_state x)" "ru_error r = ru_error (sr_state x)" by (subst r, simp)+
  ultimately show ?thesis by blast
qed

lemma parts_loaded:
  assumes "fits st" "map_of st i = Some x" "m \<le> length (sr_log x)"
  shows "snapshot_from_parts (sr_state x) (drop m (sr_log x)) (int (length (sr_log x)))
    = Inr ((sr_state x)\<lparr>ru_events := drop m (sr_log x)\<rparr>)"
proof -
  note f = fitsD [OF assms(1, 2)]
  have "he_seq (last (drop m (sr_log x))) = int (length (sr_log x))" if "drop m (sr_log x) \<noteq> []"
    using that numbered_nth [OF f(1), of "length (sr_log x) - 1"] by (cases "sr_log x") (auto simp: last_conv_nth last_drop)
  with f numbered_contiguous [OF f(1), of m] show ?thesis
    by (auto simp: snapshot_from_parts_def Let_def)
qed

lemma control_loaded:
  assumes "fits (dc_store s)" "load_control i s = Inr r"
  shows "loaded (dc_store s) r" "ru_id r = i"
proof -
  from assms(2) obtain x where x: "map_of (dc_store s) i = Some x"
    and r: "snapshot_from_parts (sr_state x) (tail_of control_event_tail_limit (sr_log x)) (int (length (sr_log x))) = Inr r"
    by (auto simp: load_control_def mem_get_control_def control_event_tail_limit_def split: option.splits)
  let ?m = "length (sr_log x) - control_event_tail_limit"
  have r': "r = (sr_state x)\<lparr>ru_events := drop ?m (sr_log x)\<rparr>"
    using r parts_loaded [OF assms(1) x, of ?m] by (simp add: tail_of_def)
  then show "ru_id r = i" using fitsD(4) [OF assms(1) x] by simp
  with r' x show "loaded (dc_store s) r"
    unfolding loaded_def by (intro exI [of _ x] exI [of _ ?m]) simp
qed

lemma state_loaded:
  assumes "fits st" "mem_get_state i st = Inr r"
  shows "loaded st r" "ru_id r = i"
proof -
  from assms(2) obtain x where x: "map_of st i = Some x" and r: "snapshot_from_parts (sr_state x) [] (sr_cursor x) = Inr r"
    by (auto simp: mem_get_state_def split: option.splits)
  have r': "r = (sr_state x)\<lparr>ru_events := drop (length (sr_log x)) (sr_log x)\<rparr>"
    using r parts_loaded [OF assms(1) x, of "length (sr_log x)"] fitsD(2) [OF assms(1) x] by simp
  then show "ru_id r = i" using fitsD(4) [OF assms(1) x] by simp
  with r' x show "loaded st r"
    unfolding loaded_def by (intro exI [of _ x] exI [of _ "length (sr_log x)"]) simp
qed

lemma find_run_Some: "find_run load p is = Inr (Some r) \<Longrightarrow> \<exists>i \<in> set is. load i = Inr r \<and> p r"
  by (induction "is") (auto simp: bind_result_Inr_iff split: if_splits)

subsection \<open>Recording\<close>

text \<open>\<open>recorded ks r r'\<close>: the run gained events of these kinds.\<close>

definition recorded :: "string list \<Rightarrow> run_snapshot \<Rightarrow> run_snapshot \<Rightarrow> bool" where
  "recorded ks r r' \<longleftrightarrow> ru_id r' = ru_id r
     \<and> (\<forall>st old. fits st \<longrightarrow> appends st old r \<longrightarrow> (\<exists>new. appends st (old @ new) r' \<and> map he_kind new = map u ks))"

lemma recorded_refl [intro]: "recorded [] r r"
  by (simp add: recorded_def)

lemma recorded_event [intro]: "recorded ks r r1 \<Longrightarrow> recorded (ks @ [k]) r (record_event k d t r1)"
  unfolding recorded_def
proof (intro conjI allI impI)
  fix st old
  assume rec: "ru_id r1 = ru_id r \<and> (\<forall>st old. fits st \<longrightarrow> appends st old r \<longrightarrow>
      (\<exists>new. appends st (old @ new) r1 \<and> map he_kind new = map u ks))"
    and st: "fits st" "appends st old r"
  then obtain new where new: "appends st (old @ new) r1" "map he_kind new = map u ks" by blast
  let ?e = "\<lparr>he_seq = ru_cursor r1 + 1, he_at = t, he_kind = u k, he_data = d\<rparr>"
  show "\<exists>new. appends st (old @ new) (record_event k d t r1) \<and> map he_kind new = map u (ks @ [k])"
    using appends_record [OF st(1) new(1), of t k d] new(2) by (intro exI [of _ "new @ [?e]"]) simp
qed (simp add: record_event_keeps)

lemma recorded_update:
  "recorded ks r r1 \<Longrightarrow> ru_id r2 = ru_id r1 \<Longrightarrow> ru_events r2 = ru_events r1 \<Longrightarrow> ru_cursor r2 = ru_cursor r1 \<Longrightarrow> recorded ks r r2"
  by (simp add: recorded_def appends_cong [of r2 r1])

lemma recorded_from:
  "ru_id r1 = ru_id r \<Longrightarrow> ru_events r1 = ru_events r \<Longrightarrow> ru_cursor r1 = ru_cursor r \<Longrightarrow> recorded [k] r (record_event k d t r1)"
  using recorded_event [OF recorded_update [OF recorded_refl], of r1 r k d t] by simp

lemma recorded_trans: "recorded ks r r1 \<Longrightarrow> recorded ls r1 r2 \<Longrightarrow> recorded (ks @ ls) r r2"
  unfolding recorded_def
proof (intro conjI allI impI)
  fix st old
  assume a: "ru_id r1 = ru_id r \<and> (\<forall>st old. fits st \<longrightarrow> appends st old r \<longrightarrow> (\<exists>new. appends st (old @ new) r1 \<and> map he_kind new = map u ks))"
    and b: "ru_id r2 = ru_id r1 \<and> (\<forall>st old. fits st \<longrightarrow> appends st old r1 \<longrightarrow> (\<exists>new. appends st (old @ new) r2 \<and> map he_kind new = map u ls))"
    and st: "fits st" "appends st old r"
  from a st obtain n1 where n1: "appends st (old @ n1) r1" "map he_kind n1 = map u ks" by blast
  with b st(1) obtain n2 where "appends st ((old @ n1) @ n2) r2" "map he_kind n2 = map u ls" by blast
  with n1(2) show "\<exists>new. appends st (old @ new) r2 \<and> map he_kind new = map u (ks @ ls)"
    by (intro exI [of _ "n1 @ n2"]) simp
qed simp

text \<open>A recorded run is saved.\<close>

lemma recorded_save:
  assumes "fits (dc_store s)" "appends (dc_store s) old r" "recorded ks r r1"
  obtains st new where "save_run r1 s = (Inr r1, s\<lparr>dc_store := st\<rparr>)" "fits st" "map he_kind new = map u ks"
    "mem_log st (ru_id r) = mem_log (dc_store s) (ru_id r) @ old @ new" "appends (dc_store s) (old @ new) r1"
    "\<And>j. j \<noteq> ru_id r \<Longrightarrow> map_of st j = map_of (dc_store s) j"
    "\<exists>x. map_of st (ru_id r) = Some x \<and> sr_state x = r1\<lparr>ru_events := []\<rparr>"
    "appends st [] r1" "ru_id r1 = ru_id r"
proof -
  from assms obtain new where new: "appends (dc_store s) (old @ new) r1" "map he_kind new = map u ks"
    and i: "ru_id r1 = ru_id r" unfolding recorded_def by blast
  from assms(1) new(1) show ?thesis
  proof (rule appends_save)
    fix st
    assume "save_run r1 s = (Inr r1, s\<lparr>dc_store := st\<rparr>)" "fits st"
      "mem_log st (ru_id r1) = mem_log (dc_store s) (ru_id r1) @ old @ new"
      "\<And>j. map_of st j = (if j = ru_id r1
        then Some \<lparr>sr_state = r1\<lparr>ru_events := []\<rparr>, sr_log = mem_log (dc_store s) j @ old @ new, sr_cursor = summary_cursor r1\<rparr>
        else map_of (dc_store s) j)" "appends st [] r1"
    with that [of st new] new i show ?thesis by simp
  qed
qed

subsection \<open>Which run an operation acts on\<close>

lemma direct_run_loaded:
  assumes "fits (dc_store s)" "direct_run i s = (Inr r, s')"
  shows "s' = s" "loaded (dc_store s) r" "ru_id r = i"
  using assms control_loaded by (auto simp: direct_run_def split: sum.splits if_splits)

lemma loaded_caller: "loaded st r \<Longrightarrow> loaded st (r\<lparr>ru_caller := c\<rparr>)"
proof -
  assume "loaded st r"
  then obtain x m where x: "map_of st (ru_id r) = Some x" "m \<le> length (sr_log x)"
    and r: "r = (sr_state x)\<lparr>ru_caller := ru_caller r, ru_events := drop m (sr_log x)\<rparr>"
    by (auto simp: loaded_def)
  have eq: "r\<lparr>ru_caller := c\<rparr> = (sr_state x)\<lparr>ru_caller := ru_caller (r\<lparr>ru_caller := c\<rparr>), ru_events := drop m (sr_log x)\<rparr>"
    by (subst r) simp
  have "map_of st (ru_id (r\<lparr>ru_caller := c\<rparr>)) = Some x" using x(1) by simp
  with x(2) eq show ?thesis unfolding loaded_def by blast
qed

lemma run_for_begin_old:
  assumes "fits (dc_store s)" "run_for_begin fresh t c session s = (Inr r, s')" "r \<noteq> new_direct_run fresh t c session"
  shows "loaded (dc_store s) r" "dc_store s' = dc_store s" "dc_calls s' = dc_calls s"
proof -
  have "loaded (dc_store s) r \<and> dc_store s' = dc_store s \<and> dc_calls s' = dc_calls s"
    using assms unfolding run_for_begin_def
    by (auto split: option.splits list.splits sum.splits if_splits dest!: find_run_Some
        intro: loaded_caller control_loaded(1) state_loaded(1))
  then show "loaded (dc_store s) r" "dc_store s' = dc_store s" "dc_calls s' = dc_calls s" by simp_all
qed

lemma run_for_begin_store:
  "run_for_begin fresh t c session s = (a, s') \<Longrightarrow> dc_store s' = dc_store s \<and> dc_calls s' = dc_calls s"
  by (auto simp: run_for_begin_def split: option.splits list.splits sum.splits if_splits)

lemma new_run_appends:
  assumes "fits st" "map_of st (u ''direct-'' @ fresh) = None"
  shows "\<exists>e. he_kind e = u ''run.created'' \<and> appends st [e] (new_direct_run fresh t c session)"
proof -
  let ?r = "\<lparr>ru_id = u ''direct-'' @ fresh, ru_status = Rs_running, ru_origin = Direct_mcp, ru_caller = bc_caller c, ru_updated = t,
        ru_session = (if session = [] then None else Some session), ru_observation = None, ru_approval = None,
        ru_image_path = None, ru_image_revision = 0, ru_images = [], ru_next_action = 0, ru_error = None,
        ru_activity = None, ru_cursor = 0, ru_events = []\<rparr>"
  have "appends st [] ?r" using assms(2) by (simp add: appends_def mem_log_def)
  let ?d = "[(u ''origin'', PStr (u ''direct_mcp'')), (u ''caller'', PDict (bc_caller c))]"
  let ?e = "\<lparr>he_seq = ru_cursor ?r + 1, he_at = t, he_kind = u ''run.created'', he_data = ?d\<rparr>"
  have "appends st [?e] (new_direct_run fresh t c session)"
    using appends_record [OF assms(1) \<open>appends st [] ?r\<close>, of t "''run.created''" ?d] unfolding new_direct_run_def append_Nil .
  then show ?thesis by (intro exI [of _ ?e]) simp
qed

lemma new_run_facts: "ru_id (new_direct_run fresh t c session) = u ''direct-'' @ fresh"
  "ru_status (new_direct_run fresh t c session) = Rs_running" "ru_error (new_direct_run fresh t c session) = None"
  by (simp_all add: new_direct_run_def record_event_keeps)

lemma run_for_finish_loaded:
  assumes "fits (dc_store s)" "run_for_finish c s = (Inr r, s')"
  shows "loaded (dc_store s) r" "dc_store s' = dc_store s"
proof -
  define i where "i = (if fc_run c \<noteq> [] then fc_run c else case map_of (dc_calls s) (fc_call c) of None \<Rightarrow> [] | Some i \<Rightarrow> i)"
  note run = assms(2) [unfolded run_for_finish_def i_def [symmetric] Let_def]
  have "loaded (dc_store s) r \<and> dc_store s' = dc_store s"
  proof (cases "i = []")
    case True
    with run assms(1) show ?thesis
      by (auto split: option.splits sum.splits dest!: find_run_Some intro: control_loaded(1))
  next
    case False
    with run obtain s0 where "direct_run i s = (Inr r, s0)" "dc_store s' = dc_store s0"
      by (auto simp: answer_bind_Inr split: if_splits)
    with direct_run_loaded [OF assms(1)] show ?thesis by metis
  qed
  then show "loaded (dc_store s) r" "dc_store s' = dc_store s" by simp_all
qed

lemma run_for_finish_store: "run_for_finish c s = (a, s') \<Longrightarrow> dc_store s' = dc_store s"
  by (auto simp: run_for_finish_def direct_run_def answer_bind_def Let_def split: option.splits sum.splits if_splits)

end
