(* ===== verification/DirectProps.thy ===== *)
theory DirectProps
  imports DirectAuthority
begin

text \<open>
  The properties of the direct-call coordinator: what a permitted call implies, what stays stopped, what a
  verified effect rests on, and that the coordinator's own saves succeed.
\<close>

subsection \<open>Beginning a call, on a run\<close>

lemma observation_no_click: "bc_tool c \<in> set observation_tools \<Longrightarrow> click_coordinates c = None"
  by (auto simp: click_coordinates_def observation_tools_def)

lemma capture_cases:
  assumes "capture_pre_action screen is_file c session t r = (refusal, index, r1)"
  shows "\<exists>ks. recorded ks r r1 \<and> ''action.attempted'' \<notin> set ks
    \<and> (refusal = [] \<and> ru_status r1 = ru_status r \<or> refusal \<noteq> [] \<and> ru_status r1 = Rs_blocked \<and> click_coordinates c \<noteq> None)"
proof (cases "session = [] \<or> click_coordinates c = None")
  case True
  with assms show ?thesis by (auto simp: capture_pre_action_def intro!: exI [of _ "[]"])
next
  case click: False
  show ?thesis
  proof (cases screen)
    case None
    with assms click show ?thesis
      by (auto simp: capture_pre_action_def evidence_unavailable_def record_event_keeps intro!: exI [of _ "[''action.pre_action_evidence_unavailable'']"] recorded_from)
  next
    case (Some ob)
    have ne: "identity_error \<noteq> []" by (simp add: identity_error_def u_def)
    consider (changed) "identity_changed (machine_of r) (ob_machine ob)"
      | (readable) x xs where "\<not> identity_changed (machine_of r) (ob_machine ob)" "ob_image ob = Some (x # xs)" "is_file (x # xs)"
      | (absent) "\<not> identity_changed (machine_of r) (ob_machine ob)" "\<nexists>x xs. ob_image ob = Some (x # xs) \<and> is_file (x # xs)"
      by blast
    then show ?thesis
    proof cases
      case changed
      with assms click Some ne show ?thesis
        by (auto simp: capture_pre_action_def Let_def record_event_keeps intro!: exI [of _ "[''target.identity_changed'']"] recorded_from)
    next
      case readable
      with assms click Some show ?thesis
        by (auto simp: capture_pre_action_def retain_evidence_def Let_def record_event_keeps intro!: exI [of _ "[''action.pre_action_evidence_captured'']"] recorded_from)
    next
      case absent
      with assms click Some show ?thesis
        by (auto simp: capture_pre_action_def evidence_unavailable_def Let_def record_event_keeps
            split: option.splits list.splits if_splits intro!: exI [of _ "[''action.pre_action_evidence_unavailable'']"] recorded_from)
    qed
  qed
qed

definition attempted_call :: "direct_begin \<Rightarrow> harness_event \<Rightarrow> bool" where
  "attempted_call c e \<longleftrightarrow> he_kind e = u ''action.attempted'' \<and> get_none (he_data e) (u ''call_id'') = PStr (bc_call c)
     \<and> get_none (he_data e) (u ''tool'') = PStr (bc_tool c)
     \<and> get_none (he_data e) (u ''arguments'') = redact_secrets (PDict (bc_arguments c))"

lemma attempted_data: "attempted_call c \<lparr>he_seq = n, he_at = t, he_kind = u ''action.attempted'', he_data = attempt_data c index\<rparr>"
  by (simp add: attempted_call_def attempt_data_def get_none_def get_or_def)

lemma begin_on_run_ok:
  assumes "fits (dc_store s)" "appends (dc_store s) old r"
  obtains d s' new where "begin_on_run screen is_file t c r s = (Inr d, s')" "fits (dc_store s')" "dd_run d = ru_id r"
    "mem_log (dc_store s') (ru_id r) = mem_log (dc_store s) (ru_id r) @ old @ new"
    "\<And>j. j \<noteq> ru_id r \<Longrightarrow> map_of (dc_store s') j = map_of (dc_store s) j"
    "dd_allowed d \<Longrightarrow> refusal_reason r (bc_tool c) = [] \<and> new \<noteq> [] \<and> attempted_call c (last new)
       \<and> map_of (dc_calls s') (bc_call c) = Some (ru_id r)"
    "\<not> dd_allowed d \<Longrightarrow> (\<forall>e \<in> set new. he_kind e \<noteq> u ''action.attempted'') \<and> dc_calls s' = dc_calls s"
    "\<exists>x. map_of (dc_store s') (ru_id r) = Some x
       \<and> (ru_status (sr_state x) = ru_status r \<or> refusal_reason r (bc_tool c) = [] \<and> click_coordinates c \<noteq> None)"
    "refusal_reason r (bc_tool c) \<noteq> [] \<Longrightarrow> \<not> dd_allowed d"
proof (cases "refusal_reason r (bc_tool c) = []")
  case False
  let ?r = "record_event ''action.refused_by_operator'' (refusal_data c (refusal_reason r (bc_tool c))) t r"
  have "recorded [''action.refused_by_operator''] r ?r" by (rule recorded_from) simp_all
  from assms this show ?thesis
  proof (rule recorded_save)
    fix st new
    assume st: "save_run ?r s = (Inr ?r, s\<lparr>dc_store := st\<rparr>)" "fits st" "map he_kind new = map u [''action.refused_by_operator'']"
      "mem_log st (ru_id r) = mem_log (dc_store s) (ru_id r) @ old @ new" "\<And>j. j \<noteq> ru_id r \<Longrightarrow> map_of st j = map_of (dc_store s) j"
      "\<exists>x. map_of st (ru_id r) = Some x \<and> sr_state x = ?r\<lparr>ru_events := []\<rparr>"
    let ?s = "s\<lparr>dc_store := st\<rparr>" and ?d = "\<lparr>dd_allowed = False, dd_run = ru_id r, dd_reason = refusal_reason r (bc_tool c)\<rparr>"
    have "begin_on_run screen is_file t c r s = (Inr ?d, ?s)"
      using st(1) False by (simp add: begin_on_run_def Let_def record_event_keeps)
    with that [of ?d ?s new] st(2-6) show ?thesis
      by (auto simp: record_event_keeps)
  qed
next
  case open_run: True
  obtain refusal index r1 where cap: "capture_pre_action screen is_file c (begin_session c) t r = (refusal, index, r1)"
    by (metis prod_cases3)
  from cap obtain ks where ks: "recorded ks r r1" "''action.attempted'' \<notin> set ks"
    "refusal = [] \<and> ru_status r1 = ru_status r \<or> refusal \<noteq> [] \<and> ru_status r1 = Rs_blocked \<and> click_coordinates c \<noteq> None"
    using capture_cases by blast
  show ?thesis
  proof (cases "refusal = []")
    case False
    from assms ks(1) show ?thesis
    proof (rule recorded_save)
      fix st new
      assume st: "save_run r1 s = (Inr r1, s\<lparr>dc_store := st\<rparr>)" "fits st" "map he_kind new = map u ks"
        "mem_log st (ru_id r) = mem_log (dc_store s) (ru_id r) @ old @ new" "\<And>j. j \<noteq> ru_id r \<Longrightarrow> map_of st j = map_of (dc_store s) j"
        "\<exists>x. map_of st (ru_id r) = Some x \<and> sr_state x = r1\<lparr>ru_events := []\<rparr>" "ru_id r1 = ru_id r"
      let ?s = "s\<lparr>dc_store := st\<rparr>" and ?d = "\<lparr>dd_allowed = False, dd_run = ru_id r, dd_reason = refusal\<rparr>"
      have "begin_on_run screen is_file t c r s = (Inr ?d, ?s)"
        using st(1, 7) False open_run cap by (simp add: begin_on_run_def Let_def)
      moreover have "he_kind e \<noteq> u ''action.attempted''" if "e \<in> set new" for e
      proof
        assume "he_kind e = u ''action.attempted''"
        with that have "u ''action.attempted'' \<in> set (map he_kind new)" by force
        with st(3) ks(2) show False by auto
      qed
      ultimately show ?thesis using that [of ?d ?s new] st(2-6) False ks(3) open_run by auto
    qed
  next
    case True
    let ?r = "record_event ''action.attempted'' (attempt_data c index) t r1"
    have "recorded (ks @ [''action.attempted'']) r ?r" using ks(1) by (rule recorded_event)
    from assms this show ?thesis
    proof (rule recorded_save)
      fix st new
      assume st: "save_run ?r s = (Inr ?r, s\<lparr>dc_store := st\<rparr>)" "fits st" "map he_kind new = map u (ks @ [''action.attempted''])"
        "mem_log st (ru_id r) = mem_log (dc_store s) (ru_id r) @ old @ new" "appends (dc_store s) (old @ new) ?r"
        "\<And>j. j \<noteq> ru_id r \<Longrightarrow> map_of st j = map_of (dc_store s) j"
        "\<exists>x. map_of st (ru_id r) = Some x \<and> sr_state x = ?r\<lparr>ru_events := []\<rparr>" "ru_id ?r = ru_id r"
      let ?s = "s\<lparr>dc_store := st, dc_calls := dict_set (dc_calls s) (bc_call c) (ru_id r),
          dc_sessions := (if begin_session c = [] then dc_sessions s else dict_set (dc_sessions s) (begin_session c) (ru_id r))\<rparr>"
        and ?d = "\<lparr>dd_allowed = True, dd_run = ru_id r, dd_reason = []\<rparr>"
      have done_begin: "begin_on_run screen is_file t c r s = (Inr ?d, ?s)"
        using st(1, 8) True open_run cap by (simp add: begin_on_run_def Let_def)
      have "new \<noteq> []" using st(3) by auto
      from st(5) obtain m where "ru_events ?r = drop m (mem_log (dc_store s) (ru_id ?r) @ old @ new)" by (rule appendsE)
      moreover have "ru_events ?r \<noteq> []" by (simp add: record_event_def Let_def)
      ultimately have "last new = last (ru_events ?r)"
        using \<open>new \<noteq> []\<close> last_drop [of m "mem_log (dc_store s) (ru_id ?r) @ old @ new"] by (auto simp: not_le)
      then have "attempted_call c (last new)" using attempted_data by (simp add: record_event_def Let_def)
      with done_begin that [of ?d ?s new] st(2, 4, 6, 7) True ks(3) open_run \<open>new \<noteq> []\<close> show ?thesis
        by (auto simp: record_event_keeps)
    qed
  qed
qed

lemma begin_call_cases:
  assumes "fits (dc_store s)" "map_of (dc_store s) (u ''direct-'' @ fresh) = None"
  shows "(\<exists>e s0. begin_call screen is_file fresh t c s = (Inl (De_store e), s0) \<and> dc_store s0 = dc_store s)
    \<or> (\<exists>r s0 old. begin_call screen is_file fresh t c s = begin_on_run screen is_file t c r s0
          \<and> dc_store s0 = dc_store s \<and> dc_calls s0 = dc_calls s \<and> appends (dc_store s) old r
          \<and> (\<forall>e \<in> set old. he_kind e = u ''run.created'')
          \<and> (loaded (dc_store s) r \<or> map_of (dc_store s) (ru_id r) = None \<and> r = new_direct_run fresh t c (begin_session c)))"
proof (cases "run_for_begin fresh t c (begin_session c) s")
  case (Pair a s0)
  note st = run_for_begin_store [OF Pair]
  show ?thesis
  proof (cases a)
    case (Inl e)
    with Pair have "\<exists>e'. e = De_store e'"
      by (auto simp: run_for_begin_def split: option.splits list.splits sum.splits if_splits)
    with Pair Inl st show ?thesis by (auto simp: begin_call_def)
  next
    case (Inr r)
    then have b: "begin_call screen is_file fresh t c s = begin_on_run screen is_file t c r s0"
      using Pair by (simp add: begin_call_def)
    show ?thesis
    proof (cases "r = new_direct_run fresh t c (begin_session c)")
      case True
      from new_run_appends [OF assms, of t c "begin_session c"] obtain e
        where "he_kind e = u ''run.created''" "appends (dc_store s) [e] r" unfolding True by blast
      with b st assms(2) True new_run_facts(1) [of fresh t c "begin_session c"] show ?thesis by fastforce
    next
      case False
      with run_for_begin_old [OF assms(1), of fresh t c "begin_session c" r s0] Pair Inr
      have "loaded (dc_store s) r" by simp
      with b st loaded_appends [OF assms(1)] show ?thesis by (metis empty_iff empty_set)
    qed
  qed
qed

subsection \<open>Operations\<close>

datatype direct_op =
    Op_begin "observation option" "pystr \<Rightarrow> bool" pystr int direct_begin
  | Op_finish "pydict \<Rightarrow> bool" int direct_finish
  | Op_resolve "observation option" int pystr pystr pydict
  | Op_abort "observation option" int pystr pystr
  | Op_pause int pystr pystr
  | Op_resume int pystr

definition failure_of :: "'a direct_answer \<Rightarrow> direct_error option \<times> direct_state" where
  "failure_of m = ((case fst m of Inl e \<Rightarrow> Some e | Inr _ \<Rightarrow> None), snd m)"

fun run_op :: "direct_op \<Rightarrow> direct_state \<Rightarrow> direct_error option \<times> direct_state" where
  "run_op (Op_begin screen is_file fresh t c) s = failure_of (begin_call screen is_file fresh t c s)"
| "run_op (Op_finish accepts t c) s = failure_of (finish_call accepts t c s)"
| "run_op (Op_resolve screen t i approval decision) s = failure_of (resolve_direct_approval screen t i approval decision s)"
| "run_op (Op_abort screen t i reason) s = failure_of (abort_run screen t i reason s)"
| "run_op (Op_pause t i reason) s = failure_of (pause_run t i reason s)"
| "run_op (Op_resume t i) s = failure_of (resume_run t i s)"

definition run_ops :: "direct_op list \<Rightarrow> direct_state \<Rightarrow> direct_state" where
  "run_ops ops s = fold (\<lambda>op s. snd (run_op op s)) ops s"

definition direct_init :: direct_state where
  "direct_init = \<lparr>dc_store = [], dc_calls = [], dc_sessions = []\<rparr>"

fun is_finish :: "direct_op \<Rightarrow> bool" where
  "is_finish (Op_finish _ _ _) = True"
| "is_finish _ = False"

text \<open>The identifier a new run gets is not in use.\<close>

fun fresh_op :: "direct_op \<Rightarrow> direct_state \<Rightarrow> bool" where
  "fresh_op (Op_begin _ _ fresh _ _) s = (map_of (dc_store s) (u ''direct-'' @ fresh) = None)"
| "fresh_op _ s = True"

fun fresh_ops :: "direct_op list \<Rightarrow> direct_state \<Rightarrow> bool" where
  "fresh_ops [] s = True"
| "fresh_ops (op # ops) s = (fresh_op op s \<and> fresh_ops ops (snd (run_op op s)))"

subsection \<open>Every state fits\<close>

lemma save_run_fits: "fits (dc_store s) \<Longrightarrow> save_run r s = (a, s') \<Longrightarrow> fits (dc_store s')"
  by (auto simp: save_run_def fits_save split: sum.splits)

lemma save_run_other: "save_run r s = (a, s') \<Longrightarrow> j \<noteq> ru_id r \<Longrightarrow> map_of (dc_store s') j = map_of (dc_store s) j"
  by (auto simp: save_run_def mem_save_def bind_result_def Let_def split: sum.splits)

lemma save_run_answer: "save_run r s = (Inr r', s') \<Longrightarrow> r' = r"
  by (auto simp: save_run_def split: sum.splits)

lemma answer_bind_split: "answer_bind m f = (a, s') \<Longrightarrow>
    (\<exists>e. m = (Inl e, s') \<and> a = Inl e) \<or> (\<exists>x s. m = (Inr x, s) \<and> f x s = (a, s'))"
  by (cases m; cases "fst m") (auto simp: answer_bind_def split: sum.splits)

lemma resolved_id: "ru_id (resolved_run approval decision kind ob t r) = ru_id r"
  by (simp add: resolved_run_def record_effect_outcome_def record_event_keeps Let_def)

lemma finished_id: "ru_id (finished_run c tool ob t r) = ru_id r"
  by (simp add: finished_run_def require_approval_def check_identity_def record_effect_outcome_def record_event_keeps Let_def
      split: option.split list.split)

lemmas on_run_defs = begin_on_run_def finish_on_run_def resolve_on_run_def abort_on_run_def pause_on_run_def resume_on_run_def

text \<open>An operation that works on a run keeps the store fitting and no other run changes.\<close>

definition acts_on :: "pystr \<Rightarrow> direct_state \<Rightarrow> 'a direct_answer \<Rightarrow> bool" where
  "acts_on i s m \<longleftrightarrow> (fits (dc_store s) \<longrightarrow> fits (dc_store (snd m)))
     \<and> (\<forall>j. j \<noteq> i \<longrightarrow> map_of (dc_store (snd m)) j = map_of (dc_store s) j)"

lemma acts_on_same [intro]: "dc_store s' = dc_store s \<Longrightarrow> acts_on i s (a, s')"
  by (simp add: acts_on_def)

lemma acts_on_save [intro]: "ru_id r = i \<Longrightarrow> dc_store s0 = dc_store s \<Longrightarrow> acts_on i s (save_run r s0)"
  unfolding acts_on_def
  by (cases "save_run r s0") (metis save_run_fits save_run_other snd_conv)

lemma acts_on_bind:
  assumes "acts_on i s m" "\<And>x s1. m = (Inr x, s1) \<Longrightarrow> acts_on i s1 (f x s1)"
  shows "acts_on i s (answer_bind m f)"
proof (cases m)
  case (Pair a s1)
  with assms show ?thesis by (cases a) (auto simp: acts_on_def)
qed

lemma begin_acts: "acts_on (ru_id r) s (begin_on_run screen is_file t c r s)"
proof -
  obtain refusal index r1 where cap: "capture_pre_action screen is_file c (begin_session c) t r = (refusal, index, r1)"
    by (metis prod_cases3)
  then have "ru_id r1 = ru_id r" using capture_cases by (metis recorded_def)
  with cap show ?thesis
    by (auto simp: begin_on_run_def Let_def record_event_keeps intro!: acts_on_bind acts_on_save)
qed

lemma finish_acts: "acts_on (ru_id r) s (finish_on_run accepts t c r s)"
  by (auto simp: finish_on_run_def Let_def finished_id failed_run_def bind_session_def record_event_keeps
      split: option.split)

lemma resolve_acts: "acts_on (ru_id r) s (resolve_on_run screen t approval decision r s)"
  by (auto simp: resolve_on_run_def resolve_answered_def Let_def resolved_id record_event_keeps dest!: save_run_answer
      split: option.split intro!: acts_on_bind acts_on_same acts_on_save)

lemma abort_acts: "acts_on (ru_id r) s (abort_on_run screen t reason r s)"
  by (auto simp: abort_on_run_def abort_answered_def Let_def record_event_keeps dest!: save_run_answer split: option.split
      intro!: acts_on_bind acts_on_same acts_on_save)

lemma pause_acts: "acts_on (ru_id r) s (pause_on_run t reason r s)"
  by (auto simp: pause_on_run_def record_event_keeps)

lemma resume_acts: "acts_on (ru_id r) s (resume_on_run t r s)"
  by (auto simp: resume_on_run_def record_event_keeps)

lemma bind_fits:
  assumes "fits (dc_store s)" "dc_store (snd m) = dc_store s" "\<And>r s1. acts_on (ru_id r) s1 (g r s1)"
  shows "fits (dc_store (snd (answer_bind m g)))"
proof (cases m)
  case (Pair a s1)
  with assms show ?thesis by (cases a) (auto simp: acts_on_def)
qed

lemma run_op_fits: "fits (dc_store s) \<Longrightarrow> fits (dc_store (snd (run_op op s)))"
proof -
  assume f: "fits (dc_store s)"
  have run: "dc_store (snd (direct_run i s)) = dc_store s" for i
    by (simp add: direct_run_def split: sum.split)
  show ?thesis
  proof (cases op)
    case (Op_begin screen is_file fresh t c)
    have "dc_store (snd (run_for_begin fresh t c (begin_session c) s)) = dc_store s"
      using run_for_begin_store by (metis prod.collapse)
    from bind_fits [OF f this begin_acts] have "fits (dc_store (snd (begin_call screen is_file fresh t c s)))"
      unfolding begin_call_def .
    with Op_begin show ?thesis by (simp add: failure_of_def)
  next
    case (Op_finish accepts t c)
    have "dc_store (snd (run_for_finish c s)) = dc_store s" using run_for_finish_store by (metis prod.collapse)
    from bind_fits [OF f this finish_acts] have "fits (dc_store (snd (finish_call accepts t c s)))"
      unfolding finish_call_def .
    with Op_finish show ?thesis by (simp add: failure_of_def)
  qed (use bind_fits [OF f run resolve_acts] bind_fits [OF f run abort_acts] bind_fits [OF f run pause_acts]
        bind_fits [OF f run resume_acts] in
      \<open>simp_all add: resolve_direct_approval_def abort_run_def pause_run_def resume_run_def failure_of_def\<close>)
qed

lemma run_ops_fits: "fits (dc_store s) \<Longrightarrow> fits (dc_store (run_ops ops s))"
  by (induction ops arbitrary: s) (auto simp: run_ops_def run_op_fits)

lemma reachable_fits: "fits (dc_store (run_ops ops direct_init))"
  by (rule run_ops_fits) (simp add: direct_init_def)

subsection \<open>What a permitted call implies\<close>

lemma refusal_reason_open: "refusal_reason r tool = [] \<Longrightarrow> tool \<notin> set model_approval_tools
    \<and> (tool \<in> set observation_tools \<or> ru_status r \<in> {Rs_planning, Rs_running})"
  by (cases "ru_status r") (auto simp: refusal_reason_def u_def split: if_splits option.splits)

text \<open>
  C7. A direct call goes ahead only on an open run, and only after it is on record. Whatever happened before:
  a permitted call never decides an approval, acts only if the stored run is neither paused, nor waiting for
  the operator, nor ended (tools that only look are exempt), and its attempt, with redacted arguments, is the
  last event of the stored rail when the answer is given. A refused call leaves no attempt on the rail.
\<close>

theorem begin_allows_only_open_runs:
  fixes ops :: "direct_op list"
  defines "s \<equiv> run_ops ops direct_init"
  assumes "map_of (dc_store s) (u ''direct-'' @ fresh) = None"
    and "begin_call screen is_file fresh t c s = (Inr d, s')"
  shows "if dd_allowed d
    then bc_tool c \<notin> set model_approval_tools
      \<and> (bc_tool c \<in> set observation_tools
         \<or> (\<forall>x. map_of (dc_store s) (dd_run d) = Some x \<longrightarrow> ru_status (sr_state x) \<in> {Rs_planning, Rs_running}))
      \<and> mem_log (dc_store s') (dd_run d) \<noteq> [] \<and> attempted_call c (last (mem_log (dc_store s') (dd_run d)))
      \<and> map_of (dc_calls s') (bc_call c) = Some (dd_run d)
    else (\<exists>new. mem_log (dc_store s') (dd_run d) = mem_log (dc_store s) (dd_run d) @ new
            \<and> (\<forall>e \<in> set new. he_kind e \<noteq> u ''action.attempted''))
      \<and> dc_calls s' = dc_calls s"
proof -
  have f: "fits (dc_store s)" unfolding s_def by (rule reachable_fits)
  from begin_call_cases [OF f assms(2), of screen is_file t c] assms(3) obtain r s0 old
    where b: "begin_on_run screen is_file t c r s0 = (Inr d, s')" "dc_store s0 = dc_store s" "dc_calls s0 = dc_calls s"
      and r: "appends (dc_store s) old r" "\<forall>e \<in> set old. he_kind e = u ''run.created''"
        "loaded (dc_store s) r \<or> map_of (dc_store s) (ru_id r) = None"
    by auto
  from f r(1) have "fits (dc_store s0)" "appends (dc_store s0) old r" using b(2) by simp_all
  then show ?thesis
  proof (rule begin_on_run_ok [where screen = screen and is_file = is_file and t = t and c = c])
    fix d' s'' new
    assume ok: "begin_on_run screen is_file t c r s0 = (Inr d', s'')" "dd_run d' = ru_id r"
      "mem_log (dc_store s'') (ru_id r) = mem_log (dc_store s0) (ru_id r) @ old @ new"
      "dd_allowed d' \<Longrightarrow> refusal_reason r (bc_tool c) = [] \<and> new \<noteq> [] \<and> attempted_call c (last new)
         \<and> map_of (dc_calls s'') (bc_call c) = Some (ru_id r)"
      "\<not> dd_allowed d' \<Longrightarrow> (\<forall>e \<in> set new. he_kind e \<noteq> u ''action.attempted'') \<and> dc_calls s'' = dc_calls s0"
    with b have [simp]: "d' = d" "s'' = s'" by simp_all
    show ?thesis
    proof (cases "dd_allowed d")
      case True
      with ok refusal_reason_open [of r "bc_tool c"] r(3) loaded_status [of "dc_store s" r] show ?thesis by auto
    next
      case False
      have "he_kind e \<noteq> u ''action.attempted''" if "e \<in> set (old @ new)" for e
        using that r(2) ok(5) False by auto
      with False ok b(2, 3) show ?thesis by (auto intro!: exI [of _ "old @ new"])
    qed
  qed
qed

subsection \<open>The operator's stop\<close>

definition stopped_run :: "pystr \<Rightarrow> direct_state \<Rightarrow> bool" where
  "stopped_run i s \<longleftrightarrow> fits (dc_store s) \<and> (\<exists>x. map_of (dc_store s) i = Some x \<and> ru_status (sr_state x) = Rs_aborted)"

lemma acts_on_stopped: "stopped_run i s \<Longrightarrow> acts_on j s m \<Longrightarrow> j \<noteq> i \<Longrightarrow> stopped_run i (snd m)"
  by (auto simp: stopped_run_def acts_on_def)

lemma stopped_loaded: "stopped_run i s \<Longrightarrow> loaded (dc_store s) r \<Longrightarrow> ru_id r = i \<Longrightarrow> ru_status r = Rs_aborted"
  using loaded_status by (fastforce simp: stopped_run_def)

lemma aborted_refusal: "ru_status r = Rs_aborted \<Longrightarrow> refusal_reason r tool = [] \<Longrightarrow> tool \<in> set observation_tools"
  using refusal_reason_open by fastforce

lemma stopped_bind:
  assumes "stopped_run i s" "\<And>r s1. acts_on (ru_id r) s1 (g r s1)" "\<And>r. ru_status r = Rs_aborted \<Longrightarrow> snd (g r s) = s"
  shows "stopped_run i (snd (answer_bind (direct_run k s) g))"
proof (cases "direct_run k s")
  case (Pair a s1)
  show ?thesis
  proof (cases a)
    case (Inl e)
    with Pair assms(1) show ?thesis by (auto simp: direct_run_def split: sum.splits if_splits)
  next
    case (Inr r)
    with Pair assms(1) have r: "s1 = s" "loaded (dc_store s) r" "ru_id r = k"
      using direct_run_loaded [of s k r s1] by (simp_all add: stopped_run_def)
    show ?thesis
    proof (cases "k = i")
      case True
      with stopped_loaded [OF assms(1) r(2)] r(3) assms(1, 3) Pair Inr r(1) show ?thesis by simp
    next
      case False
      with acts_on_stopped [OF assms(1) assms(2)] r Pair Inr show ?thesis by simp
    qed
  qed
qed

lemma stopped_op:
  assumes "stopped_run i s" "\<not> is_finish op" "fresh_op op s"
  shows "stopped_run i (snd (run_op op s))"
proof (cases op)
  case (Op_begin screen is_file fresh t c)
  have f: "fits (dc_store s)" using assms(1) by (simp add: stopped_run_def)
  have fr: "map_of (dc_store s) (u ''direct-'' @ fresh) = None" using assms(3) Op_begin by simp
  have "stopped_run i (snd (begin_call screen is_file fresh t c s))"
    using begin_call_cases [OF f fr, of screen is_file t c]
  proof
    assume "\<exists>e s0. begin_call screen is_file fresh t c s = (Inl (De_store e), s0) \<and> dc_store s0 = dc_store s"
    with assms(1) show ?thesis by (auto simp: stopped_run_def)
  next
    assume "\<exists>r s0 old. begin_call screen is_file fresh t c s = begin_on_run screen is_file t c r s0
          \<and> dc_store s0 = dc_store s \<and> dc_calls s0 = dc_calls s \<and> appends (dc_store s) old r
          \<and> (\<forall>e \<in> set old. he_kind e = u ''run.created'')
          \<and> (loaded (dc_store s) r \<or> map_of (dc_store s) (ru_id r) = None \<and> r = new_direct_run fresh t c (begin_session c))"
    then obtain r s0 old where b: "begin_call screen is_file fresh t c s = begin_on_run screen is_file t c r s0"
      "dc_store s0 = dc_store s" "appends (dc_store s) old r" "loaded (dc_store s) r \<or> map_of (dc_store s) (ru_id r) = None"
      by blast
    have st0: "stopped_run i s0" using assms(1) b(2) by (simp add: stopped_run_def)
    show ?thesis
    proof (cases "ru_id r = i")
      case False
      from acts_on_stopped [OF st0 begin_acts False] b(1) show ?thesis by simp
    next
      case True
      with b(4) assms(1) have ab: "ru_status r = Rs_aborted" using stopped_loaded by (auto simp: stopped_run_def)
      have "fits (dc_store s0)" "appends (dc_store s0) old r" using f b(2, 3) by simp_all
      then show ?thesis
      proof (rule begin_on_run_ok [where screen = screen and is_file = is_file and t = t and c = c])
        fix d s' new
        assume "begin_on_run screen is_file t c r s0 = (Inr d, s')" "fits (dc_store s')"
          "\<exists>x. map_of (dc_store s') (ru_id r) = Some x
             \<and> (ru_status (sr_state x) = ru_status r \<or> refusal_reason r (bc_tool c) = [] \<and> click_coordinates c \<noteq> None)"
        with ab True aborted_refusal [OF ab] observation_no_click b(1) show ?thesis
          by (auto simp: stopped_run_def)
      qed
    qed
  qed
  with Op_begin show ?thesis by (simp add: failure_of_def)
next
  case (Op_resolve screen t k approval decision)
  have "stopped_run i (snd (resolve_direct_approval screen t k approval decision s))"
    unfolding resolve_direct_approval_def by (rule stopped_bind [OF assms(1) resolve_acts]) (simp add: resolve_on_run_def Let_def)
  with Op_resolve show ?thesis by (simp add: failure_of_def)
next
  case (Op_abort screen t k reason)
  have "stopped_run i (snd (abort_run screen t k reason s))"
    unfolding abort_run_def by (rule stopped_bind [OF assms(1) abort_acts]) (simp add: abort_on_run_def)
  with Op_abort show ?thesis by (simp add: failure_of_def)
next
  case (Op_pause t k reason)
  have "stopped_run i (snd (pause_run t k reason s))"
    unfolding pause_run_def by (rule stopped_bind [OF assms(1) pause_acts]) (simp add: pause_on_run_def)
  with Op_pause show ?thesis by (simp add: failure_of_def)
next
  case (Op_resume t k)
  have "stopped_run i (snd (resume_run t k s))"
    unfolding resume_run_def by (rule stopped_bind [OF assms(1) resume_acts]) (simp add: resume_on_run_def)
  with Op_resume show ?thesis by (simp add: failure_of_def)
qed (use assms(2) in simp)

lemma abort_stops:
  assumes "fits (dc_store s)" "abort_run screen t i reason s = (Inr r, s')"
  shows "stopped_run i s'"
proof -
  from assms obtain r0 where r0: "loaded (dc_store s) r0" "ru_id r0 = i" "abort_on_run screen t reason r0 s = (Inr r, s')"
    using direct_run_loaded [OF assms(1)] by (fastforce simp: abort_run_def answer_bind_Inr)
  show ?thesis
  proof (cases "ru_status r0 = Rs_aborted")
    case True
    with r0 assms(1) loaded_status [OF r0(1)] show ?thesis by (auto simp: abort_on_run_def stopped_run_def)
  next
    case False
    let ?r1 = "record_event ''run.abort_requested'' [(u ''reason'', PStr reason), (u ''source'', PStr (u ''operator''))] t r0"
    from r0(3) False obtain s1 ob where s1: "save_run ?r1 s = (Inr ?r1, s1)" "screen = Some ob"
      and s2: "save_run (record_event ''run.aborted''
          [(u ''reason'', PStr reason), (u ''source'', PStr (u ''operator'')), (u ''scope'', PStr (u ''direct_mcp_session''))] t
          (?r1\<lparr>ru_observation := Some ob, ru_approval := None, ru_status := Rs_aborted, ru_error := ob_error ob\<rparr>)) s1 = (Inr r, s')"
      by (auto simp: abort_on_run_def abort_answered_def answer_bind_Inr split: if_splits option.splits dest!: save_run_answer)
    have "fits (dc_store s')" using save_run_fits [OF save_run_fits [OF assms(1) s1(1)] s2] .
    moreover have "map_of (dc_store s') i \<noteq> None \<and> (\<forall>x. map_of (dc_store s') i = Some x \<longrightarrow> ru_status (sr_state x) = Rs_aborted)"
      using s2 r0(2) by (auto simp: save_run_def mem_save_def bind_result_def Let_def record_event_keeps split: sum.splits)
    ultimately show ?thesis by (auto simp: stopped_run_def)
  qed
qed

text \<open>
  C8. The operator's stop holds. Once an abort of a direct run has returned, the stored run stays aborted
  through every further operation except the report of a call that was already under way, and every call that
  resolves to this run is refused unless its tool only looks.
\<close>

theorem stop_holds_until_a_call_reports:
  fixes before_ops :: "direct_op list"
  defines "s0 \<equiv> run_ops before_ops direct_init"
  assumes "abort_run screen t i reason s0 = (Inr r, s1)"
    and "list_all (\<lambda>op. \<not> is_finish op) ops" "fresh_ops ops s1"
  defines "s2 \<equiv> run_ops ops s1"
  shows "(\<exists>x. map_of (dc_store s2) i = Some x \<and> ru_status (sr_state x) = Rs_aborted)
    \<and> (map_of (dc_store s2) (u ''direct-'' @ fresh) = None \<and> bc_tool c \<notin> set observation_tools
         \<and> begin_call scr is_file fresh t' c s2 = (Inr d, s3) \<and> dd_run d = i \<longrightarrow> \<not> dd_allowed d)"
proof -
  have "stopped_run i (run_ops ops s)" if "stopped_run i s" "fresh_ops ops s" for s
    using that assms(3)
  proof (induction ops arbitrary: s)
    case (Cons op ops)
    from Cons.prems stopped_op [of i s op] have "stopped_run i (snd (run_op op s))" by simp
    with Cons show ?case by (simp add: run_ops_def)
  qed (simp add: run_ops_def)
  moreover have "stopped_run i s1"
    using abort_stops [OF _ assms(2)] reachable_fits unfolding s0_def by blast
  ultimately have st: "stopped_run i s2" using assms(4) by (simp add: s2_def)
  then obtain x where x: "map_of (dc_store s2) i = Some x" "ru_status (sr_state x) = Rs_aborted"
    by (auto simp: stopped_run_def)
  have "\<not> dd_allowed d"
    if fr: "map_of (dc_store s2) (u ''direct-'' @ fresh) = None" and tool: "bc_tool c \<notin> set observation_tools"
      and b: "begin_call scr is_file fresh t' c s2 = (Inr d, s3)" "dd_run d = i"
  proof -
    have f: "fits (dc_store s2)" using st by (simp add: stopped_run_def)
    from begin_call_cases [OF f fr, of scr is_file t' c] b(1) obtain r s0 old
      where r: "begin_on_run scr is_file t' c r s0 = (Inr d, s3)" "dc_store s0 = dc_store s2" "appends (dc_store s2) old r"
        "loaded (dc_store s2) r \<or> map_of (dc_store s2) (ru_id r) = None"
      by auto
    from f r(3) have "fits (dc_store s0)" "appends (dc_store s0) old r" using r(2) by simp_all
    then show ?thesis
    proof (rule begin_on_run_ok [where screen = scr and is_file = is_file and t = t' and c = c])
      fix d' s'
      assume d: "begin_on_run scr is_file t' c r s0 = (Inr d', s')" "dd_run d' = ru_id r"
        "refusal_reason r (bc_tool c) \<noteq> [] \<Longrightarrow> \<not> dd_allowed d'"
      with r b(2) x have "ru_id r = i" "loaded (dc_store s2) r" by auto
      then have "ru_status r = Rs_aborted" using stopped_loaded [OF st] by blast
      with d r(1) aborted_refusal tool show ?thesis by auto
    qed
  qed
  with x show ?thesis by blast
qed

subsection \<open>The coordinator's saves succeed\<close>

lemma recorded_effect:
  "recorded ks r r1 \<Longrightarrow> \<exists>k. recorded (ks @ [k]) r (record_effect_outcome call tool result status ob latency t r1)"
  unfolding record_effect_outcome_def Let_def by (blast intro: recorded_event)

lemma recorded_next:
  "recorded ks r r1 \<Longrightarrow> ru_id r2 = ru_id r1 \<Longrightarrow> ru_events r2 = ru_events r1 \<Longrightarrow> ru_cursor r2 = ru_cursor r1 \<Longrightarrow>
    \<exists>ls. recorded ls r (record_event k d t r2)"
  using recorded_event [OF recorded_update] by blast

lemma check_recorded: "recorded ks r r1 \<Longrightarrow> \<exists>ls. recorded ls r (check_identity old new t r1)"
  by (auto simp: check_identity_def intro: recorded_next)

lemma require_recorded: "recorded ks r r1 \<Longrightarrow> \<exists>ls. recorded ls r (require_approval call tool t r1)"
  by (cases "ru_approval r1"; cases "the (ru_approval r1)")
    (auto simp: require_approval_def Let_def intro: recorded_next)

lemma finished_recorded: "\<exists>ks. recorded ks r (finished_run c tool ob t r)"
proof -
  let ?status = "str_unless (str_or_empty (get_none (fc_result c) (u ''status''))) ''running''"
  let ?r1 = "r\<lparr>ru_observation := Some ob, ru_status := run_status_of ?status tool,
       ru_error := opt_str (get_none (fc_result c) (u ''error'')),
       ru_approval := (case get_none (fc_result c) (u ''approval_request'') of PDict d \<Rightarrow> Some d | _ \<Rightarrow> None)\<rparr>"
  have "recorded [] r ?r1" by (rule recorded_update [OF recorded_refl]) simp_all
  with recorded_effect have "\<exists>ks. recorded ks r (if ?status \<noteq> u ''needs_approval''
      then record_effect_outcome (fc_call c) tool (fc_result c) ?status ob (fc_latency c) t ?r1 else ?r1)"
    by (cases "?status \<noteq> u ''needs_approval''") (simp_all, blast+)
  with check_recorded require_recorded show ?thesis unfolding finished_run_def Let_def by meson
qed

lemma resolved_recorded: "\<exists>ks. recorded ks r (resolved_run approval decision kind ob t r)"
proof -
  let ?r1 = "r\<lparr>ru_observation := Some ob, ru_approval := None, ru_error := ob_error ob\<rparr>"
  have st: "recorded [] r (?r1\<lparr>ru_status := x\<rparr>)" for x by (rule recorded_update [OF recorded_refl]) simp_all
  show ?thesis
  proof (cases "kind = u ''approve''")
    case True
    with st recorded_effect show ?thesis unfolding resolved_run_def Let_def by (simp, meson recorded_event)
  next
    case False
    with st show ?thesis unfolding resolved_run_def Let_def by (simp, meson recorded_event)
  qed
qed

lemma save_recorded_ok:
  assumes "fits (dc_store s)" "appends (dc_store s) [] r" "recorded ks r r1"
  shows "\<exists>st. save_run r1 s = (Inr r1, s\<lparr>dc_store := st\<rparr>) \<and> fits st \<and> appends st [] r1"
  using recorded_save [OF assms] by metis

definition no_store_error :: "'a direct_answer \<Rightarrow> bool" where
  "no_store_error m \<longleftrightarrow> (\<forall>e. fst m \<noteq> Inl (De_store e))"

lemma save_recorded_no_error:
  "fits (dc_store s) \<Longrightarrow> appends (dc_store s) [] r \<Longrightarrow> \<exists>ks. recorded ks r r1 \<Longrightarrow> no_store_error (save_run r1 s)"
  using save_recorded_ok by (fastforce simp: no_store_error_def)

lemma save_then_no_error:
  assumes "fits (dc_store s)" "appends (dc_store s) [] r" "recorded ks r r1"
    and "\<And>st. fits st \<Longrightarrow> appends st [] r1 \<Longrightarrow> no_store_error (f r1 (s\<lparr>dc_store := st\<rparr>))"
  shows "no_store_error (answer_bind (save_run r1 s) f)"
  using save_recorded_ok [OF assms(1-3)] assms(4) by fastforce

lemma no_store_error_simps [simp]:
  "no_store_error (Inr x, s)" "no_store_error (Inl (De_value v), s)" "no_store_error (Inl De_computer, s)"
  "no_store_error (Inl De_invalid_result, s)"
  by (simp_all add: no_store_error_def)

lemma finish_no_error:
  assumes "fits (dc_store s)" "appends (dc_store s) [] r"
  shows "no_store_error (finish_on_run accepts t c r s)"
proof -
  define r' where "r' = (if finish_session c r = [] then r else r\<lparr>ru_session := Some (finish_session c r)\<rparr>)"
  define s' where "s' = bind_session (finish_session c r) r' s"
  have st: "fits (dc_store s')" "appends (dc_store s') [] r'"
    using assms appends_cong [of r' r] by (simp_all add: s'_def r'_def bind_session_def)
  have "recorded [''action.failed''] r' (failed_run c (tool_for_call r (fc_call c)) t r')"
    unfolding failed_run_def Let_def by (rule recorded_from) simp_all
  then have "\<exists>ks. recorded ks r' (failed_run c (tool_for_call r (fc_call c)) t r')" by (rule exI)
  from save_recorded_no_error [OF st this] save_recorded_no_error [OF st finished_recorded] show ?thesis
    unfolding finish_on_run_def Let_def r'_def [symmetric] s'_def [symmetric] by (simp split: option.split)
qed

lemma resolve_no_error:
  assumes "fits (dc_store s)" "appends (dc_store s) [] r"
  shows "no_store_error (resolve_on_run screen t approval decision r s)"
proof -
  let ?r1 = "record_event ''approval.resolving'' [(u ''approval_id'', PStr approval),
      (u ''decision'', PStr (str_or_empty (get_none decision (u ''type'')))), (u ''source'', PStr (u ''operator''))] t r"
  have "recorded [''approval.resolving''] r ?r1" by (rule recorded_from) simp_all
  from assms this have "no_store_error (answer_bind (save_run ?r1 s)
      (resolve_answered screen t approval decision (str_or_empty (get_none decision (u ''type'')))))"
    by (rule save_then_no_error) (auto simp: resolve_answered_def split: option.split intro: save_recorded_no_error resolved_recorded)
  then show ?thesis unfolding resolve_on_run_def Let_def by simp
qed

lemma abort_no_error:
  assumes "fits (dc_store s)" "appends (dc_store s) [] r"
  shows "no_store_error (abort_on_run screen t reason r s)"
proof -
  let ?r1 = "record_event ''run.abort_requested'' [(u ''reason'', PStr reason), (u ''source'', PStr (u ''operator''))] t r"
  have "recorded [''run.abort_requested''] r ?r1" by (rule recorded_from) simp_all
  from assms this have "no_store_error (answer_bind (save_run ?r1 s) (abort_answered screen t reason))"
    by (rule save_then_no_error) (auto simp: abort_answered_def split: option.split intro!: save_recorded_no_error exI recorded_from)
  then show ?thesis unfolding abort_on_run_def by simp
qed

lemma pause_no_error: "fits (dc_store s) \<Longrightarrow> appends (dc_store s) [] r \<Longrightarrow> no_store_error (pause_on_run t reason r s)"
  by (auto simp: pause_on_run_def intro!: save_recorded_no_error exI recorded_from)

lemma resume_no_error: "fits (dc_store s) \<Longrightarrow> appends (dc_store s) [] r \<Longrightarrow> no_store_error (resume_on_run t r s)"
  by (auto simp: resume_on_run_def intro!: save_recorded_no_error exI recorded_from)

lemma load_error: "fits (dc_store s) \<Longrightarrow> load_control i s = Inl e \<Longrightarrow> e = Run_not_found"
proof (cases "map_of (dc_store s) i")
  case (Some x)
  assume "fits (dc_store s)" "load_control i s = Inl e"
  with Some parts_loaded [of "dc_store s" i x "length (sr_log x) - control_event_tail_limit"] show ?thesis
    by (simp add: load_control_def mem_get_control_def control_event_tail_limit_def tail_of_def)
qed (simp add: load_control_def mem_get_control_def control_event_tail_limit_def)

lemma state_error: "fits st \<Longrightarrow> mem_get_state i st = Inl e \<Longrightarrow> e = Run_not_found"
proof (cases "map_of st i")
  case (Some x)
  assume "fits st" "mem_get_state i st = Inl e"
  with Some parts_loaded [of st i x "length (sr_log x)"] fitsD(2) [of st i x] show ?thesis by (simp add: mem_get_state_def)
qed (simp add: mem_get_state_def)

lemma find_run_error: "find_run load p is = Inl e \<Longrightarrow> \<exists>i. load i = Inl e"
  by (induction "is") (auto simp: bind_result_Inl_iff split: if_splits)

lemma bind_store_error:
  assumes "fits (dc_store s)" "fst (answer_bind (direct_run i s) g) = Inl (De_store e)"
    "\<And>r s. fits (dc_store s) \<Longrightarrow> appends (dc_store s) [] r \<Longrightarrow> no_store_error (g r s)"
  shows "e = Run_not_found"
proof (cases "direct_run i s")
  case (Pair a s1)
  show ?thesis
  proof (cases a)
    case (Inl e')
    with Pair assms(1, 2) load_error show ?thesis by (auto simp: direct_run_def split: sum.splits if_splits)
  next
    case (Inr r)
    with Pair direct_run_loaded [OF assms(1)] loaded_appends [OF assms(1)] have "s1 = s" "appends (dc_store s) [] r" by blast+
    with assms(2) assms(3) [OF assms(1), of r] Pair Inr show ?thesis by (simp add: no_store_error_def)
  qed
qed

lemma begin_run_appends:
  assumes "fits (dc_store s)" "map_of (dc_store s) (u ''direct-'' @ fresh) = None"
    and "run_for_begin fresh t c session s = (Inr r, s0)"
  shows "\<exists>old. appends (dc_store s0) old r" "fits (dc_store s0)"
proof -
  have st: "dc_store s0 = dc_store s" using run_for_begin_store [OF assms(3)] by simp
  then show "fits (dc_store s0)" using assms(1) by simp
  show "\<exists>old. appends (dc_store s0) old r"
  proof (cases "r = new_direct_run fresh t c session")
    case True
    with new_run_appends [OF assms(1, 2)] st show ?thesis by metis
  next
    case False
    with run_for_begin_old [OF assms(1, 3)] loaded_appends [OF assms(1)] st show ?thesis by auto
  qed
qed

lemma begin_run_error:
  assumes "fits (dc_store s)" "run_for_begin fresh t c session s = (Inl e, s0)"
  shows "e = De_store Run_not_found"
  using assms unfolding run_for_begin_def
  by (auto split: option.splits list.splits sum.splits if_splits dest!: find_run_error dest: load_error state_error)

lemma finish_run_error:
  assumes "fits (dc_store s)" "run_for_finish c s = (Inl (De_store e), s0)"
  shows "e = Run_not_found"
proof -
  define i where "i = (if fc_run c \<noteq> [] then fc_run c else case map_of (dc_calls s) (fc_call c) of None \<Rightarrow> [] | Some i \<Rightarrow> i)"
  note run = assms(2) [unfolded run_for_finish_def i_def [symmetric] Let_def]
  show ?thesis
  proof (cases "i = []")
    case True
    with run assms(1) show ?thesis
      by (auto split: option.splits sum.splits dest!: find_run_error dest: load_error)
  next
    case False
    with run have "fst (answer_bind (direct_run i s) (\<lambda>r s.
        if tool_for_call r (fc_call c) \<noteq> [] then (Inr r, s\<lparr>dc_calls := dict_set (dc_calls s) (fc_call c) (ru_id r)\<rparr>)
        else (Inl De_unknown_call, s))) = Inl (De_store e)" by simp
    from bind_store_error [OF assms(1) this] show ?thesis by (simp add: no_store_error_def)
  qed
qed

lemma begin_call_error:
  assumes f: "fits (dc_store s)" and fr: "map_of (dc_store s) (u ''direct-'' @ fresh) = None"
    and err: "fst (begin_call screen is_file fresh t c s) = Inl (De_store e)"
  shows "e = Run_not_found"
proof (cases "run_for_begin fresh t c (begin_session c) s")
  case (Pair a s0)
  show ?thesis
  proof (cases a)
    case (Inl e')
    with Pair err have "run_for_begin fresh t c (begin_session c) s = (Inl (De_store e), s0)" by (simp add: begin_call_def)
    from begin_run_error [OF f this] show ?thesis by simp
  next
    case (Inr r)
    with Pair begin_run_appends [OF f fr] obtain old where o: "fits (dc_store s0)" "appends (dc_store s0) old r" by blast
    then obtain d s1 where "begin_on_run screen is_file t c r s0 = (Inr d, s1)" by (rule begin_on_run_ok)
    with err Pair Inr show ?thesis by (simp add: begin_call_def)
  qed
qed

lemma finish_call_error:
  assumes f: "fits (dc_store s)" and err: "fst (finish_call accepts t c s) = Inl (De_store e)"
  shows "e = Run_not_found"
proof (cases "run_for_finish c s")
  case (Pair a s0)
  show ?thesis
  proof (cases a)
    case (Inl e')
    with Pair finish_run_error [OF f] err show ?thesis by (auto simp: finish_call_def)
  next
    case (Inr r)
    with Pair run_for_finish_loaded [OF f] have r: "loaded (dc_store s) r" "dc_store s0 = dc_store s" by simp_all
    then have "no_store_error (finish_on_run accepts t c r s0)"
      using f loaded_appends [OF f r(1)] by (intro finish_no_error) simp_all
    with err Pair Inr show ?thesis by (simp add: finish_call_def no_store_error_def)
  qed
qed

text \<open>
  C36. The coordinator never loses an event to its own store. Whatever calls and operator actions come, in
  any order, with new runs under unused identifiers, no save is refused: a store error is only ever the answer
  that a run named by the caller does not exist.
\<close>

theorem coordinator_saves_succeed:
  fixes ops :: "direct_op list"
  defines "s \<equiv> run_ops ops direct_init"
  assumes "fresh_op op s" "fst (run_op op s) = Some (De_store e)"
  shows "e = Run_not_found"
proof -
  have f: "fits (dc_store s)" unfolding s_def by (rule reachable_fits)
  note failed = assms(3)
  show ?thesis
  proof (cases op)
    case (Op_begin screen is_file fresh t c)
    then show ?thesis using assms(2) failed by (auto simp: failure_of_def split: sum.splits intro: begin_call_error [OF f])
  next
    case (Op_finish accepts t c)
    then show ?thesis using failed by (auto simp: failure_of_def split: sum.splits intro: finish_call_error [OF f])
  qed (use failed bind_store_error [OF f _ resolve_no_error] bind_store_error [OF f _ abort_no_error]
        bind_store_error [OF f _ pause_no_error] bind_store_error [OF f _ resume_no_error] in
      \<open>force simp: failure_of_def resolve_direct_approval_def abort_run_def pause_run_def resume_run_def split: sum.splits\<close>)+
qed

end
