(* ===== verification/DirectScenes.thy ===== *)
theory DirectScenes
  imports DirectProps
begin

text \<open>
  What a verified effect rests on, how an approval can get lost, and concrete sequences of direct calls.
\<close>

subsection \<open>A verified effect is earned\<close>

lemma public_receipt_index: "get_none (public_receipt i a c) (u ''index'') = PInt (int i)"
proof (cases "secret_text_action a \<or> get_none c (u ''observed_text_redacted'') = PBool True")
  case True
  then have "public_receipt i a c = redacted_receipt
      (dict_set (copy_fields c [(u ''index'', PInt (int i)), (u ''type'', action_type a)]) (u ''observed_text_redacted'') (PBool True))"
    by (auto simp: public_receipt_def Let_def secret_text_action_def)
  then show ?thesis
    by (auto simp: redacted_lookup redaction_pops_def get_none_def get_or_def copy_fields_base)
next
  case False
  have text_index: "get_none (text_receipt a c r) (u ''index'') = get_none r (u ''index'')" for r
    by (auto simp: text_receipt_def Let_def get_none_def get_or_def split: pyval.split)
  from False public_receipt_open [of a c i] show ?thesis
    by (auto simp: Let_def text_index) (auto simp: get_none_def get_or_def copy_fields_base)
qed

lemma public_receipt_state:
  "\<exists>p. get_none (public_receipt i a c) (u ''proof_state'') = PStr (u p) \<and> p \<noteq> ''exact_readback''"
proof (cases "secret_text_action a \<or> get_none c (u ''observed_text_redacted'') = PBool True")
  case True
  with public_receipt_redacted [of a c i] show ?thesis by auto
next
  case False
  have state: "proof_state r seen want \<noteq> ''exact_readback''" for r seen want
    by (simp add: proof_state_def)
  then have "\<exists>p. get_none (text_receipt a c r) (u ''proof_state'') = PStr (u p) \<and> p \<noteq> ''exact_readback''" for r
    by (auto simp: text_receipt_def Let_def get_none_def get_or_def)
  with False public_receipt_open [of a c i] show ?thesis
    by (auto simp: Let_def) (auto simp: get_none_def get_or_def)
qed

lemma public_receipt_at_indexed:
  assumes "public_receipt_at (public_input_receipts raw actions) i \<noteq> []"
  shows "(i, public_receipt_at (public_input_receipts raw actions) i) \<in> set (indexed_receipts raw actions)"
proof -
  let ?rs = "public_input_receipts raw actions"
  obtain r where "List.find (\<lambda>r. get_none r (u ''index'') = PInt (int i)) (rev ?rs) = Some r" and at: "public_receipt_at ?rs i = r"
    using assms by (auto simp: public_receipt_at_def split: option.splits)
  then have "r \<in> set ?rs" "get_none r (u ''index'') = PInt (int i)"
    by (auto simp: find_Some_iff) (metis length_rev nth_mem set_rev)
  then obtain j where j: "(j, r) \<in> set (indexed_receipts raw actions)" by (auto simp: public_input_receipts_def)
  then have "get_none r (u ''index'') = PInt (int j)" using indexed_receiptE public_receipt_index by metis
  with j at \<open>get_none r (u ''index'') = PInt (int i)\<close> show ?thesis by simp
qed

text \<open>
  C15. The effect of a direct call is reported as verified only if it was proved. Then the tool reported no
  failure, staleness or refusal and is one that acts, and every input of the call other than a wait is an open
  text whose own receipt earned the exact state: issued in full, read back in focus, with the digest of what
  was to be delivered equal to the digest read back.
\<close>

theorem verified_effect_is_earned:
  assumes "snd (effect_outcome tool status actions (public_input_receipts raw actions)) = Es_verified"
  shows "status \<notin> set (failure_statuses @ stale_statuses @ policy_refused_statuses) \<and> tool \<notin> set no_effect_tools
    \<and> active_inputs actions \<noteq> []
    \<and> (\<forall>(i, k) \<in> set (active_inputs actions). k = u ''type_text'' \<and> \<not> secret_text_action (actions ! i)
        \<and> (\<exists>r. (i, r) \<in> set (indexed_receipts raw actions) \<and> exact_proof r
              \<and> is_PStr (delivery_hash r) \<and> delivery_hash r = get_none r (u ''readback_sha256'')))"
proof -
  let ?rs = "public_input_receipts raw actions"
  have ok: "exact_input_effect_verified actions ?rs"
    and st: "status \<notin> set (failure_statuses @ stale_statuses @ policy_refused_statuses)" "tool \<notin> set no_effect_tools"
    using assms by (auto simp: effect_outcome_def split: if_splits)
  have each: "k = u ''type_text'' \<and> \<not> secret_text_action (actions ! i)
      \<and> (\<exists>r. (i, r) \<in> set (indexed_receipts raw actions) \<and> exact_proof r
            \<and> is_PStr (delivery_hash r) \<and> delivery_hash r = get_none r (u ''readback_sha256''))"
    if "(i, k) \<in> set (active_inputs actions)" for i k
  proof -
    let ?r = "public_receipt_at ?rs i"
    have k: "k = u ''type_text''" and ex: "exact_receipt ?r"
      using ok that by (auto simp: exact_input_effect_verified_def Let_def list_all_iff)
    have "?r \<noteq> []" using ex by (auto simp: exact_receipt_def get_none_def get_or_def)
    then have mem: "(i, ?r) \<in> set (indexed_receipts raw actions)" by (rule public_receipt_at_indexed)
    obtain p where p: "get_none ?r (u ''proof_state'') = PStr (u p)" "p \<noteq> ''exact_readback''"
      using indexed_receiptE [OF mem] public_receipt_state by metis
    with ex have "p \<in> set exact_states" by (auto simp: exact_receipt_def exact_states_def str_in_def)
    from mem p(1) this have "\<not> secret_text_action (actions ! i) \<and> exact_proof ?r"
      using exact_state_earned by blast
    with k mem ex show ?thesis by (auto simp: exact_receipt_def)
  qed
  show ?thesis using st ok each by (auto simp: exact_input_effect_verified_def Let_def)
qed

subsection \<open>An approval that leads to another\<close>

text \<open>
  The request behind a second approval is lost. If the computer answers an approved action with another
  request for approval, the run waits for the operator with no request on record, and from then on every
  decision the operator sends is refused, so the run can only be aborted.
\<close>

theorem second_approval_is_lost:
  fixes ops :: "direct_op list"
  defines "s \<equiv> run_ops ops direct_init"
  assumes "resolve_direct_approval (Some ob) t i approval decision s = (Inr r, s1)"
    and "get_none decision (u ''type'') = PStr (u ''approve'')" "ob_status ob = u ''needs_approval''"
  shows "ru_status r = Rs_needs_approval \<and> ru_approval r = None
    \<and> (\<exists>e. fst (resolve_direct_approval screen t' i approval' decision' s1) = Inl e)"
proof -
  have f: "fits (dc_store s)" unfolding s_def by (rule reachable_fits)
  from assms(2) obtain r0 where r0: "ru_id r0 = i" "resolve_on_run (Some ob) t approval decision r0 s = (Inr r, s1)"
    using direct_run_loaded [OF f] by (fastforce simp: resolve_direct_approval_def answer_bind_Inr)
  have kind: "str_or_empty (get_none decision (u ''type'')) = u ''approve''"
    using assms(3) by (simp add: str_or_empty_def)
  let ?r1 = "record_event ''approval.resolving'' [(u ''approval_id'', PStr approval),
      (u ''decision'', PStr (u ''approve'')), (u ''source'', PStr (u ''operator''))] t r0"
  from r0(2) obtain x s2 where sx: "save_run ?r1 s = (Inr x, s2)"
    "save_run (resolved_run approval decision (u ''approve'') ob t x) s2 = (Inr r, s1)"
    by (auto simp: resolve_on_run_def resolve_answered_def kind answer_bind_Inr Let_def split: if_splits)
  then have s2: "save_run ?r1 s = (Inr ?r1, s2)"
    and sv: "save_run (resolved_run approval decision (u ''approve'') ob t ?r1) s2 = (Inr r, s1)"
    using save_run_answer [OF sx(1)] by simp_all
  have r: "r = resolved_run approval decision (u ''approve'') ob t ?r1" using save_run_answer [OF sv] .
  have st: "ru_status r = Rs_needs_approval" "ru_approval r = None" "ru_id r = i"
    using assms(4) r0(1) by (simp_all add: r resolved_run_def record_effect_outcome_def record_event_keeps Let_def run_status_of_def)
  have f1: "fits (dc_store s1)" using save_run_fits [OF save_run_fits [OF f s2] sv] .
  have x: "map_of (dc_store s1) i = Some x \<Longrightarrow> ru_approval (sr_state x) = None" for x
    using sv st by (auto simp: r [symmetric] save_run_def mem_save_def bind_result_def Let_def split: sum.splits)
  have "\<exists>e. fst (resolve_direct_approval screen t' i approval' decision' s1) = Inl e"
  proof (cases "direct_run i s1")
    case (Pair a s3)
    show ?thesis
    proof (cases a)
      case (Inl e)
      with Pair show ?thesis by (simp add: resolve_direct_approval_def)
    next
      case (Inr r3)
      with Pair direct_run_loaded [OF f1] have l: "loaded (dc_store s1) r3" "ru_id r3 = i" by simp_all
      then obtain x3 m where x3: "map_of (dc_store s1) i = Some x3"
        and eq: "r3 = (sr_state x3)\<lparr>ru_caller := ru_caller r3, ru_events := drop m (sr_log x3)\<rparr>"
        by (auto simp: loaded_def)
      have "ru_approval r3 = None" by (subst eq) (simp add: x [OF x3])
      then show ?thesis using Pair Inr by (auto simp: resolve_direct_approval_def resolve_on_run_def pending_of_def get_none_def get_or_def Let_def)
    qed
  qed
  with st show ?thesis by simp
qed

subsection \<open>Concrete sequences\<close>

definition session_result :: "string \<Rightarrow> pydict" where
  "session_result status = [(u ''session_id'', PStr (u ''s'')), (u ''status'', PStr (u status))]"

definition finish_of :: "string \<Rightarrow> string \<Rightarrow> direct_finish" where
  "finish_of call status = \<lparr>fc_call = u call, fc_run = [], fc_completed = True, fc_latency = None,
     fc_result = session_result status, fc_error = []\<rparr>"

definition key_call :: "string \<Rightarrow> direct_begin" where
  "key_call i = \<lparr>bc_call = u i, bc_tool = u ''pikvm_key'', bc_arguments = [(u ''session_id'', PStr (u ''s''))], bc_caller = []\<rparr>"

definition demo_screen :: "string \<Rightarrow> observation" where
  "demo_screen status = \<lparr>ob_session = u ''s'', ob_status = u status, ob_machine = [], ob_frame = PNone, ob_world = PNone,
     ob_epoch = PNone, ob_image = None, ob_error = None, ob_raw = []\<rparr>"

definition begin_op :: "string \<Rightarrow> direct_begin \<Rightarrow> direct_op" where
  "begin_op fresh c = Op_begin None (\<lambda>_. False) (u fresh) 0 c"

definition finish_op :: "string \<Rightarrow> string \<Rightarrow> direct_op" where
  "finish_op call status = Op_finish (\<lambda>_. True) 0 (finish_of call status)"

definition demo_id :: pystr where "demo_id = u ''direct-a''"

definition status_in :: "direct_state \<Rightarrow> pystr \<Rightarrow> run_status option" where
  "status_in s i = map_option (ru_status \<circ> sr_state) (map_of (dc_store s) i)"

definition answer_of :: "string \<Rightarrow> direct_begin \<Rightarrow> direct_state \<Rightarrow> (bool \<times> pystr) option" where
  "answer_of fresh c s = (case fst (begin_call None (\<lambda>_. False) (u fresh) 0 c s) of
       Inl _ \<Rightarrow> None | Inr d \<Rightarrow> Some (dd_allowed d, dd_run d))"

definition probe :: "direct_state \<Rightarrow> run_status option \<times> (bool \<times> pystr) option" where
  "probe s = (status_in s demo_id, answer_of ''c'' (key_call ''c3'') s)"

text \<open>
  A key is sent; the operator stops the run while it is on its way; the report of that key comes afterwards.
\<close>

definition sent_ops :: "direct_op list" where
  "sent_ops = [begin_op ''a'' (key_call ''c2'')]"

definition sent_state :: direct_state where
  "sent_state = run_ops sent_ops direct_init"

definition stop_answer :: "direct_state \<Rightarrow> run_snapshot direct_answer" where
  "stop_answer s = abort_run (Some (demo_screen ''aborted'')) 0 demo_id (u ''stop'') s"

definition aborted_state :: direct_state where
  "aborted_state = snd (stop_answer sent_state)"

definition report :: "direct_state \<Rightarrow> direct_state" where
  "report s = snd (run_op (finish_op ''c2'' ''completed'') s)"

definition stop_scene :: "direct_state \<Rightarrow> (run_status option \<times> (bool \<times> pystr) option) list" where
  "stop_scene s = map probe [s, report s]"

lemma stop_scene_is: "stop_scene aborted_state = [(Some Rs_aborted, Some (False, demo_id)), (Some Rs_running, Some (True, demo_id))]"
  by code_simp


text \<open>A pause that follows a block, and the resumption after it, open the run again.\<close>

definition blocked_state :: direct_state where
  "blocked_state = snd (run_op (finish_op ''c2'' ''blocked'') sent_state)"

definition unblocked_state :: direct_state where
  "unblocked_state = run_ops [Op_pause 0 demo_id [], Op_resume 0 demo_id] blocked_state"

theorem pause_lifts_a_block:
  "map (\<lambda>s. status_in s demo_id) [blocked_state, unblocked_state] = [Some Rs_blocked, Some Rs_running]"
  by code_simp

text \<open>More evidence, a worse outcome: the digest of the frame that was read makes the same text unverified.\<close>

definition demo_frame :: pydict where
  "demo_frame = [(u ''readback_frame_sha256'', PStr demo_hash)]"

definition outcome_of :: "pydict \<Rightarrow> effect_state" where
  "outcome_of c = snd (effect_outcome (u ''pikvm_run_burst'') (u ''completed'') [demo_text]
     (public_input_receipts (demo_raw c) [demo_text]))"

lemma demo_outcomes: "map outcome_of [demo_claim @ demo_digests demo_hash, demo_claim @ demo_digests demo_hash @ demo_frame]
    = [Es_verified, Es_unverified]"
  by code_simp

theorem frame_evidence_unverifies:
  "outcome_of (demo_claim @ demo_digests demo_hash) = Es_verified
   \<and> outcome_of (demo_claim @ demo_digests demo_hash @ demo_frame) = Es_unverified"
  using demo_outcomes by simp

subsection \<open>The properties at these sequences\<close>

theorem verified_effect_is_earned_witness:
  "\<exists>r. (0, r) \<in> set (indexed_receipts (demo_raw (demo_claim @ demo_digests demo_hash)) [demo_text]) \<and> exact_proof r"
proof -
  have "active_inputs [demo_text] = [(0, u ''type_text'')]" by code_simp
  moreover have "outcome_of (demo_claim @ demo_digests demo_hash) = Es_verified" using demo_outcomes by simp
  ultimately show ?thesis using verified_effect_is_earned [of "u ''pikvm_run_burst''" "u ''completed''" "[demo_text]"
      "demo_raw (demo_claim @ demo_digests demo_hash)"] by (auto simp: outcome_of_def)
qed

definition unused :: "direct_state \<Rightarrow> string \<Rightarrow> bool" where
  "unused s fresh = (case map_of (dc_store s) (u ''direct-'' @ u fresh) of None \<Rightarrow> True | Some _ \<Rightarrow> False)"

lemma unused_iff: "unused s fresh \<longleftrightarrow> map_of (dc_store s) (u ''direct-'' @ u fresh) = None"
  by (simp add: unused_def split: option.split)

definition sent_scene :: "direct_state \<Rightarrow> bool \<times> (bool \<times> pystr) option \<times> direct_error option" where
  "sent_scene s = (unused s ''b'', answer_of ''b'' (key_call ''c4'') s, fst (run_op (Op_resume 0 (u ''none'')) s))"

lemma sent_scene_is: "sent_scene sent_state = (True, Some (True, demo_id), Some (De_store Run_not_found))"
  by code_simp

theorem begin_allows_only_open_runs_witness:
  "\<exists>d s'. begin_call None (\<lambda>_. False) (u ''b'') 0 (key_call ''c4'') sent_state = (Inr d, s')
     \<and> dd_allowed d \<and> attempted_call (key_call ''c4'') (last (mem_log (dc_store s') (dd_run d)))"
proof -
  let ?b = "begin_call None (\<lambda>_. False) (u ''b'') 0 (key_call ''c4'') sent_state"
  from sent_scene_is obtain d s' where d: "?b = (Inr d, s')" "dd_allowed d"
    by (cases ?b) (auto simp: sent_scene_def answer_of_def split: sum.splits)
  have "map_of (dc_store sent_state) (u ''direct-'' @ u ''b'') = None"
    using sent_scene_is unused_iff by (simp add: sent_scene_def)
  from begin_allows_only_open_runs [OF this [unfolded sent_state_def] d(1) [unfolded sent_state_def]] d show ?thesis by auto
qed

theorem coordinator_saves_succeed_witness:
  "\<exists>e. fst (run_op (Op_resume 0 (u ''none'')) (run_ops sent_ops direct_init)) = Some (De_store e) \<and> e = Run_not_found"
proof -
  have "fst (run_op (Op_resume 0 (u ''none'')) (run_ops sent_ops direct_init)) = Some (De_store Run_not_found)"
    using sent_scene_is by (simp add: sent_scene_def sent_state_def)
  with coordinator_saves_succeed [OF _ this] show ?thesis by simp
qed

definition later_ops :: "direct_op list" where
  "later_ops = [Op_pause 0 demo_id []]"

definition later_scene :: "run_snapshot direct_answer \<Rightarrow> bool \<times> bool \<times> bool \<times> (bool \<times> pystr) option" where
  "later_scene m = (is_ok (fst m), fresh_ops later_ops (snd m), unused (run_ops later_ops (snd m)) ''c'',
     answer_of ''c'' (key_call ''c3'') (run_ops later_ops (snd m)))"

lemma later_scene_is: "later_scene (stop_answer sent_state) = (True, True, True, Some (False, demo_id))"
  by code_simp

lemma key_tool: "u ''pikvm_key'' \<notin> set observation_tools"
  by (simp add: observation_tools_def)

theorem stop_holds_until_a_call_reports_witness:
  "status_in (run_ops later_ops aborted_state) demo_id = Some Rs_aborted
   \<and> answer_of ''c'' (key_call ''c3'') (run_ops later_ops aborted_state) = Some (False, demo_id)"
proof -
  obtain r where r: "abort_run (Some (demo_screen ''aborted'')) 0 demo_id (u ''stop'') (run_ops sent_ops direct_init) = (Inr r, aborted_state)"
    using later_scene_is by (cases "stop_answer sent_state")
      (auto simp: aborted_state_def sent_state_def later_scene_def is_ok_iff stop_answer_def)
  have l: "fresh_ops later_ops aborted_state" "map_of (dc_store (run_ops later_ops aborted_state)) (u ''direct-'' @ u ''c'') = None"
    "answer_of ''c'' (key_call ''c3'') (run_ops later_ops aborted_state) = Some (False, demo_id)"
    using later_scene_is unused_iff by (simp_all add: later_scene_def aborted_state_def)
  obtain d s3 where d: "begin_call None (\<lambda>_. False) (u ''c'') 0 (key_call ''c3'') (run_ops later_ops aborted_state) = (Inr d, s3)" "dd_run d = demo_id"
    using l(3) by (cases "begin_call None (\<lambda>_. False) (u ''c'') 0 (key_call ''c3'') (run_ops later_ops aborted_state)")
      (auto simp: answer_of_def split: sum.splits)
  have "bc_tool (key_call ''c3'') \<notin> set observation_tools" using key_tool by (simp add: key_call_def)
  moreover have "list_all (\<lambda>op. \<not> is_finish op) later_ops" by (simp add: later_ops_def)
  ultimately have "(\<exists>x. map_of (dc_store (run_ops later_ops aborted_state)) demo_id = Some x \<and> ru_status (sr_state x) = Rs_aborted) \<and> \<not> dd_allowed d"
    using stop_holds_until_a_call_reports [OF r _ l(1), of "u ''c''" "key_call ''c3''" None "\<lambda>_. False" 0 d s3] l(2) d by simp
  with d l(3) show ?thesis by (auto simp: status_in_def answer_of_def)
qed

text \<open>The computer answers an approved call with another request.\<close>

definition asked_ops :: "direct_op list" where
  "asked_ops = sent_ops @ [Op_finish (\<lambda>_. True) 0 \<lparr>fc_call = u ''c2'', fc_run = [], fc_completed = True, fc_latency = None,
     fc_result = [(u ''status'', PStr (u ''needs_approval'')),
       (u ''approval_request'', PDict [(u ''approval_id'', PStr (u ''p''))])], fc_error = []\<rparr>]"

definition approve :: pydict where "approve = [(u ''type'', PStr (u ''approve''))]"

lemma approve_answers: "is_ok (fst (resolve_direct_approval (Some (demo_screen ''needs_approval'')) 0 demo_id (u ''p'') approve
    (run_ops asked_ops direct_init))) = True"
  by code_simp

theorem second_approval_is_lost_witness:
  "\<exists>r s1. resolve_direct_approval (Some (demo_screen ''needs_approval'')) 0 demo_id (u ''p'') approve (run_ops asked_ops direct_init) = (Inr r, s1)
     \<and> ru_status r = Rs_needs_approval \<and> ru_approval r = None"
proof -
  obtain r s1 where r: "resolve_direct_approval (Some (demo_screen ''needs_approval'')) 0 demo_id (u ''p'') approve (run_ops asked_ops direct_init) = (Inr r, s1)"
    using approve_answers is_ok_iff by (metis prod.collapse)
  from second_approval_is_lost [OF r] have "ru_status r = Rs_needs_approval \<and> ru_approval r = None"
    by (simp add: approve_def get_none_def get_or_def demo_screen_def)
  with r show ?thesis by blast
qed

end
