(* ===== verification/ModelBudget.thy ===== *)
theory ModelBudget
  imports PyVal
begin

text \<open>
  The model budget of a run, \<open>harness/model_budget.py\<close>, over the accounting state of
  \<open>RunModelBudgetState\<close> in \<open>harness/agent_models.py\<close>. A checkpoint is the saved copy of that state; the store
  answers through a flag. Prices are decimals and the sum of a usage report is taken exactly; a reported
  float stands for the decimal its text denotes.
\<close>

subsection \<open>State, policy, leases\<close>

datatype budget_error = Be_exceeded string | Be_store | Be_arithmetic

record budget_state =
  bs_attempts :: int
  bs_attempt_limit :: "int option"
  bs_committed :: int
  bs_max_cost :: "int option"
  bs_pricing :: "pystr option"
  bs_reservations :: "(pystr \<times> int) list"
  bs_provider_cost :: "(pystr \<times> int) list"

definition outstanding :: "budget_state \<Rightarrow> int" where
  "outstanding b = sum_list (map snd (bs_reservations b))"

record model_budget =
  mb_state :: budget_state
  mb_saved :: budget_state

record attempt_lease =
  al_id :: pystr
  al_provider :: pystr
  al_reservation :: int

datatype cost_terms = Subscription | Metered int "(pystr \<times> rat) list"

record budget_policy =
  bp_attempts :: int
  bp_max_cost :: "int option"
  bp_pricing :: "pystr option"
  bp_terms :: "(pystr \<times> cost_terms) list"

fun terms_ok :: "cost_terms \<Rightarrow> bool" where
  "terms_ok Subscription = True"
| "terms_ok (Metered n prices) = (0 < n \<and> prices \<noteq> [] \<and> list_all (\<lambda>p. 0 \<le> snd p) prices)"

definition policy_ok :: "budget_policy \<Rightarrow> bool" where
  "policy_ok p \<longleftrightarrow> 1 \<le> bp_attempts p \<and> (case bp_max_cost p of None \<Rightarrow> True | Some m \<Rightarrow> 1 \<le> m)
     \<and> list_all (\<lambda>t. terms_ok (snd t)) (bp_terms p)"

fun reservation_of :: "cost_terms \<Rightarrow> int" where
  "reservation_of Subscription = 0"
| "reservation_of (Metered n _) = n"

subsection \<open>Authorizing an attempt\<close>

definition checkpoint :: "bool \<Rightarrow> model_budget \<Rightarrow> (budget_error, unit) result \<times> model_budget" where
  "checkpoint ok b = (if ok then (Inr (), b\<lparr>mb_saved := mb_state b\<rparr>) else (Inl Be_store, b))"

definition adopt_policy :: "budget_policy \<Rightarrow> budget_state \<Rightarrow> budget_state" where
  "adopt_policy p b = b\<lparr>bs_attempt_limit := Some (bp_attempts p), bs_max_cost := bp_max_cost p, bs_pricing := bp_pricing p\<rparr>"

definition planned_reservation :: "budget_policy \<Rightarrow> pystr \<Rightarrow> budget_state \<Rightarrow> (budget_error, int) result" where
  "planned_reservation p provider b = (case bp_max_cost p of
       None \<Rightarrow> Inr 0
     | Some m \<Rightarrow> (case map_of (bp_terms p) provider of
         None \<Rightarrow> Inl (Be_exceeded ''model provider has no billing classification'')
       | Some t \<Rightarrow>
           if m < bs_committed b + outstanding b + reservation_of t then Inl (Be_exceeded ''model cost budget exhausted'')
           else Inr (reservation_of t)))"

definition authorize ::
  "budget_policy \<Rightarrow> pystr \<Rightarrow> pystr \<Rightarrow> bool \<Rightarrow> model_budget \<Rightarrow> (budget_error, attempt_lease) result \<times> model_budget" where
  "authorize p provider fresh ok b =
     (let st = adopt_policy p (mb_state b); b1 = b\<lparr>mb_state := st\<rparr>
      in if bp_attempts p \<le> bs_attempts st then (Inl (Be_exceeded ''model provider attempt budget exhausted''), b1)
         else case planned_reservation p provider st of
           Inl e \<Rightarrow> (Inl e, b1)
         | Inr n \<Rightarrow>
             (let st2 = st\<lparr>bs_attempts := bs_attempts st + 1,
                    bs_reservations := (if n \<noteq> 0 then dict_set (bs_reservations st) fresh n else bs_reservations st)\<rparr>
              in case checkpoint ok (b1\<lparr>mb_state := st2\<rparr>) of
                   (Inl e, b2) \<Rightarrow> (Inl e, b2)
                 | (Inr _, b2) \<Rightarrow> (Inr \<lparr>al_id = fresh, al_provider = provider, al_reservation = n\<rparr>, b2)))"

subsection \<open>The reported cost\<close>

datatype cost_error = Ce_value | Ce_arithmetic

fun usage_value :: "pyval \<Rightarrow> pystr list \<Rightarrow> pyval option" where
  "usage_value v [] = Some v"
| "usage_value v (k # ks) = (case v of
     PDict d \<Rightarrow> (case map_of d k of None \<Rightarrow> None | Some x \<Rightarrow> usage_value x ks)
   | _ \<Rightarrow> None)"

text \<open>The running total is a number or, as \<open>None\<close>, infinity.\<close>

definition add_cost :: "pyval \<Rightarrow> rat \<Rightarrow> rat option \<Rightarrow> (cost_error, rat option) result" where
  "add_cost v price acc = (case v of
       PInt n \<Rightarrow> if n < 0 then Inl Ce_value else Inr (map_option (\<lambda>s. s + of_int n * price) acc)
     | PFloat (Finite q) _ \<Rightarrow> if q < 0 then Inl Ce_value else Inr (map_option (\<lambda>s. s + q * price) acc)
     | PFloat PosInf _ \<Rightarrow> if price = 0 then Inl Ce_arithmetic else Inr None
     | PFloat NegInf _ \<Rightarrow> Inl Ce_value
     | PFloat NaN _ \<Rightarrow> Inl Ce_arithmetic
     | _ \<Rightarrow> Inl Ce_value)"

fun cost_loop :: "pyval \<Rightarrow> (pystr \<times> rat) list \<Rightarrow> rat option \<Rightarrow> (cost_error, rat option) result" where
  "cost_loop usage [] acc = Inr acc"
| "cost_loop usage ((path, price) # ps) acc = (case usage_value usage (py_split_on 46 path) of
     None \<Rightarrow> Inl Ce_value
   | Some v \<Rightarrow> bind_result (add_cost v price acc) (cost_loop usage ps))"

definition reported_cost :: "pyval \<Rightarrow> (pystr \<times> rat) list \<Rightarrow> (cost_error, int) result" where
  "reported_cost usage prices = bind_result (cost_loop usage prices (Some 0))
     (\<lambda>t. case t of None \<Rightarrow> Inl Ce_arithmetic | Some q \<Rightarrow> Inr \<lceil>q\<rceil>)"

subsection \<open>Closing a lease\<close>

definition add_provider_cost :: "pystr \<Rightarrow> int \<Rightarrow> budget_state \<Rightarrow> budget_state" where
  "add_provider_cost provider n b = b\<lparr>bs_committed := bs_committed b + n,
     bs_provider_cost := dict_set (bs_provider_cost b) provider
       ((case map_of (bs_provider_cost b) provider of None \<Rightarrow> 0 | Some c \<Rightarrow> c) + n)\<rparr>"

definition actual_cost :: "cost_terms \<Rightarrow> int \<Rightarrow> pydict option \<Rightarrow> bool \<Rightarrow> (cost_error, int) result" where
  "actual_cost t reservation usage succeeded = (case t of
       Subscription \<Rightarrow> Inr 0
     | Metered _ prices \<Rightarrow>
         if \<not> succeeded then Inr reservation
         else reported_cost (PDict (case usage of None \<Rightarrow> [] | Some d \<Rightarrow> d)) prices)"

definition close_lease ::
  "budget_policy \<Rightarrow> attempt_lease \<Rightarrow> pydict option \<Rightarrow> bool \<Rightarrow> bool \<Rightarrow> model_budget \<Rightarrow> (budget_error, unit) result \<times> model_budget" where
  "close_lease p l usage succeeded ok b =
     (case (bp_max_cost p, map_of (bp_terms p) (al_provider l)) of
        (Some m, Some t) \<Rightarrow>
          (let st = mb_state b; held = map_of (bs_reservations st) (al_id l);
               st1 = st\<lparr>bs_reservations := dict_pop (bs_reservations st) (al_id l)\<rparr>;
               n = (case held of None \<Rightarrow> 0 | Some r \<Rightarrow> r)
           in if held = None \<and> al_reservation l \<noteq> 0
              then (Inl (Be_exceeded ''model cost reservation state is inconsistent''), b\<lparr>mb_state := st1\<rparr>)
              else case actual_cost t n usage succeeded of
                Inl Ce_value \<Rightarrow>
                  (case checkpoint ok (b\<lparr>mb_state := add_provider_cost (al_provider l) n st1\<rparr>) of
                     (Inl e, b2) \<Rightarrow> (Inl e, b2)
                   | (Inr _, b2) \<Rightarrow> (Inl (Be_exceeded ''model usage report missing for metered provider''), b2))
              | Inl Ce_arithmetic \<Rightarrow> (Inl Be_arithmetic, b\<lparr>mb_state := st1\<rparr>)
              | Inr actual \<Rightarrow>
                  (case checkpoint ok (b\<lparr>mb_state := add_provider_cost (al_provider l) actual st1\<rparr>) of
                     (Inl e, b2) \<Rightarrow> (Inl e, b2)
                   | (Inr _, b2) \<Rightarrow>
                       (if m < bs_committed (mb_state b2) + outstanding (mb_state b2)
                        then (Inl (Be_exceeded ''model cost budget exhausted after provider settlement''), b2)
                        else (Inr (), b2))))
      | _ \<Rightarrow> (Inr (), b))"

subsection \<open>Sequences of attempts\<close>

datatype budget_op = Authorize pystr pystr bool | Close attempt_lease "pydict option" bool bool

fun budget_step :: "budget_policy \<Rightarrow> budget_op \<Rightarrow> model_budget \<Rightarrow> model_budget" where
  "budget_step p (Authorize provider fresh ok) b = snd (authorize p provider fresh ok b)"
| "budget_step p (Close l usage succeeded ok) b = snd (close_lease p l usage succeeded ok b)"

definition granted :: "budget_policy \<Rightarrow> budget_op \<Rightarrow> model_budget \<Rightarrow> bool" where
  "granted p op b = (case op of Authorize provider fresh ok \<Rightarrow> is_ok (fst (authorize p provider fresh ok b)) | _ \<Rightarrow> False)"

text \<open>
  The contract the pool relies on: permission is counted before it is given, never beyond the limit, and
  nothing gives a count back.
\<close>

locale attempt_budget =
  fixes step :: "'op \<Rightarrow> 's \<Rightarrow> 's"
    and permits :: "'op \<Rightarrow> 's \<Rightarrow> bool"
    and attempts :: "'s \<Rightarrow> int"
    and limit :: int
  assumes permit_counts: "permits op s \<Longrightarrow> attempts (step op s) = attempts s + 1 \<and> attempts s < limit"
    and others_keep: "attempts s \<le> attempts (step op s)"
    and within: "attempts s \<le> limit \<Longrightarrow> attempts (step op s) \<le> limit"
begin

fun permissions :: "'op list \<Rightarrow> 's \<Rightarrow> int" where
  "permissions [] s = 0"
| "permissions (op # ops) s = (if permits op s then 1 else 0) + permissions ops (step op s)"

lemma permissions_counted: "permissions ops s \<le> attempts (fold step ops s) - attempts s"
proof (induction ops arbitrary: s)
  case (Cons op ops)
  have "(if permits op s then 1 else 0) \<le> attempts (step op s) - attempts s"
    using permit_counts [of op s] others_keep [of s op] by simp
  with Cons [of "step op s"] show ?case by simp
qed simp

lemma attempts_within: "attempts s \<le> limit \<Longrightarrow> attempts (fold step ops s) \<le> limit"
  by (induction ops arbitrary: s) (simp_all add: within)

lemma permissions_bounded: "attempts s \<le> limit \<Longrightarrow> permissions ops s \<le> limit - attempts s"
  using permissions_counted [of ops s] attempts_within [of s ops] by linarith

end

definition spent_attempts :: "model_budget \<Rightarrow> int" where
  "spent_attempts b = bs_attempts (mb_state b)"

lemma checkpoint_state: "mb_state (snd (checkpoint ok b)) = mb_state b"
  by (simp add: checkpoint_def)

lemma checkpoint_cases:
  "(case checkpoint ok b of (Inl e, b2) \<Rightarrow> f e b2 | (Inr x, b2) \<Rightarrow> g x b2)
   = (if ok then g () (b\<lparr>mb_saved := mb_state b\<rparr>) else f Be_store b)"
  by (simp add: checkpoint_def)

lemma authorize_attempts:
  "spent_attempts (snd (authorize p provider fresh ok b)) =
     (if spent_attempts b < bp_attempts p \<and> is_ok (planned_reservation p provider (adopt_policy p (mb_state b)))
      then spent_attempts b + 1 else spent_attempts b)"
  by (auto simp: authorize_def spent_attempts_def Let_def checkpoint_cases adopt_policy_def split: sum.splits)

lemma authorize_ok:
  "is_ok (fst (authorize p provider fresh ok b)) \<longleftrightarrow> ok \<and> spent_attempts b < bp_attempts p
     \<and> is_ok (planned_reservation p provider (adopt_policy p (mb_state b)))"
  by (auto simp: authorize_def spent_attempts_def Let_def checkpoint_cases adopt_policy_def split: sum.splits)

lemma close_attempts: "spent_attempts (snd (close_lease p l usage succeeded ok b)) = spent_attempts b"
  by (auto simp: close_lease_def spent_attempts_def Let_def checkpoint_cases add_provider_cost_def
      split: option.splits sum.splits cost_error.splits)

interpretation durable: attempt_budget "budget_step p" "granted p" spent_attempts "bp_attempts p" for p
proof
  fix op b
  show "granted p op b \<Longrightarrow> spent_attempts (budget_step p op b) = spent_attempts b + 1 \<and> spent_attempts b < bp_attempts p"
    by (cases op) (simp_all add: granted_def authorize_ok authorize_attempts)
  show "spent_attempts b \<le> spent_attempts (budget_step p op b)"
    by (cases op) (simp_all add: authorize_attempts close_attempts)
  show "spent_attempts b \<le> bp_attempts p \<Longrightarrow> spent_attempts (budget_step p op b) \<le> bp_attempts p"
    by (cases op) (simp_all add: authorize_attempts close_attempts)
qed

subsection \<open>The accounts\<close>

text \<open>How much a settlement costs beyond what was reserved for it.\<close>

fun overrun :: "budget_policy \<Rightarrow> budget_op \<Rightarrow> model_budget \<Rightarrow> int" where
  "overrun p (Authorize _ _ _) b = 0"
| "overrun p (Close l usage succeeded ok) b = (case (bp_max_cost p, map_of (bp_terms p) (al_provider l)) of
     (Some m, Some t) \<Rightarrow>
       (let held = map_of (bs_reservations (mb_state b)) (al_id l); n = (case held of None \<Rightarrow> 0 | Some r \<Rightarrow> r)
        in if held = None \<and> al_reservation l \<noteq> 0 then 0
           else case actual_cost t n usage succeeded of Inl _ \<Rightarrow> 0 | Inr a \<Rightarrow> max 0 (a - n))
   | _ \<Rightarrow> 0)"

fun total_overrun :: "budget_policy \<Rightarrow> budget_op list \<Rightarrow> model_budget \<Rightarrow> int" where
  "total_overrun p [] b = 0"
| "total_overrun p (op # ops) b = overrun p op b + total_overrun p ops (budget_step p op b)"

definition accounts :: "budget_policy \<Rightarrow> int \<Rightarrow> budget_state \<Rightarrow> bool" where
  "accounts p x b \<longleftrightarrow> 0 \<le> x \<and> bs_attempts b \<le> bp_attempts p \<and> 0 \<le> bs_committed b
     \<and> list_all (\<lambda>r. 0 < snd r) (bs_reservations b) \<and> distinct (map fst (bs_reservations b))
     \<and> sum_list (map snd (bs_provider_cost b)) = bs_committed b
     \<and> (case bp_max_cost p of None \<Rightarrow> True | Some m \<Rightarrow> bs_committed b + outstanding b \<le> m + x)"

lemma sum_dict_set: "sum_list (map snd (dict_set d k (v :: int))) =
    sum_list (map snd d) - (case map_of d k of None \<Rightarrow> 0 | Some x \<Rightarrow> x) + v"
  by (induction d k v rule: dict_set.induct) auto

lemma dict_pop_absent: "k \<notin> fst ` set d \<Longrightarrow> dict_pop d k = d"
  by (induction d) (auto simp: dict_pop_def)

lemma sum_dict_pop: "distinct (map fst d) \<Longrightarrow> sum_list (map snd (dict_pop d k)) =
    sum_list (map snd d) - (case map_of d k of None \<Rightarrow> 0 | Some (x :: int) \<Rightarrow> x)"
proof (induction d)
  case (Cons p d)
  have "fst p \<notin> fst ` set d" using Cons.prems by simp
  then have "dict_pop d (fst p) = d" by (rule dict_pop_absent)
  with Cons show ?case by (cases p) (auto simp: dict_pop_def)
qed (simp add: dict_pop_def)

lemma set_dict_set_sub: "set (dict_set d k v) \<subseteq> insert (k, v) (set d)"
  by (induction d k v rule: dict_set.induct) auto

lemma list_all_dict_set: "list_all P d \<Longrightarrow> P (k, v) \<Longrightarrow> list_all P (dict_set d k v)"
  using set_dict_set_sub [of d k v] by (auto simp: list_all_iff)

lemma list_all_dict_pop: "list_all P d \<Longrightarrow> list_all P (dict_pop d k)"
  by (auto simp: list_all_iff dict_pop_def)

lemma add_cost_nonneg:
  "0 \<le> price \<Longrightarrow> add_cost v price acc = Inr acc' \<Longrightarrow> (\<And>q. acc = Some q \<Longrightarrow> 0 \<le> q) \<Longrightarrow> acc' = Some q \<Longrightarrow> 0 \<le> q"
  by (auto simp: add_cost_def split: pyval.splits pyfloat.splits if_splits option.splits)

lemma cost_loop_nonneg:
  "list_all (\<lambda>p. 0 \<le> snd p) prices \<Longrightarrow> cost_loop usage prices acc = Inr acc' \<Longrightarrow> (\<And>q. acc = Some q \<Longrightarrow> 0 \<le> q)
     \<Longrightarrow> acc' = Some q \<Longrightarrow> 0 \<le> q"
proof (induction usage prices acc rule: cost_loop.induct)
  case (2 usage path price ps acc)
  then obtain v acc1 where v: "usage_value usage (py_split_on 46 path) = Some v" "add_cost v price acc = Inr acc1"
    "cost_loop usage ps acc1 = Inr acc'"
    by (auto simp: bind_result_Inr_iff split: option.splits)
  have "0 \<le> r" if "acc1 = Some r" for r using add_cost_nonneg [OF _ v(2) "2.prems"(3) that] "2.prems"(1) by simp
  with 2 v show ?case by simp
qed simp

lemma reported_nonneg: "list_all (\<lambda>p. 0 \<le> snd p) prices \<Longrightarrow> reported_cost usage prices = Inr n \<Longrightarrow> 0 \<le> n"
proof -
  assume ps: "list_all (\<lambda>p. 0 \<le> snd p) prices" and "reported_cost usage prices = Inr n"
  then obtain q where "cost_loop usage prices (Some 0) = Inr (Some q)" "n = \<lceil>q\<rceil>"
    by (auto simp: reported_cost_def bind_result_Inr_iff split: option.splits)
  with cost_loop_nonneg [OF ps, of usage "Some 0" "Some q" q] show "0 \<le> n" by simp
qed

lemma actual_nonneg: "terms_ok t \<Longrightarrow> 0 \<le> n \<Longrightarrow> actual_cost t n usage succeeded = Inr a \<Longrightarrow> 0 \<le> a"
  using reported_nonneg by (cases t) (auto simp: actual_cost_def split: if_splits)

lemma policy_terms: "policy_ok p \<Longrightarrow> map_of (bp_terms p) k = Some t \<Longrightarrow> terms_ok t"
  by (auto simp: policy_ok_def list_all_iff dest!: map_of_SomeD)

lemma reservation_nonneg: "terms_ok t \<Longrightarrow> 0 \<le> reservation_of t"
  by (cases t) simp_all

lemma adopt_keeps: "bs_attempts (adopt_policy p b) = bs_attempts b" "bs_committed (adopt_policy p b) = bs_committed b"
  "bs_reservations (adopt_policy p b) = bs_reservations b" "bs_provider_cost (adopt_policy p b) = bs_provider_cost b"
  "outstanding (adopt_policy p b) = outstanding b"
  by (simp_all add: adopt_policy_def outstanding_def)

lemma accounts_adopt: "accounts p x (adopt_policy p b) = accounts p x b"
  by (simp add: accounts_def adopt_keeps cong: option.case_cong)

lemma reservation_pos: "accounts p x b \<Longrightarrow> map_of (bs_reservations b) i = Some r \<Longrightarrow> 0 < r"
  by (auto simp: accounts_def list_all_iff dest!: map_of_SomeD)

lemma accounts_reserve:
  assumes "policy_ok p" "accounts p x b" "bs_attempts b < bp_attempts p" "planned_reservation p provider b = Inr n"
  shows "accounts p x (b\<lparr>bs_attempts := bs_attempts b + 1,
      bs_reservations := (if n \<noteq> 0 then dict_set (bs_reservations b) fresh n else bs_reservations b)\<rparr>)"
proof -
  have n: "0 \<le> n" and fit: "bp_max_cost p = Some m \<Longrightarrow> bs_committed b + outstanding b + n \<le> m" for m
    using assms(4) policy_terms [OF assms(1), of provider] reservation_nonneg
    by (auto simp: planned_reservation_def split: option.splits if_splits)
  show ?thesis
  proof (cases "n = 0")
    case True
    with assms(2, 3) show ?thesis by (auto simp: accounts_def outstanding_def split: option.splits)
  next
    case False
    have "sum_list (map snd (dict_set (bs_reservations b) fresh n)) \<le> sum_list (map snd (bs_reservations b)) + n"
      using reservation_pos [OF assms(2), of fresh] by (auto simp: sum_dict_set split: option.split)
    with False n fit assms(2, 3) show ?thesis
      by (force simp: accounts_def outstanding_def list_all_dict_set split: option.splits)
  qed
qed

lemma accounts_settle:
  fixes i :: pystr
  assumes "accounts p x b" "0 \<le> a"
    and n_def: "n = (case map_of (bs_reservations b) i of None \<Rightarrow> 0 | Some r \<Rightarrow> r)"
  shows "accounts p (x + max 0 (a - n)) (add_provider_cost provider a (b\<lparr>bs_reservations := dict_pop (bs_reservations b) i\<rparr>))"
proof -
  have "sum_list (map snd (dict_pop (bs_reservations b) i)) = sum_list (map snd (bs_reservations b)) - n"
    using assms(1) unfolding n_def by (intro sum_dict_pop) (simp add: accounts_def)
  with assms(1, 2) show ?thesis
    by (auto simp: accounts_def add_provider_cost_def outstanding_def sum_dict_set list_all_dict_pop split: option.splits)
qed

lemma accounts_release:
  assumes "accounts p x b"
  shows "accounts p x (b\<lparr>bs_reservations := dict_pop (bs_reservations b) i\<rparr>)"
proof -
  have "sum_list (map snd (dict_pop (bs_reservations b) i)) \<le> sum_list (map snd (bs_reservations b))"
    using assms reservation_pos [OF assms, of i]
    by (subst sum_dict_pop) (auto simp: accounts_def less_imp_le split: option.split)
  with assms show ?thesis by (auto simp: accounts_def outstanding_def list_all_dict_pop split: option.splits)
qed

lemma accounts_step:
  assumes "policy_ok p" "accounts p x (mb_state b)"
  shows "accounts p (x + overrun p op b) (mb_state (budget_step p op b))"
proof (cases op)
  case (Authorize provider fresh ok)
  let ?st = "adopt_policy p (mb_state b)"
  have st: "accounts p x ?st" using assms(2) by (simp add: accounts_adopt)
  show ?thesis
  proof (cases "bs_attempts ?st < bp_attempts p")
    case False
    with Authorize st show ?thesis by (simp add: authorize_def Let_def)
  next
    case True
    show ?thesis
    proof (cases "planned_reservation p provider ?st")
      case (Inl e)
      with Authorize st True show ?thesis by (simp add: authorize_def Let_def)
    next
      case (Inr n)
      from accounts_reserve [OF assms(1) st True Inr, of fresh] Inr True Authorize show ?thesis
        by (simp add: authorize_def Let_def checkpoint_cases)
    qed
  qed
next
  case (Close l usage succeeded ok)
  show ?thesis
  proof (cases "bp_max_cost p = None \<or> map_of (bp_terms p) (al_provider l) = None")
    case True
    with Close assms(2) show ?thesis by (auto simp: close_lease_def split: option.splits)
  next
    case False
    then obtain m t where mt: "bp_max_cost p = Some m" "map_of (bp_terms p) (al_provider l) = Some t" by auto
    let ?st = "mb_state b"
    let ?held = "map_of (bs_reservations ?st) (al_id l)"
    let ?n = "case ?held of None \<Rightarrow> 0 | Some r \<Rightarrow> r"
    note tok = policy_terms [OF assms(1) mt(2)]
    have n: "0 \<le> ?n" using reservation_pos [OF assms(2), of "al_id l"] by (auto split: option.split)
    have rel: "accounts p x (?st\<lparr>bs_reservations := dict_pop (bs_reservations ?st) (al_id l)\<rparr>)"
      by (rule accounts_release [OF assms(2)])
    show ?thesis
    proof (cases "?held = None \<and> al_reservation l \<noteq> 0")
      case True
      with Close mt rel show ?thesis by (simp add: close_lease_def Let_def)
    next
      case held: False
      show ?thesis
      proof (cases "actual_cost t ?n usage succeeded")
        case (Inl e)
        from accounts_settle [OF assms(2) n, where i = "al_id l" and provider = "al_provider l", OF refl] Inl Close mt held rel show ?thesis
          by (cases ?held; cases e) (simp_all add: close_lease_def Let_def checkpoint_cases)
      next
        case (Inr a)
        from accounts_settle [OF assms(2) actual_nonneg [OF tok n Inr], where i = "al_id l" and provider = "al_provider l", OF refl] Inr Close mt held show ?thesis
          by (cases ?held) (simp_all add: close_lease_def Let_def checkpoint_cases)
      qed
    qed
  qed
qed

definition fresh_budget :: model_budget where
  "fresh_budget = (let b = \<lparr>bs_attempts = 0, bs_attempt_limit = None, bs_committed = 0, bs_max_cost = None, bs_pricing = None,
     bs_reservations = [], bs_provider_cost = []\<rparr> in \<lparr>mb_state = b, mb_saved = b\<rparr>)"

text \<open>
  C26. The budget's books balance. Whatever attempts are authorized and closed, in any order and with any
  answer of the store: no more attempts are permitted than the limit, every provider's cost adds up to what is
  committed, and what is committed and still reserved exceeds the cost limit by no more than settlements
  reported beyond their reservation.
\<close>

theorem budget_books_balance:
  fixes p :: budget_policy and ops :: "budget_op list"
  defines "b \<equiv> fold (budget_step p) ops fresh_budget"
  assumes "policy_ok p"
  shows "durable.permissions p ops fresh_budget \<le> bp_attempts p
    \<and> accounts p (total_overrun p ops fresh_budget) (mb_state b)"
proof -
  have step: "accounts p (x + total_overrun p ops c) (mb_state (fold (budget_step p) ops c))" if "accounts p x (mb_state c)" for x c
    using that
  proof (induction ops arbitrary: x c)
    case (Cons op ops)
    from Cons.IH [OF accounts_step [OF assms(2) Cons.prems, of op]] show ?case by (simp add: add.assoc)
  qed simp
  have "accounts p 0 (mb_state fresh_budget)"
    using assms(2) by (auto simp: accounts_def fresh_budget_def Let_def outstanding_def policy_ok_def split: option.splits)
  from step [OF this] durable.permissions_bounded [of fresh_budget p ops] assms(2) show ?thesis
    by (simp add: b_def spent_attempts_def fresh_budget_def policy_ok_def Let_def)
qed

text \<open>
  C27. Permission is durable and paid for. When an attempt is authorized, the saved accounts already hold it:
  they equal the live ones, count the attempt within the limit, and, under a cost limit, what is committed and
  reserved, this attempt included, does not exceed it.
\<close>

theorem authorized_attempt_is_covered:
  assumes "policy_ok p" "accounts p x (mb_state b)" "authorize p provider fresh ok b = (Inr l, b')"
  shows "mb_saved b' = mb_state b' \<and> bs_attempts (mb_state b') = bs_attempts (mb_state b) + 1
    \<and> bs_attempts (mb_state b') \<le> bp_attempts p
    \<and> (al_reservation l \<noteq> 0 \<longrightarrow> map_of (bs_reservations (mb_state b')) fresh = Some (al_reservation l))
    \<and> (\<forall>m. bp_max_cost p = Some m \<longrightarrow> bs_committed (mb_state b') + outstanding (mb_state b') \<le> m)"
proof -
  let ?st = "adopt_policy p (mb_state b)"
  from assms(3) obtain n where n: "bs_attempts ?st < bp_attempts p" "planned_reservation p provider ?st = Inr n" "ok"
    "l = \<lparr>al_id = fresh, al_provider = provider, al_reservation = n\<rparr>"
    and b': "mb_state b' = ?st\<lparr>bs_attempts := bs_attempts ?st + 1,
        bs_reservations := (if n \<noteq> 0 then dict_set (bs_reservations ?st) fresh n else bs_reservations ?st)\<rparr>" "mb_saved b' = mb_state b'"
    by (auto simp: authorize_def Let_def checkpoint_cases split: if_splits sum.splits)
  have "outstanding (mb_state b') \<le> outstanding ?st + n"
    using reservation_pos [OF assms(2), of fresh] unfolding b' by (auto simp: outstanding_def adopt_keeps sum_dict_set split: option.split)
  moreover have "bs_committed ?st + outstanding ?st + n \<le> m" if "bp_max_cost p = Some m" for m
    using n(2) that by (auto simp: planned_reservation_def split: option.splits if_splits)
  ultimately show ?thesis using n b' by (fastforce simp: adopt_keeps)
qed

subsection \<open>Reports that are no number of tokens\<close>

text \<open>What a settlement reads as an amount that is not negative, and the amounts that are no finite number.\<close>

definition amount :: "pyval \<Rightarrow> bool" where
  "amount v = (case v of PInt n \<Rightarrow> 0 \<le> n | PFloat (Finite q) _ \<Rightarrow> 0 \<le> q | PFloat NegInf _ \<Rightarrow> False | PFloat _ _ \<Rightarrow> True | _ \<Rightarrow> False)"

definition non_finite :: "pyval \<Rightarrow> bool" where
  "non_finite v = (case v of PFloat PosInf _ \<Rightarrow> True | PFloat NaN _ \<Rightarrow> True | _ \<Rightarrow> False)"

definition reports :: "pydict \<Rightarrow> (pyval \<Rightarrow> bool) \<Rightarrow> pystr \<times> rat \<Rightarrow> bool" where
  "reports usage P item = (case usage_value (PDict usage) (py_split_on 46 (fst item)) of None \<Rightarrow> False | Some v \<Rightarrow> P v)"

lemma reports_iff: "reports usage P item \<longleftrightarrow> (\<exists>v. usage_value (PDict usage) (py_split_on 46 (fst item)) = Some v \<and> P v)"
  by (simp add: reports_def split: option.split)

lemma add_cost_None: "amount v \<Longrightarrow> add_cost v price None \<in> {Inr None, Inl Ce_arithmetic}"
  by (auto simp: amount_def add_cost_def split: pyval.splits pyfloat.splits)

lemma add_cost_non_finite: "amount v \<Longrightarrow> non_finite v \<Longrightarrow> add_cost v price acc \<in> {Inr None, Inl Ce_arithmetic}"
  by (auto simp: amount_def non_finite_def add_cost_def split: pyval.splits pyfloat.splits)

lemma add_cost_amount: "amount v \<Longrightarrow> (\<exists>acc'. add_cost v price acc = Inr acc') \<or> add_cost v price acc = Inl Ce_arithmetic"
  by (auto simp: amount_def add_cost_def split: pyval.splits pyfloat.splits)

lemma cost_loop_None: "list_all (reports usage amount) ps \<Longrightarrow> cost_loop (PDict usage) ps None \<in> {Inr None, Inl Ce_arithmetic}"
proof (induction ps)
  case (Cons item ps)
  from Cons.prems obtain v where v: "usage_value (PDict usage) (py_split_on 46 (fst item)) = Some v" "amount v"
    by (auto simp: reports_iff)
  from add_cost_None [OF v(2), of "snd item"] Cons v(1) show ?case by (cases item) auto
qed simp

lemma cost_loop_non_finite:
  "list_all (reports usage amount) ps \<Longrightarrow> list_ex (reports usage non_finite) ps
    \<Longrightarrow> cost_loop (PDict usage) ps acc \<in> {Inr None, Inl Ce_arithmetic}"
proof (induction ps arbitrary: acc)
  case (Cons item ps)
  from Cons.prems(1) obtain v where v: "usage_value (PDict usage) (py_split_on 46 (fst item)) = Some v" "amount v"
    by (auto simp: reports_iff)
  have ps: "list_all (reports usage amount) ps" using Cons.prems(1) by simp
  show ?case
  proof (cases "non_finite v")
    case True
    from add_cost_non_finite [OF v(2) True, of "snd item" acc] cost_loop_None [OF ps] v(1) show ?thesis by (cases item) auto
  next
    case False
    then have "\<not> reports usage non_finite item" using v(1) by (simp add: reports_iff)
    then have "list_ex (reports usage non_finite) ps" using Cons.prems(2) by simp
    note rest = Cons.IH [OF ps this]
    from add_cost_amount [OF v(2), of "snd item" acc] show ?thesis
    proof
      assume "\<exists>acc'. add_cost v (snd item) acc = Inr acc'"
      then obtain acc' where "add_cost v (snd item) acc = Inr acc'" by blast
      with rest [of acc'] v(1) show ?thesis by (cases item) simp
    qed (use v(1) in \<open>cases item; simp\<close>)
  qed
qed simp

text \<open>
  A usage report that is not a finite number is never charged. When every priced field holds an amount and
  one of them is infinite or undefined, the settlement ends in an arithmetic error that the budget does not
  handle: the reservation is gone, nothing is committed for it, and nothing is saved, so the room it held is
  free for the next attempt.
\<close>

theorem non_finite_usage_is_never_charged:
  assumes "bp_max_cost p = Some m" "map_of (bp_terms p) (al_provider l) = Some (Metered n prices)"
    and "map_of (bs_reservations (mb_state b)) (al_id l) = Some r"
    and "list_all (reports usage amount) prices" "list_ex (reports usage non_finite) prices"
  shows "fst (close_lease p l (Some usage) True ok b) = Inl Be_arithmetic
    \<and> bs_committed (mb_state (snd (close_lease p l (Some usage) True ok b))) = bs_committed (mb_state b)
    \<and> map_of (bs_reservations (mb_state (snd (close_lease p l (Some usage) True ok b)))) (al_id l) = None
    \<and> mb_saved (snd (close_lease p l (Some usage) True ok b)) = mb_saved b"
proof -
  from cost_loop_non_finite [OF assms(4, 5), of "Some 0"] have "reported_cost (PDict usage) prices = Inl Ce_arithmetic"
    by (auto simp: reported_cost_def)
  with assms(1-3) show ?thesis by (simp add: close_lease_def actual_cost_def Let_def)
qed

subsection \<open>A concrete budget\<close>

definition demo_policy :: budget_policy where
  "demo_policy = \<lparr>bp_attempts = 5, bp_max_cost = Some 100, bp_pricing = None,
     bp_terms = [(u ''m'', Metered 60 [(u ''tokens'', 1)])]\<rparr>"

definition usage_of :: "pyval \<Rightarrow> pydict" where
  "usage_of v = [(u ''tokens'', v)]"

definition round_of :: "string \<Rightarrow> pyval \<Rightarrow> budget_op list" where
  "round_of i v = [Authorize (u ''m'') (u i) True,
     Close \<lparr>al_id = u i, al_provider = u ''m'', al_reservation = 60\<rparr> (Some (usage_of v)) True True]"

definition infinite :: pyval where
  "infinite = PFloat PosInf (u ''inf'')"

definition books :: "budget_op list \<Rightarrow> int \<times> int \<times> int" where
  "books ops = (let b = mb_state (fold (budget_step demo_policy) ops fresh_budget) in (bs_attempts b, bs_committed b, outstanding b))"

text \<open>An honest report of 70 blocks the second attempt; an infinite one lets every further attempt through.\<close>

lemma demo_books:
  "books (round_of ''a'' (PInt 70) @ round_of ''b'' (PInt 70)) = (1, 70, 0)"
  "books (round_of ''a'' infinite @ round_of ''b'' infinite @ round_of ''c'' infinite) = (3, 0, 0)"
  by code_simp+

lemma demo_policy_ok: "policy_ok demo_policy"
  by code_simp

theorem budget_books_balance_witness:
  "accounts demo_policy (total_overrun demo_policy (round_of ''a'' (PInt 70)) fresh_budget)
     (mb_state (fold (budget_step demo_policy) (round_of ''a'' (PInt 70)) fresh_budget))"
  using budget_books_balance [OF demo_policy_ok] by blast

definition demo_lease :: attempt_lease where
  "demo_lease = \<lparr>al_id = u ''a'', al_provider = u ''m'', al_reservation = 60\<rparr>"

lemma demo_grant: "fst (authorize demo_policy (u ''m'') (u ''a'') True fresh_budget) = Inr demo_lease"
  by code_simp

lemma fresh_accounts: "accounts demo_policy 0 (mb_state fresh_budget)"
  by code_simp

theorem authorized_attempt_is_covered_witness:
  "\<exists>b'. authorize demo_policy (u ''m'') (u ''a'') True fresh_budget = (Inr demo_lease, b')
     \<and> mb_saved b' = mb_state b' \<and> bs_committed (mb_state b') + outstanding (mb_state b') \<le> 100"
proof -
  obtain b' where b': "authorize demo_policy (u ''m'') (u ''a'') True fresh_budget = (Inr demo_lease, b')"
    using demo_grant by (metis prod.collapse)
  with authorized_attempt_is_covered [OF demo_policy_ok fresh_accounts b'] show ?thesis by (simp add: demo_policy_def)
qed

theorem non_finite_usage_is_never_charged_witness:
  "fst (close_lease demo_policy demo_lease (Some (usage_of infinite)) True True
     (snd (authorize demo_policy (u ''m'') (u ''a'') True fresh_budget))) = Inl Be_arithmetic"
proof -
  have "map_of (bs_reservations (mb_state (snd (authorize demo_policy (u ''m'') (u ''a'') True fresh_budget)))) (u ''a'') = Some 60"
    "list_all (reports (usage_of infinite) amount) [(u ''tokens'', 1)]"
    "list_ex (reports (usage_of infinite) non_finite) [(u ''tokens'', 1)]"
    by code_simp+
  with non_finite_usage_is_never_charged [of demo_policy 100 demo_lease 60 "[(u ''tokens'', 1)]"] show ?thesis
    by (simp add: demo_policy_def demo_lease_def)
qed

end
