(* ===== verification/ModelPool.thy ===== *)
theory ModelPool
  imports ModelBudget
begin

text \<open>
  Role routing and failover of the structured model providers, \<open>harness/model_pool.py\<close>, over the durable
  budget. What providers, the clock, the store and the output schema answer is an environment record. Of the
  health of a provider the counters and the failure class are kept, of an event its kind and provider.
\<close>

subsection \<open>Failure classes\<close>

datatype exc_kind = Ek_validation | Ek_timeout | Ek_not_found | Ek_other

definition safe_provider_failures :: "string list" where
  "safe_provider_failures = [''authentication-failed'', ''rate-limited'', ''quota-or-billing'', ''timeout'',
     ''provider-unavailable'', ''structured-output-error'', ''request-rejected'', ''executable-not-found'',
     ''invalid-structured-output'', ''provider-error'']"

definition provider_failure_class :: "exc_kind \<Rightarrow> pystr \<Rightarrow> string" where
  "provider_failure_class k message =
     (let t = py_casefold message in
      if py_in (u ''timed out'') t then ''timeout''
      else case List.find (\<lambda>f. py_in (u f) t) safe_provider_failures of
        Some f \<Rightarrow> f
      | None \<Rightarrow> (case k of
            Ek_validation \<Rightarrow> ''invalid-structured-output''
          | Ek_timeout \<Rightarrow> ''timeout''
          | Ek_not_found \<Rightarrow> ''executable-not-found''
          | Ek_other \<Rightarrow> ''provider-error''))"

lemma failure_class_safe: "provider_failure_class k message \<in> set safe_provider_failures"
proof -
  have "f \<in> set safe_provider_failures" if "List.find (\<lambda>f. py_in (u f) t) safe_provider_failures = Some f" for f t
    using that by (auto simp: find_Some_iff)
  then show ?thesis
    by (auto simp: provider_failure_class_def Let_def split: option.split exc_kind.split) (simp_all add: safe_provider_failures_def)
qed

subsection \<open>The safe downgrade\<close>

text \<open>A rejected output carries the text of the error and its messages.\<close>

record schema_error =
  se_message :: pystr
  se_messages :: "pystr list"

definition passive_types :: "pystr list" where
  "passive_types = map u [''wait'', ''wait_for_stable_screen'', ''wait_for_change'']"

definition passive_value :: "pyval \<Rightarrow> bool" where
  "passive_value a = (case a of
       PDict d \<Rightarrow> (case get_none d (u ''type'') of PStr s \<Rightarrow> s \<in> set passive_types | _ \<Rightarrow> False)
     | _ \<Rightarrow> False)"

definition types_text :: "pyval \<Rightarrow> bool" where
  "types_text a = (case a of PDict d \<Rightarrow> get_none d (u ''type'') = PStr (u ''type_text'') | _ \<Rightarrow> False)"

definition draft_intent :: pystr where
  "draft_intent = u ''Prepare the model-requested text as a draft; active follow-up separated for independent verification.''"

definition draft_evidence :: pystr where
  "draft_evidence = u ''The exact drafted text is visibly present in the focused input without being submitted.''"

definition safe_controller_downgrade ::
  "bool \<Rightarrow> (pydict \<Rightarrow> schema_error option) \<Rightarrow> pydict \<Rightarrow> schema_error \<Rightarrow> pydict option" where
  "safe_controller_downgrade controller validate d e =
     (if \<not> controller \<or> length (se_messages e) \<noteq> 1 \<or> \<not> py_in (u ''active follow-up'') (hd (se_messages e)) then None
      else if get_none d (u ''outcome'') \<noteq> PStr (u ''act'') then None
      else case get_none d (u ''actions'') of
        PList (a # as) \<Rightarrow>
          (let rest = takeWhile passive_value as;
               candidate = dict_set (dict_set (dict_set d (u ''intent'') (PStr draft_intent))
                   (u ''actions'') (PList (a # rest))) (u ''expected_evidence'') (PList [PStr draft_evidence])
           in if \<not> types_text a \<or> rest = as then None
              else if validate candidate = None then Some candidate else None)
      | _ \<Rightarrow> None)"

subsection \<open>State and environment\<close>

record provider_health =
  ph_ready :: bool
  ph_calls :: int
  ph_successes :: int
  ph_failures :: int
  ph_skipped :: int
  ph_consecutive :: int
  ph_last_error :: "string option"

definition new_health :: provider_health where
  "new_health = \<lparr>ph_ready = True, ph_calls = 0, ph_successes = 0, ph_failures = 0, ph_skipped = 0, ph_consecutive = 0,
     ph_last_error = None\<rparr>"

record pool_event =
  pv_kind :: string
  pv_provider :: pystr

record pool_state =
  ps_health :: "(pystr \<times> provider_health) list"
  ps_cooldowns :: "(pystr \<times> rat) list"
  ps_budget :: "model_budget option"
  ps_events :: "pool_event list"

record pool_config =
  pc_providers :: "pystr list"
  pc_routes :: "(string \<times> pystr list) list"
  pc_cooldowns :: "(pystr \<times> rat) list"
  pc_policy :: budget_policy

datatype provider_answer = Raises exc_kind pystr | Responds pydict pydict

text \<open>Answers by position in the route and attempt; \<open>en_now\<close> is the clock.\<close>

record pool_env =
  en_answer :: "nat \<Rightarrow> nat \<Rightarrow> provider_answer"
  en_lease :: "nat \<Rightarrow> nat \<Rightarrow> pystr"
  en_saves :: "nat \<Rightarrow> nat \<Rightarrow> bool"
  en_now :: "nat \<Rightarrow> rat"
  en_failed_at :: "nat \<Rightarrow> rat"
  en_validate :: "pydict \<Rightarrow> schema_error option"
  en_controller :: bool

definition emit :: "string \<Rightarrow> pystr \<Rightarrow> pool_state \<Rightarrow> pool_state" where
  "emit kind name s = s\<lparr>ps_events := ps_events s @ [\<lparr>pv_kind = kind, pv_provider = name\<rparr>]\<rparr>"

definition health_of :: "pystr \<Rightarrow> pool_state \<Rightarrow> provider_health" where
  "health_of name s = (case map_of (ps_health s) name of None \<Rightarrow> new_health | Some h \<Rightarrow> h)"

definition set_health :: "pystr \<Rightarrow> (provider_health \<Rightarrow> provider_health) \<Rightarrow> pool_state \<Rightarrow> pool_state" where
  "set_health name f s = s\<lparr>ps_health := dict_set (ps_health s) name (f (health_of name s))\<rparr>"

subsection \<open>One attempt\<close>

datatype attempt_result = At_output pydict | At_repair | At_failed string | At_budget

definition budget_failure :: "budget_error \<Rightarrow> attempt_result" where
  "budget_failure e = (case e of Be_exceeded _ \<Rightarrow> At_budget | _ \<Rightarrow> At_failed (provider_failure_class Ek_other []))"

definition open_lease ::
  "pool_config \<Rightarrow> pool_env \<Rightarrow> nat \<Rightarrow> nat \<Rightarrow> pystr \<Rightarrow> pool_state \<Rightarrow> (budget_error, attempt_lease option) result \<times> pool_state" where
  "open_lease c en i attempt name s = (case ps_budget s of
       None \<Rightarrow> (Inr None, s)
     | Some b \<Rightarrow> (case authorize (pc_policy c) name (en_lease en i attempt) (en_saves en i (2 * attempt)) b of
           (Inl e, b') \<Rightarrow> (Inl e, s\<lparr>ps_budget := Some b'\<rparr>)
         | (Inr l, b') \<Rightarrow> (Inr (Some l), s\<lparr>ps_budget := Some b'\<rparr>)))"

definition settle_lease ::
  "pool_config \<Rightarrow> pool_env \<Rightarrow> nat \<Rightarrow> nat \<Rightarrow> attempt_lease option \<Rightarrow> pydict option \<Rightarrow> bool \<Rightarrow> pool_state
     \<Rightarrow> (budget_error, unit) result \<times> pool_state" where
  "settle_lease c en i attempt lease usage succeeded s = (case (ps_budget s, lease) of
       (Some b, Some l) \<Rightarrow> (case close_lease (pc_policy c) l usage succeeded (en_saves en i (2 * attempt + 1)) b of
           (r, b') \<Rightarrow> (r, s\<lparr>ps_budget := Some b'\<rparr>))
     | _ \<Rightarrow> (Inr (), s))"

definition judge_output ::
  "pool_env \<Rightarrow> nat \<Rightarrow> pystr \<Rightarrow> pydict \<Rightarrow> pool_state \<Rightarrow> attempt_result \<times> pool_state" where
  "judge_output en attempt name d s =
     (let s1 = emit ''provider_validating'' name (emit ''provider_output_received'' name s)
      in case en_validate en d of
        None \<Rightarrow> (At_output d, s1)
      | Some e \<Rightarrow> (case safe_controller_downgrade (en_controller en) (en_validate en) d e of
            Some d' \<Rightarrow> (At_output d', emit ''provider_schema_safety_downgrade'' name s1)
          | None \<Rightarrow>
              if attempt \<noteq> 0 then (At_failed (provider_failure_class Ek_validation (se_message e)), s1)
              else (At_repair, emit ''provider_schema_repair'' name s1)))"

definition call_provider :: "pystr \<Rightarrow> pool_state \<Rightarrow> pool_state" where
  "call_provider name s = set_health name (\<lambda>h. h\<lparr>ph_calls := ph_calls h + 1\<rparr>)
     (emit ''provider_request_sent'' name (emit ''provider_started'' name s))"

definition try_attempt :: "pool_config \<Rightarrow> pool_env \<Rightarrow> nat \<Rightarrow> nat \<Rightarrow> pystr \<Rightarrow> pool_state \<Rightarrow> attempt_result \<times> pool_state" where
  "try_attempt c en i attempt name s = (case open_lease c en i attempt name s of
       (Inl e, s1) \<Rightarrow> (budget_failure e,
          (if budget_failure e = At_budget then emit ''provider_budget_blocked'' name s1 else s1))
     | (Inr lease, s1) \<Rightarrow>
         (let s2 = call_provider name s1
          in case en_answer en i attempt of
            Raises k message \<Rightarrow> (case settle_lease c en i attempt lease None False s2 of
                (Inl e, s3) \<Rightarrow> (budget_failure e, s3)
              | (Inr _, s3) \<Rightarrow> (At_failed (provider_failure_class k message), s3))
          | Responds d usage \<Rightarrow> (case settle_lease c en i attempt lease (Some usage) True s2 of
                (Inl e, s3) \<Rightarrow> (budget_failure e,
                   (if budget_failure e = At_budget then emit ''provider_budget_blocked'' name s3 else s3))
              | (Inr _, s3) \<Rightarrow> judge_output en attempt name d s3)))"

text \<open>One repair, by the same provider.\<close>

definition try_provider :: "pool_config \<Rightarrow> pool_env \<Rightarrow> nat \<Rightarrow> pystr \<Rightarrow> pool_state \<Rightarrow> attempt_result \<times> pool_state" where
  "try_provider c en i name s = (case try_attempt c en i 0 name s of
       (At_repair, s1) \<Rightarrow> try_attempt c en i 1 name s1
     | r \<Rightarrow> r)"

subsection \<open>The provider chain\<close>

definition cooldown_of :: "pool_config \<Rightarrow> pystr \<Rightarrow> rat" where
  "cooldown_of c name = (case map_of (pc_cooldowns c) name of None \<Rightarrow> 15 | Some q \<Rightarrow> max 0 q)"

definition note_failure :: "pool_config \<Rightarrow> rat \<Rightarrow> pystr \<Rightarrow> string \<Rightarrow> pool_state \<Rightarrow> pool_state" where
  "note_failure c now name cls s =
     (let s1 = set_health name (\<lambda>h. h\<lparr>ph_failures := ph_failures h + 1, ph_consecutive := ph_consecutive h + 1,
            ph_last_error := Some cls\<rparr>) s
      in emit ''provider_failed'' name
           (if 0 < cooldown_of c name then s1\<lparr>ps_cooldowns := dict_set (ps_cooldowns s1) name (now + cooldown_of c name)\<rparr> else s1))"

definition note_success :: "pystr \<Rightarrow> pool_state \<Rightarrow> pool_state" where
  "note_success name s = emit ''provider_completed'' name
     (set_health name (\<lambda>h. h\<lparr>ph_successes := ph_successes h + 1, ph_consecutive := 0, ph_last_error := None\<rparr>)
       (s\<lparr>ps_cooldowns := dict_pop (ps_cooldowns s) name\<rparr>))"

definition skip :: "pystr \<Rightarrow> pool_state \<Rightarrow> pool_state" where
  "skip name s = emit ''provider_skipped'' name (set_health name (\<lambda>h. h\<lparr>ph_skipped := ph_skipped h + 1\<rparr>) s)"

datatype pool_result = Pr_output pydict pystr | Pr_budget | Pr_unavailable | Pr_no_route

definition cooling :: "bool \<Rightarrow> rat \<Rightarrow> pystr \<Rightarrow> pool_state \<Rightarrow> bool" where
  "cooling bypass now name s = (\<not> bypass \<and> (case map_of (ps_cooldowns s) name of None \<Rightarrow> False | Some q \<Rightarrow> now < q))"

fun pool_loop :: "pool_config \<Rightarrow> pool_env \<Rightarrow> bool \<Rightarrow> nat \<Rightarrow> pystr list \<Rightarrow> pool_state \<Rightarrow> pool_result \<times> pool_state" where
  "pool_loop c en bypass i [] s = (Pr_unavailable, s)"
| "pool_loop c en bypass i (name # names) s =
     (if name \<notin> set (pc_providers c)
      then pool_loop c en bypass (i + 1) names (emit ''provider_failed'' name s)
      else if \<not> ph_ready (health_of name s) \<or> cooling bypass (en_now en i) name s
      then pool_loop c en bypass (i + 1) names (skip name s)
      else case try_provider c en i name (s\<lparr>ps_cooldowns := dict_pop (ps_cooldowns s) name\<rparr>) of
        (At_output d, s1) \<Rightarrow> (Pr_output d name, note_success name s1)
      | (At_budget, s1) \<Rightarrow> (Pr_budget, s1)
      | (At_failed cls, s1) \<Rightarrow>
          (let s2 = note_failure c (en_failed_at en i) name cls s1
           in pool_loop c en bypass (i + 1) names
                (case names of [] \<Rightarrow> s2 | next # _ \<Rightarrow> emit ''provider_failover'' next s2))
      | (At_repair, s1) \<Rightarrow> (Pr_unavailable, s1))"

definition route_for :: "pool_config \<Rightarrow> string \<Rightarrow> pystr list option" where
  "route_for c role = (case map_of (pc_routes c) role of
       Some r \<Rightarrow> Some r
     | None \<Rightarrow> if role = ''assistant'' then map_of (pc_routes c) ''reasoner'' else None)"

definition route_names :: "pool_config \<Rightarrow> string \<Rightarrow> pystr option \<Rightarrow> pystr list option \<Rightarrow> pystr list option" where
  "route_names c role preferred chosen = (case (preferred, chosen) of
       (Some _, Some _) \<Rightarrow> None
     | (Some name, None) \<Rightarrow> Some [name]
     | (None, Some names) \<Rightarrow> if names = [] then None else Some names
     | (None, None) \<Rightarrow> route_for c role)"

definition complete_request ::
  "pool_config \<Rightarrow> pool_env \<Rightarrow> bool \<Rightarrow> string \<Rightarrow> pystr option \<Rightarrow> pystr list option \<Rightarrow> pool_state \<Rightarrow> pool_result \<times> pool_state" where
  "complete_request c en bypass role preferred chosen s = (case route_names c role preferred chosen of
       None \<Rightarrow> (Pr_no_route, s)
     | Some names \<Rightarrow> pool_loop c en bypass 0 names s)"

subsection \<open>Calls are counted and paid for\<close>

definition requests :: "pool_state \<Rightarrow> nat" where
  "requests s = length (filter (\<lambda>e. pv_kind e = ''provider_request_sent'') (ps_events s))"

definition paid :: "budget_policy \<Rightarrow> nat \<Rightarrow> model_budget option \<Rightarrow> model_budget option \<Rightarrow> bool" where
  "paid p m b b' = (case (b, b') of
       (None, None) \<Rightarrow> True
     | (Some x, Some y) \<Rightarrow> int m \<le> spent_attempts y - spent_attempts x
         \<and> (spent_attempts x \<le> bp_attempts p \<longrightarrow> spent_attempts y \<le> bp_attempts p)
     | _ \<Rightarrow> False)"

definition uses :: "pool_config \<Rightarrow> nat \<Rightarrow> pool_state \<Rightarrow> pool_state \<Rightarrow> bool" where
  "uses c n s s' \<longleftrightarrow> (\<exists>m \<le> n. requests s' = requests s + m \<and> paid (pc_policy c) m (ps_budget s) (ps_budget s'))"

lemma paid_trans: "paid p m b1 b2 \<Longrightarrow> paid p n b2 b3 \<Longrightarrow> paid p (m + n) b1 b3"
  by (auto simp: paid_def split: option.splits)

lemma uses_trans: "uses c m s1 s2 \<Longrightarrow> uses c n s2 s3 \<Longrightarrow> uses c (m + n) s1 s3"
  unfolding uses_def by (metis add.assoc add_le_mono paid_trans)

lemma uses_mono: "uses c m s s' \<Longrightarrow> m \<le> n \<Longrightarrow> uses c n s s'"
  unfolding uses_def using le_trans by blast

lemma uses_same: "requests s' = requests s \<Longrightarrow> ps_budget s' = ps_budget s \<Longrightarrow> uses c 0 s s'"
  by (simp add: uses_def paid_def split: option.split)

lemma emit_requests: "requests (emit kind name s) = requests s + (if kind = ''provider_request_sent'' then 1 else 0)"
  by (simp add: requests_def emit_def)

lemma emit_budget [simp]: "ps_budget (emit kind name s) = ps_budget s"
  by (simp add: emit_def)

lemma set_health_keeps [simp]: "requests (set_health name f s) = requests s" "ps_budget (set_health name f s) = ps_budget s"
  by (simp_all add: set_health_def requests_def)

lemma cooldowns_keep [simp]: "requests (s\<lparr>ps_cooldowns := x\<rparr>) = requests s" "requests (s\<lparr>ps_budget := y\<rparr>) = requests s"
  by (simp_all add: requests_def)

lemma judge_uses: "judge_output en attempt name d s = (r, s') \<Longrightarrow> requests s' = requests s \<and> ps_budget s' = ps_budget s"
  by (auto simp: judge_output_def Let_def emit_requests split: option.splits if_splits)

lemma settle_uses:
  "settle_lease c en i attempt lease usage succeeded s = (r, s') \<Longrightarrow> requests s' = requests s \<and> paid (pc_policy c) 0 (ps_budget s) (ps_budget s')"
  using close_attempts [of "pc_policy c" _ usage succeeded]
  by (auto simp: settle_lease_def paid_def split: option.splits prod.splits) (metis snd_conv order_refl)+

lemma open_uses:
  assumes "open_lease c en i attempt name s = (r, s')"
  shows "requests s' = requests s \<and> paid (pc_policy c) (if is_ok r then 1 else 0) (ps_budget s) (ps_budget s')"
proof (cases "ps_budget s")
  case None
  with assms show ?thesis by (auto simp: open_lease_def paid_def)
next
  case (Some b)
  let ?op = "Authorize name (en_lease en i attempt) (en_saves en i (2 * attempt))"
  obtain a b' where ab: "authorize (pc_policy c) name (en_lease en i attempt) (en_saves en i (2 * attempt)) b = (a, b')" by fastforce
  then have st: "budget_step (pc_policy c) ?op b = b'" "granted (pc_policy c) ?op b = is_ok a" by (simp_all add: granted_def)
  have r: "is_ok r = is_ok a" "s' = s\<lparr>ps_budget := Some b'\<rparr>" using assms Some ab by (auto simp: open_lease_def split: sum.splits)
  with Some st durable.permit_counts [of "pc_policy c" ?op b] durable.others_keep [of b "pc_policy c" ?op]
    durable.within [of b "pc_policy c" ?op]
  show ?thesis by (auto simp: paid_def)
qed

lemma attempt_uses: "try_attempt c en i attempt name s = (r, s') \<Longrightarrow> uses c 1 s s'"
proof -
  assume t: "try_attempt c en i attempt name s = (r, s')"
  obtain a s1 where o1: "open_lease c en i attempt name s = (a, s1)" by fastforce
  note op = open_uses [OF o1]
  show "uses c 1 s s'"
  proof (cases a)
    case (Inl e)
    with t o1 op have "requests s' = requests s" "ps_budget s' = ps_budget s1"
      by (auto simp: try_attempt_def emit_requests split: if_splits)
    with op Inl show ?thesis unfolding uses_def by auto
  next
    case (Inr lease)
    let ?s2 = "call_provider name s1"
    have s2: "requests ?s2 = requests s + 1" "ps_budget ?s2 = ps_budget s1"
      using op by (simp_all add: call_provider_def emit_requests)
    have "requests s' = requests ?s2 \<and> paid (pc_policy c) 0 (ps_budget ?s2) (ps_budget s')"
    proof (cases "en_answer en i attempt")
      case (Raises k message)
      obtain x s3 where s3: "settle_lease c en i attempt lease None False ?s2 = (x, s3)" by fastforce
      with t o1 Inr Raises have "s' = s3" by (auto simp: try_attempt_def Let_def split: sum.splits)
      with settle_uses [OF s3] show ?thesis by simp
    next
      case (Responds d usage)
      obtain x s3 where s3: "settle_lease c en i attempt lease (Some usage) True ?s2 = (x, s3)" by fastforce
      have "requests s' = requests s3 \<and> ps_budget s' = ps_budget s3"
        using t o1 Inr Responds s3 judge_uses [of en attempt name d s3]
        by (auto simp: try_attempt_def Let_def emit_requests split: sum.splits if_splits)
      with settle_uses [OF s3] show ?thesis by simp
    qed
    moreover have "paid (pc_policy c) 1 (ps_budget s) (ps_budget ?s2)" using op Inr s2 by simp
    ultimately have "paid (pc_policy c) 1 (ps_budget s) (ps_budget s')" "requests s' = requests s + 1"
      using paid_trans [of "pc_policy c" 1 "ps_budget s" "ps_budget ?s2" 0] s2 by simp_all
    then show ?thesis unfolding uses_def by auto
  qed
qed

lemma provider_uses: "try_provider c en i name s = (r, s') \<Longrightarrow> uses c 2 s s'"
proof -
  assume t: "try_provider c en i name s = (r, s')"
  obtain a s1 where a: "try_attempt c en i 0 name s = (a, s1)" by fastforce
  show "uses c 2 s s'"
  proof (cases "a = At_repair")
    case True
    with t a have "try_attempt c en i 1 name s1 = (r, s')" by (simp add: try_provider_def)
    from uses_trans [OF attempt_uses [OF a] attempt_uses [OF this]] show ?thesis by (simp add: numeral_2_eq_2)
  next
    case False
    with t a have "s' = s1" by (cases a) (auto simp: try_provider_def)
    with attempt_uses [OF a] uses_mono [of c 1 s s1 2] show ?thesis by simp
  qed
qed

lemma note_failure_keeps [simp]: "requests (note_failure c now name cls s) = requests s" "ps_budget (note_failure c now name cls s) = ps_budget s"
  by (simp_all add: note_failure_def Let_def emit_requests)

lemma note_success_keeps [simp]: "requests (note_success name s) = requests s" "ps_budget (note_success name s) = ps_budget s"
  by (simp_all add: note_success_def emit_requests)

lemma skip_keeps [simp]: "requests (skip name s) = requests s" "ps_budget (skip name s) = ps_budget s"
  by (simp_all add: skip_def emit_requests)

lemma uses_cong: "uses c n s s1 \<Longrightarrow> requests s1 = requests s2 \<Longrightarrow> ps_budget s1 = ps_budget s2 \<Longrightarrow> uses c n s s2"
  by (simp add: uses_def)

lemma uses_cong_left: "uses c n s1 s' \<Longrightarrow> requests s1 = requests s \<Longrightarrow> ps_budget s1 = ps_budget s \<Longrightarrow> uses c n s s'"
  by (simp add: uses_def)

lemma loop_uses: "pool_loop c en bypass i names s = (r, s') \<Longrightarrow> uses c (2 * length names) s s'"
proof (induction c en bypass i names s arbitrary: r s' rule: pool_loop.induct)
  case (1 c en bypass i s)
  then show ?case by (auto intro: uses_same)
next
  case (2 c en bypass i name names s)
  let ?s0 = "s\<lparr>ps_cooldowns := dict_pop (ps_cooldowns s) name\<rparr>"
  consider (unknown) "name \<notin> set (pc_providers c)"
    | (skipped) "name \<in> set (pc_providers c)" "\<not> ph_ready (health_of name s) \<or> cooling bypass (en_now en i) name s"
    | (tried) "name \<in> set (pc_providers c)" "\<not> (\<not> ph_ready (health_of name s) \<or> cooling bypass (en_now en i) name s)"
    by blast
  then show ?case
  proof cases
    case unknown
    with 2 have "uses c (2 * length names) (emit ''provider_failed'' name s) s'" by simp
    then have "uses c (2 * length names) s s'" by (rule uses_cong_left) (simp_all add: emit_requests)
    then show ?thesis by (rule uses_mono) simp
  next
    case skipped
    with 2 have "uses c (2 * length names) (skip name s) s'" by simp
    then have "uses c (2 * length names) s s'" by (rule uses_cong_left) simp_all
    then show ?thesis by (rule uses_mono) simp
  next
    case tried
    obtain a s1 where a: "try_provider c en i name ?s0 = (a, s1)" by fastforce
    have u1: "uses c 2 s s1" using uses_cong_left [OF provider_uses [OF a]] by simp
    show ?thesis
    proof (cases a)
      case (At_failed cls)
      let ?s2 = "note_failure c (en_failed_at en i) name cls s1"
      let ?s3 = "case names of [] \<Rightarrow> ?s2 | next # _ \<Rightarrow> emit ''provider_failover'' next ?s2"
      from 2 tried a At_failed have "uses c (2 * length names) ?s3 s'" by (simp add: Let_def)
      moreover have "uses c 2 s ?s3" by (rule uses_cong [OF u1]) (auto simp: emit_requests split: list.split)
      ultimately show ?thesis using uses_trans by fastforce
    next
      case (At_output d)
      with 2 tried a have "s' = note_success name s1" by simp
      then have "uses c 2 s s'" using uses_cong [OF u1] by simp
      then show ?thesis by (rule uses_mono) simp
    next
      case At_budget
      with 2 tried a u1 show ?thesis by (auto intro: uses_mono)
    next
      case At_repair
      with 2 tried a u1 show ?thesis by (auto intro: uses_mono)
    qed
  qed
qed


subsection \<open>Only validated output leaves the pool\<close>

text \<open>A draft keeps the text that the model put first and a prefix of what follows it, passive throughout.\<close>

definition draft_of :: "pydict \<Rightarrow> pydict \<Rightarrow> bool" where
  "draft_of d d' \<longleftrightarrow> (\<exists>a pre post. get_none d (u ''actions'') = PList (a # pre @ post) \<and> post \<noteq> []
     \<and> get_none d' (u ''actions'') = PList (a # pre) \<and> types_text a \<and> list_all passive_value pre \<and> \<not> passive_value (hd post)
     \<and> (\<forall>k. k \<notin> {u ''intent'', u ''actions'', u ''expected_evidence''} \<longrightarrow> map_of d' k = map_of d k))"

lemma downgrade_draft:
  assumes "safe_controller_downgrade controller validate d e = Some d'"
  shows "validate d' = None \<and> draft_of d d'"
proof -
  from assms obtain a as where as: "get_none d (u ''actions'') = PList (a # as)" "types_text a" "takeWhile passive_value as \<noteq> as"
    and d': "d' = dict_set (dict_set (dict_set d (u ''intent'') (PStr draft_intent))
        (u ''actions'') (PList (a # takeWhile passive_value as))) (u ''expected_evidence'') (PList [PStr draft_evidence])"
    and ok: "validate d' = None"
    by (auto simp: safe_controller_downgrade_def Let_def split: if_splits pyval.splits list.splits)
  let ?pre = "takeWhile passive_value as" and ?post = "dropWhile passive_value as"
  have "?pre @ ?post = as" by simp
  moreover from this as(3) have "?post \<noteq> []" by auto
  moreover from this have "\<not> passive_value (hd ?post)" by (rule hd_dropWhile)
  moreover have "list_all passive_value ?pre" by (auto simp: list_all_iff dest: set_takeWhileD)
  moreover have "get_none d' (u ''actions'') = PList (a # ?pre)" by (simp add: d' get_none_def get_or_def)
  moreover have "\<forall>k. k \<notin> {u ''intent'', u ''actions'', u ''expected_evidence''} \<longrightarrow> map_of d' k = map_of d k" by (simp add: d')
  ultimately show ?thesis using ok as(1, 2) unfolding draft_of_def by (intro conjI exI [of _ a] exI [of _ ?pre] exI [of _ ?post]) simp_all
qed

lemma attempt_output:
  assumes "try_attempt c en i attempt name s = (At_output d, s')"
  shows "en_validate en d = None \<and> (\<exists>d0 usage. en_answer en i attempt = Responds d0 usage \<and> (d = d0 \<or> draft_of d0 d))"
proof -
  have bf: "budget_failure e \<noteq> At_output d" for e by (simp add: budget_failure_def split: budget_error.split)
  from assms obtain d0 usage s3 where "en_answer en i attempt = Responds d0 usage" "judge_output en attempt name d0 s3 = (At_output d, s')"
    using bf by (auto simp: try_attempt_def Let_def split: prod.splits sum.splits provider_answer.splits)
  with downgrade_draft show ?thesis
    by (fastforce simp: judge_output_def Let_def split: option.splits if_splits)
qed

lemma loop_output:
  "pool_loop c en bypass i names s = (Pr_output d name, s') \<Longrightarrow>
     name \<in> set names \<and> name \<in> set (pc_providers c) \<and> en_validate en d = None
     \<and> (\<exists>j attempt d0 usage. attempt \<le> 1 \<and> en_answer en j attempt = Responds d0 usage \<and> (d = d0 \<or> draft_of d0 d))"
proof (induction c en bypass i names s rule: pool_loop.induct)
  case (2 c en bypass i first names s)
  show ?case
  proof (cases "first \<notin> set (pc_providers c) \<or> \<not> ph_ready (health_of first s) \<or> cooling bypass (en_now en i) first s")
    case True
    with 2 show ?thesis by (auto split: if_splits)
  next
    case False
    obtain a s1 where a: "try_provider c en i first (s\<lparr>ps_cooldowns := dict_pop (ps_cooldowns s) first\<rparr>) = (a, s1)" by fastforce
    show ?thesis
    proof (cases a)
      case (At_output d1)
      with 2 False a have "d1 = d" "first = name" by auto
      have "\<exists>attempt \<le> 1. \<exists>s0. try_attempt c en i attempt first s0 = (At_output d, s1)"
        using a At_output \<open>d1 = d\<close>
        by (auto simp: try_provider_def split: prod.splits attempt_result.splits intro: exI [of _ 0] exI [of _ 1])
      with attempt_output False \<open>first = name\<close> show ?thesis by fastforce
    next
      case (At_failed cls)
      with 2 False a show ?thesis by (auto simp: Let_def)
    qed (use 2 False a in auto)
  qed
qed simp

text \<open>
  C24. The pool returns only output the schema accepts, from a configured provider of the route. It is what
  that provider answered, or the draft made of it: the same text first, then only the passive actions that
  followed it directly, with the rest cut off and nothing else changed but the stated intent and evidence.
\<close>

theorem pool_output_is_validated:
  assumes "complete_request c en bypass role preferred chosen s = (Pr_output d name, s')"
  shows "(\<exists>names. route_names c role preferred chosen = Some names \<and> name \<in> set names) \<and> name \<in> set (pc_providers c)
    \<and> en_validate en d = None
    \<and> (\<exists>j attempt d0 usage. attempt \<le> 1 \<and> en_answer en j attempt = Responds d0 usage \<and> (d = d0 \<or> draft_of d0 d))"
  using assms loop_output by (fastforce simp: complete_request_def split: option.splits)

subsection \<open>A concrete chain\<close>

text \<open>The first provider times out; the second is repaired once and then drafts the text it typed too much after.\<close>

definition typed_action :: pyval where
  "typed_action = PDict [(u ''type'', PStr (u ''type_text'')), (u ''text'', PStr (u ''hi''))]"

definition enter_action :: pyval where
  "enter_action = PDict [(u ''type'', PStr (u ''key''))]"

definition act_with :: "pyval list \<Rightarrow> pydict" where
  "act_with as = [(u ''outcome'', PStr (u ''act'')), (u ''actions'', PList as)]"

definition follow_up_error :: schema_error where
  "follow_up_error = \<lparr>se_message = u ''invalid'', se_messages = [u ''no active follow-up after text'']\<rparr>"

definition demo_validate :: "pydict \<Rightarrow> schema_error option" where
  "demo_validate d = (case get_none d (u ''actions'') of
       PList as \<Rightarrow> if length as \<le> 1 then None else Some follow_up_error
     | _ \<Rightarrow> Some \<lparr>se_message = u ''invalid'', se_messages = []\<rparr>)"

definition demo_answers :: "nat \<Rightarrow> nat \<Rightarrow> provider_answer" where
  "demo_answers i attempt =
     (if i = 0 then Raises Ek_timeout []
      else if attempt = 0 then Responds [] (usage_of (PInt 10))
      else Responds (act_with [typed_action, enter_action]) (usage_of (PInt 10)))"

definition demo_env :: pool_env where
  "demo_env = \<lparr>en_answer = demo_answers, en_lease = (\<lambda>i a. [int i, int a]), en_saves = (\<lambda>_ _. True), en_now = (\<lambda>_. 0),
     en_failed_at = (\<lambda>_. 0), en_validate = demo_validate, en_controller = True\<rparr>"

definition demo_pool :: pool_config where
  "demo_pool = \<lparr>pc_providers = [u ''a'', u ''m''], pc_routes = [(''controller'', [u ''a'', u ''m''])], pc_cooldowns = [],
     pc_policy = demo_policy\<lparr>bp_terms := [(u ''a'', Subscription), (u ''m'', Metered 60 [(u ''tokens'', 1)])]\<rparr>\<rparr>"

definition demo_pool_state :: pool_state where
  "demo_pool_state = \<lparr>ps_health = [], ps_cooldowns = [], ps_budget = Some fresh_budget, ps_events = []\<rparr>"

definition summary_of :: "pool_result \<times> pool_state \<Rightarrow> (pyval \<times> pystr) option \<times> nat \<times> int option" where
  "summary_of x = ((case fst x of Pr_output d name \<Rightarrow> Some (get_none d (u ''actions''), name) | _ \<Rightarrow> None),
     requests (snd x), map_option spent_attempts (ps_budget (snd x)))"

lemma demo_chain: "summary_of (complete_request demo_pool demo_env False ''controller'' None None demo_pool_state)
    = (Some (PList [typed_action], u ''m''), 3, Some 3)"
  by code_simp

lemma demo_result: "\<exists>d s'. complete_request demo_pool demo_env False ''controller'' None None demo_pool_state = (Pr_output d (u ''m''), s')
    \<and> get_none d (u ''actions'') = PList [typed_action] \<and> requests s' = 3"
  using demo_chain
  by (cases "complete_request demo_pool demo_env False ''controller'' None None demo_pool_state")
    (auto simp: summary_of_def split: pool_result.splits)

theorem pool_output_is_validated_witness:
  "\<exists>d. en_validate demo_env d = None \<and> get_none d (u ''actions'') = PList [typed_action]"
proof -
  obtain d s' where d: "complete_request demo_pool demo_env False ''controller'' None None demo_pool_state = (Pr_output d (u ''m''), s')"
    "get_none d (u ''actions'') = PList [typed_action]"
    using demo_result by blast
  from pool_output_is_validated [OF d(1)] d(2) show ?thesis by blast
qed


end
