(* ===== verification/ControllerDecision.thy ===== *)
theory ControllerDecision
  imports ModelPool BurstKeys SpreadsheetGrid WindowsLaunch Models
begin

text \<open>
  The decisions of the controller model in \<open>harness/agent_models.py\<close>: the actions with the bounds of
  their fields, and \<open>ControllerDecision.action_shape_matches_outcome\<close>, the validator that says which actions one
  decision may combine. Reading the fields from JSON is pydantic's; the model starts from parsed actions and
  gives their dump, which the validator's calls of \<open>core/windows_launch.py\<close> read.
\<close>

subsection \<open>Actions\<close>

datatype text_context = Tc_none | Tc_editor | Tc_field | Tc_terminal

datatype text_check = Tk_auto | Tk_exact | Tk_deferred

datatype pointer_button = Pb_left | Pb_right | Pb_middle

datatype computer_action =
    Ca_key "pystr list"
  | Ca_type pystr bool bool text_context "text_check option"
  | Ca_grid "pystr list list"
  | Ca_click bool int int pointer_button
  | Ca_move int int
  | Ca_scroll scroll_direction int
  | Ca_wait int
  | Ca_stable int int
  | Ca_change int

definition grid_value :: "pystr list list \<Rightarrow> pyval" where
  "grid_value rows = PList (map (\<lambda>r. PList (map PStr r)) rows)"

text \<open>The bounds of the fields, with the validators of the single actions.\<close>

fun action_fields_ok :: "computer_action \<Rightarrow> bool" where
  "action_fields_ok (Ca_key ks) = (1 \<le> length ks \<and> length ks \<le> 8)"
| "action_fields_ok (Ca_type t _ _ _ _) = (length t \<le> 240 \<and> \<not> list_ex control_char t \<and> py_strip t \<noteq> [])"
| "action_fields_ok (Ca_grid rows) = is_ok (validate_spreadsheet_grid (grid_value rows) max_grid_characters)"
| "action_fields_ok (Ca_click _ x y _) = (0 \<le> x \<and> 0 \<le> y)"
| "action_fields_ok (Ca_move x y) = (0 \<le> x \<and> 0 \<le> y)"
| "action_fields_ok (Ca_scroll _ n) = (1 \<le> n \<and> n \<le> 20)"
| "action_fields_ok (Ca_wait ms) = (0 \<le> ms \<and> ms \<le> 30000)"
| "action_fields_ok (Ca_stable s t) = (50 \<le> s \<and> s \<le> 10000 \<and> 50 \<le> t \<and> t \<le> 30000)"
| "action_fields_ok (Ca_change t) = (50 \<le> t \<and> t \<le> 30000)"

fun context_value :: "text_context \<Rightarrow> pyval" where
  "context_value Tc_none = PStr []"
| "context_value Tc_editor = PStr (u ''editor'')"
| "context_value Tc_field = PStr (u ''field'')"
| "context_value Tc_terminal = PStr (u ''terminal'')"

fun check_value :: "text_check option \<Rightarrow> pyval" where
  "check_value None = PNone"
| "check_value (Some Tk_auto) = PStr (u ''auto'')"
| "check_value (Some Tk_exact) = PStr (u ''exact'')"
| "check_value (Some Tk_deferred) = PStr (u ''deferred_exact'')"

fun button_value :: "pointer_button \<Rightarrow> pyval" where
  "button_value Pb_left = PStr (u ''left'')"
| "button_value Pb_right = PStr (u ''right'')"
| "button_value Pb_middle = PStr (u ''middle'')"

fun direction_value :: "scroll_direction \<Rightarrow> pyval" where
  "direction_value Scroll_up = PStr (u ''up'')"
| "direction_value Scroll_down = PStr (u ''down'')"
| "direction_value Scroll_left = PStr (u ''left'')"
| "direction_value Scroll_right = PStr (u ''right'')"

fun type_name :: "computer_action \<Rightarrow> string" where
  "type_name (Ca_key _) = ''key''"
| "type_name (Ca_type _ _ _ _ _) = ''type_text''"
| "type_name (Ca_grid _) = ''spreadsheet_grid''"
| "type_name (Ca_click double _ _ _) = (if double then ''double_click'' else ''click'')"
| "type_name (Ca_move _ _) = ''move''"
| "type_name (Ca_scroll _ _) = ''scroll''"
| "type_name (Ca_wait _) = ''wait''"
| "type_name (Ca_stable _ _) = ''wait_for_stable_screen''"
| "type_name (Ca_change _) = ''wait_for_change''"

fun action_fields :: "computer_action \<Rightarrow> pydict" where
  "action_fields (Ca_key ks) = [(u ''keys'', PList (map PStr ks))]"
| "action_fields (Ca_type t code secret ctx check) =
     [(u ''text'', PStr t), (u ''code'', PBool code), (u ''secret'', PBool secret), (u ''context'', context_value ctx),
      (u ''verification'', check_value check)]"
| "action_fields (Ca_grid rows) = [(u ''rows'', grid_value rows)]"
| "action_fields (Ca_click _ x y b) = [(u ''x'', PInt x), (u ''y'', PInt y), (u ''button'', button_value b)]"
| "action_fields (Ca_move x y) = [(u ''x'', PInt x), (u ''y'', PInt y)]"
| "action_fields (Ca_scroll d n) = [(u ''direction'', direction_value d), (u ''amount'', PInt n)]"
| "action_fields (Ca_wait ms) = [(u ''ms'', PInt ms)]"
| "action_fields (Ca_stable s t) = [(u ''stable_ms'', PInt s), (u ''timeout_ms'', PInt t)]"
| "action_fields (Ca_change t) = [(u ''timeout_ms'', PInt t)]"

definition dump_action :: "computer_action \<Rightarrow> pydict" where
  "dump_action a = (u ''type'', PStr (u (type_name a))) # action_fields a"

fun passive_evidence :: "computer_action \<Rightarrow> bool" where
  "passive_evidence (Ca_wait _) = True"
| "passive_evidence (Ca_stable _ _) = True"
| "passive_evidence (Ca_change _) = True"
| "passive_evidence _ = False"

fun types :: "computer_action \<Rightarrow> bool" where
  "types (Ca_type _ _ _ _ _) = True"
| "types _ = False"

fun grid_action :: "computer_action \<Rightarrow> bool" where
  "grid_action (Ca_grid _) = True"
| "grid_action _ = False"

subsection \<open>Texts of several lines\<close>

text \<open>What the text actions must be for a burst that enters several lines into an editor.\<close>

fun editor_text :: "computer_action \<Rightarrow> bool" where
  "editor_text (Ca_type _ _ _ ctx check) = (ctx = Tc_editor \<and> check \<in> {Some Tk_exact, Some Tk_deferred})"
| "editor_text _ = False"

fun deferred_text :: "computer_action \<Rightarrow> bool" where
  "deferred_text (Ca_type _ _ _ ctx check) = (ctx = Tc_editor \<and> check = Some Tk_deferred)"
| "deferred_text _ = False"

fun line_break_keys :: "computer_action \<Rightarrow> pystr list" where
  "line_break_keys (Ca_key ks) = map (\<lambda>k. py_casefold (py_strip k)) ks"
| "line_break_keys _ = []"

definition is_break :: "bool \<Rightarrow> computer_action \<Rightarrow> bool" where
  "is_break deferred a = (let ks = set (line_break_keys a) in
     if deferred then ks = {u ''enter''}
     else ks \<in> {{u ''shift'', u ''enter''}, {u ''shiftleft'', u ''enter''}, {u ''shiftright'', u ''enter''}})"

fun multiline_scan :: "bool \<Rightarrow> computer_action list \<Rightarrow> bool \<Rightarrow> bool \<Rightarrow> bool \<Rightarrow> bool" where
  "multiline_scan deferred [] multi seen brk = multi"
| "multiline_scan deferred (a # as) multi seen brk =
     (if types a
      then multiline_scan deferred as (multi \<and> editor_text a \<and> (\<not> seen \<or> brk)) True False
      else multiline_scan deferred as (multi \<and> seen \<and> is_break deferred a) seen True)"

definition editor_multiline :: "computer_action list \<Rightarrow> bool" where
  "editor_multiline active =
     (let multi = (2 \<le> length (filter types active));
          deferred = (multi \<and> list_all (\<lambda>a. \<not> types a \<or> deferred_text a) active)
      in multiline_scan deferred active multi False False)"

subsection \<open>The shape of a decision\<close>

datatype controller_outcome = Co_act | Co_done | Co_replan | Co_blocked

record controller_decision =
  cd_outcome :: controller_outcome
  cd_intent :: pystr
  cd_actions :: "computer_action list"
  cd_evidence :: "pystr list"
  cd_completes :: bool
  cd_reason :: pystr

datatype shape_error =
    She_no_action | She_actions | She_run_shortcut | She_grid | She_follow_up | She_same_move | She_same_click | She_only_moves

fun text_follow_up :: "bool \<Rightarrow> computer_action list \<Rightarrow> bool" where
  "text_follow_up typed [] = False"
| "text_follow_up typed (a # as) = (typed \<and> \<not> passive_evidence a \<or> text_follow_up (typed \<or> types a) as)"

fun repeated_move :: "computer_action list \<Rightarrow> bool" where
  "repeated_move (Ca_move x y # Ca_move x' y' # as) = (x = x' \<and> y = y' \<or> repeated_move (Ca_move x' y' # as))"
| "repeated_move (a # as) = repeated_move as"
| "repeated_move [] = False"

fun activation :: "computer_action \<Rightarrow> (int \<times> int \<times> pointer_button) list" where
  "activation (Ca_click _ x y b) = [(x, y, b)]"
| "activation _ = []"

fun is_move :: "computer_action \<Rightarrow> bool" where
  "is_move (Ca_move _ _) = True"
| "is_move _ = False"

definition grid_not_alone :: "computer_action list \<Rightarrow> bool" where
  "grid_not_alone as \<longleftrightarrow> list_ex grid_action as
     \<and> (length (filter grid_action as) \<noteq> 1 \<or> list_ex (\<lambda>a. \<not> passive_evidence a \<and> \<not> grid_action a) as)"

definition action_shape :: "controller_decision \<Rightarrow> shape_error option" where
  "action_shape d =
     (let as = cd_actions d; dumps = map dump_action as; launch = is_verified_windows_run_launch dumps in
      if cd_outcome d = Co_act \<and> as = [] then Some She_no_action
      else if cd_outcome d \<noteq> Co_act \<and> as \<noteq> [] then Some She_actions
      else if \<not> launch \<and> list_ex is_windows_run_key_action dumps then Some She_run_shortcut
      else if grid_not_alone as then Some She_grid
      else if \<not> launch \<and> \<not> editor_multiline (filter (\<lambda>a. \<not> passive_evidence a) as) \<and> text_follow_up False as
      then Some She_follow_up
      else if repeated_move as then Some She_same_move
      else if \<not> distinct (concat (map activation as)) then Some She_same_click
      else if 1 < length as \<and> list_all is_move as then Some She_only_moves
      else None)"

definition decision_fields_ok :: "controller_decision \<Rightarrow> bool" where
  "decision_fields_ok d \<longleftrightarrow> list_all action_fields_ok (cd_actions d) \<and> length (cd_evidence d) \<le> 20"

definition decision_ok :: "controller_decision \<Rightarrow> bool" where
  "decision_ok d \<longleftrightarrow> decision_fields_ok d \<and> action_shape d = None"

subsection \<open>What follows a typed text\<close>

lemma multiline_scan_multi: "multiline_scan deferred as multi seen brk \<Longrightarrow> multi"
  by (induction deferred as multi seen brk rule: multiline_scan.induct) (auto split: if_splits)

lemma multiline_scan_kinds:
  "multiline_scan deferred as multi seen brk \<Longrightarrow> a \<in> set as \<Longrightarrow> if types a then editor_text a else is_break deferred a"
proof (induction deferred as multi seen brk rule: multiline_scan.induct)
  case (2 deferred b as multi seen brk)
  show ?case
  proof (cases "types b")
    case True
    with 2 multiline_scan_multi [of deferred as "multi \<and> editor_text b \<and> (\<not> seen \<or> brk)" True False] show ?thesis by auto
  next
    case False
    with 2 multiline_scan_multi [of deferred as "multi \<and> seen \<and> is_break deferred b" seen True] show ?thesis by auto
  qed
qed simp

text \<open>The texts of such a burst are separated: no two stand next to each other, and a break never comes first.\<close>

lemma multiline_scan_separated:
  "multiline_scan deferred as multi seen brk
    \<Longrightarrow> successively (\<lambda>a b. \<not> (types a \<and> types b)) as
      \<and> (as \<noteq> [] \<longrightarrow> (\<not> seen \<longrightarrow> types (hd as)) \<and> (seen \<and> \<not> brk \<longrightarrow> \<not> types (hd as)))"
proof (induction deferred as multi seen brk rule: multiline_scan.induct)
  case (2 deferred b as multi seen brk)
  show ?case
  proof (cases "types b")
    case True
    with 2 multiline_scan_multi [of deferred as "multi \<and> editor_text b \<and> (\<not> seen \<or> brk)" True False]
    show ?thesis by (cases as) auto
  next
    case False
    with 2 multiline_scan_multi [of deferred as "multi \<and> seen \<and> is_break deferred b" seen True]
    show ?thesis by (cases as) auto
  qed
qed simp

definition lines_of_editor :: "computer_action list \<Rightarrow> bool" where
  "lines_of_editor active \<longleftrightarrow>
     2 \<le> length (filter types active) \<and> types (hd active) \<and> successively (\<lambda>a b. \<not> (types a \<and> types b)) active
     \<and> (\<forall>a \<in> set active. if types a then editor_text a else is_break (list_all (\<lambda>a. \<not> types a \<or> deferred_text a) active) a)"

lemma editor_multiline_lines: "editor_multiline active \<Longrightarrow> lines_of_editor active"
proof -
  assume a: "editor_multiline active"
  then have two: "2 \<le> length (filter types active)"
    by (auto simp: editor_multiline_def Let_def dest: multiline_scan_multi)
  then have "active \<noteq> []" by auto
  from a two have scan: "multiline_scan (list_all (\<lambda>a. \<not> types a \<or> deferred_text a) active) active True False False"
    by (simp add: editor_multiline_def Let_def)
  from multiline_scan_separated [OF this] multiline_scan_kinds [OF this] two \<open>active \<noteq> []\<close> show ?thesis
    unfolding lines_of_editor_def by blast
qed

lemma text_follow_up_True: "text_follow_up True as \<longleftrightarrow> list_ex (\<lambda>a. \<not> passive_evidence a) as"
  by (induction as) auto

lemma text_follow_up_iff:
  "text_follow_up False as \<longleftrightarrow> (\<exists>i j. i < j \<and> j < length as \<and> types (as ! i) \<and> \<not> passive_evidence (as ! j))"
proof (induction as)
  case (Cons a as)
  show ?case
  proof (cases "types a")
    case True
    have "(\<exists>i j. i < j \<and> j < length (a # as) \<and> types ((a # as) ! i) \<and> \<not> passive_evidence ((a # as) ! j))
        \<longleftrightarrow> (\<exists>j < length as. \<not> passive_evidence (as ! j))" (is "?l \<longleftrightarrow> ?r")
    proof
      assume ?l
      then obtain i j where "i < j" "j < length (a # as)" "\<not> passive_evidence ((a # as) ! j)" by blast
      then show ?r by (cases j) auto
    next
      assume ?r
      then obtain j where "j < length as" "\<not> passive_evidence (as ! j)" by blast
      with True show ?l by (intro exI [of _ 0] exI [of _ "Suc j"]) simp
    qed
    with True show ?thesis by (simp add: text_follow_up_True list_ex_length)
  next
    case False
    have "(\<exists>i j. i < j \<and> j < length (a # as) \<and> types ((a # as) ! i) \<and> \<not> passive_evidence ((a # as) ! j))
        \<longleftrightarrow> (\<exists>i j. i < j \<and> j < length as \<and> types (as ! i) \<and> \<not> passive_evidence (as ! j))" (is "?l \<longleftrightarrow> ?r")
    proof
      assume ?l
      then obtain i j where ij: "i < j" "j < length (a # as)" "types ((a # as) ! i)" "\<not> passive_evidence ((a # as) ! j)" by blast
      with False obtain i' j' where "i = Suc i'" "j = Suc j'" by (cases i; cases j) auto
      with ij show ?r by auto
    next
      assume ?r
      then obtain i j where "i < j" "j < length as" "types (as ! i)" "\<not> passive_evidence (as ! j)" by blast
      then show ?l by (intro exI [of _ "Suc i"] exI [of _ "Suc j"]) simp
    qed
    with Cons False show ?thesis by simp
  qed
qed simp


subsection \<open>Validation and the safe draft of the model pool\<close>

definition outcome_name :: "controller_outcome \<Rightarrow> string" where
  "outcome_name v = (case v of Co_act \<Rightarrow> ''act'' | Co_done \<Rightarrow> ''done'' | Co_replan \<Rightarrow> ''replan'' | Co_blocked \<Rightarrow> ''blocked'')"

definition dump_decision :: "controller_decision \<Rightarrow> pydict" where
  "dump_decision d =
     [(u ''outcome'', PStr (u (outcome_name (cd_outcome d)))), (u ''intent'', PStr (cd_intent d)),
      (u ''actions'', PList (map (\<lambda>a. PDict (dump_action a)) (cd_actions d))),
      (u ''expected_evidence'', PList (map PStr (cd_evidence d))),
      (u ''expects_task_completion'', PBool (cd_completes d)), (u ''reason'', PStr (cd_reason d))]"

text \<open>The messages of the validator, with the prefix pydantic gives a \<open>ValueError\<close>.\<close>

definition shape_message :: "controller_outcome \<Rightarrow> shape_error \<Rightarrow> pystr" where
  "shape_message v e = u ''Value error, '' @ u (case e of
       She_no_action \<Rightarrow> ''outcome=act requires at least one action''
     | She_actions \<Rightarrow> ''outcome='' @ outcome_name v @ '' cannot include actions''
     | She_run_shortcut \<Rightarrow> ''Win+R must include the allowlisted exact field text and Enter in the same atomic launch burst''
     | She_grid \<Rightarrow> ''spreadsheet_grid requires a separate verified focus action''
     | She_follow_up \<Rightarrow> ''type_text cannot have an active follow-up in the same burst''
     | She_same_move \<Rightarrow> ''duplicate consecutive pointer move is a no-op''
     | She_same_click \<Rightarrow> ''duplicate pointer activation within one burst is unsafe; use one click or the explicit double_click action''
     | She_only_moves \<Rightarrow> ''multiple pointer-only moves do not provide task evidence'')"

definition shape_failure :: "controller_outcome \<Rightarrow> shape_error \<Rightarrow> schema_error" where
  "shape_failure v e = \<lparr>se_message = shape_message v e, se_messages = [shape_message v e]\<rparr>"

text \<open>\<open>parse\<close> stands for pydantic's reading of the fields, which fails before the validator runs.\<close>

definition validate_controller ::
  "(pydict \<Rightarrow> (schema_error, controller_decision) result) \<Rightarrow> pydict \<Rightarrow> schema_error option" where
  "validate_controller parse data = (case parse data of
       Inl e \<Rightarrow> Some e
     | Inr d \<Rightarrow> map_option (shape_failure (cd_outcome d)) (action_shape d))"

definition draft :: "controller_decision \<Rightarrow> controller_decision" where
  "draft d = d\<lparr>cd_intent := draft_intent, cd_evidence := [draft_evidence],
     cd_actions := (case cd_actions d of [] \<Rightarrow> [] | a # as \<Rightarrow> a # takeWhile passive_evidence as)\<rparr>"

lemma passive_dump: "passive_value (PDict (dump_action a)) = passive_evidence a"
  by (cases a) (simp_all add: passive_value_def dump_action_def get_none_def get_or_def passive_types_def u_def)

lemma types_dump: "types_text (PDict (dump_action a)) = types a"
  by (cases a) (simp_all add: types_text_def dump_action_def get_none_def get_or_def u_def)

lemma follow_up_message: "py_in (u ''active follow-up'') (shape_message v She_follow_up)"
  unfolding shape_message_def shape_error.case by code_simp

lemma follow_up_fields:
  assumes "action_shape d = Some She_follow_up"
  shows "cd_outcome d = Co_act \<and> text_follow_up False (cd_actions d)"
  using assms by (auto simp: action_shape_def Let_def split: if_split_asm)

lemma no_move_repeats: "\<not> list_ex is_move as \<Longrightarrow> \<not> repeated_move as"
  by (induction as rule: repeated_move.induct) auto

lemma text_then_passive_ok:
  assumes "types a" "list_all passive_evidence as" "cd_outcome d = Co_act" "cd_actions d = a # as"
  shows "action_shape d = None"
proof -
  have "\<not> is_windows_run_key_action (dump_action b)" if "types b \<or> passive_evidence b" for b
    using that by (cases b) (simp_all add: is_windows_run_key_action_def action_type_def dump_action_def get_none_def get_or_def u_def)
  then have "\<not> list_ex is_windows_run_key_action (map dump_action (a # as))"
    using assms(1, 2) by (auto simp: list_ex_iff list_all_iff)
  moreover have kinds: "\<not> grid_action b \<and> \<not> is_move b \<and> activation b = []" if "types b \<or> passive_evidence b" for b
    using that by (cases b) auto
  then have "\<not> list_ex grid_action (a # as)" "\<not> list_ex is_move (a # as)"
    using assms(1, 2) by (auto simp: list_ex_iff list_all_iff)
  moreover have "concat (map activation (a # as)) = []"
    using assms(1, 2) kinds by (auto simp: list_all_iff)
  then have "distinct (concat (map activation (a # as)))" by (simp only: distinct.simps)
  moreover have "\<not> text_follow_up False (a # as)"
    using assms(1, 2) by (auto simp: text_follow_up_True list_ex_iff list_all_iff)
  ultimately show ?thesis
    using assms(1, 3, 4) no_move_repeats [of "a # as"]
    unfolding action_shape_def Let_def assms(3, 4) by (auto simp: grid_not_alone_def list_ex_iff list_all_iff)
qed

lemma takeWhile_all_passive: "list_all passive_evidence (takeWhile passive_evidence as)"
  by (auto simp: list_all_iff dest: set_takeWhileD)

text \<open>
  C25. The pool's safe draft always exists. When a decision that begins with a text fails only because
  something active follows the text, the draft the pool makes of it is accepted: the same text with the
  passive actions behind it, and a valid decision. So the text is kept, the rest is dropped, and the model
  is not asked again.
\<close>

theorem safe_draft_exists:
  assumes "decision_fields_ok (draft d) \<Longrightarrow> parse (dump_decision (draft d)) = Inr (draft d)"
    and "decision_fields_ok d" "action_shape d = Some She_follow_up" "cd_actions d = a # as" "types a"
  shows "safe_controller_downgrade True (validate_controller parse) (dump_decision d) (shape_failure (cd_outcome d) She_follow_up)
      = Some (dump_decision (draft d))
    \<and> decision_ok (draft d) \<and> cd_actions (draft d) = a # takeWhile passive_evidence as"
proof -
  let ?rest = "takeWhile passive_evidence as"
  have act: "cd_outcome d = Co_act" and "text_follow_up False (a # as)"
    using follow_up_fields [OF assms(3)] assms(4) by simp_all
  with assms(5) have "list_ex (\<lambda>b. \<not> passive_evidence b) as" by (simp add: text_follow_up_True)
  then have active: "\<exists>b \<in> set as. \<not> passive_evidence b" by (simp add: list_ex_iff)
  have draft: "cd_actions (draft d) = a # ?rest" "cd_outcome (draft d) = Co_act" using assms(4) act by (simp_all add: draft_def)
  have fields: "decision_fields_ok (draft d)"
    using assms(2, 4) by (auto simp: decision_fields_ok_def draft_def list_all_iff dest: set_takeWhileD)
  have ok: "action_shape (draft d) = None"
    by (rule text_then_passive_ok [OF assms(5) takeWhile_all_passive draft(2, 1)])
  have "dict_set (dict_set (dict_set (dump_decision d) (u ''intent'') (PStr draft_intent)) (u ''actions'')
        (PList (map (\<lambda>a. PDict (dump_action a)) (a # ?rest)))) (u ''expected_evidence'') (PList [PStr draft_evidence])
      = dump_decision (draft d)"
    using assms(4) by (simp add: dump_decision_def draft_def u_def)
  moreover have "takeWhile passive_value (map (\<lambda>a. PDict (dump_action a)) as) = map (\<lambda>a. PDict (dump_action a)) ?rest"
    by (simp add: takeWhile_map comp_def passive_dump)
  moreover have "validate_controller parse (dump_decision (draft d)) = None"
    by (simp add: validate_controller_def assms(1) [OF fields] ok)
  moreover have "get_none (dump_decision d) (u ''outcome'') = PStr (u ''act'')"
    "get_none (dump_decision d) (u ''actions'') = PList (map (\<lambda>a. PDict (dump_action a)) (a # as))"
    using act assms(4) by (simp_all add: dump_decision_def get_none_def get_or_def outcome_name_def u_def)
  ultimately have "safe_controller_downgrade True (validate_controller parse) (dump_decision d) (shape_failure (cd_outcome d) She_follow_up)
      = Some (dump_decision (draft d))"
    using assms(5) active by (simp add: passive_dump safe_controller_downgrade_def shape_failure_def follow_up_message types_dump Let_def)
  with fields ok draft show ?thesis by (simp add: decision_ok_def)
qed

text \<open>What the pool hands to the controller is a decision the validator accepts.\<close>

lemma pool_decision_valid:
  assumes "complete_request c en bypass role preferred chosen s = (Pr_output data name, s')"
    and "en_validate en = validate_controller parse"
  shows "\<exists>d. parse data = Inr d \<and> action_shape d = None"
proof -
  from assms(1) obtain names where "pool_loop c en bypass 0 names s = (Pr_output data name, s')"
    by (auto simp: complete_request_def split: option.splits)
  from loop_output [OF this] assms(2) have "validate_controller parse data = None" by simp
  then show ?thesis by (auto simp: validate_controller_def split: sum.splits)
qed

subsection \<open>Concrete decisions\<close>

definition act_on :: "computer_action list \<Rightarrow> controller_decision" where
  "act_on as = \<lparr>cd_outcome = Co_act, cd_intent = [], cd_actions = as, cd_evidence = [], cd_completes = False, cd_reason = []\<rparr>"

definition editor_line :: "string \<Rightarrow> computer_action" where
  "editor_line s = Ca_type (u s) False False Tc_editor (Some Tk_exact)"

definition two_lines :: "computer_action list" where
  "two_lines = [editor_line ''a'', Ca_key (map u [''Shift'', ''Enter'']), editor_line ''b'', Ca_wait 200]"

lemma two_lines_ok: "decision_ok (act_on two_lines)"
  by code_simp

lemma two_lines_facts:
  "\<not> is_verified_windows_run_launch (map dump_action two_lines) \<and> types (two_lines ! 0) \<and> \<not> passive_evidence (two_lines ! 1)"
  by code_simp


definition submitted_text :: controller_decision where
  "submitted_text = act_on [Ca_type (u ''ls'') False False Tc_terminal None, Ca_wait 100, Ca_key [u ''Enter'']]"

lemma submitted_text_shape: "action_shape submitted_text = Some She_follow_up" "decision_fields_ok submitted_text"
  by code_simp+

theorem safe_draft_exists_witness:
  "cd_actions (draft submitted_text) = [Ca_type (u ''ls'') False False Tc_terminal None, Ca_wait 100]
   \<and> decision_ok (draft submitted_text)"
  using safe_draft_exists [of submitted_text "\<lambda>_. Inr (draft submitted_text)", OF _ submitted_text_shape(2, 1)]
  by (simp add: submitted_text_def act_on_def)

subsection \<open>The Run shortcut under other names\<close>

text \<open>
  The guard on the Run shortcut knows it as two key names. Written as one chord, or with the code of the key, it is
  accepted on its own, although the keys that are sent are the same.
\<close>

theorem run_shortcut_guard_bypassed:
  "action_shape (act_on [Ca_key (map u [''Win'', ''R''])]) = Some She_run_shortcut
   \<and> decision_ok (act_on [Ca_key [u ''Win+R'']]) \<and> decision_ok (act_on [Ca_key (map u [''MetaLeft'', ''KeyR''])])
   \<and> normalize_keys [PStr (u ''Win+R'')] = Inr (map u [''MetaLeft'', ''KeyR''])
   \<and> normalize_keys [PStr (u ''Win''), PStr (u ''R'')] = Inr (map u [''MetaLeft'', ''KeyR''])"
proof (intro conjI)
  show "action_shape (act_on [Ca_key (map u [''Win'', ''R''])]) = Some She_run_shortcut" by code_simp
  show "decision_ok (act_on [Ca_key [u ''Win+R'']])" "decision_ok (act_on [Ca_key (map u [''MetaLeft'', ''KeyR''])])"
    by code_simp+
  show "normalize_keys [PStr (u ''Win+R'')] = Inr (map u [''MetaLeft'', ''KeyR''])"
    "normalize_keys [PStr (u ''Win''), PStr (u ''R'')] = Inr (map u [''MetaLeft'', ''KeyR''])"
    by code_simp+
qed

end
