(* ===== verification/MediaTransaction.thy ===== *)
theory MediaTransaction
  imports HarnessRun Regex
begin

text \<open>
  \<open>harness/media_transaction.py\<close>: uploading a read-only image to the target's mass-storage drive and taking it
  away again. The target adapter, the clock and the durability of a save answer from a world of any type
  that the operations thread through; private artifacts are the list of the transactions that have one. A run is
  its snapshot with the media transaction it owns, and the lock per run makes every operation one step. The
  operations are written over a small monad of results, in the order of the code's statements.
\<close>

subsection \<open>Data\<close>

datatype media_status =
    Ms_prepared | Ms_awaiting | Ms_uploading | Ms_selected | Ms_attached | Ms_verified | Ms_detaching
  | Ms_rolling_back | Ms_released | Ms_rejected | Ms_cleanup | Ms_unsupported

text \<open>
  The exceptions: a refused preflight, an ambiguous and a definite failure of the adapter, those that are an
  \<open>OSError\<close> or a \<open>RuntimeError\<close>, and others, the last two with the name of their class.
\<close>

datatype media_exn =
    Mx_preflight pystr
  | Mx_ambiguous pystr
  | Mx_definite pystr
  | Mx_os pystr pystr
  | Mx_other pystr pystr

record media_txn =
  mx_id :: pystr
  mx_status :: media_status
  mx_approval :: pystr
  mx_purpose :: pystr
  mx_session :: pystr
  mx_fingerprint :: pystr
  mx_epoch :: int
  mx_adapter :: pystr
  mx_name :: pystr
  mx_sha256 :: pystr
  mx_bytes :: int
  mx_lease :: rat
  mx_attached :: "rat option"
  mx_released :: "rat option"
  mx_failure :: "pystr option"
  mx_cleanup :: "pystr option"

record media_request =
  mq_purpose :: pystr
  mq_fingerprint :: pystr
  mq_epoch :: int
  mq_name :: pystr
  mq_lease :: rat

text \<open>A receipt names an image file; \<open>mp_file\<close> is its size and digest, when it exists.\<close>

record media_receipt =
  mp_file :: "(int \<times> pystr) option"
  mp_sha256 :: pystr
  mp_has_files :: bool

record media_target =
  mg_adapter :: pystr
  mg_supported :: bool
  mg_reason :: "pystr option"
  mg_fingerprint :: pystr
  mg_epoch :: int
  mg_online :: bool
  mg_busy :: bool
  mg_connected :: bool
  mg_selected :: "pystr option"
  mg_images :: "pystr list"
  mg_free :: "int option"

datatype media_call =
    Mc_upload pystr pystr
  | Mc_select pystr "pystr option"
  | Mc_connect pystr
  | Mc_disconnect pystr
  | Mc_remove pystr pystr

record media_run =
  mr_run :: run_snapshot
  mr_media :: "media_txn option"

record 'w media_world =
  mw_inspect :: "pystr \<Rightarrow> 'w \<Rightarrow> (media_exn, media_target) result \<times> 'w"
  mw_call :: "media_call \<Rightarrow> 'w \<Rightarrow> media_exn option \<times> 'w"
  mw_save :: "'w \<Rightarrow> bool \<times> 'w"
  mw_now :: "'w \<Rightarrow> rat \<times> 'w"

text \<open>
  \<open>ms_run\<close> is the run an operation works on, \<open>ms_saved\<close> the durable one; \<open>ms_calls\<close> lists the mutating
  calls, each with the run that was durable when it was made.
\<close>

record 'w media_state =
  ms_run :: media_run
  ms_saved :: media_run
  ms_artifacts :: "pystr list"
  ms_world :: 'w
  ms_calls :: "(media_call \<times> media_run) list"

subsection \<open>Requests and receipts\<close>

text \<open>\<open>[A-Za-z0-9]\<close> and the like, ignoring case: the four letters that fold into ASCII match too.\<close>

definition name_letter :: "int \<Rightarrow> bool" where
  "name_letter c \<longleftrightarrow> in_range 65 90 c \<or> in_range 97 122 c \<or> in_range 48 57 c \<or> c \<in> {304, 305, 383, 8490}"

definition name_char :: "int \<Rightarrow> bool" where
  "name_char c \<longleftrightarrow> name_letter c \<or> c \<in> {45, 46, 95}"

definition safe_media_image_name :: rx where
  "safe_media_image_name = rx_cat [Chr name_letter, times_mn 0 98 (Chr name_char), Chr (\<lambda>c. c = 46),
     Chr (\<lambda>c. c \<in> {73, 105, 304, 305}), Chr (\<lambda>c. c \<in> {83, 115, 383}), Chr (\<lambda>c. c \<in> {79, 111})]"

definition request_ok :: "media_request \<Rightarrow> bool" where
  "request_ok q \<longleftrightarrow> 1 \<le> length (mq_purpose q) \<and> length (mq_purpose q) \<le> 500
     \<and> 1 \<le> length (mq_fingerprint q) \<and> length (mq_fingerprint q) \<le> 500 \<and> 0 \<le> mq_epoch q
     \<and> 5 \<le> length (mq_name q) \<and> length (mq_name q) \<le> 103 \<and> rx_fullmatch safe_media_image_name (mq_name q)
     \<and> 30 \<le> mq_lease q \<and> mq_lease q \<le> 86400"

text \<open>\<open>secrets.compare_digest\<close> takes strings of ASCII characters only.\<close>

definition compare_digest :: "pystr \<Rightarrow> pystr \<Rightarrow> (media_exn, bool) result" where
  "compare_digest a b =
     (if list_all (\<lambda>c. c < 128) (a @ b) then Inr (a = b)
      else Inl (Mx_other (u ''TypeError'') (u ''comparing strings with non-ASCII characters is not supported'')))"

definition value_error :: "string \<Rightarrow> media_exn" where
  "value_error s = Mx_other (u ''ValueError'') (u s)"

definition validate_receipt :: "media_receipt \<Rightarrow> (media_exn, int) result" where
  "validate_receipt p = (case mp_file p of
       None \<Rightarrow> Inl (value_error ''prepared media image does not exist'')
     | Some (bytes, digest) \<Rightarrow>
         if bytes < 1 then Inl (value_error ''prepared media image is empty'')
         else bind_result (compare_digest digest (mp_sha256 p)) (\<lambda>same.
           if \<not> same then Inl (value_error ''prepared media image hash does not match receipt'')
           else if \<not> mp_has_files p then Inl (value_error ''prepared media receipt has no guest files'')
           else Inr bytes))"

definition validate_run_target :: "run_snapshot \<Rightarrow> media_request \<Rightarrow> (media_exn, unit) result" where
  "validate_run_target r q = (case ru_observation r of
       None \<Rightarrow> Inl (value_error ''run has no observed target'')
     | Some ob \<Rightarrow>
         (let f = str_or_empty (get_none (ob_machine ob) (u ''fingerprint''));
              mismatch = Inl (value_error ''media request does not match the run target'')
          in if f = [] then mismatch
             else bind_result (compare_digest f (mq_fingerprint q)) (\<lambda>same.
               if \<not> same \<or> ob_epoch ob \<noteq> PInt (mq_epoch q) then mismatch else Inr ())))"

text \<open>Whether one of the images has the name, up to case; the comparison may raise.\<close>

fun name_taken :: "pystr list \<Rightarrow> pystr \<Rightarrow> (media_exn, bool) result" where
  "name_taken [] name = Inr False"
| "name_taken (i # is) name = bind_result (compare_digest (py_casefold i) (py_casefold name))
     (\<lambda>same. if same then Inr True else name_taken is name)"

definition validate_preflight :: "media_target \<Rightarrow> pystr \<Rightarrow> int \<Rightarrow> pystr \<Rightarrow> int \<Rightarrow> (media_exn, unit) result" where
  "validate_preflight g fingerprint epoch name bytes =
     (if \<not> mg_supported g
      then Inl (Mx_preflight (case mg_reason g of
                  Some (x # xs) \<Rightarrow> x # xs | _ \<Rightarrow> mg_adapter g @ u '' does not support exact-byte media''))
      else if mg_fingerprint g \<noteq> fingerprint \<or> mg_epoch g \<noteq> epoch
      then Inl (Mx_preflight (u ''target identity changed before media mutation''))
      else if \<not> mg_online g then Inl (Mx_preflight (u ''target mass-storage drive is offline''))
      else if mg_busy g then Inl (Mx_preflight (u ''target mass-storage drive is busy''))
      else if mg_connected g then Inl (Mx_preflight (u ''target mass-storage drive is already connected''))
      else if mg_selected g \<noteq> None then Inl (Mx_preflight (u ''target mass-storage drive already has selected media''))
      else bind_result (name_taken (mg_images g) name) (\<lambda>taken.
        if taken then Inl (Mx_preflight (u ''target already contains the requested media name''))
        else case mg_free g of
          Some n \<Rightarrow> if n < bytes then Inl (Mx_preflight (u ''target has insufficient mass-storage capacity'')) else Inr ()
        | None \<Rightarrow> Inr ()))"

subsection \<open>Operations of the coordinator\<close>

type_synonym ('a, 'w) media_op = "'w media_state \<Rightarrow> (media_exn, 'a) result \<times> 'w media_state"

definition media_return :: "'a \<Rightarrow> ('a, 'w) media_op" where "media_return x s = (Inr x, s)"

definition media_raise :: "media_exn \<Rightarrow> ('a, 'w) media_op" where "media_raise e s = (Inl e, s)"

definition media_lift :: "(media_exn, 'a) result \<Rightarrow> ('a, 'w) media_op" where "media_lift r s = (r, s)"

definition media_bind :: "('a, 'w) media_op \<Rightarrow> ('a \<Rightarrow> ('b, 'w) media_op) \<Rightarrow> ('b, 'w) media_op" where
  "media_bind m f s = (case m s of (Inl e, s') \<Rightarrow> (Inl e, s') | (Inr x, s') \<Rightarrow> f x s')"

fun media_seq :: "(unit, 'w) media_op list \<Rightarrow> (unit, 'w) media_op" where
  "media_seq [] s = (Inr (), s)"
| "media_seq (m # ms) s = (case m s of (Inl e, s') \<Rightarrow> (Inl e, s') | (Inr _, s') \<Rightarrow> media_seq ms s')"

text \<open>\<open>try: m except: h\<close>, and the answer with the run as it then is.\<close>

definition media_catch :: "('a, 'w) media_op \<Rightarrow> (media_exn \<Rightarrow> ('a, 'w) media_op) \<Rightarrow> ('a, 'w) media_op" where
  "media_catch m h s = (case m s of (Inl e, s') \<Rightarrow> h e s' | (Inr x, s') \<Rightarrow> (Inr x, s'))"

definition edit_run :: "(media_run \<Rightarrow> media_run) \<Rightarrow> (unit, 'w) media_op" where
  "edit_run f s = (Inr (), s\<lparr>ms_run := f (ms_run s)\<rparr>)"

definition edit_snapshot :: "(run_snapshot \<Rightarrow> run_snapshot) \<Rightarrow> (unit, 'w) media_op" where
  "edit_snapshot f = edit_run (\<lambda>r. r\<lparr>mr_run := f (mr_run r)\<rparr>)"

definition edit_media :: "(media_txn \<Rightarrow> media_txn) \<Rightarrow> (unit, 'w) media_op" where
  "edit_media f = edit_run (\<lambda>r. r\<lparr>mr_media := map_option f (mr_media r)\<rparr>)"

definition log_event :: "int \<Rightarrow> string \<Rightarrow> pydict \<Rightarrow> (unit, 'w) media_op" where
  "log_event t kind d = edit_snapshot (record_event kind d t)"

definition load_media :: "(media_run, 'w) media_op" where
  "load_media s = (let r = ms_saved s; r' = r\<lparr>mr_run := (mr_run r)\<lparr>ru_events := []\<rparr>\<rparr> in (Inr r', s\<lparr>ms_run := r'\<rparr>))"

definition save_media :: "'w media_world \<Rightarrow> (unit, 'w) media_op" where
  "save_media W s = (case mw_save W (ms_world s) of (ok, w) \<Rightarrow>
     if ok then (Inr (), s\<lparr>ms_saved := ms_run s, ms_world := w\<rparr>)
     else (Inl (Mx_other (u ''StoreError'') []), s\<lparr>ms_world := w\<rparr>))"

definition inspect_target :: "'w media_world \<Rightarrow> pystr \<Rightarrow> (media_target, 'w) media_op" where
  "inspect_target W session s = (case mw_inspect W session (ms_world s) of (g, w) \<Rightarrow> (g, s\<lparr>ms_world := w\<rparr>))"

definition send_call :: "'w media_world \<Rightarrow> media_call \<Rightarrow> (unit, 'w) media_op" where
  "send_call W c s = (case mw_call W c (ms_world s) of (e, w) \<Rightarrow>
     ((case e of None \<Rightarrow> Inr () | Some e \<Rightarrow> Inl e), s\<lparr>ms_calls := ms_calls s @ [(c, ms_saved s)], ms_world := w\<rparr>))"

definition read_clock :: "'w media_world \<Rightarrow> (rat, 'w) media_op" where
  "read_clock W s = (case mw_now W (ms_world s) of (q, w) \<Rightarrow> (Inr q, s\<lparr>ms_world := w\<rparr>))"

definition stage_file :: "pystr \<Rightarrow> (unit, 'w) media_op" where
  "stage_file i s =
     (if i \<in> set (ms_artifacts s) then (Inl (Mx_os (u ''FileExistsError'') (u ''prepared media already exists for '' @ i)), s)
      else (Inr (), s\<lparr>ms_artifacts := i # ms_artifacts s\<rparr>))"

definition file_path :: "pystr \<Rightarrow> (unit, 'w) media_op" where
  "file_path i s =
     (if i \<in> set (ms_artifacts s) then (Inr (), s)
      else (Inl (Mx_os (u ''FileNotFoundError'') (u ''prepared media is unavailable for '' @ i)), s))"

definition remove_file :: "pystr \<Rightarrow> (unit, 'w) media_op" where
  "remove_file i s = (Inr (), s\<lparr>ms_artifacts := removeAll i (ms_artifacts s)\<rparr>)"

subsection \<open>Steps with proof\<close>

definition require_identity :: "media_txn \<Rightarrow> media_target \<Rightarrow> (media_exn, unit) result" where
  "require_identity x g =
     (if mg_fingerprint g \<noteq> mx_fingerprint x \<or> mg_epoch g \<noteq> mx_epoch x
      then Inl (Mx_ambiguous (u ''target identity changed during virtual media transaction'')) else Inr ())"

text \<open>Look at the target: it must still be the same machine and satisfy \<open>ok\<close>.\<close>

definition inspect_own :: "'w media_world \<Rightarrow> media_txn \<Rightarrow> (media_target \<Rightarrow> bool) \<Rightarrow> string \<Rightarrow> (media_target, 'w) media_op" where
  "inspect_own W x ok why = media_bind (inspect_target W (mx_session x)) (\<lambda>g.
     media_bind (media_lift (require_identity x g)) (\<lambda>_.
       if ok g then media_return g else media_raise (Mx_ambiguous (u why))))"

definition prove_call :: "'w media_world \<Rightarrow> media_txn \<Rightarrow> media_call \<Rightarrow> (media_target \<Rightarrow> bool) \<Rightarrow> string \<Rightarrow> (media_target, 'w) media_op" where
  "prove_call W x c ok why = media_bind (send_call W c) (\<lambda>_. inspect_own W x ok why)"

definition drop_result :: "('a, 'w) media_op \<Rightarrow> (unit, 'w) media_op" where
  "drop_result m = media_bind m (\<lambda>_. media_return ())"

definition txn_fields :: "media_txn \<Rightarrow> pydict" where
  "txn_fields x = [(u ''transaction_id'', PStr (mx_id x)), (u ''media_name'', PStr (mx_name x))]"

definition set_status :: "media_status \<Rightarrow> media_txn \<Rightarrow> media_txn" where
  "set_status st x = x\<lparr>mx_status := st\<rparr>"

definition exn_text :: "media_exn \<Rightarrow> pystr" where
  "exn_text e = (case e of Mx_preflight m \<Rightarrow> m | Mx_ambiguous m \<Rightarrow> m | Mx_definite m \<Rightarrow> m | Mx_os _ m \<Rightarrow> m | Mx_other _ m \<Rightarrow> m)"

definition exn_class :: "media_exn \<Rightarrow> pystr" where
  "exn_class e = (case e of Mx_preflight _ \<Rightarrow> u ''MediaPreflightError'' | Mx_ambiguous _ \<Rightarrow> u ''MediaMutationAmbiguousError''
     | Mx_definite _ \<Rightarrow> u ''MediaMutationDefiniteError'' | Mx_os n _ \<Rightarrow> n | Mx_other n _ \<Rightarrow> n)"

definition exn_named :: "media_exn \<Rightarrow> pystr" where
  "exn_named e = exn_class e @ u '': '' @ exn_text e"

subsection \<open>Ending a transaction\<close>

definition block_run :: "pystr \<Rightarrow> run_snapshot \<Rightarrow> run_snapshot" where
  "block_run e r = r\<lparr>ru_status := Rs_blocked, ru_error := Some e\<rparr>"

definition clear_approval :: "run_snapshot \<Rightarrow> run_snapshot" where
  "clear_approval r = r\<lparr>ru_approval := None\<rparr>"

definition latch_cleanup :: "'w media_world \<Rightarrow> int \<Rightarrow> media_txn \<Rightarrow> pystr \<Rightarrow> (unit, 'w) media_op" where
  "latch_cleanup W t x reason = media_seq
     [edit_media (\<lambda>x. x\<lparr>mx_status := Ms_cleanup, mx_cleanup := Some (take 500 reason)\<rparr>),
      edit_snapshot clear_approval,
      edit_snapshot (block_run (u ''virtual media outcome is uncertain; cleanup required'')),
      log_event t ''media.cleanup_required'' (txn_fields x @ [(u ''reason'', PStr (take 500 reason))]),
      save_media W]"

definition refuse_attach :: "'w media_world \<Rightarrow> int \<Rightarrow> media_txn \<Rightarrow> pystr \<Rightarrow> (unit, 'w) media_op" where
  "refuse_attach W t x reason = media_seq
     [edit_media (\<lambda>x. x\<lparr>mx_status := Ms_rejected, mx_failure := Some (take 500 reason)\<rparr>),
      edit_snapshot clear_approval,
      edit_snapshot (block_run (u ''virtual media attach refused before upload: '' @ reason)),
      log_event t ''media.preflight_refused'' (txn_fields x @ [(u ''reason'', PStr (take 500 reason))]),
      save_media W,
      remove_file (mx_id x)]"

text \<open>The steps of the rollback: each only when the last look at the target asks for it.\<close>

definition rollback_disconnect :: "'w media_world \<Rightarrow> int \<Rightarrow> media_txn \<Rightarrow> media_target \<Rightarrow> (media_target, 'w) media_op" where
  "rollback_disconnect W t x g =
     (if mg_connected g
      then media_bind (media_seq [log_event t ''media.rollback_disconnect_started'' [(u ''transaction_id'', PStr (mx_id x))], save_media W])
             (\<lambda>_. prove_call W x (Mc_disconnect (mx_session x)) (\<lambda>g. \<not> mg_connected g) ''rollback disconnect was not confirmed'')
      else media_return g)"

definition rollback_clear :: "'w media_world \<Rightarrow> int \<Rightarrow> media_txn \<Rightarrow> media_target \<Rightarrow> (media_target, 'w) media_op" where
  "rollback_clear W t x g =
     (if mg_selected g \<notin> {None, Some (mx_name x)}
      then media_raise (Mx_ambiguous (u ''rollback found unrelated selected media''))
      else if mg_selected g = Some (mx_name x)
      then media_bind (media_seq [log_event t ''media.rollback_selection_clear_started'' [(u ''transaction_id'', PStr (mx_id x))], save_media W])
             (\<lambda>_. prove_call W x (Mc_select (mx_session x) None) (\<lambda>g. mg_selected g = None) ''rollback selection clear was not confirmed'')
      else media_return g)"

definition rollback_remove :: "'w media_world \<Rightarrow> int \<Rightarrow> media_txn \<Rightarrow> media_target \<Rightarrow> (media_target, 'w) media_op" where
  "rollback_remove W t x g =
     (if mx_name x \<in> set (mg_images g)
      then media_bind (media_seq [log_event t ''media.rollback_remove_started'' (txn_fields x), save_media W])
             (\<lambda>_. prove_call W x (Mc_remove (mx_session x) (mx_name x)) (\<lambda>g. mx_name x \<notin> set (mg_images g))
                    ''rollback image removal was not confirmed'')
      else media_return g)"

definition rollback_steps :: "'w media_world \<Rightarrow> int \<Rightarrow> media_txn \<Rightarrow> (unit, 'w) media_op" where
  "rollback_steps W t x = drop_result (media_bind
     (inspect_own W x (\<lambda>g. mg_connected g \<longrightarrow> mg_selected g = Some (mx_name x)) ''rollback found unrelated connected media'')
     (\<lambda>g. media_bind (rollback_disconnect W t x g)
       (\<lambda>g. media_bind (rollback_clear W t x g) (rollback_remove W t x))))"

definition rollback_confirmed :: "'w media_world \<Rightarrow> int \<Rightarrow> media_txn \<Rightarrow> pystr \<Rightarrow> rat \<Rightarrow> (unit, 'w) media_op" where
  "rollback_confirmed W t x reason now = media_seq
     [edit_media (\<lambda>x. x\<lparr>mx_status := Ms_released, mx_released := Some now\<rparr>),
      edit_snapshot (block_run (u ''virtual media attach failed; rollback was confirmed'')),
      log_event t ''media.rollback_confirmed'' (txn_fields x @ [(u ''reason'', PStr (take 500 reason))]),
      save_media W,
      remove_file (mx_id x)]"

definition rollback :: "'w media_world \<Rightarrow> int \<Rightarrow> media_txn \<Rightarrow> pystr \<Rightarrow> (unit, 'w) media_op" where
  "rollback W t x reason = media_bind
     (media_seq
       [edit_media (\<lambda>x. x\<lparr>mx_status := Ms_rolling_back, mx_failure := Some (take 500 reason)\<rparr>),
        log_event t ''media.rollback_started'' (txn_fields x @ [(u ''reason'', PStr (take 500 reason))]),
        save_media W])
     (\<lambda>_ s. case rollback_steps W t x s of
        (Inl e, s') \<Rightarrow> latch_cleanup W t x (u ''rollback could not be proven: '' @ exn_named e) s'
      | (Inr _, s') \<Rightarrow> media_bind (read_clock W) (rollback_confirmed W t x reason) s')"

subsection \<open>Attaching\<close>

definition check_target :: "'w media_world \<Rightarrow> media_txn \<Rightarrow> (unit, 'w) media_op" where
  "check_target W x = media_bind
     (media_catch (inspect_target W (mx_session x))
       (\<lambda>e. media_raise (Mx_preflight (u ''target inspection failed before upload: '' @ exn_class e))))
     (\<lambda>g. media_lift (validate_preflight g (mx_fingerprint x) (mx_epoch x) (mx_name x) (mx_bytes x)))"

definition check_lease :: "'w media_world \<Rightarrow> media_txn \<Rightarrow> (unit, 'w) media_op" where
  "check_lease W x = media_bind (read_clock W)
     (\<lambda>now. if mx_lease x \<le> now then media_raise (Mx_preflight (u ''attach lease expired before upload'')) else media_return ())"

definition mark_attached :: "'w media_world \<Rightarrow> (unit, 'w) media_op" where
  "mark_attached W = media_bind (read_clock W)
     (\<lambda>now. edit_media (\<lambda>x. x\<lparr>mx_status := Ms_attached, mx_attached := Some now\<rparr>))"

definition upload_steps :: "'w media_world \<Rightarrow> int \<Rightarrow> media_txn \<Rightarrow> (unit, 'w) media_op list" where
  "upload_steps W t x =
     [edit_media (set_status Ms_uploading), edit_snapshot (\<lambda>r. r\<lparr>ru_status := Rs_paused\<rparr>),
      log_event t ''media.upload_started'' (txn_fields x @ [(u ''image_bytes'', PInt (mx_bytes x))]), save_media W,
      file_path (mx_id x),
      drop_result (prove_call W x (Mc_upload (mx_session x) (mx_name x)) (\<lambda>g. mx_name x \<in> set (mg_images g))
        ''upload returned without a matching target image''),
      log_event t ''media.upload_verified'' (txn_fields x), save_media W]"

definition select_steps :: "'w media_world \<Rightarrow> int \<Rightarrow> media_txn \<Rightarrow> (unit, 'w) media_op list" where
  "select_steps W t x =
     [log_event t ''media.select_started'' (txn_fields x @ [(u ''read_only'', PBool True)]), save_media W,
      drop_result (prove_call W x (Mc_select (mx_session x) (Some (mx_name x))) (\<lambda>g. mg_selected g = Some (mx_name x))
        ''select returned without the expected selected image''),
      edit_media (set_status Ms_selected),
      log_event t ''media.select_verified'' (txn_fields x @ [(u ''read_only'', PBool True)]), save_media W]"

definition connect_steps :: "'w media_world \<Rightarrow> int \<Rightarrow> media_txn \<Rightarrow> (unit, 'w) media_op list" where
  "connect_steps W t x =
     [log_event t ''media.attach_started'' (txn_fields x), save_media W,
      drop_result (prove_call W x (Mc_connect (mx_session x)) (\<lambda>g. mg_connected g \<and> mg_selected g = Some (mx_name x))
        ''connect returned without the expected attached image''),
      mark_attached W,
      log_event t ''media.attached'' (txn_fields x), save_media W]"

definition attach :: "'w media_world \<Rightarrow> int \<Rightarrow> media_txn \<Rightarrow> (unit, 'w) media_op" where
  "attach W t x = media_seq
     ([check_target W x, check_lease W x] @ upload_steps W t x @ select_steps W t x @ connect_steps W t x)"

subsection \<open>Approvals\<close>

definition pending_transaction :: "media_run \<Rightarrow> pystr \<Rightarrow> (media_exn, media_txn) result" where
  "pending_transaction r approval = (case mr_media r of
       None \<Rightarrow> Inl (value_error ''run has no pending virtual media approval'')
     | Some x \<Rightarrow>
         if mx_status x \<noteq> Ms_awaiting then Inl (value_error ''run has no pending virtual media approval'')
         else (let expected = str_or_empty (get_none (case ru_approval (mr_run r) of None \<Rightarrow> [] | Some d \<Rightarrow> d) (u ''approval_id''));
                   mismatch = Inl (value_error ''approval id does not match the pending transaction'')
               in if expected = [] then mismatch
                  else bind_result (compare_digest expected approval) (\<lambda>same.
                    if \<not> same then mismatch
                    else bind_result (compare_digest (mx_approval x) approval) (\<lambda>same.
                      if \<not> same then mismatch else Inr x))))"

definition approval_note :: "pystr \<Rightarrow> pydict \<Rightarrow> pydict" where
  "approval_note approval decision = [(u ''approval_id'', PStr approval),
     (u ''reason'', PStr (take 500 (str_or_empty (get_none decision (u ''reason'')))))]"

definition reject_attach :: "'w media_world \<Rightarrow> int \<Rightarrow> media_txn \<Rightarrow> pystr \<Rightarrow> pydict \<Rightarrow> (unit, 'w) media_op" where
  "reject_attach W t x approval decision = media_seq
     [edit_media (set_status Ms_rejected), edit_snapshot (\<lambda>r. clear_approval (r\<lparr>ru_status := Rs_paused\<rparr>)),
      log_event t ''approval.not_approved'' (approval_note approval decision),
      log_event t ''media.rejected'' [(u ''transaction_id'', PStr (mx_id x)),
        (u ''reason'', PStr (take 500 (str_or_empty (get_none decision (u ''reason'')))))],
      save_media W, remove_file (mx_id x)]"

definition attach_failed :: "'w media_world \<Rightarrow> int \<Rightarrow> media_txn \<Rightarrow> media_exn \<Rightarrow> (unit, 'w) media_op" where
  "attach_failed W t x e = (case e of
       Mx_preflight m \<Rightarrow> refuse_attach W t x m
     | Mx_ambiguous m \<Rightarrow> latch_cleanup W t x m
     | Mx_definite m \<Rightarrow> rollback W t x m
     | _ \<Rightarrow> latch_cleanup W t x (exn_named e))"

definition decide_attach :: "'w media_world \<Rightarrow> int \<Rightarrow> pystr \<Rightarrow> pydict \<Rightarrow> media_txn \<Rightarrow> (unit, 'w) media_op" where
  "decide_attach W t approval decision x =
     (let kind = str_or_empty (get_none decision (u ''type''))
      in if kind \<notin> {u ''approve'', u ''reject''} then media_raise (value_error ''approval decision must be approve or reject'')
         else if kind = u ''reject'' then reject_attach W t x approval decision
         else media_seq [edit_snapshot clear_approval, log_event t ''approval.approved'' (approval_note approval decision),
                media_catch (attach W t x) (attach_failed W t x)])"

definition resolve_media :: "'w media_world \<Rightarrow> int \<Rightarrow> pystr \<Rightarrow> pydict \<Rightarrow> (unit, 'w) media_op" where
  "resolve_media W t approval decision = media_bind load_media (\<lambda>r.
     media_bind (media_lift (pending_transaction r approval)) (decide_attach W t approval decision))"

subsection \<open>Releasing\<close>

definition mark_released :: "'w media_world \<Rightarrow> (unit, 'w) media_op" where
  "mark_released W = media_bind (read_clock W)
     (\<lambda>now. edit_media (\<lambda>x. x\<lparr>mx_status := Ms_released, mx_released := Some now\<rparr>))"

definition release_steps :: "'w media_world \<Rightarrow> int \<Rightarrow> media_txn \<Rightarrow> pystr \<Rightarrow> (unit, 'w) media_op list" where
  "release_steps W t x reason =
     [drop_result (inspect_own W x (\<lambda>g. mg_connected g \<and> mg_selected g = Some (mx_name x)) ''attached media state changed before release''),
      edit_media (set_status Ms_detaching),
      log_event t ''media.detach_started'' (txn_fields x @ [(u ''reason'', PStr (take 500 reason))]), save_media W,
      drop_result (prove_call W x (Mc_disconnect (mx_session x)) (\<lambda>g. \<not> mg_connected g)
        ''disconnect returned while media remained connected''),
      log_event t ''media.detach_verified'' (txn_fields x), save_media W,
      log_event t ''media.selection_clear_started'' (txn_fields x), save_media W,
      drop_result (prove_call W x (Mc_select (mx_session x) None) (\<lambda>g. mg_selected g = None)
        ''selection clear returned while media remained selected''),
      log_event t ''media.selection_clear_verified'' (txn_fields x), save_media W,
      log_event t ''media.remove_started'' (txn_fields x), save_media W,
      drop_result (prove_call W x (Mc_remove (mx_session x) (mx_name x)) (\<lambda>g. mx_name x \<notin> set (mg_images g))
        ''remove returned while media image remained present''),
      mark_released W,
      log_event t ''media.released'' (txn_fields x), save_media W, remove_file (mx_id x)]"

definition release_failed :: "'w media_world \<Rightarrow> int \<Rightarrow> media_txn \<Rightarrow> media_exn \<Rightarrow> (unit, 'w) media_op" where
  "release_failed W t x e = latch_cleanup W t x (case e of Mx_ambiguous m \<Rightarrow> m | _ \<Rightarrow> exn_named e)"

definition releasable :: "media_run \<Rightarrow> (media_exn, media_txn) result" where
  "releasable r = (case mr_media r of
       None \<Rightarrow> Inl (value_error ''run has no virtual media transaction'')
     | Some x \<Rightarrow> if mx_status x \<in> {Ms_attached, Ms_verified} then Inr x
                 else Inl (value_error ''virtual media is not in a safely releasable state''))"

definition release_media :: "'w media_world \<Rightarrow> int \<Rightarrow> pystr \<Rightarrow> (unit, 'w) media_op" where
  "release_media W t reason = media_bind load_media (\<lambda>r. media_bind (media_lift (releasable r))
     (\<lambda>x. media_catch (media_seq (release_steps W t x reason)) (release_failed W t x)))"

text \<open>\<open>release_expired\<close> for one of the listed runs.\<close>

definition release_if_expired :: "'w media_world \<Rightarrow> int \<Rightarrow> (unit, 'w) media_op" where
  "release_if_expired W t = media_bind load_media (\<lambda>r. case mr_media r of
       None \<Rightarrow> media_return ()
     | Some x \<Rightarrow>
         if mx_status x \<notin> {Ms_attached, Ms_verified} then media_return ()
         else media_bind (read_clock W) (\<lambda>now.
           if now < mx_lease x then media_return () else release_media W t (u ''attach lease expired'')))"

subsection \<open>Staging\<close>

definition preflight_failed :: "'w media_world \<Rightarrow> int \<Rightarrow> media_request \<Rightarrow> pystr \<Rightarrow> media_exn \<Rightarrow> ('a, 'w) media_op" where
  "preflight_failed W t q adapter e = (case e of
       Mx_other _ _ \<Rightarrow> media_raise e
     | _ \<Rightarrow> (let reason = take 500 (exn_text e) in media_bind
         (media_seq
           [edit_snapshot (block_run (u ''virtual media preflight refused: '' @ reason)),
            log_event t (if py_in (u ''does not support'') reason then ''media.unsupported'' else ''media.preflight_refused'')
              [(u ''adapter'', PStr adapter), (u ''reason'', PStr reason),
               (u ''machine_fingerprint'', PStr (mq_fingerprint q)), (u ''control_epoch'', PInt (mq_epoch q))],
            save_media W])
         (\<lambda>_. media_raise (Mx_other (u ''ValueError'') reason))))"

definition stage_target :: "'w media_world \<Rightarrow> int \<Rightarrow> media_request \<Rightarrow> int \<Rightarrow> pystr option \<Rightarrow> (pystr \<times> media_target, 'w) media_op" where
  "stage_target W t q bytes session = (case session of
       None \<Rightarrow> preflight_failed W t q (u ''unavailable'') (Mx_preflight (u ''run has no active computer session''))
     | Some v \<Rightarrow> media_bind (media_catch (inspect_target W v) (preflight_failed W t q (u ''unavailable'')))
         (\<lambda>g. media_catch
            (media_bind (media_lift (validate_preflight g (mq_fingerprint q) (mq_epoch q) (mq_name q) bytes)) (\<lambda>_. media_return (v, g)))
            (preflight_failed W t q (mg_adapter g))))"

definition new_transaction ::
  "pystr \<Rightarrow> pystr \<Rightarrow> media_request \<Rightarrow> media_receipt \<Rightarrow> int \<Rightarrow> pystr \<Rightarrow> media_target \<Rightarrow> rat \<Rightarrow> media_txn" where
  "new_transaction i approval q p bytes session g now =
     \<lparr>mx_id = i, mx_status = Ms_prepared, mx_approval = approval, mx_purpose = mq_purpose q, mx_session = session,
      mx_fingerprint = mq_fingerprint q, mx_epoch = mq_epoch q, mx_adapter = mg_adapter g, mx_name = mq_name q,
      mx_sha256 = mp_sha256 p, mx_bytes = bytes, mx_lease = now + mq_lease q, mx_attached = None, mx_released = None,
      mx_failure = None, mx_cleanup = None\<rparr>"

text \<open>
  What the record of a transaction accepts; its image name is shorter than the one a request may have. The list of
  guest files and its digest are left out.
\<close>

definition is_sha256 :: "pystr \<Rightarrow> bool" where
  "is_sha256 v \<longleftrightarrow> length v = 64 \<and> list_all (\<lambda>c. in_range 48 57 c \<or> in_range 97 102 c) v"

definition text_within :: "nat \<Rightarrow> pystr \<Rightarrow> bool" where
  "text_within n v \<longleftrightarrow> 1 \<le> length v \<and> length v \<le> n"

definition txn_ok :: "media_txn \<Rightarrow> bool" where
  "txn_ok x \<longleftrightarrow> text_within 100 (mx_id x) \<and> text_within 100 (mx_approval x) \<and> text_within 500 (mx_purpose x)
     \<and> text_within 200 (mx_session x) \<and> text_within 500 (mx_fingerprint x) \<and> 0 \<le> mx_epoch x
     \<and> text_within 100 (mx_adapter x) \<and> text_within 100 (mx_name x) \<and> is_sha256 (mx_sha256 x) \<and> 1 \<le> mx_bytes x"

definition media_approval_request :: "run_snapshot \<Rightarrow> media_txn \<Rightarrow> pydict" where
  "media_approval_request r x =
     [(u ''approval_id'', PStr (mx_approval x)), (u ''kind'', PStr (u ''virtual_media_attach'')),
      (u ''transaction_id'', PStr (mx_id x)), (u ''session_id'', PStr (mx_session x)),
      (u ''risk'', PStr (u ''external_file_upload'')), (u ''reason'', PStr (mx_purpose x)),
      (u ''machine'', PDict (case ru_observation r of None \<Rightarrow> [] | Some ob \<Rightarrow> ob_machine ob)),
      (u ''control_epoch'', PInt (mx_epoch x)), (u ''media_name'', PStr (mx_name x)),
      (u ''image_sha256'', PStr (mx_sha256 x)), (u ''image_bytes'', PInt (mx_bytes x)), (u ''read_only'', PBool True)]"

definition open_transaction :: "'w media_world \<Rightarrow> int \<Rightarrow> media_txn \<Rightarrow> (unit, 'w) media_op" where
  "open_transaction W t x = media_seq
     [edit_run (\<lambda>r. r\<lparr>mr_media := Some x\<rparr>),
      log_event t ''media.prepared'' (txn_fields x @ [(u ''image_sha256'', PStr (mx_sha256 x)), (u ''image_bytes'', PInt (mx_bytes x)),
        (u ''machine_fingerprint'', PStr (mx_fingerprint x)), (u ''control_epoch'', PInt (mx_epoch x))]),
      save_media W,
      edit_media (set_status Ms_awaiting),
      edit_snapshot (\<lambda>r. r\<lparr>ru_status := Rs_needs_approval, ru_approval := Some (media_approval_request r x)\<rparr>),
      log_event t ''media.awaiting_approval'' [(u ''transaction_id'', PStr (mx_id x)), (u ''approval_id'', PStr (mx_approval x))],
      log_event t ''approval.required'' [(u ''approval_id'', PStr (mx_approval x)), (u ''risk'', PStr (u ''external_file_upload'')),
        (u ''approval_kind'', PStr (u ''virtual_media_attach''))],
      save_media W]"

definition open_checked :: "'w media_world \<Rightarrow> int \<Rightarrow> media_txn \<Rightarrow> (unit, 'w) media_op" where
  "open_checked W t x = (if txn_ok x then open_transaction W t x else media_raise (Mx_other (u ''ValidationError'') []))"

definition stage_media ::
  "'w media_world \<Rightarrow> int \<Rightarrow> pystr \<Rightarrow> pystr \<Rightarrow> media_request \<Rightarrow> media_receipt \<Rightarrow> (unit, 'w) media_op" where
  "stage_media W t i approval q p = media_bind load_media (\<lambda>r.
     if mr_media r \<noteq> None then media_raise (value_error ''run already owns a virtual media transaction'')
     else media_bind (media_lift (validate_receipt p)) (\<lambda>bytes.
       media_bind (media_lift (validate_run_target (mr_run r) q)) (\<lambda>_.
       media_bind (stage_target W t q bytes (ru_session (mr_run r))) (\<lambda>(session, g).
       media_bind (stage_file i) (\<lambda>_.
       media_bind (read_clock W) (\<lambda>now.
         open_checked W t (new_transaction i approval q p bytes session g now)))))))"

end
