(* ===== verification/MediaProps.thy ===== *)
theory MediaProps
  imports MediaTransaction
begin

text \<open>
  What the media coordinator promises. Operations are analysed by weakest preconditions, one rule for each
  primitive and one for each step with proof; what the adapter, the clock and the
  store answer is arbitrary.
\<close>

subsection \<open>Weakest preconditions\<close>

definition wp :: "('a, 'w) media_op \<Rightarrow> ('a \<Rightarrow> 'w media_state \<Rightarrow> bool) \<Rightarrow> (media_exn \<Rightarrow> 'w media_state \<Rightarrow> bool) \<Rightarrow> 'w media_state \<Rightarrow> bool" where
  "wp m Q E s = (case m s of (Inr x, s') \<Rightarrow> Q x s' | (Inl e, s') \<Rightarrow> E e s')"

named_theorems wp_simps

lemma wp_pure [wp_simps]:
  "wp (media_return x) Q E = Q x" "wp (media_raise e) Q E = E e"
  "wp (media_lift r) Q E s = (case r of Inr x \<Rightarrow> Q x s | Inl e \<Rightarrow> E e s)"
  by (auto simp: wp_def media_return_def media_raise_def media_lift_def split: sum.splits)

lemma wp_local [wp_simps]:
  "wp (edit_run f) Q E s = Q () (s\<lparr>ms_run := f (ms_run s)\<rparr>)"
  "wp (stage_file i) Q E s = (if i \<in> set (ms_artifacts s)
     then E (Mx_os (u ''FileExistsError'') (u ''prepared media already exists for '' @ i)) s
     else Q () (s\<lparr>ms_artifacts := i # ms_artifacts s\<rparr>))"
  "wp (file_path i) Q E s = (if i \<in> set (ms_artifacts s) then Q () s
     else E (Mx_os (u ''FileNotFoundError'') (u ''prepared media is unavailable for '' @ i)) s)"
  "wp (remove_file i) Q E s = Q () (s\<lparr>ms_artifacts := removeAll i (ms_artifacts s)\<rparr>)"
  by (auto simp: wp_def edit_run_def stage_file_def file_path_def remove_file_def)

lemma wp_bind [wp_simps]: "wp (media_bind m f) Q E s = wp m (\<lambda>x. wp (f x) Q E) E s"
  by (simp add: wp_def media_bind_def split: prod.split sum.split)

lemma wp_seq [wp_simps]: "wp (media_seq []) Q E s = Q () s" "wp (media_seq (m # ms)) Q E s = wp m (\<lambda>_. wp (media_seq ms) Q E) E s"
  by (simp_all add: wp_def split: prod.split sum.split)

lemma wp_append [wp_simps]: "wp (media_seq (ms @ ms')) Q E s = wp (media_seq ms) (\<lambda>_. wp (media_seq ms') Q E) E s"
  by (induction ms arbitrary: s) (simp_all add: wp_simps, simp add: wp_def split: prod.split sum.split)

lemma wp_catch [wp_simps]: "wp (media_catch m h) Q E s = wp m Q (\<lambda>e. wp (h e) Q E) s"
  by (simp add: wp_def media_catch_def split: prod.split sum.split)

lemma wp_if [wp_simps]: "wp (if b then m else n) Q E s = (if b then wp m Q E s else wp n Q E s)"
  by simp

lemma wp_edits [wp_simps]:
  "wp (edit_snapshot f) Q E s = Q () (s\<lparr>ms_run := (ms_run s)\<lparr>mr_run := f (mr_run (ms_run s))\<rparr>\<rparr>)"
  "wp (edit_media h) Q E s = Q () (s\<lparr>ms_run := (ms_run s)\<lparr>mr_media := map_option h (mr_media (ms_run s))\<rparr>\<rparr>)"
  "wp (log_event t k d) Q E s = Q () (s\<lparr>ms_run := (ms_run s)\<lparr>mr_run := record_event k d t (mr_run (ms_run s))\<rparr>\<rparr>)"
  by (simp_all add: edit_snapshot_def edit_media_def log_event_def wp_simps)

lemma wp_drop [wp_simps]: "wp (drop_result m) Q E s = wp m (\<lambda>_. Q ()) E s"
  by (simp add: drop_result_def wp_simps)

lemma wp_mono: "wp m Q E s \<Longrightarrow> (\<And>x s. Q x s \<Longrightarrow> Q' x s) \<Longrightarrow> (\<And>e s. E e s \<Longrightarrow> E' e s) \<Longrightarrow> wp m Q' E' s"
  by (auto simp: wp_def split: prod.splits sum.splits)

lemma wp_result: "wp m Q E s \<Longrightarrow> m s = (Inr x, s') \<Longrightarrow> Q x s'"
  by (simp add: wp_def)

lemma wp_any: "wp m (\<lambda>_. P) (\<lambda>_. P) s \<longleftrightarrow> P (snd (m s))"
  by (auto simp: wp_def split: prod.split sum.split)

subsection \<open>Calls and the durable record\<close>

definition waiting :: "media_status \<Rightarrow> bool" where
  "waiting st \<longleftrightarrow> st \<in> {Ms_prepared, Ms_awaiting}"

definition started_run :: "media_run \<Rightarrow> bool" where
  "started_run r = (case mr_media r of None \<Rightarrow> False | Some x \<Rightarrow> \<not> waiting (mx_status x))"

fun is_upload :: "media_call \<Rightarrow> bool" where
  "is_upload (Mc_upload _ _) = True"
| "is_upload _ = False"

definition upload_count :: "'w media_state \<Rightarrow> nat" where
  "upload_count s = length (filter (\<lambda>p. is_upload (fst p)) (ms_calls s))"

text \<open>
  \<open>recorded\<close>: there was at most one upload, every call was made when the durable run said that the attachment
  had begun, and there was none as long as it does not say so.
\<close>

definition calls_recorded :: "'w media_state \<Rightarrow> bool" where
  "calls_recorded s \<longleftrightarrow> upload_count s \<le> 1 \<and> (\<forall>p \<in> set (ms_calls s). started_run (snd p))
     \<and> (started_run (ms_saved s) \<or> ms_calls s = [])"

definition under_way :: "'w media_state \<Rightarrow> bool" where
  "under_way s \<longleftrightarrow> calls_recorded s \<and> started_run (ms_saved s) \<and> started_run (ms_run s)"

lemma wp_save_run: "(\<And>w. Q () (s\<lparr>ms_saved := ms_run s, ms_world := w\<rparr>)) \<Longrightarrow> (\<And>e w. E e (s\<lparr>ms_world := w\<rparr>)) \<Longrightarrow> wp (save_media W) Q E s"
  by (simp add: wp_def save_media_def split: prod.split)

lemma wp_inspect_run: "(\<And>g w. Q g (s\<lparr>ms_world := w\<rparr>)) \<Longrightarrow> (\<And>e w. E e (s\<lparr>ms_world := w\<rparr>)) \<Longrightarrow> wp (inspect_target W v) Q E s"
  by (simp add: wp_def inspect_target_def split: prod.split sum.split)

lemma wp_clock_run: "(\<And>q w. Q q (s\<lparr>ms_world := w\<rparr>)) \<Longrightarrow> wp (read_clock W) Q E s"
  by (simp add: wp_def read_clock_def split: prod.split)

lemma wp_send_run:
  "(\<And>w. Q () (s\<lparr>ms_calls := ms_calls s @ [(c, ms_saved s)], ms_world := w\<rparr>)) \<Longrightarrow>
   (\<And>e w. E e (s\<lparr>ms_calls := ms_calls s @ [(c, ms_saved s)], ms_world := w\<rparr>)) \<Longrightarrow> wp (send_call W c) Q E s"
  by (simp add: wp_def send_call_def split: prod.split option.split)

lemma wp_own_run:
  "(\<And>g w. Q g (s\<lparr>ms_world := w\<rparr>)) \<Longrightarrow> (\<And>e w. E e (s\<lparr>ms_world := w\<rparr>)) \<Longrightarrow> wp (inspect_own W x ok why) Q E s"
  unfolding inspect_own_def wp_simps by (rule wp_inspect_run) (simp_all add: wp_simps split: sum.split)

lemma wp_prove_run:
  "(\<And>g w. Q g (s\<lparr>ms_calls := ms_calls s @ [(c, ms_saved s)], ms_world := w\<rparr>)) \<Longrightarrow>
   (\<And>e w. E e (s\<lparr>ms_calls := ms_calls s @ [(c, ms_saved s)], ms_world := w\<rparr>)) \<Longrightarrow> wp (prove_call W x c ok why) Q E s"
  unfolding prove_call_def wp_simps by (rule wp_send_run) (rule wp_own_run; simp)+

lemmas run_rules = wp_save_run wp_inspect_run wp_clock_run wp_own_run wp_prove_run

subsection \<open>Every call is recorded first\<close>

lemmas recorded_defs = calls_recorded_def under_way_def upload_count_def started_run_def waiting_def

text \<open>\<open>keeps P m\<close>: \<open>m\<close> preserves \<open>P\<close>, whether it succeeds or raises.\<close>

definition keeps :: "('w media_state \<Rightarrow> bool) \<Rightarrow> ('a, 'w) media_op \<Rightarrow> bool" where
  "keeps P m \<longleftrightarrow> (\<forall>s. P s \<longrightarrow> wp m (\<lambda>_. P) (\<lambda>_. P) s)"

lemma keeps_wp: "keeps P m \<Longrightarrow> P s \<Longrightarrow> (\<And>x s. P s \<Longrightarrow> Q x s) \<Longrightarrow> (\<And>e s. P s \<Longrightarrow> E e s) \<Longrightarrow> wp m Q E s"
  unfolding keeps_def using wp_mono by blast

lemma keeps_seq: "list_all (keeps P) ms \<Longrightarrow> keeps P (media_seq ms)"
proof (induction ms)
  case (Cons m ms)
  then show ?case unfolding keeps_def by (auto simp: wp_simps intro: wp_mono)
qed (simp add: keeps_def wp_simps)

lemma keeps_bind: "keeps P m \<Longrightarrow> (\<And>x. keeps P (f x)) \<Longrightarrow> keeps P (media_bind m f)"
  unfolding keeps_def by (auto simp: wp_simps intro: wp_mono)

lemma keeps_catch: "keeps P m \<Longrightarrow> (\<And>e. keeps P (h e)) \<Longrightarrow> keeps P (media_catch m h)"
  unfolding keeps_def by (auto simp: wp_simps intro: wp_mono)

lemma keeps_drop: "keeps P m \<Longrightarrow> keeps P (drop_result m)"
  unfolding keeps_def by (auto simp: wp_simps intro: wp_mono)

text \<open>Nothing but a save or a call touches the durable run and the list of calls.\<close>

named_theorems under_way_intros

lemma under_way_edits [under_way_intros]:
  "keeps under_way (edit_snapshot f)" "keeps under_way (log_event t k d)"
  "\<not> waiting st \<Longrightarrow> keeps under_way (edit_media (set_status st))"
  "\<not> waiting st \<Longrightarrow> keeps under_way (edit_media (\<lambda>x. x\<lparr>mx_status := st, mx_attached := v\<rparr>))"
  "\<not> waiting st \<Longrightarrow> keeps under_way (edit_media (\<lambda>x. x\<lparr>mx_status := st, mx_released := v\<rparr>))"
  "\<not> waiting st \<Longrightarrow> keeps under_way (edit_media (\<lambda>x. x\<lparr>mx_status := st, mx_failure := f'\<rparr>))"
  "\<not> waiting st \<Longrightarrow> keeps under_way (edit_media (\<lambda>x. x\<lparr>mx_status := st, mx_cleanup := f'\<rparr>))"
  by (auto simp: keeps_def wp_simps recorded_defs set_status_def split: option.splits)

lemma under_way_prims [under_way_intros]:
  "keeps under_way (remove_file i)" "keeps under_way (file_path i)"
  "keeps under_way (media_raise e :: (media_target, 'w) media_op)" "keeps under_way (media_return (g :: media_target))"
  by (auto simp: keeps_def wp_simps recorded_defs)

lemma under_way_save [under_way_intros]: "keeps under_way (save_media W)"
  unfolding keeps_def by (auto intro!: run_rules simp: recorded_defs)

lemma under_way_looks [under_way_intros]:
  "keeps under_way (inspect_own W x ok why)" "keeps under_way (read_clock W)"
  "\<not> is_upload c \<Longrightarrow> keeps under_way (prove_call W x c ok why)"
  unfolding keeps_def by (auto intro!: run_rules simp: recorded_defs)

lemma waiting_simps [simp]: "waiting Ms_prepared" "waiting Ms_awaiting" "\<not> waiting Ms_uploading" "\<not> waiting Ms_selected"
  "\<not> waiting Ms_attached" "\<not> waiting Ms_verified" "\<not> waiting Ms_detaching" "\<not> waiting Ms_rolling_back"
  "\<not> waiting Ms_released" "\<not> waiting Ms_rejected" "\<not> waiting Ms_cleanup"
  by (simp_all add: waiting_def)

lemma under_way_steps [under_way_intros]:
  "keeps under_way (media_seq (select_steps W t x))" "keeps under_way (media_seq (connect_steps W t x))"
  "keeps under_way (media_seq (release_steps W t x reason))"
  "keeps under_way (latch_cleanup W t x m)" "keeps under_way (rollback_confirmed W t x m q)"
  unfolding select_steps_def connect_steps_def release_steps_def latch_cleanup_def rollback_confirmed_def mark_attached_def mark_released_def
  by (intro keeps_seq; simp; (intro conjI)?; (intro under_way_intros keeps_drop keeps_bind)?; simp)+

lemma under_way_rollback [under_way_intros]: "keeps under_way (rollback_steps W t x)"
  unfolding rollback_steps_def rollback_disconnect_def rollback_clear_def rollback_remove_def
  by (intro keeps_drop keeps_bind; (simp split: if_split; intro conjI impI)?;
      (intro keeps_bind keeps_seq under_way_intros)?; simp add: under_way_intros)

text \<open>\<open>owned\<close>: the calls are recorded, and the run in hand owns a transaction.\<close>

definition owned :: "'w media_state \<Rightarrow> bool" where
  "owned s \<longleftrightarrow> calls_recorded s \<and> mr_media (ms_run s) \<noteq> None"

lemma under_way_owned: "under_way s \<Longrightarrow> owned s"
  by (auto simp: recorded_defs owned_def split: option.splits)

lemma owned_recorded: "owned s \<Longrightarrow> calls_recorded s"
  by (simp add: owned_def)

lemma owned_save:
  assumes "owned s" "started_run (ms_run s)" "\<And>s. under_way s \<Longrightarrow> Q () s" "\<And>e s. owned s \<Longrightarrow> E e s"
  shows "wp (save_media W) Q E s"
  using assms(1, 2) by (intro wp_save_run assms(3, 4)) (auto simp: recorded_defs owned_def split: option.splits)

lemma owned_latch: "owned s \<Longrightarrow> wp (latch_cleanup W t x m) (\<lambda>_. owned) (\<lambda>_. owned) s"
  unfolding latch_cleanup_def wp_simps
  by (rule owned_save) (auto simp: owned_def recorded_defs split: option.splits)

lemma owned_refuse: "owned s \<Longrightarrow> wp (refuse_attach W t x m) (\<lambda>_. owned) (\<lambda>_. owned) s"
  unfolding refuse_attach_def wp_simps
  by (rule owned_save) (auto simp: owned_def recorded_defs split: option.splits)

lemma owned_reject: "owned s \<Longrightarrow> wp (reject_attach W t x a d) (\<lambda>_. owned) (\<lambda>_. owned) s"
  unfolding reject_attach_def wp_simps
  by (rule owned_save) (auto simp: owned_def recorded_defs set_status_def split: option.splits)

lemma owned_rollback: "owned s \<Longrightarrow> wp (rollback W t x m) (\<lambda>_. owned) (\<lambda>_. owned) s"
proof -
  assume "owned s"
  let ?g = "\<lambda>s. case rollback_steps W t x s of
      (Inl e, s') \<Rightarrow> latch_cleanup W t x (u ''rollback could not be proven: '' @ exn_named e) s'
    | (Inr _, s') \<Rightarrow> media_bind (read_clock W) (rollback_confirmed W t x m) s'"
  have "keeps under_way ?g"
    unfolding keeps_def
  proof (intro allI impI)
    fix s :: "'a media_state" assume a: "under_way s"
    have "wp (rollback_steps W t x) (\<lambda>_ s'. wp (media_bind (read_clock W) (rollback_confirmed W t x m)) (\<lambda>_. under_way) (\<lambda>_. under_way) s')
        (\<lambda>e s'. wp (latch_cleanup W t x (u ''rollback could not be proven: '' @ exn_named e)) (\<lambda>_. under_way) (\<lambda>_. under_way) s') s"
      by (rule keeps_wp [OF under_way_rollback a])
        (simp_all add: keeps_wp [OF keeps_bind [OF under_way_looks(2) under_way_steps(5)]] keeps_wp [OF under_way_steps(4)])
    then show "wp ?g (\<lambda>_. under_way) (\<lambda>_. under_way) s"
      by (auto simp: wp_def split: prod.splits sum.splits)
  qed
  then have "wp ?g (\<lambda>_. owned) (\<lambda>_. owned) s'" if "under_way s'" for s'
    using that by (rule keeps_wp) (simp_all add: under_way_owned)
  with \<open>owned s\<close> show ?thesis
    unfolding rollback_def wp_simps
    by (intro owned_save) (auto simp: owned_def recorded_defs split: option.splits)
qed

lemma owned_failed: "owned s \<Longrightarrow> wp (attach_failed W t x e) (\<lambda>_. owned) (\<lambda>_. owned) s"
  by (cases e) (simp_all add: attach_failed_def owned_latch owned_refuse owned_rollback)

lemma owned_upload:
  assumes "owned s" "ms_calls s = []"
  shows "wp (media_seq (upload_steps W t x)) (\<lambda>_. under_way) (\<lambda>_. owned) s"
  using assms unfolding upload_steps_def wp_simps
  by (intro wp_save_run) (auto intro!: run_rules simp: wp_simps owned_def recorded_defs set_status_def split: option.splits)

lemma owned_checks:
  assumes "owned s" "ms_calls s = []"
  shows "wp (check_target W x) (\<lambda>_ s. owned s \<and> ms_calls s = []) (\<lambda>_. owned) s"
    "wp (check_lease W x) (\<lambda>_ s. owned s \<and> ms_calls s = []) (\<lambda>_. owned) s"
  using assms unfolding check_target_def check_lease_def wp_simps
  by (auto intro!: run_rules simp: wp_simps owned_def recorded_defs split: option.splits sum.split)

lemma owned_attach:
  assumes "owned s" "ms_calls s = []"
  shows "wp (attach W t x) (\<lambda>_. under_way) (\<lambda>_. owned) s"
proof -
  have connect: "wp (media_seq (connect_steps W t x)) (\<lambda>_. under_way) (\<lambda>_. owned) s" if "under_way s" for s
    using that by (rule keeps_wp [OF under_way_steps(2)]) (simp_all add: under_way_owned)
  have select: "wp (media_seq (select_steps W t x @ connect_steps W t x)) (\<lambda>_. under_way) (\<lambda>_. owned) s" if "under_way s" for s
    using that unfolding wp_append by (rule keeps_wp [OF under_way_steps(1)]) (simp_all add: under_way_owned connect)
  have upload: "wp (media_seq (upload_steps W t x @ select_steps W t x @ connect_steps W t x)) (\<lambda>_. under_way) (\<lambda>_. owned) s"
    if "owned s" "ms_calls s = []" for s
    unfolding wp_append [of "upload_steps W t x"] by (rule wp_mono [OF owned_upload [OF that]]) (simp_all add: select)
  have lease: "wp (media_seq ([check_lease W x] @ upload_steps W t x @ select_steps W t x @ connect_steps W t x)) (\<lambda>_. under_way) (\<lambda>_. owned) s"
    if "owned s" "ms_calls s = []" for s
    unfolding append_Cons append_Nil wp_seq(2) by (rule wp_mono [OF owned_checks(2) [OF that]]) (simp_all add: upload)
  show ?thesis
    unfolding attach_def append_Cons wp_seq(2) [of "check_target W x"]
    by (rule wp_mono [OF owned_checks(1) [OF assms]]) (use lease in simp_all)
qed

text \<open>The operations, as they come from outside.\<close>

datatype media_action =
    Ma_stage int pystr pystr media_request media_receipt
  | Ma_resolve int pystr pydict
  | Ma_release int pystr
  | Ma_expire int

fun media_step :: "'w media_world \<Rightarrow> media_action \<Rightarrow> (unit, 'w) media_op" where
  "media_step W (Ma_stage t i approval q p) = stage_media W t i approval q p"
| "media_step W (Ma_resolve t approval decision) = resolve_media W t approval decision"
| "media_step W (Ma_release t reason) = release_media W t reason"
| "media_step W (Ma_expire t) = release_if_expired W t"

definition media_steps :: "'w media_world \<Rightarrow> media_action list \<Rightarrow> 'w media_state \<Rightarrow> 'w media_state" where
  "media_steps W as s = fold (\<lambda>a s. snd (media_step W a s)) as s"

definition media_init :: "run_snapshot \<Rightarrow> 'w \<Rightarrow> 'w media_state" where
  "media_init r w = (let m = \<lparr>mr_run = r, mr_media = None\<rparr> in
     \<lparr>ms_run = m, ms_saved = m, ms_artifacts = [], ms_world = w, ms_calls = []\<rparr>)"

lemma wp_load [wp_simps]: "wp load_media Q E s = (let r = (ms_saved s)\<lparr>mr_run := (mr_run (ms_saved s))\<lparr>ru_events := []\<rparr>\<rparr> in Q r (s\<lparr>ms_run := r\<rparr>))"
  by (simp add: wp_def load_media_def Let_def)

lemma pending_Inr: "pending_transaction r a = Inr x \<Longrightarrow> mr_media r = Some x \<and> mx_status x = Ms_awaiting"
  unfolding pending_transaction_def Let_def
  by (cases "mr_media r") (auto simp: bind_result_def split: if_split_asm sum.split_asm)

lemma recorded_resolve: "calls_recorded s \<Longrightarrow> wp (resolve_media W t a d) (\<lambda>_. calls_recorded) (\<lambda>_. calls_recorded) s"
proof -
  assume r: "calls_recorded s"
  let ?r = "(ms_saved s)\<lparr>mr_run := (mr_run (ms_saved s))\<lparr>ru_events := []\<rparr>\<rparr>"
  let ?s = "s\<lparr>ms_run := ?r\<rparr>"
  have s: "calls_recorded ?s" using r by (simp add: recorded_defs)
  have "wp (decide_attach W t a d x) (\<lambda>_. calls_recorded) (\<lambda>_. calls_recorded) ?s" if p: "pending_transaction ?r a = Inr x" for x
  proof -
    from pending_Inr [OF p] have x: "mr_media ?r = Some x" "mx_status x = Ms_awaiting" by blast+
    then have none: "ms_calls ?s = []" "owned ?s" using s by (auto simp: recorded_defs owned_def)
    let ?s' = "?s\<lparr>ms_run := ?r\<lparr>mr_run := record_event ''approval.approved'' (approval_note a d) t (clear_approval (mr_run ?r))\<rparr>\<rparr>"
    have none': "ms_calls ?s' = []" "owned ?s'" using none by (simp_all add: recorded_defs owned_def)
    show ?thesis
      unfolding decide_attach_def Let_def wp_if wp_simps
      using none none' s
      by (auto intro!: wp_mono [OF owned_reject] wp_mono [OF owned_attach] wp_mono [OF owned_failed] simp: owned_recorded under_way_def
          simp del: Nil_is_append_conv)
  qed
  with s show ?thesis
    unfolding resolve_media_def wp_simps by (auto simp: Let_def wp_simps split: sum.split)
qed

lemma recorded_release: "calls_recorded s \<Longrightarrow> wp (release_media W t m) (\<lambda>_. calls_recorded) (\<lambda>_. calls_recorded) s"
proof -
  assume r: "calls_recorded s"
  let ?r = "(ms_saved s)\<lparr>mr_run := (mr_run (ms_saved s))\<lparr>ru_events := []\<rparr>\<rparr>"
  let ?s = "s\<lparr>ms_run := ?r\<rparr>"
  have s: "calls_recorded ?s" using r by (simp add: recorded_defs)
  have "under_way ?s" if "releasable ?r = Inr x" for x
    using that s by (auto simp: recorded_defs releasable_def split: option.splits if_splits)
  with s show ?thesis
    unfolding release_media_def wp_simps
    by (auto simp: Let_def wp_simps release_failed_def split: sum.split
        intro!: keeps_wp [OF under_way_steps(3)] keeps_wp [OF under_way_steps(4)] simp: under_way_def)
qed

lemma recorded_expire: "calls_recorded s \<Longrightarrow> wp (release_if_expired W t) (\<lambda>_. calls_recorded) (\<lambda>_. calls_recorded) s"
proof -
  assume r: "calls_recorded s"
  let ?r = "(ms_saved s)\<lparr>mr_run := (mr_run (ms_saved s))\<lparr>ru_events := []\<rparr>\<rparr>"
  have "calls_recorded (s\<lparr>ms_run := ?r\<rparr>)" "\<And>w. calls_recorded (s\<lparr>ms_run := ?r, ms_world := w\<rparr>)" using r by (simp_all add: recorded_defs)
  then show ?thesis
    unfolding release_if_expired_def wp_simps
    by (auto simp: Let_def wp_simps split: option.split intro!: wp_clock_run recorded_release)
qed

text \<open>Staging calls nothing, and neither does anything before an approval.\<close>

definition uncalled :: "'w media_state \<Rightarrow> bool" where
  "uncalled s \<longleftrightarrow> ms_calls s = []
     \<and> (case mr_media (ms_saved s) of None \<Rightarrow> True | Some x \<Rightarrow> mx_status x \<in> {Ms_prepared, Ms_awaiting, Ms_rejected})"

lemma uncalled_failed:
  "uncalled s \<Longrightarrow> mr_media (ms_run s) = None \<Longrightarrow> wp (preflight_failed W t q a e) Q (\<lambda>_. uncalled) s"
  by (cases e) (auto simp: preflight_failed_def Let_def wp_simps uncalled_def intro!: wp_save_run)

lemma uncalled_target:
  assumes "uncalled s" "mr_media (ms_run s) = None"
  shows "wp (stage_target W t q b v) (\<lambda>_ s. uncalled s \<and> mr_media (ms_run s) = None) (\<lambda>_. uncalled) s"
proof -
  have "uncalled (s\<lparr>ms_world := w\<rparr>)" for w using assms by (simp add: uncalled_def)
  with assms show ?thesis
    by (cases v) (auto simp: stage_target_def wp_simps intro!: wp_inspect_run uncalled_failed split: sum.split)
qed

lemma uncalled_open: "ms_calls s = [] \<Longrightarrow> uncalled s \<Longrightarrow> mx_status x = Ms_prepared \<Longrightarrow> wp (open_transaction W t x) (\<lambda>_. uncalled) (\<lambda>_. uncalled) s"
  unfolding open_transaction_def wp_simps
  by (auto intro!: wp_save_run simp: uncalled_def set_status_def)

lemma uncalled_stage:
  assumes "uncalled s"
  shows "wp (stage_media W t i a q p) (\<lambda>_. uncalled) (\<lambda>_. uncalled) s"
proof -
  let ?r = "(ms_saved s)\<lparr>mr_run := (mr_run (ms_saved s))\<lparr>ru_events := []\<rparr>\<rparr>"
  have s: "uncalled (s\<lparr>ms_run := ?r\<rparr>)" using assms by (simp add: uncalled_def)
  have last: "wp (read_clock W) (\<lambda>now. wp (open_checked W t (new_transaction i a q p b v g now)) (\<lambda>_. uncalled) (\<lambda>_. uncalled)) (\<lambda>_. uncalled) s'"
    if "uncalled s'" for s' b v g
    using that by (intro wp_clock_run) (auto simp: uncalled_def new_transaction_def open_checked_def wp_simps intro!: uncalled_open)
  have target: "wp (stage_target W t q b v) (\<lambda>x. wp (media_bind (stage_file i) (\<lambda>_. media_bind (read_clock W)
        (\<lambda>now. open_checked W t (new_transaction i a q p b (fst x) (snd x) now)))) (\<lambda>_. uncalled) (\<lambda>_. uncalled)) (\<lambda>_. uncalled)
      (s\<lparr>ms_run := ?r\<rparr>)" if "mr_media (ms_saved s) = None" for b v
    using s that by (intro wp_mono [OF uncalled_target]) (auto simp: wp_simps uncalled_def intro!: last)
  show ?thesis
    unfolding stage_media_def wp_simps
    by (auto simp: Let_def wp_simps case_prod_unfold s split: sum.split intro!: target)
qed

lemma uncalled_recorded: "uncalled s \<Longrightarrow> calls_recorded s"
  by (simp add: uncalled_def recorded_defs)

lemma recorded_stage: "calls_recorded s \<Longrightarrow> wp (stage_media W t i a q p) (\<lambda>_. calls_recorded) (\<lambda>_. calls_recorded) s"
proof (cases "mr_media (ms_saved s)")
  case None
  assume "calls_recorded s"
  with None have "uncalled s" by (simp add: uncalled_def recorded_defs)
  then show ?thesis by (intro wp_mono [OF uncalled_stage] uncalled_recorded)
next
  case (Some x)
  assume "calls_recorded s"
  with Some show ?thesis by (simp add: stage_media_def wp_simps Let_def recorded_defs)
qed

lemma recorded_step: "calls_recorded s \<Longrightarrow> calls_recorded (snd (media_step W a s))"
  unfolding wp_any [symmetric] by (cases a) (simp_all add: recorded_stage recorded_resolve recorded_release recorded_expire)

definition approves :: "media_action \<Rightarrow> bool" where
  "approves a = (case a of Ma_resolve _ _ d \<Rightarrow> str_or_empty (get_none d (u ''type'')) = u ''approve'' | _ \<Rightarrow> False)"

lemma uncalled_step: "uncalled s \<Longrightarrow> \<not> approves a \<Longrightarrow> uncalled (snd (media_step W a s))"
proof -
  assume s: "uncalled s" and a: "\<not> approves a"
  let ?r = "(ms_saved s)\<lparr>mr_run := (mr_run (ms_saved s))\<lparr>ru_events := []\<rparr>\<rparr>"
  have l: "uncalled (s\<lparr>ms_run := ?r\<rparr>)" using s by (simp add: uncalled_def)
  have "\<exists>e. releasable ?r = Inl e" using s by (auto simp: uncalled_def releasable_def split: option.splits)
  with l have release: "wp (release_media W t m) (\<lambda>_. uncalled) (\<lambda>_. uncalled) s" for t m
    by (auto simp: release_media_def wp_simps Let_def)
  show ?thesis
    unfolding wp_any [symmetric]
  proof (cases a)
    case (Ma_resolve t i d)
    have "wp (decide_attach W t i d x) (\<lambda>_. uncalled) (\<lambda>_. uncalled) (s\<lparr>ms_run := ?r\<rparr>)" if "pending_transaction ?r i = Inr x" for x
      using a l pending_Inr [OF that] unfolding Ma_resolve decide_attach_def Let_def
      by (auto simp: approves_def reject_attach_def wp_simps uncalled_def set_status_def intro!: wp_save_run)
    with l show "wp (media_step W a) (\<lambda>_. uncalled) (\<lambda>_. uncalled) s"
      by (auto simp: Ma_resolve resolve_media_def wp_simps Let_def split: sum.split)
  next
    case (Ma_expire t)
    with l s show "wp (media_step W a) (\<lambda>_. uncalled) (\<lambda>_. uncalled) s"
      by (auto simp: release_if_expired_def wp_simps Let_def uncalled_def split: option.splits)
  qed (simp_all add: uncalled_stage [OF s] release)
qed

text \<open>
  C16. The drive is written to at most once per run, only after an approval, and never before it is on record. Whatever
  the adapter answers, whichever saves fail, and in whatever order the operations come: a run uploads at most one
  image; every call that changes the target was made when the durable run already said that the attachment had
  begun; and without an operation that approves, there is no such call at all.
\<close>

theorem media_calls_are_recorded:
  fixes W :: "'w media_world" and as :: "media_action list" and r :: run_snapshot and w :: 'w
  defines "s \<equiv> media_steps W as (media_init r w)"
  shows "upload_count s \<le> 1 \<and> (\<forall>p \<in> set (ms_calls s). started_run (snd p))
    \<and> (list_all (\<lambda>a. \<not> approves a) as \<longrightarrow> ms_calls s = [])"
proof -
  have "calls_recorded (media_steps W as s0)" if "calls_recorded s0" for s0
    using that unfolding media_steps_def by (induction as arbitrary: s0) (simp_all add: recorded_step)
  moreover have "list_all (\<lambda>a. \<not> approves a) as \<Longrightarrow> uncalled (media_steps W as s0)" if "uncalled s0" for s0
    using that unfolding media_steps_def by (induction as arbitrary: s0) (simp_all add: uncalled_step)
  moreover have "uncalled (media_init r w)" by (simp add: media_init_def uncalled_def Let_def)
  ultimately show ?thesis using uncalled_recorded unfolding s_def by (fastforce simp: calls_recorded_def uncalled_def)
qed

subsection \<open>A concrete drive\<close>

record drive =
  dr_connected :: bool
  dr_selected :: "pystr option"
  dr_images :: "pystr list"

definition drive_target :: "drive \<Rightarrow> media_target" where
  "drive_target d = \<lparr>mg_adapter = u ''kvm'', mg_supported = True, mg_reason = None, mg_fingerprint = u ''pc'', mg_epoch = 1,
     mg_online = True, mg_busy = False, mg_connected = dr_connected d, mg_selected = dr_selected d, mg_images = dr_images d,
     mg_free = None\<rparr>"

fun drive_call :: "media_call \<Rightarrow> drive \<Rightarrow> drive" where
  "drive_call (Mc_upload _ n) d = d\<lparr>dr_images := n # dr_images d\<rparr>"
| "drive_call (Mc_select _ v) d = d\<lparr>dr_selected := v\<rparr>"
| "drive_call (Mc_connect _) d = d\<lparr>dr_connected := True\<rparr>"
| "drive_call (Mc_disconnect _) d = d\<lparr>dr_connected := False\<rparr>"
| "drive_call (Mc_remove _ n) d = d\<lparr>dr_images := removeAll n (dr_images d)\<rparr>"

text \<open>\<open>fails c\<close>: what a call answers, after which the drive is as before.\<close>

definition drive_world :: "(media_call \<Rightarrow> media_exn option) \<Rightarrow> drive media_world" where
  "drive_world fails = \<lparr>mw_inspect = (\<lambda>_ d. (Inr (drive_target d), d)),
     mw_call = (\<lambda>c d. case fails c of None \<Rightarrow> (None, drive_call c d) | Some e \<Rightarrow> (Some e, d)),
     mw_save = (\<lambda>d. (True, d)), mw_now = (\<lambda>d. (0, d))\<rparr>"

definition never_fails :: "media_call \<Rightarrow> media_exn option" where "never_fails c = None"

definition demo_media_run :: run_snapshot where
  "demo_media_run = \<lparr>ru_id = u ''r'', ru_status = Rs_running, ru_origin = Managed, ru_caller = [], ru_updated = 0,
     ru_session = Some (u ''s''),
     ru_observation = Some \<lparr>ob_session = u ''s'', ob_status = [], ob_machine = [(u ''fingerprint'', PStr (u ''pc''))],
       ob_frame = PNone, ob_world = PNone, ob_epoch = PInt 1, ob_image = None, ob_error = None, ob_raw = []\<rparr>,
     ru_approval = None, ru_image_path = None, ru_image_revision = 0, ru_images = [], ru_next_action = 0, ru_error = None,
     ru_activity = None, ru_cursor = 0, ru_events = []\<rparr>"

definition demo_request :: media_request where
  "demo_request = \<lparr>mq_purpose = u ''p'', mq_fingerprint = u ''pc'', mq_epoch = 1, mq_name = u ''a.iso'', mq_lease = 60\<rparr>"

definition demo_receipt :: media_receipt where
  "demo_receipt = \<lparr>mp_file = Some (1, replicate 64 48), mp_sha256 = replicate 64 48, mp_has_files = True\<rparr>"

definition stage_and :: "string \<Rightarrow> media_action list" where
  "stage_and kind = [Ma_stage 0 (u ''t'') (u ''q'') demo_request demo_receipt, Ma_resolve 0 (u ''q'') [(u ''type'', PStr (u kind))]]"

definition demo_drive :: "pystr list \<Rightarrow> drive" where
  "demo_drive is = \<lparr>dr_connected = False, dr_selected = None, dr_images = is\<rparr>"

theorem media_calls_are_recorded_witness:
  "ms_calls (media_steps (drive_world never_fails) (stage_and ''reject'') (media_init demo_media_run (demo_drive []))) = []"
proof -
  have "list_all (\<lambda>a. \<not> approves a) (stage_and ''reject'')" by code_simp
  then show ?thesis using media_calls_are_recorded [of "drive_world never_fails"] by blast
qed

end
