(* ===== verification/MediaDrive.thy ===== *)
theory MediaDrive
  imports MediaProps
begin

text \<open>
  What the recorded status of a media transaction says about the drive. The drive is one that nobody else
  uses: looking at it is truthful and harmless, and a call does what it says or nothing, whatever it answers;
  saves may fail. Triples with one error condition carry the facts from step to step.
\<close>

subsection \<open>A drive of one's own\<close>

fun preflight :: "media_exn \<Rightarrow> bool" where
  "preflight (Mx_preflight _) = True"
| "preflight _ = False"

fun definite :: "media_exn \<Rightarrow> bool" where
  "definite (Mx_definite _) = True"
| "definite _ = False"

definition shows_drive :: "media_target \<Rightarrow> drive \<Rightarrow> bool" where
  "shows_drive g d \<longleftrightarrow> mg_connected g = dr_connected d \<and> mg_selected g = dr_selected d \<and> mg_images g = dr_images d"

definition truthful :: "drive \<Rightarrow> (media_exn, media_target) result \<Rightarrow> bool" where
  "truthful d r = (case r of Inl e \<Rightarrow> \<not> preflight e | Inr g \<Rightarrow> shows_drive g d)"

definition exclusive :: "'w media_world \<Rightarrow> ('w \<Rightarrow> drive) \<Rightarrow> bool" where
  "exclusive W v \<longleftrightarrow> (\<forall>w. v (snd (mw_save W w)) = v w \<and> v (snd (mw_now W w)) = v w
     \<and> (\<forall>i. v (snd (mw_inspect W i w)) = v w \<and> truthful (v w) (fst (mw_inspect W i w)))
     \<and> (\<forall>c. v (snd (mw_call W c w)) \<in> {v w, drive_call c (v w)} \<and> (\<forall>e. fst (mw_call W c w) = Some e \<longrightarrow> \<not> preflight e)))"

lemma exclusive_save:
  assumes "exclusive W v" "\<And>w. v w = v (ms_world s) \<Longrightarrow> Q () (s\<lparr>ms_saved := ms_run s, ms_world := w\<rparr>)"
    "\<And>n w. v w = v (ms_world s) \<Longrightarrow> E (Mx_other n []) (s\<lparr>ms_world := w\<rparr>)"
  shows "wp (save_media W) Q E s"
  using assms by (cases "mw_save W (ms_world s)") (auto simp: wp_def save_media_def exclusive_def dest!: spec [of _ "ms_world s"])

lemma exclusive_clock:
  assumes "exclusive W v" "\<And>q w. v w = v (ms_world s) \<Longrightarrow> Q q (s\<lparr>ms_world := w\<rparr>)"
  shows "wp (read_clock W) Q E s"
  using assms by (cases "mw_now W (ms_world s)") (auto simp: wp_def read_clock_def exclusive_def dest!: spec [of _ "ms_world s"])

lemma exclusive_inspect:
  assumes "exclusive W v" "\<And>g w. v w = v (ms_world s) \<Longrightarrow> shows_drive g (v w) \<Longrightarrow> Q g (s\<lparr>ms_world := w\<rparr>)"
    "\<And>e w. v w = v (ms_world s) \<Longrightarrow> \<not> preflight e \<Longrightarrow> E e (s\<lparr>ms_world := w\<rparr>)"
  shows "wp (inspect_target W i) Q E s"
proof -
  have "v (snd (mw_inspect W i (ms_world s))) = v (ms_world s)" "truthful (v (ms_world s)) (fst (mw_inspect W i (ms_world s)))"
    using assms(1) by (auto simp: exclusive_def)
  with assms(2, 3) show ?thesis
    by (cases "mw_inspect W i (ms_world s)") (auto simp: wp_def inspect_target_def truthful_def split: sum.splits)
qed

lemma exclusive_own:
  assumes "exclusive W v"
    "\<And>g w. v w = v (ms_world s) \<Longrightarrow> shows_drive g (v w) \<Longrightarrow> ok g \<Longrightarrow> Q g (s\<lparr>ms_world := w\<rparr>)"
    "\<And>e w. v w = v (ms_world s) \<Longrightarrow> \<not> preflight e \<Longrightarrow> E e (s\<lparr>ms_world := w\<rparr>)"
  shows "wp (inspect_own W x ok why) Q E s"
  unfolding inspect_own_def wp_simps
  by (rule exclusive_inspect [OF assms(1)]) (auto simp: wp_simps assms require_identity_def split: sum.split)

lemma exclusive_call:
  assumes "exclusive W v"
    "\<And>w. v w \<in> {v (ms_world s), drive_call c (v (ms_world s))} \<Longrightarrow> Q () (s\<lparr>ms_calls := ms_calls s @ [(c, ms_saved s)], ms_world := w\<rparr>)"
    "\<And>e w. v w \<in> {v (ms_world s), drive_call c (v (ms_world s))} \<Longrightarrow> \<not> preflight e \<Longrightarrow>
       E e (s\<lparr>ms_calls := ms_calls s @ [(c, ms_saved s)], ms_world := w\<rparr>)"
  shows "wp (send_call W c) Q E s"
proof -
  have "v (snd (mw_call W c (ms_world s))) \<in> {v (ms_world s), drive_call c (v (ms_world s))}"
    "\<And>e. fst (mw_call W c (ms_world s)) = Some e \<Longrightarrow> \<not> preflight e"
    using assms(1) unfolding exclusive_def by blast+
  with assms(2, 3) show ?thesis
    by (cases "mw_call W c (ms_world s)") (auto simp: wp_def send_call_def split: option.split)
qed

subsection \<open>What a status says\<close>

definition attached_to :: "pystr \<Rightarrow> drive \<Rightarrow> bool" where
  "attached_to n d \<longleftrightarrow> dr_connected d \<and> dr_selected d = Some n \<and> n \<in> set (dr_images d)"

definition rid_of :: "pystr \<Rightarrow> drive \<Rightarrow> bool" where
  "rid_of n d \<longleftrightarrow> \<not> dr_connected d \<and> dr_selected d = None \<and> n \<notin> set (dr_images d)"

definition same_media :: "drive \<Rightarrow> drive \<Rightarrow> bool" where
  "same_media D d \<longleftrightarrow> dr_connected d = dr_connected D \<and> dr_selected d = dr_selected D \<and> set (dr_images d) = set (dr_images D)"

definition others_kept :: "pystr \<Rightarrow> drive \<Rightarrow> drive \<Rightarrow> bool" where
  "others_kept n D d \<longleftrightarrow> set (dr_images d) - {n} = set (dr_images D) - {n}"

definition untouched :: "media_status \<Rightarrow> bool" where
  "untouched st \<longleftrightarrow> st \<in> {Ms_prepared, Ms_awaiting, Ms_rejected}"

definition at_work :: "media_status \<Rightarrow> bool" where
  "at_work st \<longleftrightarrow> st \<in> {Ms_uploading, Ms_selected, Ms_verified, Ms_detaching, Ms_rolling_back}"

definition status_fits :: "drive \<Rightarrow> media_txn \<Rightarrow> drive \<Rightarrow> bool" where
  "status_fits D x d \<longleftrightarrow> others_kept (mx_name x) D d \<and> (untouched (mx_status x) \<longrightarrow> d = D)
     \<and> (mx_status x = Ms_attached \<longrightarrow> attached_to (mx_name x) d)
     \<and> (mx_status x = Ms_released \<longrightarrow> same_media D d)
     \<and> (at_work (mx_status x) \<or> mx_status x = Ms_attached \<longrightarrow> rid_of (mx_name x) D)"

definition run_fits :: "drive \<Rightarrow> media_run \<Rightarrow> drive \<Rightarrow> bool" where
  "run_fits D r d = (case mr_media r of None \<Rightarrow> d = D | Some x \<Rightarrow> status_fits D x d)"

lemma status_simps [simp]:
  "untouched Ms_prepared" "untouched Ms_awaiting" "untouched Ms_rejected" "\<not> untouched Ms_attached" "\<not> untouched Ms_released"
  "\<not> untouched Ms_cleanup" "\<not> at_work Ms_prepared" "\<not> at_work Ms_awaiting" "\<not> at_work Ms_rejected" "\<not> at_work Ms_attached"
  "\<not> at_work Ms_released" "\<not> at_work Ms_cleanup" "at_work Ms_uploading" "at_work Ms_selected" "at_work Ms_verified"
  "at_work Ms_detaching" "at_work Ms_rolling_back"
  by (simp_all add: untouched_def at_work_def)

lemma at_work_apart: "at_work st \<Longrightarrow> \<not> untouched st \<and> st \<noteq> Ms_attached \<and> st \<noteq> Ms_released"
  by (auto simp: untouched_def at_work_def)

lemma rid_same: "rid_of n D \<Longrightarrow> rid_of n d \<Longrightarrow> others_kept n D d \<Longrightarrow> same_media D d"
  by (auto simp: rid_of_def others_kept_def same_media_def)

lemma rid_run [simp]: "others_kept n D D" by (simp add: others_kept_def)

subsection \<open>Triples\<close>

text \<open>
  \<open>held\<close>: the durable run fits the drive and the run in hand owns the transaction. \<open>mid P L\<close>: the transaction
  is durably at work, the drive satisfies \<open>P\<close>, the status in hand \<open>L\<close>.
\<close>

definition name_of :: "media_run \<Rightarrow> pystr option" where
  "name_of r = map_option mx_name (mr_media r)"

definition status_of :: "media_run \<Rightarrow> media_status option" where
  "status_of r = map_option mx_status (mr_media r)"

definition held :: "('w \<Rightarrow> drive) \<Rightarrow> drive \<Rightarrow> pystr \<Rightarrow> 'w media_state \<Rightarrow> bool" where
  "held v D n s \<longleftrightarrow> run_fits D (ms_saved s) (v (ms_world s)) \<and> name_of (ms_run s) = Some n \<and> others_kept n D (v (ms_world s))"

definition mid :: "('w \<Rightarrow> drive) \<Rightarrow> drive \<Rightarrow> pystr \<Rightarrow> (drive \<Rightarrow> bool) \<Rightarrow> (media_status \<Rightarrow> bool) \<Rightarrow> 'w media_state \<Rightarrow> bool" where
  "mid v D n P L s \<longleftrightarrow> rid_of n D \<and> name_of (ms_saved s) = Some n \<and> pred_option at_work (status_of (ms_saved s))
     \<and> name_of (ms_run s) = Some n \<and> pred_option L (status_of (ms_run s)) \<and> others_kept n D (v (ms_world s)) \<and> P (v (ms_world s))"

definition lost :: "('w \<Rightarrow> drive) \<Rightarrow> drive \<Rightarrow> pystr \<Rightarrow> media_exn \<Rightarrow> 'w media_state \<Rightarrow> bool" where
  "lost v D n e s \<longleftrightarrow> held v D n s \<and> (preflight e \<longrightarrow> v (ms_world s) = D) \<and> (definite e \<longrightarrow> rid_of n D)"

definition triple :: "('w \<Rightarrow> drive) \<Rightarrow> drive \<Rightarrow> pystr \<Rightarrow> ('w media_state \<Rightarrow> bool) \<Rightarrow> ('a, 'w) media_op \<Rightarrow> ('a \<Rightarrow> 'w media_state \<Rightarrow> bool) \<Rightarrow> bool" where
  "triple v D n P m Q \<longleftrightarrow> (\<forall>s. P s \<longrightarrow> wp m Q (lost v D n) s)"

lemmas drive_defs = held_def mid_def run_fits_def status_fits_def name_of_def status_of_def

lemma fits_at_work: "rid_of n D \<Longrightarrow> name_of r = Some n \<Longrightarrow> pred_option at_work (status_of r) \<Longrightarrow> others_kept n D d \<Longrightarrow> run_fits D r d"
  using at_work_apart by (cases "mr_media r") (auto simp: drive_defs)

lemma mid_held: "mid v D n P L s \<Longrightarrow> held v D n s"
  using fits_at_work by (auto simp: mid_def held_def)

lemma mid_lost: "mid v D n P L s \<Longrightarrow> \<not> preflight e \<Longrightarrow> lost v D n e s"
  by (simp add: lost_def mid_held) (simp add: mid_def)

lemma mid_weaken: "mid v D n P L s \<Longrightarrow> (\<And>d. P d \<Longrightarrow> P' d) \<Longrightarrow> mid v D n P' L s"
  by (simp add: mid_def)

lemma tripleI: "(\<And>s. P s \<Longrightarrow> wp m Q (lost v D n) s) \<Longrightarrow> triple v D n P m Q"
  by (simp add: triple_def)

lemma tripleD: "triple v D n P m Q \<Longrightarrow> P s \<Longrightarrow> wp m Q (lost v D n) s"
  by (simp add: triple_def)

lemma triple_wp:
  "triple v D n P m Q \<Longrightarrow> P s \<Longrightarrow> (\<And>x s. Q x s \<Longrightarrow> Q' x s) \<Longrightarrow> (\<And>e s. lost v D n e s \<Longrightarrow> E e s) \<Longrightarrow> wp m Q' E s"
  by (rule wp_mono [OF tripleD])

lemma triple_bind:
  assumes "triple v D n P m R" "\<And>x. triple v D n (R x) (f x) Q"
  shows "triple v D n P (media_bind m f) Q"
  unfolding wp_bind triple_def by (intro allI impI triple_wp [OF assms(1)]) (auto intro: tripleD [OF assms(2)])

lemma triple_seq:
  assumes "triple v D n P m (\<lambda>_. R)" "triple v D n R (media_seq ms) Q"
  shows "triple v D n P (media_seq (m # ms)) Q"
  unfolding wp_seq triple_def by (intro allI impI triple_wp [OF assms(1)]) (auto intro: tripleD [OF assms(2)])

lemma triple_end: "triple v D n P (media_seq []) (\<lambda>_. P)"
  by (simp add: triple_def wp_simps)

lemma triple_append:
  assumes "triple v D n P (media_seq ms) (\<lambda>_. R)" "triple v D n R (media_seq ms') Q"
  shows "triple v D n P (media_seq (ms @ ms')) Q"
  unfolding wp_append triple_def by (intro allI impI triple_wp [OF assms(1)]) (auto intro: tripleD [OF assms(2)])

lemma triple_drop: "triple v D n P m (\<lambda>_. Q) \<Longrightarrow> triple v D n P (drop_result m) (\<lambda>_. Q)"
  by (simp add: triple_def wp_drop)

lemma triple_post: "triple v D n P m Q \<Longrightarrow> (\<And>x s. Q x s \<Longrightarrow> Q' x s) \<Longrightarrow> triple v D n P m Q'"
  by (rule tripleI, erule (1) triple_wp)

lemma triple_log:
  "triple v D n (mid v D n P L) (log_event t k d) (\<lambda>_. mid v D n P L)" "triple v D n (mid v D n P L) (edit_snapshot f) (\<lambda>_. mid v D n P L)"
  by (simp_all add: triple_def wp_simps mid_def name_of_def status_of_def)

lemma triple_edit:
  assumes "\<And>x. mx_name (f x) = mx_name x" "\<And>x. L' (mx_status (f x))"
  shows "triple v D n (mid v D n P L) (edit_media f) (\<lambda>_. mid v D n P L')"
  by (auto simp: triple_def wp_simps mid_def name_of_def status_of_def assms)

lemma triple_path: "triple v D n (mid v D n P L) (file_path i) (\<lambda>_. mid v D n P L)"
  by (auto simp: triple_def wp_simps intro!: mid_lost)

lemma triple_save: "exclusive W v \<Longrightarrow> triple v D n (mid v D n P at_work) (save_media W) (\<lambda>_. mid v D n P at_work)"
  unfolding triple_def
  by (intro allI impI, erule exclusive_save) (auto simp: mid_def intro!: mid_lost [of v D n P at_work])

lemma triple_prove:
  assumes "exclusive W v" "\<And>d. P d \<Longrightarrow> P (drive_call c d)" "\<And>d. others_kept n D d \<Longrightarrow> others_kept n D (drive_call c d)"
  shows "triple v D n (mid v D n P L) (prove_call W x c ok why) (\<lambda>g. mid v D n (\<lambda>d. P d \<and> shows_drive g d \<and> ok g) L)"
  unfolding triple_def prove_call_def wp_simps
proof (intro allI impI exclusive_call [OF assms(1)] exclusive_own [OF assms(1)])
qed (use assms(2, 3) in \<open>auto simp: mid_def intro!: mid_lost [of v D n P L]\<close>)

subsection \<open>Attaching\<close>

text \<open>\<open>begun P L\<close>: nothing has been done yet; the drive is the one found, and satisfies \<open>P\<close>.\<close>

definition begun :: "('w \<Rightarrow> drive) \<Rightarrow> drive \<Rightarrow> pystr \<Rightarrow> (drive \<Rightarrow> bool) \<Rightarrow> (media_status \<Rightarrow> bool) \<Rightarrow> 'w media_state \<Rightarrow> bool" where
  "begun v D n P L s \<longleftrightarrow> v (ms_world s) = D \<and> P D \<and> name_of (ms_saved s) = Some n \<and> pred_option untouched (status_of (ms_saved s))
     \<and> name_of (ms_run s) = Some n \<and> pred_option L (status_of (ms_run s))"

lemma fits_untouched: "pred_option untouched (status_of r) \<Longrightarrow> name_of r = Some n \<Longrightarrow> run_fits D r D"
  by (cases "mr_media r") (auto simp: drive_defs untouched_def at_work_def)

lemma begun_held: "begun v D n P L s \<Longrightarrow> held v D n s"
  using fits_untouched by (auto simp: begun_def held_def)

lemma begun_lost: "begun v D n P L s \<Longrightarrow> (definite e \<Longrightarrow> rid_of n D) \<Longrightarrow> lost v D n e s"
  by (simp add: lost_def begun_held) (simp add: begun_def)

lemma begun_log:
  "triple v D n (begun v D n P L) (log_event t k d) (\<lambda>_. begun v D n P L)"
  "triple v D n (begun v D n P L) (edit_snapshot f) (\<lambda>_. begun v D n P L)"
  by (simp_all add: triple_def wp_simps begun_def name_of_def status_of_def)

lemma begun_edit:
  assumes "\<And>x. mx_name (f x) = mx_name x" "\<And>x. L' (mx_status (f x))"
  shows "triple v D n (begun v D n P L) (edit_media f) (\<lambda>_. begun v D n P L')"
  by (auto simp: triple_def wp_simps begun_def name_of_def status_of_def assms)

lemma begun_save:
  assumes "exclusive W v"
  shows "triple v D n (begun v D n (rid_of n) at_work) (save_media W) (\<lambda>_. mid v D n (\<lambda>_. True) at_work)"
proof (intro tripleI exclusive_save [OF assms])
qed (auto simp: begun_def mid_def intro!: begun_lost [where P = "rid_of n" and L = at_work])

lemma casefold_taken: "n \<in> set is \<Longrightarrow> name_taken is n \<noteq> Inr False"
  by (induction "is") (auto simp: bind_result_def compare_digest_def split: sum.split if_splits)

lemma preflight_clear: "validate_preflight g f e n b = Inr () \<Longrightarrow> shows_drive g d \<Longrightarrow> rid_of n d"
  using casefold_taken [of n "mg_images g"]
  by (auto simp: validate_preflight_def shows_drive_def rid_of_def bind_result_def split: if_splits sum.splits)

lemma preflight_not_definite: "validate_preflight g f e n b = Inl x \<Longrightarrow> \<not> definite x"
proof -
  have "name_taken is n = Inl x \<Longrightarrow> \<not> definite x" for "is"
    by (induction "is") (auto simp: bind_result_def compare_digest_def split: sum.splits if_splits)
  then show "validate_preflight g f e n b = Inl x \<Longrightarrow> \<not> definite x"
    by (auto simp: validate_preflight_def bind_result_def split: if_splits sum.splits option.splits)
qed

lemma begun_target:
  assumes "exclusive W v" "mx_name x = n"
  shows "triple v D n (begun v D n (\<lambda>_. True) L) (check_target W x) (\<lambda>_. begun v D n (rid_of n) L)"
  unfolding check_target_def triple_def wp_simps
proof (intro allI impI exclusive_inspect [OF assms(1)])
qed (auto simp: begun_def wp_simps assms(2) preflight_clear preflight_not_definite split: sum.split
    intro!: begun_lost [where P = "\<lambda>_. True" and L = L])

lemma begun_lease:
  assumes "exclusive W v"
  shows "triple v D n (begun v D n (rid_of n) L) (check_lease W x) (\<lambda>_. begun v D n (rid_of n) L)"
  unfolding check_lease_def triple_def wp_simps
proof (intro allI impI exclusive_clock [OF assms])
qed (auto simp: begun_def wp_simps intro!: begun_lost [where P = "rid_of n" and L = L])

text \<open>A step with proof, of which only the drive is remembered.\<close>

lemma triple_step:
  assumes "exclusive W v" "\<And>d. P d \<Longrightarrow> P (drive_call c d)" "\<And>d. others_kept n D d \<Longrightarrow> others_kept n D (drive_call c d)"
    and "\<And>g d. P d \<Longrightarrow> shows_drive g d \<Longrightarrow> ok g \<Longrightarrow> R d"
  shows "triple v D n (mid v D n P L) (drop_result (prove_call W x c ok why)) (\<lambda>_. mid v D n R L)"
proof (rule triple_drop, rule triple_post)
  show "triple v D n (mid v D n P L) (prove_call W x c ok why) (\<lambda>g. mid v D n (\<lambda>d. P d \<and> shows_drive g d \<and> ok g) L)"
    by (rule triple_prove) (use assms(1-3) in auto)
qed (auto simp: mid_def intro: assms(4))

definition present :: "pystr \<Rightarrow> drive \<Rightarrow> bool" where
  "present n d \<longleftrightarrow> n \<in> set (dr_images d)"

lemmas look_defs = others_kept_def present_def attached_to_def rid_of_def shows_drive_def

lemma triple_set:
  "at_work st \<Longrightarrow> triple v D n (begun v D n P L) (edit_media (set_status st)) (\<lambda>_. begun v D n P at_work)"
  "at_work st \<Longrightarrow> triple v D n (mid v D n P L) (edit_media (set_status st)) (\<lambda>_. mid v D n P at_work)"
  by (rule begun_edit triple_edit; simp add: set_status_def)+

lemmas step_rules = triple_set [THEN triple_seq] begun_log [THEN triple_seq] triple_log [THEN triple_seq] triple_path [THEN triple_seq] triple_end

lemma begun_upload:
  assumes "exclusive W v" "mx_name x = n"
  shows "triple v D n (begun v D n (rid_of n) L) (media_seq (upload_steps W t x)) (\<lambda>_. mid v D n (present n) at_work)"
proof -
  have "triple v D n (mid v D n (\<lambda>_. True) at_work) (drop_result (prove_call W x (Mc_upload i n) (\<lambda>g. n \<in> set (mg_images g)) why))
      (\<lambda>_. mid v D n (present n) at_work)" for i why
    by (rule triple_step [OF assms(1)]) (auto simp: look_defs)
  note upload = this [THEN triple_seq]
  show ?thesis
    unfolding upload_steps_def assms(2)
    by (rule step_rules upload begun_save [OF assms(1), THEN triple_seq] triple_save [OF assms(1), THEN triple_seq] status_simps)+
qed

lemma mid_select:
  assumes "exclusive W v" "mx_name x = n"
  shows "triple v D n (mid v D n (present n) at_work) (media_seq (select_steps W t x)) (\<lambda>_. mid v D n (present n) at_work)"
proof -
  have "triple v D n (mid v D n (present n) at_work) (drop_result (prove_call W x (Mc_select i (Some n)) ok why))
      (\<lambda>_. mid v D n (present n) at_work)" for i ok why
    by (rule triple_step [OF assms(1)]) (auto simp: look_defs)
  note select = this [THEN triple_seq]
  show ?thesis
    unfolding select_steps_def assms(2)
    by (rule step_rules select triple_save [OF assms(1), THEN triple_seq] status_simps)+
qed

text \<open>\<open>fine\<close>: the durable run fits, which is all that is left to say when an operation has ended.\<close>

definition fine :: "('w \<Rightarrow> drive) \<Rightarrow> drive \<Rightarrow> 'w media_state \<Rightarrow> bool" where
  "fine v D s \<longleftrightarrow> run_fits D (ms_saved s) (v (ms_world s))"

lemma held_fine: "held v D n s \<Longrightarrow> fine v D s"
  by (simp add: held_def fine_def)

lemma lost_held: "lost v D n e s \<Longrightarrow> held v D n s"
  by (simp add: lost_def)

lemma triple_clock:
  assumes "exclusive W v"
  shows "triple v D n (mid v D n P L) (read_clock W) (\<lambda>_. mid v D n P L)"
proof (intro tripleI exclusive_clock [OF assms])
qed (simp add: mid_def)

lemma triple_final_save:
  assumes "exclusive W v"
    and "\<And>r d. rid_of n D \<Longrightarrow> name_of r = Some n \<Longrightarrow> pred_option L (status_of r) \<Longrightarrow> others_kept n D d \<Longrightarrow> P d \<Longrightarrow> run_fits D r d"
  shows "triple v D n (mid v D n P L) (save_media W) (\<lambda>_. fine v D)"
proof (intro tripleI exclusive_save [OF assms(1)])
qed (auto simp: mid_def fine_def assms(2) intro!: mid_lost [where P = P and L = L])

lemma mid_connect:
  assumes "exclusive W v" "mx_name x = n"
  shows "triple v D n (mid v D n (present n) at_work) (media_seq (connect_steps W t x)) (\<lambda>_. fine v D)"
proof -
  have "triple v D n (mid v D n (present n) at_work) (drop_result (prove_call W x (Mc_connect i) (\<lambda>g. mg_connected g \<and> mg_selected g = Some n) why))
      (\<lambda>_. mid v D n (attached_to n) at_work)" for i why
    by (rule triple_step [OF assms(1)]) (auto simp: look_defs)
  note connect = this [THEN triple_seq]
  have "triple v D n (mid v D n (attached_to n) at_work) (mark_attached W) (\<lambda>_. mid v D n (attached_to n) (\<lambda>st. st = Ms_attached))"
    unfolding mark_attached_def by (rule triple_bind [OF triple_clock [OF assms(1)] triple_edit]) simp_all
  note mark = this [THEN triple_seq]
  have "triple v D n (mid v D n (attached_to n) (\<lambda>st. st = Ms_attached)) (save_media W) (\<lambda>_. fine v D)"
    by (rule triple_final_save [OF assms(1)]) (auto simp: drive_defs split: option.splits)
  note save = this [THEN triple_seq]
  show ?thesis
    unfolding connect_steps_def assms(2)
    by (rule save mark connect step_rules triple_save [OF assms(1), THEN triple_seq] status_simps)+
qed

lemma drive_attach:
  assumes "exclusive W v" "mx_name x = n"
  shows "triple v D n (begun v D n (\<lambda>_. True) L) (attach W t x) (\<lambda>_. fine v D)"
  unfolding attach_def append_Cons append_Nil
  by (rule triple_seq triple_append begun_target begun_lease begun_upload mid_select mid_connect assms)+

subsection \<open>When something fails\<close>

lemma drive_latch:
  assumes "exclusive W v" "held v D n s"
  shows "wp (latch_cleanup W t x m) (\<lambda>_. fine v D) (\<lambda>_. fine v D) s"
  unfolding latch_cleanup_def wp_simps using assms(2)
  by (intro exclusive_save [OF assms(1)]) (auto simp: fine_def drive_defs split: option.splits)

lemma drive_refuse:
  assumes "exclusive W v" "held v D n s" "v (ms_world s) = D"
  shows "wp (refuse_attach W t x m) (\<lambda>_. fine v D) (\<lambda>_. fine v D) s"
  unfolding refuse_attach_def wp_simps using assms(2, 3)
  by (intro exclusive_save [OF assms(1)]) (auto simp: fine_def drive_defs split: option.splits)

text \<open>Rolling back: what the last look showed decides which steps are needed.\<close>

lemma rollback_looks:
  assumes "exclusive W v" "mx_name x = n"
  shows "triple v D n (mid v D n (\<lambda>_. True) at_work) (inspect_own W x ok why) (\<lambda>g. mid v D n (shows_drive g) at_work)"
proof (intro tripleI exclusive_own [OF assms(1)])
qed (auto simp: mid_def intro!: mid_lost [where P = "\<lambda>_. True" and L = at_work])

lemma triple_if:
  assumes "b \<Longrightarrow> triple v D n P m Q" "\<not> b \<Longrightarrow> triple v D n P m' Q"
  shows "triple v D n P (if b then m else m') Q"
  using assms by simp

lemma triple_return: "(\<And>s. P s \<Longrightarrow> Q g s) \<Longrightarrow> triple v D n P (media_return g) Q"
  by (simp add: triple_def wp_simps)

lemma triple_raise: "\<not> preflight e \<Longrightarrow> triple v D n (mid v D n P L) (media_raise e) Q"
  by (simp add: triple_def wp_simps mid_lost)

lemma triple_proved:
  assumes "exclusive W v" "\<And>d. P d \<Longrightarrow> P (drive_call c d)" "\<And>d. others_kept n D d \<Longrightarrow> others_kept n D (drive_call c d)"
    and "\<And>d. P0 d \<Longrightarrow> P d" "\<And>g d. P d \<Longrightarrow> shows_drive g d \<Longrightarrow> ok g \<Longrightarrow> R g d"
  shows "triple v D n (mid v D n P0 L) (prove_call W x c ok why) (\<lambda>g. mid v D n (R g) L)"
proof -
  have "triple v D n (mid v D n P L) (prove_call W x c ok why) (\<lambda>g. mid v D n (\<lambda>d. P d \<and> shows_drive g d \<and> ok g) L)"
    by (rule triple_prove) (use assms(1-3) in auto)
  note prove = this
  show ?thesis
  proof (rule tripleI)
    fix s assume "mid v D n P0 L s"
    then have "mid v D n P L s" by (rule mid_weaken) (rule assms(4))
    then show "wp (prove_call W x c ok why) (\<lambda>g. mid v D n (R g) L) (lost v D n) s"
      by (rule triple_wp [OF prove]) (auto simp: mid_def intro: assms(5))
  qed
qed

lemma rollback_drive:
  assumes "exclusive W v" "mx_name x = n"
  shows "triple v D n (mid v D n (\<lambda>_. True) at_work) (rollback_steps W t x) (\<lambda>_. mid v D n (rid_of n) at_work)"
proof -
  note save = triple_save [OF assms(1), THEN triple_seq]
  have disconnect: "triple v D n (mid v D n (shows_drive g) at_work) (rollback_disconnect W t x g)
      (\<lambda>g. mid v D n (\<lambda>d. shows_drive g d \<and> \<not> dr_connected d) at_work)" for g
    unfolding rollback_disconnect_def assms(2)
    by (intro triple_if triple_bind [OF triple_seq [OF triple_log(1) save [OF triple_end]]] triple_return
        triple_proved [where P = "\<lambda>_. True", OF assms(1)]) (auto simp: mid_def look_defs)
  have clear: "triple v D n (mid v D n (\<lambda>d. shows_drive g d \<and> \<not> dr_connected d) at_work) (rollback_clear W t x g)
      (\<lambda>g. mid v D n (\<lambda>d. shows_drive g d \<and> \<not> dr_connected d \<and> dr_selected d = None) at_work)" for g
    unfolding rollback_clear_def assms(2)
    by (intro triple_if triple_bind [OF triple_seq [OF triple_log(1) save [OF triple_end]]] triple_return
        triple_raise triple_proved [where P = "\<lambda>d. \<not> dr_connected d", OF assms(1)]) (auto simp: mid_def look_defs)
  have remove: "triple v D n (mid v D n (\<lambda>d. shows_drive g d \<and> \<not> dr_connected d \<and> dr_selected d = None) at_work) (rollback_remove W t x g)
      (\<lambda>_. mid v D n (rid_of n) at_work)" for g
    unfolding rollback_remove_def assms(2)
    by (intro triple_if triple_bind [OF triple_seq [OF triple_log(1) save [OF triple_end]]] triple_return
        triple_proved [where P = "\<lambda>d. \<not> dr_connected d \<and> dr_selected d = None", OF assms(1)]) (auto simp: mid_def look_defs)
  show ?thesis
    unfolding rollback_steps_def
    by (intro triple_drop triple_bind [OF rollback_looks [OF assms]] triple_bind [OF disconnect] triple_bind [OF clear] remove)
qed

lemma drive_confirmed:
  assumes "exclusive W v"
  shows "triple v D n (mid v D n (rid_of n) at_work) (rollback_confirmed W t x m q) (\<lambda>_. fine v D)"
proof -
  have "triple v D n (mid v D n (rid_of n) (\<lambda>st. st = Ms_released)) (save_media W) (\<lambda>_. fine v D)"
    by (rule triple_final_save [OF assms]) (auto simp: drive_defs rid_same split: option.splits)
  note save = this [THEN triple_seq]
  have "triple v D n (mid v D n (rid_of n) at_work) (edit_media (\<lambda>x. x\<lparr>mx_status := Ms_released, mx_released := w\<rparr>))
      (\<lambda>_. mid v D n (rid_of n) (\<lambda>st. st = Ms_released))" for w
    by (rule triple_edit) simp_all
  note edit = this [THEN triple_seq]
  have "triple v D n (fine v D) (remove_file i) (\<lambda>_. fine v D)" for i
    by (simp add: triple_def wp_simps fine_def)
  note remove = this [THEN triple_seq]
  show ?thesis
    unfolding rollback_confirmed_def by (rule edit save remove step_rules)+
qed

lemma wp_try:
  "wp (\<lambda>s. case m s of (Inl e, s') \<Rightarrow> h e s' | (Inr _, s') \<Rightarrow> k s') Q E = wp m (\<lambda>_. wp k Q E) (\<lambda>e. wp (h e) Q E)"
  by (rule ext) (simp add: wp_def split: prod.split sum.split)

lemma drive_rollback:
  assumes "exclusive W v" "mx_name x = n" "held v D n s" "rid_of n D"
  shows "wp (rollback W t x m) (\<lambda>_. fine v D) (\<lambda>_. fine v D) s"
proof -
  have undo: "wp (rollback_steps W t x) (\<lambda>_. wp (media_bind (read_clock W) (rollback_confirmed W t x m)) (\<lambda>_. fine v D) (\<lambda>_. fine v D))
      (\<lambda>e. wp (latch_cleanup W t x (u ''rollback could not be proven: '' @ exn_named e)) (\<lambda>_. fine v D) (\<lambda>_. fine v D)) s"
    if "mid v D n (\<lambda>_. True) at_work s" for s
  proof (rule triple_wp [OF rollback_drive [OF assms(1, 2)] that])
    show "wp (media_bind (read_clock W) (rollback_confirmed W t x m)) (\<lambda>_. fine v D) (\<lambda>_. fine v D) s"
      if "mid v D n (rid_of n) at_work s" for s
      by (rule triple_wp [OF triple_bind [OF triple_clock [OF assms(1)] drive_confirmed [OF assms(1)]] that])
        (auto intro: held_fine lost_held)
  qed (auto intro: drive_latch [OF assms(1)] lost_held)
  have "wp (save_media W) (\<lambda>_. wp (rollback_steps W t x) (\<lambda>_. wp (media_bind (read_clock W) (rollback_confirmed W t x m)) (\<lambda>_. fine v D) (\<lambda>_. fine v D))
      (\<lambda>e. wp (latch_cleanup W t x (u ''rollback could not be proven: '' @ exn_named e)) (\<lambda>_. fine v D) (\<lambda>_. fine v D))) (\<lambda>_. fine v D) s'"
    if "held v D n s'" "pred_option at_work (status_of (ms_run s'))" for s'
    by (intro exclusive_save [OF assms(1)] undo) (use that assms(4) in \<open>auto simp: mid_def held_def fine_def\<close>)
  with assms(3) show ?thesis
    unfolding rollback_def wp_simps wp_try by (auto simp: held_def name_of_def status_of_def)
qed

lemma drive_failed:
  assumes "exclusive W v" "mx_name x = n" "lost v D n e s"
  shows "wp (attach_failed W t x e) (\<lambda>_. fine v D) (\<lambda>_. fine v D) s"
  using assms by (cases e) (auto simp: attach_failed_def lost_def intro: drive_latch drive_refuse drive_rollback)

subsection \<open>Releasing\<close>

definition rest :: "('w \<Rightarrow> drive) \<Rightarrow> drive \<Rightarrow> pystr \<Rightarrow> (media_status \<Rightarrow> bool) \<Rightarrow> 'w media_state \<Rightarrow> bool" where
  "rest v D n L s \<longleftrightarrow> held v D n s \<and> rid_of n D \<and> pred_option L (status_of (ms_run s))"

lemma rest_lost: "rest v D n L s \<Longrightarrow> \<not> preflight e \<Longrightarrow> lost v D n e s"
  by (simp add: rest_def lost_def)

lemma rest_log: "triple v D n (rest v D n L) (log_event t k d) (\<lambda>_. rest v D n L)"
  by (simp add: triple_def wp_simps rest_def held_def name_of_def status_of_def)

lemma rest_set: "at_work st \<Longrightarrow> triple v D n (rest v D n L) (edit_media (set_status st)) (\<lambda>_. rest v D n at_work)"
  by (auto simp: triple_def wp_simps rest_def held_def name_of_def status_of_def set_status_def)

lemma rest_look:
  assumes "exclusive W v"
  shows "triple v D n (rest v D n L) (drop_result (inspect_own W x ok why)) (\<lambda>_. rest v D n L)"
proof (rule triple_drop, intro tripleI exclusive_own [OF assms])
qed (auto simp: rest_def held_def lost_def)

lemma rest_save:
  assumes "exclusive W v"
  shows "triple v D n (rest v D n at_work) (save_media W) (\<lambda>_. mid v D n (\<lambda>_. True) at_work)"
proof (intro tripleI exclusive_save [OF assms])
qed (auto simp: rest_def mid_def held_def lost_def)

lemma drive_release:
  assumes "exclusive W v" "mx_name x = n"
  shows "triple v D n (rest v D n L) (media_seq (release_steps W t x m)) (\<lambda>_. fine v D)"
proof -
  have disconnect: "triple v D n (mid v D n (\<lambda>_. True) at_work)
      (drop_result (prove_call W x (Mc_disconnect i) (\<lambda>g. \<not> mg_connected g) why)) (\<lambda>_. mid v D n (\<lambda>d. \<not> dr_connected d) at_work)" for i why
    by (rule triple_step [OF assms(1)]) (auto simp: look_defs)
  have clear: "triple v D n (mid v D n (\<lambda>d. \<not> dr_connected d) at_work)
      (drop_result (prove_call W x (Mc_select i None) (\<lambda>g. mg_selected g = None) why))
      (\<lambda>_. mid v D n (\<lambda>d. \<not> dr_connected d \<and> dr_selected d = None) at_work)" for i why
    by (rule triple_step [OF assms(1)]) (auto simp: look_defs)
  have remove: "triple v D n (mid v D n (\<lambda>d. \<not> dr_connected d \<and> dr_selected d = None) at_work)
      (drop_result (prove_call W x (Mc_remove i n) (\<lambda>g. n \<notin> set (mg_images g)) why)) (\<lambda>_. mid v D n (rid_of n) at_work)" for i why
    by (rule triple_step [OF assms(1)]) (auto simp: look_defs)
  have mark: "triple v D n (mid v D n (rid_of n) at_work) (mark_released W) (\<lambda>_. mid v D n (rid_of n) (\<lambda>st. st = Ms_released))"
    unfolding mark_released_def by (rule triple_bind [OF triple_clock [OF assms(1)] triple_edit]) simp_all
  have save: "triple v D n (mid v D n (rid_of n) (\<lambda>st. st = Ms_released)) (save_media W) (\<lambda>_. fine v D)"
    by (rule triple_final_save [OF assms(1)]) (auto simp: drive_defs rid_same split: option.splits)
  have unlink: "triple v D n (fine v D) (remove_file i) (\<lambda>_. fine v D)" for i
    by (simp add: triple_def wp_simps fine_def)
  note steps = disconnect [THEN triple_seq] clear [THEN triple_seq] remove [THEN triple_seq] mark [THEN triple_seq] unlink [THEN triple_seq]
    rest_look [OF assms(1), THEN triple_seq] rest_set [THEN triple_seq] rest_log [THEN triple_seq]
  show ?thesis
    unfolding release_steps_def assms(2)
    by (rule save [THEN triple_seq] steps rest_save [OF assms(1), THEN triple_seq] step_rules triple_save [OF assms(1), THEN triple_seq] status_simps)+
qed

subsection \<open>Every operation\<close>

abbreviation loaded :: "'w media_state \<Rightarrow> 'w media_state" where
  "loaded s \<equiv> s\<lparr>ms_run := (ms_saved s)\<lparr>mr_run := (mr_run (ms_saved s))\<lparr>ru_events := []\<rparr>\<rparr>\<rparr>"

lemma wp_loaded: "wp load_media Q E s = Q (ms_run (loaded s)) (loaded s)"
  by (simp add: wp_simps Let_def)

lemma wp_nil: "wp (media_seq []) Q E = Q ()" "wp (media_bind m f) Q E = wp m (\<lambda>x. wp (f x) Q E) E"
  by (rule ext, simp add: wp_simps)+

lemma fine_loaded: "fine v D s \<Longrightarrow> fine v D (loaded s)"
  by (simp add: fine_def)

lemma fine_release:
  assumes "exclusive W v" "fine v D s"
  shows "wp (release_media W t m) (\<lambda>_. fine v D) (\<lambda>_. fine v D) s"
proof -
  have "wp (media_catch (media_seq (release_steps W t x m)) (release_failed W t x)) (\<lambda>_. fine v D) (\<lambda>_. fine v D) (loaded s)"
    if "releasable (ms_run (loaded s)) = Inr x" for x
  proof -
    from that assms(2) have "rest v D (mx_name x) (\<lambda>_. True) (loaded s)"
      by (auto simp: releasable_def fine_def rest_def drive_defs at_work_def split: option.splits if_splits)
    then show ?thesis
      unfolding wp_catch release_failed_def
      by (rule triple_wp [OF drive_release [OF assms(1) refl]]) (auto intro: drive_latch [OF assms(1)] lost_held)
  qed
  with assms(2) show ?thesis
    unfolding release_media_def wp_bind wp_loaded by (auto simp: wp_simps fine_def split: sum.split)
qed

lemma fine_expire:
  assumes "exclusive W v" "fine v D s"
  shows "wp (release_if_expired W t) (\<lambda>_. fine v D) (\<lambda>_. fine v D) s"
  unfolding release_if_expired_def wp_bind wp_loaded using assms(2)
  by (auto simp: wp_simps fine_def split: option.split intro!: exclusive_clock [OF assms(1)] fine_release [OF assms(1)])

lemma fine_resolve:
  assumes "exclusive W v" "fine v D s"
  shows "wp (resolve_media W t a c) (\<lambda>_. fine v D) (\<lambda>_. fine v D) s"
proof -
  have "wp (decide_attach W t a c x) (\<lambda>_. fine v D) (\<lambda>_. fine v D) (loaded s)"
    if p: "pending_transaction (ms_run (loaded s)) a = Inr x" for x
  proof -
    from pending_Inr [OF p] have x: "mr_media (ms_saved s) = Some x" "mx_status x = Ms_awaiting" by auto
    with assms(2) have d: "v (ms_world s) = D" by (simp add: fine_def drive_defs)
    have reject: "wp (reject_attach W t x a c) (\<lambda>_. fine v D) (\<lambda>_. fine v D) (loaded s)"
      unfolding reject_attach_def wp_simps using x d
      by (intro exclusive_save [OF assms(1)]) (auto simp: fine_def drive_defs set_status_def)
    have approve: "wp (attach W t x) (\<lambda>_. fine v D) (\<lambda>e. wp (attach_failed W t x e) (\<lambda>_. fine v D) (\<lambda>_. fine v D)) s'"
      if "begun v D (mx_name x) (\<lambda>_. True) (\<lambda>_. True) s'" for s'
      using that
      by (rule triple_wp [OF drive_attach [OF assms(1) refl]]) (auto intro: drive_failed [OF assms(1) refl])
    show ?thesis
      using x d reject fine_loaded [OF assms(2)]
      by (simp add: decide_attach_def Let_def wp_simps wp_nil approve begun_def name_of_def status_of_def)
  qed
  with assms(2) show ?thesis
    unfolding resolve_media_def wp_bind wp_loaded by (auto simp: wp_simps fine_def split: sum.split)
qed

text \<open>Before there is a transaction, the drive is as it was found.\<close>

definition vacant :: "('w \<Rightarrow> drive) \<Rightarrow> drive \<Rightarrow> 'w media_state \<Rightarrow> bool" where
  "vacant v D s \<longleftrightarrow> v (ms_world s) = D \<and> mr_media (ms_saved s) = None \<and> mr_media (ms_run s) = None"

lemma vacant_fine: "vacant v D s \<Longrightarrow> fine v D s"
  by (simp add: vacant_def fine_def run_fits_def)

lemma vacant_failed:
  assumes "exclusive W v" "vacant v D s"
  shows "wp (preflight_failed W t q a e) Q (\<lambda>_. fine v D) s"
  using assms(2) by (cases e) (auto simp: preflight_failed_def Let_def wp_simps vacant_def fine_def run_fits_def intro!: exclusive_save [OF assms(1)])

lemma vacant_target:
  assumes "exclusive W v" "vacant v D s"
  shows "wp (stage_target W t q b i) (\<lambda>_. vacant v D) (\<lambda>_. fine v D) s"
proof (cases i)
  case None
  then show ?thesis by (simp add: stage_target_def vacant_failed [OF assms])
next
  case (Some i)
  have "vacant v D (s\<lparr>ms_world := w\<rparr>)" if "v w = v (ms_world s)" for w using that assms(2) by (simp add: vacant_def)
  then show ?thesis
    unfolding stage_target_def Some option.case wp_simps
    by (intro exclusive_inspect [OF assms(1)]) (auto simp: wp_simps vacant_failed [OF assms(1)] split: sum.split)
qed

lemma vacant_open:
  assumes "exclusive W v" "vacant v D s" "mx_status x = Ms_prepared"
  shows "wp (open_checked W t x) (\<lambda>_. fine v D) (\<lambda>_. fine v D) s"
proof -
  have "wp (open_transaction W t x) (\<lambda>_. fine v D) (\<lambda>_. fine v D) s"
    unfolding open_transaction_def wp_simps using assms(2, 3)
    by (intro exclusive_save [OF assms(1)]) (auto simp: vacant_def fine_def drive_defs set_status_def intro!: exclusive_save [OF assms(1)])
  then show ?thesis using assms(2) by (simp add: open_checked_def wp_simps vacant_fine)
qed

lemma fine_stage:
  assumes "exclusive W v" "fine v D s"
  shows "wp (stage_media W t i a q p) (\<lambda>_. fine v D) (\<lambda>_. fine v D) s"
proof (cases "mr_media (ms_saved s)")
  case None
  with assms(2) have vacant: "vacant v D (loaded s)" by (simp add: vacant_def fine_def run_fits_def)
  have last: "wp (stage_file i) (\<lambda>_. wp (read_clock W) (\<lambda>now. wp (open_checked W t (new_transaction i a q p b k g now))
      (\<lambda>_. fine v D) (\<lambda>_. fine v D)) (\<lambda>_. fine v D)) (\<lambda>_. fine v D) s'" if "vacant v D s'" for s' b k g
    using that by (auto simp: wp_simps vacant_fine vacant_def new_transaction_def intro!: exclusive_clock [OF assms(1)] vacant_open [OF assms(1)])
  have "wp (stage_target W t q b k) (\<lambda>z. wp (stage_file i) (\<lambda>_. wp (read_clock W) (\<lambda>now. wp (open_checked W t (new_transaction i a q p b (fst z) (snd z) now))
      (\<lambda>_. fine v D) (\<lambda>_. fine v D)) (\<lambda>_. fine v D)) (\<lambda>_. fine v D)) (\<lambda>_. fine v D) (loaded s)" for b k
    by (rule wp_mono [OF vacant_target [OF assms(1) vacant]]) (simp_all add: last)
  with None fine_loaded [OF assms(2)] show ?thesis
    unfolding stage_media_def wp_bind wp_loaded by (auto simp: wp_nil wp_pure wp_if case_prod_unfold split: sum.split)
next
  case (Some x)
  with fine_loaded [OF assms(2)] show ?thesis unfolding stage_media_def wp_bind wp_loaded by (simp add: wp_simps)
qed

lemma fine_step: "exclusive W v \<Longrightarrow> fine v D s \<Longrightarrow> fine v D (snd (media_step W a s))"
  unfolding wp_any [symmetric] by (cases a) (simp_all add: fine_stage fine_resolve fine_release fine_expire)

text \<open>
  C9. The recorded status of a media transaction is true of the drive. On a drive that nobody else uses, whichever
  calls fail or do nothing and whichever saves fail: as long as the transaction is prepared, awaits approval or
  was rejected, the drive is as it was found; when it is recorded as attached, the image is there, selected and
  connected; when it is recorded as released, the drive has again the connection, the selection and the images it
  was found with; and no other image is ever touched.
\<close>

theorem media_status_is_true:
  fixes W :: "'w media_world" and v :: "'w \<Rightarrow> drive" and as :: "media_action list" and r :: run_snapshot and w :: 'w
  assumes "exclusive W v"
  defines "s \<equiv> media_steps W as (media_init r w)"
  defines "d \<equiv> v (ms_world s)"
  shows "case mr_media (ms_saved s) of
      None \<Rightarrow> d = v w
    | Some x \<Rightarrow> (mx_status x \<in> {Ms_prepared, Ms_awaiting, Ms_rejected} \<longrightarrow> d = v w)
        \<and> (mx_status x = Ms_attached \<longrightarrow> dr_connected d \<and> dr_selected d = Some (mx_name x) \<and> mx_name x \<in> set (dr_images d))
        \<and> (mx_status x = Ms_released \<longrightarrow>
            dr_connected d = dr_connected (v w) \<and> dr_selected d = dr_selected (v w) \<and> set (dr_images d) = set (dr_images (v w)))
        \<and> set (dr_images d) - {mx_name x} = set (dr_images (v w)) - {mx_name x}"
proof -
  have "fine v (v w) (media_steps W as s0)" if "fine v (v w) s0" for s0
    using that unfolding media_steps_def by (induction as arbitrary: s0) (simp_all add: fine_step [OF assms(1)])
  moreover have "fine v (v w) (media_init r w)" by (simp add: media_init_def Let_def fine_def run_fits_def)
  ultimately have "fine v (v w) s" by (simp add: s_def)
  then show ?thesis
    unfolding fine_def run_fits_def status_fits_def attached_to_def same_media_def others_kept_def untouched_def d_def
    by (auto split: option.splits)
qed

subsection \<open>A concrete drive, and two runs on it\<close>

lemma wp_demo:
  "wp (save_media (drive_world f)) Q E s = Q () (s\<lparr>ms_saved := ms_run s\<rparr>)"
  "wp (read_clock (drive_world f)) Qr E s = Qr 0 s"
  "wp (inspect_target (drive_world f) i) Qg E s = Qg (drive_target (ms_world s)) s"
  "wp (send_call (drive_world f) c) Q E s = (case f c of
     None \<Rightarrow> Q () (s\<lparr>ms_calls := ms_calls s @ [(c, ms_saved s)], ms_world := drive_call c (ms_world s)\<rparr>)
   | Some e \<Rightarrow> E e (s\<lparr>ms_calls := ms_calls s @ [(c, ms_saved s)]\<rparr>))"
  by (simp_all add: wp_def drive_world_def save_media_def read_clock_def inspect_target_def send_call_def split: option.split)

definition demo_txn :: media_txn where
  "demo_txn = new_transaction (u ''t'') (u ''q'') demo_request demo_receipt 1 (u ''s'') (drive_target (demo_drive [])) 0"

lemma demo_facts:
  "validate_receipt demo_receipt = Inr 1" "validate_run_target (demo_media_run\<lparr>ru_events := []\<rparr>) demo_request = Inr ()"
  "ru_session (demo_media_run\<lparr>ru_events := []\<rparr>) = Some (u ''s'')"
  "validate_preflight (drive_target (demo_drive [])) (mq_fingerprint demo_request) (mq_epoch demo_request) (mq_name demo_request) 1 = Inr ()"
  "txn_ok demo_txn"
  by code_simp+

definition demo_staged :: "drive media_state \<Rightarrow> bool" where
  "demo_staged s \<longleftrightarrow> mr_media (ms_saved s) = Some (demo_txn\<lparr>mx_status := Ms_awaiting\<rparr>) \<and> ms_artifacts s = [u ''t''] \<and> ms_calls s = []
     \<and> ms_world s = demo_drive [] \<and> (\<exists>r. ru_approval (mr_run (ms_saved s)) = Some (media_approval_request r demo_txn))"

lemma demo_stage:
  "wp (stage_media (drive_world f) 0 (u ''t'') (u ''q'') demo_request demo_receipt) (\<lambda>_. demo_staged) (\<lambda>_ _. False)
     (media_init demo_media_run (demo_drive []))"
  by (simp add: stage_media_def media_init_def Let_def wp_simps wp_nil wp_demo stage_target_def demo_facts demo_txn_def [symmetric] open_checked_def
     open_transaction_def set_status_def record_event_keeps demo_staged_def) blast

lemma demo_values:
  "mx_id demo_txn = u ''t''" "mx_approval demo_txn = u ''q''" "mx_session demo_txn = u ''s''" "mx_name demo_txn = u ''a.iso''"
  "mx_fingerprint demo_txn = u ''pc''" "mx_epoch demo_txn = 1" "mx_bytes demo_txn = 1" "mx_lease demo_txn = 60"
  by (simp_all add: demo_txn_def new_transaction_def demo_request_def)

lemma demo_pending:
  assumes "mr_media r = Some (demo_txn\<lparr>mx_status := Ms_awaiting\<rparr>)" "ru_approval (mr_run r) = Some (media_approval_request k demo_txn)"
  shows "pending_transaction r (u ''q'') = Inr (demo_txn\<lparr>mx_status := Ms_awaiting\<rparr>)"
proof -
  have "get_none (media_approval_request k demo_txn) (u ''approval_id'') = PStr (u ''q'')"
    by (simp add: media_approval_request_def demo_values get_none_def get_or_def)
  moreover have "str_or_empty (PStr (u ''q'')) = u ''q''" "compare_digest (u ''q'') (u ''q'') = Inr True" "u ''q'' \<noteq> []" by code_simp+
  ultimately show ?thesis using assms by (simp add: pending_transaction_def demo_values bind_result_def Let_def)
qed

lemma demo_kind: "str_or_empty (get_none [(u ''type'', PStr (u ''approve''))] (u ''type'')) = u ''approve''" "u ''approve'' \<noteq> u ''reject''"
  by code_simp+

lemma drive_target_simps [simp]:
  "mg_connected (drive_target d) = dr_connected d" "mg_selected (drive_target d) = dr_selected d" "mg_images (drive_target d) = dr_images d"
  "mg_fingerprint (drive_target d) = u ''pc''" "mg_epoch (drive_target d) = 1"
  by (simp_all add: drive_target_def)

lemma demo_drive_simps [simp]: "\<not> dr_connected (demo_drive is)" "dr_selected (demo_drive is) = None" "dr_images (demo_drive is) = is"
  by (simp_all add: demo_drive_def)

lemma demo_clear: "validate_preflight (drive_target (demo_drive [])) (u ''pc'') 1 (u ''a.iso'') 1 = Inr ()"
  by code_simp

lemmas attach_defs = resolve_media_def decide_attach_def attach_def check_target_def check_lease_def upload_steps_def select_steps_def
  connect_steps_def mark_attached_def prove_call_def inspect_own_def require_identity_def clear_approval_def set_status_def

lemmas demo_simps = demo_staged_def demo_pending demo_kind demo_clear Let_def wp_simps wp_nil wp_demo demo_values record_event_keeps
  status_of_def name_of_def

definition connect_refused :: "media_call \<Rightarrow> media_exn option" where
  "connect_refused c = (case c of Mc_connect _ \<Rightarrow> Some (Mx_definite []) | _ \<Rightarrow> None)"

lemma demo_attach:
  assumes "demo_staged s"
  shows "wp (resolve_media (drive_world never_fails) 0 (u ''q'') [(u ''type'', PStr (u ''approve''))])
    (\<lambda>_ s. status_of (ms_saved s) = Some Ms_attached \<and> name_of (ms_saved s) = Some (u ''a.iso'') \<and> length (ms_calls s) = 3) (\<lambda>_ _. False) s"
  using assms by (auto simp: demo_simps attach_defs never_fails_def)

lemma demo_rollback:
  assumes "demo_staged s"
  shows "wp (resolve_media (drive_world connect_refused) 0 (u ''q'') [(u ''type'', PStr (u ''approve''))])
    (\<lambda>_ s. status_of (ms_saved s) = Some Ms_released \<and> length (ms_calls s) = 5) (\<lambda>_ _. False) s"
  using assms
  by (auto simp: demo_simps attach_defs attach_failed_def rollback_def wp_try rollback_steps_def rollback_disconnect_def rollback_clear_def rollback_remove_def
      rollback_confirmed_def connect_refused_def)

lemma demo_approved:
  assumes "\<And>s. demo_staged s \<Longrightarrow> wp (resolve_media (drive_world f) 0 (u ''q'') [(u ''type'', PStr (u ''approve''))]) (\<lambda>_. Q) (\<lambda>_ _. False) s"
  shows "Q (media_steps (drive_world f) (stage_and ''approve'') (media_init demo_media_run (demo_drive [])))"
proof -
  let ?s = "snd (stage_media (drive_world f) 0 (u ''t'') (u ''q'') demo_request demo_receipt (media_init demo_media_run (demo_drive [])))"
  have "demo_staged ?s"
    using demo_stage [of f] by (auto simp: wp_def split: prod.splits sum.splits)
  from assms [OF this] show ?thesis
    by (auto simp: media_steps_def stage_and_def wp_def split: prod.splits sum.splits)
qed

lemma drive_world_exclusive: "(\<And>c e. f c = Some e \<Longrightarrow> \<not> preflight e) \<Longrightarrow> exclusive (drive_world f) (\<lambda>d. d)"
  by (auto simp: exclusive_def drive_world_def truthful_def shows_drive_def split: option.split)

abbreviation demo_end :: "(media_call \<Rightarrow> media_exn option) \<Rightarrow> drive media_state" where
  "demo_end f \<equiv> media_steps (drive_world f) (stage_and ''approve'') (media_init demo_media_run (demo_drive []))"

theorem media_status_is_true_witness:
  "dr_selected (ms_world (demo_end never_fails)) = Some (u ''a.iso'') \<and> length (ms_calls (demo_end never_fails)) = 3
   \<and> dr_images (ms_world (demo_end connect_refused)) = [] \<and> length (ms_calls (demo_end connect_refused)) = 5"
proof -
  have a: "status_of (ms_saved (demo_end never_fails)) = Some Ms_attached \<and> name_of (ms_saved (demo_end never_fails)) = Some (u ''a.iso'')
      \<and> length (ms_calls (demo_end never_fails)) = 3"
    by (rule demo_approved) (rule demo_attach)
  have r: "status_of (ms_saved (demo_end connect_refused)) = Some Ms_released \<and> length (ms_calls (demo_end connect_refused)) = 5"
    by (rule demo_approved) (rule demo_rollback)
  have "exclusive (drive_world never_fails) (\<lambda>d. d)" "exclusive (drive_world connect_refused) (\<lambda>d. d)"
    by (rule drive_world_exclusive; auto simp: never_fails_def connect_refused_def split: media_call.splits)+
  note this [THEN media_status_is_true, of "stage_and ''approve''" demo_media_run "demo_drive []"]
  with a r show ?thesis
    by (auto simp: status_of_def name_of_def split: option.splits)
qed

text \<open>
  A request may have an image name that the record of a transaction does not accept: then staging fails with a
  validation error after the private copy was made, and nothing refers to the copy any more.
\<close>

definition long_name_request :: media_request where
  "long_name_request = demo_request\<lparr>mq_name := replicate 97 97 @ u ''.iso''\<rparr>"

lemma long_name_strands_copy:
  "request_ok long_name_request"
  "wp (stage_media (drive_world f) 0 (u ''t'') (u ''q'') long_name_request demo_receipt) (\<lambda>_ _. False)
    (\<lambda>e s. e = Mx_other (u ''ValidationError'') [] \<and> ms_artifacts s = [u ''t''] \<and> mr_media (ms_saved s) = None)
    (media_init demo_media_run (demo_drive []))"
proof -
  show "request_ok long_name_request" by code_simp
  have facts: "validate_run_target (demo_media_run\<lparr>ru_events := []\<rparr>) long_name_request = Inr ()"
    "validate_preflight (drive_target (demo_drive [])) (mq_fingerprint long_name_request) (mq_epoch long_name_request) (mq_name long_name_request) 1 = Inr ()"
    "\<not> txn_ok (new_transaction (u ''t'') (u ''q'') long_name_request demo_receipt 1 (u ''s'') (drive_target (demo_drive [])) 0)"
    by code_simp+
  show "wp (stage_media (drive_world f) 0 (u ''t'') (u ''q'') long_name_request demo_receipt) (\<lambda>_ _. False)
    (\<lambda>e s. e = Mx_other (u ''ValidationError'') [] \<and> ms_artifacts s = [u ''t''] \<and> mr_media (ms_saved s) = None)
    (media_init demo_media_run (demo_drive []))"
    by (simp add: stage_media_def media_init_def Let_def wp_simps wp_nil wp_demo stage_target_def demo_facts facts open_checked_def)
qed

end
