(* ===== verification/Spec2Isabelle.thy ===== *)
theory Spec2Isabelle
  imports AgentGraphProps Transactions Pointer WindowsLaunch BurstRun DirectGate BurstScenes
    ScreenWait DirectScenes ModelPool ControllerDecision MediaDrive
begin

text \<open>
  A model of the decision core of pikvm-agent, a program that lets language models operate a computer through
  a KVM device: it sees the screen, and presses keys, moves the mouse and attaches media. All paths below are
  under \<open>src/pikvm_agent/\<close>.

  \<^bold>\<open>The parts and how they interact.\<close> There are two ways to act. In the operator loop a planning model looks
  at a frame and proposes a transaction; the graph (\<open>graph/\<close>) checks it for freshness against the frame
  store, for its schema, for the mode of the screen and against the policy (\<open>policy/\<close>), asks a human where
  the policy says so, and hands it to the guarded executor (\<open>executor/transactions.py\<close>), which verifies what it
  typed (\<open>executor/verification.py\<close>). In direct control a client sends whole bursts of actions to the runtime
  (\<open>runtime.py\<close>), which validates them (\<open>executor/burst.py\<close>), classifies them with a gate of its own
  (\<open>policy/direct.py\<close>), keeps receipts so that a retry never acts twice, and runs them while polling for a
  stop. Around direct control the harness (\<open>harness/\<close>) keeps durable runs with an append-only rail of events,
  grants the calls of a client one by one, records what an input was proved to have done, asks model providers
  within a budget, validates the decisions of a controller model, and uploads and attaches media. Both ways end
  in the keyboard and mouse channel (\<open>pikvm/\<close>).

  \<^bold>\<open>Theories and code.\<close>

  \<^item> Shared: \<open>Prelude\<close> (results that may raise, hints, list lemmas), \<open>PyText\<close> (Python strings as code
    points), \<open>PyVal\<close> (dynamic values and dictionaries), \<open>Regex\<close> (the regular expressions of \<open>re\<close>),
    \<open>Models\<close> (\<open>core/models.py\<close>).
  \<^item> Policy: \<open>CommandRisk\<close> (\<open>policy/risk.py\<close>), \<open>SafetyPolicy\<close> (\<open>policy/safety.py\<close>,
    \<open>policy/approvals.py\<close>, the policy part of \<open>core/config.py\<close>).
  \<^item> Seeing: \<open>FrameStore\<close> (\<open>vision/frame_diff.py\<close>, \<open>store/frames.py\<close>), \<open>ModeDetector\<close>
    (\<open>vision/mode_detector.py\<close>), \<open>Actionability\<close> (\<open>vision/visual_locator.py\<close>,
    \<open>vision/actionability.py\<close>), \<open>EditDistance\<close> and \<open>Verification\<close> (\<open>executor/verification.py\<close>).
  \<^item> Operator loop: \<open>OperatorRouting\<close> (\<open>operator/routing.py\<close>), \<open>Recovery\<close> (\<open>executor/recovery.py\<close>),
    \<open>Transactions\<close> (\<open>executor/transactions.py\<close>), \<open>AgentGraph\<close> (\<open>graph/\<close>: state, nodes, routing and
    wiring as one step relation), \<open>AgentGraphSafety\<close> (its invariants), \<open>AgentGraphProps\<close>.
  \<^item> Channel: \<open>PikvmText\<close> (\<open>pikvm/text.py\<close>), \<open>Keyboard\<close> and \<open>Pointer\<close> (\<open>pikvm/keyboard_state.py\<close>,
    \<open>pikvm/client.py\<close>, \<open>pikvm/hid.py\<close>), \<open>Chunking\<close> (\<open>executor/typing.py\<close>, \<open>pikvm/timing.py\<close>).
  \<^item> Bursts: \<open>WindowsLaunch\<close> and \<open>SpreadsheetGrid\<close> (\<open>core/\<close>), \<open>BurstKeys\<close>, \<open>BurstShape\<close>,
    \<open>BurstReceipts\<close>, \<open>BurstRun\<close> and \<open>ScreenWait\<close> (\<open>executor/burst.py\<close>: keys, validation, receipts, the
    engine, the waits), \<open>DirectSurfaces\<close>, \<open>DirectPolicy\<close>, \<open>DirectGate\<close> (\<open>policy/direct.py\<close>),
    \<open>BurstSession\<close> (\<open>run_burst\<close> of \<open>runtime.py\<close>, cut at its awaits), \<open>BurstConcurrency\<close> (all calls
    interleaved, and the ledger they implement), \<open>BurstBrake\<close>, \<open>BurstSafety\<close>, \<open>BurstScenes\<close>.
  \<^item> Harness: \<open>HarnessRun\<close> and \<open>ControllerDecision\<close> (\<open>harness/agent_models.py\<close>), \<open>RunStore\<close>
    (\<open>harness/agent_store.py\<close>), \<open>InputReceipts\<close> (\<open>harness/redaction.py\<close>, \<open>harness/input_receipts.py\<close>),
    \<open>DirectCalls\<close>, \<open>DirectAuthority\<close>, \<open>DirectProps\<close>, \<open>DirectScenes\<close> (\<open>harness/direct_calls.py\<close>),
    \<open>ModelBudget\<close> (\<open>harness/model_budget.py\<close>), \<open>ModelPool\<close> (\<open>harness/model_pool.py\<close>),
    \<open>MediaTransaction\<close>, \<open>MediaProps\<close>, \<open>MediaDrive\<close> (\<open>harness/media_transaction.py\<close>).

  \<^bold>\<open>How state and operations correspond.\<close> A pydantic model or dataclass is a record, a literal type a
  datatype, a JSON value a \<open>pyval\<close>; an exception or refusal is a value. The checkpointed graph state is the
  record \<open>agent_state\<close>, a session of the runtime \<open>burst_session\<close>, the coordinator of direct calls with its
  store \<open>direct_state\<close>, a run of the harness \<open>run_snapshot\<close>. Everything that comes from outside (models,
  humans, clocks, screens, OCR, devices, saves that may fail) is an argument or an environment record that
  nothing restricts unless a property says so. An \<open>asyncio\<close> lock makes an operation one step; where there is none
  the code is cut at its awaits and the pieces interleave.

  \<^bold>\<open>What the lemmas show.\<close> The gates: which decision passes the policy gate and the gate of direct bursts, that
  a command line called safe is safe in every clause, that dangerous typing is never free, that what a terminal
  is sent was classified, that a valid decision of the controller cannot act after a text it did not verify. The
  operator loop: every executed transaction passed every check, approvals cover executions one to one, the end is
  the one declared. Direct control: a key and a digest act at most once under every interleaving, as a refinement
  of an abstract ledger; a stop or a change of control ends a burst at its next poll. Texts: flattening and chunking
  lose nothing and submit nothing, typing arrives under the layout, an exact read-back means the same characters,
  the bounded edit distance is the edit distance. The harness: the event history only grows and both stores
  answer alike; calls are granted on open runs only and recorded first; verified means read back exactly; receipts
  hold nothing of a secret; the budget balances and bounds every provider call, and the pool answers only valid
  output; media is uploaded once, after it is on record, and the recorded status is true of the drive. A few
  theorems show where the code promises less than it means to.

  \<^bold>\<open>Interfaces.\<close> The locale \<open>graph_invariant\<close> turns preservation by one node into truth at every reachable
  configuration and is interpreted for each invariant; \<open>guarded_gate\<close> is what the graph needs of a policy gate;
  \<open>run_store\<close> is the contract of a store, interpreted by the one in memory and the one over SQLite rows;
  \<open>attempt_budget\<close> is the bound on attempts, interpreted by the durable budget.

  \<^bold>\<open>Bounds and termination.\<close> Recursion is structural or has a measure. The waits for the screen may poll for ever,
  so they are partial functions, and that they return is a theorem over a clock that moves. A starred pattern of
  \<open>Regex\<close> goes on only while it consumes, which loses no match. No definition takes fuel. Python integers are unbounded integers; floats are exact rationals where
  the code compares or divides them, as the theory concerned says. Case mapping and character classes are those of
  Unicode up to U+00FF; white space is complete.

  \<^bold>\<open>What is not modelled.\<close> Process start-up, HTTP, MCP and command-line plumbing; image processing and OCR, whose
  readings are inputs; the typing engine that interleaves keys with read-back, except its chunking and its verdict;
  the prompts and clients of models; the autonomous plan-act-verify loop of the harness, whose every step is a
  prompt; the adapter that reaches the drive; SQL that the stores run beyond saving and reading a run; benchmarks
  and fixtures. Pauses have no effect in the model.
\<close>

end
